(* ===== verification/Prelude.thy ===== *)
theory Prelude
  imports Complex_Main "HOL-Library.Char_ord"
begin

text \<open>
  Shared vocabulary of the development: Python's exceptions as values, the monad in which
  the service code is written (a session state that survives an exception, as an
  SQLAlchemy session does until its owner rolls it back), query combinators over tables,
  the rules for reasoning about the effect of a computation on the session, and the few
  pieces of the Python and PostgreSQL standard libraries that the code uses (UUID and
  integer rendering, rounding of \<open>timedelta\<close> and of \<open>NUMERIC(_, 4)\<close> columns, the UTC
  calendar, JSON values with Python's comparison operators).
\<close>

named_theorems py_defs \<open>definitions of the monad's combinators\<close>
named_theorems eff_intros \<open>rules that follow the structure of a computation\<close>

section \<open>Exceptions and computations\<close>

datatype py_error =
    ValueError string
  | KeyError string
  | TypeError
  | AttributeError
  | ArithmeticError
  | NotImplementedError
  | LookupError
  | MultipleResultsFound
  | NoResultFound
  | IntegrityError string
  | LeaseNotOwned
  | LeaseConflict string string
  | RuntimeError string
  | HTTPException nat string
  | AutomationOwnershipLostError
  | AutomationControlPlaneError string
  | PublicationBlocked string
  | ReviewGateNotFoundError
  | ReviewGateDeliveryError
  | SpendBudgetExceededError
  | BillingError string string
  | LeonSpendExceeded string
  | LeonVoiceError string string
  | AuthError string string
  | DetachedRow string
  | OutOfFuel

text \<open>
  A computation takes the session and returns either an exception or a value, together
  with the session at that point; changes made before an exception was raised stay in the
  session, they are not undone by the raise itself.
  \<open>DetachedRow\<close> has no counterpart in the source: it is what the model does when it
  is handed the key of an ORM object that has no row, which no caller can do. Nor has
  \<open>OutOfFuel\<close>: it ends a computation whose loop has not ended with the fuel it was given.
\<close>

type_synonym ('s, 'a) py = "'s \<Rightarrow> 's \<times> (py_error + 'a)"

definition ret :: "'a \<Rightarrow> ('s, 'a) py" where
  [py_defs]: "ret x = (\<lambda>s. (s, Inr x))"

definition raise :: "py_error \<Rightarrow> ('s, 'a) py" where
  [py_defs]: "raise e = (\<lambda>s. (s, Inl e))"

definition bindE :: "('s, 'a) py \<Rightarrow> ('a \<Rightarrow> ('s, 'b) py) \<Rightarrow> ('s, 'b) py" where
  "bindE m f = (\<lambda>s. case m s of (s', Inl e) \<Rightarrow> (s', Inl e) | (s', Inr x) \<Rightarrow> f x s')"

definition gets :: "('s \<Rightarrow> 'a) \<Rightarrow> ('s, 'a) py" where
  [py_defs]: "gets f = (\<lambda>s. (s, Inr (f s)))"

definition modify :: "('s \<Rightarrow> 's) \<Rightarrow> ('s, unit) py" where
  [py_defs]: "modify f = (\<lambda>s. (f s, Inr ()))"

definition liftE :: "py_error + 'a \<Rightarrow> ('s, 'a) py" where
  [py_defs]: "liftE r = (\<lambda>s. (s, r))"

definition whenE :: "bool \<Rightarrow> ('s, unit) py \<Rightarrow> ('s, unit) py" where
  "whenE b m = (if b then m else ret ())"

definition try_except :: "('s, 'a) py \<Rightarrow> (py_error \<Rightarrow> ('s, 'a) py) \<Rightarrow> ('s, 'a) py" where
  "try_except m h = (\<lambda>s. case m s of (s', Inl e) \<Rightarrow> h e s' | (s', Inr x) \<Rightarrow> (s', Inr x))"

definition savepoint :: "('s, 'a) py \<Rightarrow> ('s, 'a) py" where
  \<comment> \<open>\<open>async with session.begin_nested()\<close>: an exception undoes the block's changes\<close>
  "savepoint m = (\<lambda>s. case m s of (s', Inl e) \<Rightarrow> (s, Inl e) | (s', Inr x) \<Rightarrow> (s', Inr x))"

definition ended :: "('s, 'a option) py \<Rightarrow> ('s, 'a) py" where
  \<comment> \<open>the value of a loop run with fuel\<close>
  "ended m = bindE m (\<lambda>r. case r of None \<Rightarrow> raise OutOfFuel | Some x \<Rightarrow> ret x)"

primrec for_each :: "('a \<Rightarrow> ('s, unit) py) \<Rightarrow> 'a list \<Rightarrow> ('s, unit) py" where
  "for_each f [] = ret ()"
| "for_each f (x # xs) = bindE (f x) (\<lambda>_. for_each f xs)"

primrec collect_each :: "('a \<Rightarrow> ('s, 'b) py) \<Rightarrow> 'a list \<Rightarrow> ('s, 'b list) py" where
  "collect_each f [] = ret []"
| "collect_each f (x # xs) = bindE (f x) (\<lambda>y. bindE (collect_each f xs) (\<lambda>ys. ret (y # ys)))"

abbreviation state_after :: "('s, 'a) py \<Rightarrow> 's \<Rightarrow> 's" where
  "state_after m s \<equiv> fst (m s)"

abbreviation result_of :: "('s, 'a) py \<Rightarrow> 's \<Rightarrow> py_error + 'a" where
  "result_of m s \<equiv> snd (m s)"

lemma bindE_ret [simp]: "bindE (ret x) f s = f x s"
  by (simp add: bindE_def ret_def)

lemma bindE_raise [simp]: "bindE (raise e) f s = (s, Inl e)"
  by (simp add: bindE_def raise_def)

lemma bindE_gets [simp]: "bindE (gets g) f s = f (g s) s"
  by (simp add: bindE_def gets_def)

lemma bindE_modify [simp]: "bindE (modify g) f s = f () (g s)"
  by (simp add: bindE_def modify_def)

lemma bindE_liftE [simp]:
  "bindE (liftE r) f s = (case r of Inl e \<Rightarrow> (s, Inl e) | Inr x \<Rightarrow> f x s)"
  by (simp add: bindE_def liftE_def split: sum.splits)

lemma bindE_assoc [simp]: "bindE (bindE m f) g = bindE m (\<lambda>x. bindE (f x) g)"
  by (rule ext) (simp add: bindE_def split: prod.splits sum.splits)

lemma bindE_to_ret [simp]: "bindE m ret = m"
  by (rule ext) (simp add: bindE_def ret_def split: prod.splits sum.splits)

lemma bindE_Inr: "m s = (t, Inr x) \<Longrightarrow> bindE m f s = f x t"
  by (simp add: bindE_def)

lemma bindE_Inl: "m s = (t, Inl e) \<Longrightarrow> bindE m f s = (t, Inl e)"
  by (simp add: bindE_def)

lemma bindE_eq_InrD:
  assumes "bindE m f s = (u, Inr y)"
  obtains x t where "m s = (t, Inr x)" and "f x t = (u, Inr y)"
  using assms by (cases "m s") (auto simp: bindE_def split: sum.splits)

lemma ret_apply [simp]: "ret x s = (s, Inr x)"
  by (simp add: ret_def)

lemma raise_apply [simp]: "raise e s = (s, Inl e)"
  by (simp add: raise_def)

lemma gets_apply [simp]: "gets f s = (s, Inr (f s))"
  by (simp add: gets_def)

lemma modify_apply [simp]: "modify f s = (f s, Inr ())"
  by (simp add: modify_def)

lemma liftE_apply [simp]: "liftE r s = (s, r)"
  by (simp add: liftE_def)

lemma whenE_simps [simp]: "whenE True m = m" "whenE False m = ret ()"
  by (simp_all add: whenE_def)

section \<open>Effects: what a computation may do to the session\<close>

text \<open>
  \<open>effects R m\<close> says that whatever the outcome of \<open>m\<close>, the session it leaves is
  related by \<open>R\<close> to the one it was given. For a preorder \<open>R\<close> the rule follows the
  structure of the program, so a fact such as "no terminal run is reopened" or "the
  outbox only grows" is checked operation by operation.
\<close>

definition effects :: "('s \<Rightarrow> 's \<Rightarrow> bool) \<Rightarrow> ('s, 'a) py \<Rightarrow> bool" where
  "effects R m \<longleftrightarrow> (\<forall>s. R s (state_after m s))"

lemma effectsD: "effects R m \<Longrightarrow> R s (state_after m s)"
  by (simp add: effects_def)

lemma effects_result: "effects R m \<Longrightarrow> m s = (t, r) \<Longrightarrow> R s t"
  by (auto simp: effects_def dest: spec [of _ s])

locale effect_preorder =
  fixes R :: "'s \<Rightarrow> 's \<Rightarrow> bool"
  assumes eff_refl: "R s s"
    and eff_trans: "R s t \<Longrightarrow> R t u \<Longrightarrow> R s u"
begin

lemma eff_ret: "effects R (ret x)"
  by (simp add: effects_def eff_refl)

lemma eff_raise: "effects R (raise e)"
  by (simp add: effects_def eff_refl)

lemma eff_gets: "effects R (gets f)"
  by (simp add: effects_def eff_refl)

lemma eff_liftE: "effects R (liftE r)"
  by (simp add: effects_def eff_refl)

lemma eff_bind: "effects R m \<Longrightarrow> (\<And>x. effects R (f x)) \<Longrightarrow> effects R (bindE m f)"
  unfolding effects_def bindE_def
  by (auto split: prod.splits sum.splits) (metis eff_trans fst_conv)+

lemma eff_if: "(b \<Longrightarrow> effects R m) \<Longrightarrow> (\<not> b \<Longrightarrow> effects R n) \<Longrightarrow> effects R (if b then m else n)"
  by simp

lemma eff_when: "(b \<Longrightarrow> effects R m) \<Longrightarrow> effects R (whenE b m)"
  by (cases b) (simp_all add: eff_ret)

lemma eff_option:
  "(x = None \<Longrightarrow> effects R m) \<Longrightarrow> (\<And>y. x = Some y \<Longrightarrow> effects R (f y))
    \<Longrightarrow> effects R (case x of None \<Rightarrow> m | Some y \<Rightarrow> f y)"
  by (cases x) simp_all

lemma eff_prod: "(\<And>a b. x = (a, b) \<Longrightarrow> effects R (f a b)) \<Longrightarrow> effects R (case x of (a, b) \<Rightarrow> f a b)"
  by (cases x) simp

lemma eff_for_each: "(\<And>x. x \<in> set xs \<Longrightarrow> effects R (f x)) \<Longrightarrow> effects R (for_each f xs)"
  by (induction xs) (auto intro: eff_ret eff_bind)

lemma eff_collect_each:
  "(\<And>x. x \<in> set xs \<Longrightarrow> effects R (f x)) \<Longrightarrow> effects R (collect_each f xs)"
  by (induction xs) (auto intro!: eff_ret eff_bind)

lemma eff_try: "effects R m \<Longrightarrow> (\<And>e. effects R (h e)) \<Longrightarrow> effects R (try_except m h)"
  unfolding effects_def try_except_def
  by (auto split: prod.splits sum.splits) (metis eff_trans fst_conv)+

lemma eff_savepoint: "effects R m \<Longrightarrow> effects R (savepoint m)"
  unfolding effects_def savepoint_def
  by (auto split: prod.splits sum.splits intro: eff_refl) (metis fst_conv)

lemma eff_ended: "effects R m \<Longrightarrow> effects R (ended m)"
  unfolding ended_def by (intro eff_bind eff_option eff_ret eff_raise)

text \<open>The same for one session, where what was read before decides what may follow.\<close>

lemma eff_at_then:
  assumes "effects R m" and "\<And>t x. m s = (t, Inr x) \<Longrightarrow> R t (state_after (f x) t)"
  shows "R s (state_after (bindE m f) s)"
  using assms(2) effects_result [OF assms(1), of s] by (cases "m s") (auto simp: bindE_def intro: eff_trans split: sum.split)

lemma eff_at_bind:
  assumes "R s (state_after m s)" and "\<And>x. effects R (f x)"
  shows "R s (state_after (bindE m f) s)"
  using assms(1) effectsD [OF assms(2)] by (cases "m s") (auto simp: bindE_def intro: eff_trans split: sum.split)

lemma eff_at_try:
  assumes "R s (state_after m s)" and "\<And>e. effects R (h e)"
  shows "R s (state_after (try_except m h) s)"
  using assms(1) effectsD [OF assms(2)] by (cases "m s") (auto simp: try_except_def intro: eff_trans split: sum.split)

lemmas eff_rules =
  eff_ret eff_raise eff_gets eff_liftE eff_bind eff_if eff_when eff_option eff_prod
  eff_for_each eff_collect_each eff_try eff_savepoint eff_ended

end

section \<open>Tables\<close>

text \<open>
  A table is the list of its rows in insertion order; a query filters, orders and limits
  that list. \<open>find_row\<close> is \<open>session.get\<close>, \<open>upd_row\<close> an attribute assignment on
  the ORM object with that key.
\<close>

definition find_row :: "('r \<Rightarrow> 'k) \<Rightarrow> 'k \<Rightarrow> 'r list \<Rightarrow> 'r option" where
  "find_row key k rows = List.find (\<lambda>r. key r = k) rows"

definition upd_row :: "('r \<Rightarrow> 'k) \<Rightarrow> 'k \<Rightarrow> ('r \<Rightarrow> 'r) \<Rightarrow> 'r list \<Rightarrow> 'r list" where
  "upd_row key k f rows = map (\<lambda>r. if key r = k then f r else r) rows"

definition scalar_one_or_none :: "'r list \<Rightarrow> py_error + 'r option" where
  "scalar_one_or_none rows =
     (case rows of [] \<Rightarrow> Inr None | [r] \<Rightarrow> Inr (Some r) | _ \<Rightarrow> Inl MultipleResultsFound)"

definition first_row :: "'r list \<Rightarrow> 'r option" where
  "first_row rows = (case rows of [] \<Rightarrow> None | r # _ \<Rightarrow> Some r)"

lemma find_row_Nil [simp]: "find_row key k [] = None"
  by (simp add: find_row_def)

lemma find_row_Cons [simp]:
  "find_row key k (r # rows) = (if key r = k then Some r else find_row key k rows)"
  by (simp add: find_row_def)

lemma find_row_append:
  "find_row key k (xs @ ys) = (case find_row key k xs of None \<Rightarrow> find_row key k ys | Some r \<Rightarrow> Some r)"
  by (induction xs) auto

lemma find_row_SomeD: "find_row key k rows = Some r \<Longrightarrow> r \<in> set rows \<and> key r = k"
  by (induction rows) (auto split: if_splits)

lemma find_row_None: "find_row key k rows = None \<longleftrightarrow> k \<notin> key ` set rows"
  by (induction rows) auto

lemma find_row_mem:
  "distinct (map key rows) \<Longrightarrow> r \<in> set rows \<Longrightarrow> find_row key (key r) rows = Some r"
  by (induction rows) force+

lemma filter_find_row:
  assumes "distinct (map key rows)"
  shows "filter (\<lambda>r. key r = k) rows = (case find_row key k rows of None \<Rightarrow> [] | Some r \<Rightarrow> [r])"
  using assms
proof (induction rows)
  case (Cons r rows)
  show ?case
  proof (cases "key r = k")
    case True
    with Cons.prems have "filter (\<lambda>r. key r = k) rows = []"
      by (auto simp: filter_empty_conv image_iff)
    with True show ?thesis by simp
  next
    case False
    with Cons show ?thesis by simp
  qed
qed simp

lemma scalar_find_row:
  "distinct (map key rows) \<Longrightarrow>
    scalar_one_or_none (filter (\<lambda>r. key r = k) rows) = Inr (find_row key k rows)"
  by (simp add: filter_find_row scalar_one_or_none_def split: option.splits)

lemma upd_row_Nil [simp]: "upd_row key k f [] = []"
  by (simp add: upd_row_def)

lemma upd_row_Cons [simp]:
  "upd_row key k f (r # rows) = (if key r = k then f r else r) # upd_row key k f rows"
  by (simp add: upd_row_def)

lemma upd_row_append [simp]: "upd_row key k f (xs @ ys) = upd_row key k f xs @ upd_row key k f ys"
  by (simp add: upd_row_def)

lemma length_upd_row [simp]: "length (upd_row key k f rows) = length rows"
  by (simp add: upd_row_def)

lemma find_row_upd_row:
  assumes "\<And>r. key (f r) = key r"
  shows "find_row key j (upd_row key k f rows) =
    (if j = k then map_option f (find_row key j rows) else find_row key j rows)"
  using assms by (induction rows) auto

lemma map_key_upd_row: "(\<And>r. key (f r) = key r) \<Longrightarrow> map key (upd_row key k f rows) = map key rows"
  by (induction rows) auto

lemma upd_row_absent: "k \<notin> key ` set rows \<Longrightarrow> upd_row key k f rows = rows"
  by (induction rows) auto

lemma set_upd_row: "set (upd_row key k f rows) = (\<lambda>r. if key r = k then f r else r) ` set rows"
  by (simp add: upd_row_def)

lemma upd_row_upd_row:
  "(\<And>r. key (g r) = key r) \<Longrightarrow>
    upd_row key k f (upd_row key k g rows) = upd_row key k (f \<circ> g) rows"
  by (induction rows) auto

lemma scalar_one_or_none_simps [simp]:
  "scalar_one_or_none [] = Inr None"
  "scalar_one_or_none [r] = Inr (Some r)"
  "scalar_one_or_none (a # b # rows) = Inl MultipleResultsFound"
  by (simp_all add: scalar_one_or_none_def)

lemma scalar_one_or_none_Some:
  "scalar_one_or_none rows = Inr (Some r) \<longleftrightarrow> rows = [r]"
  by (simp add: scalar_one_or_none_def split: list.splits)

lemma scalar_one_or_none_None: "scalar_one_or_none rows = Inr None \<longleftrightarrow> rows = []"
  by (simp add: scalar_one_or_none_def split: list.splits)

lemma first_row_simps [simp]: "first_row [] = None" "first_row (r # rows) = Some r"
  by (simp_all add: first_row_def)

lemma first_row_None: "first_row rows = None \<longleftrightarrow> rows = []"
  by (simp add: first_row_def split: list.splits)

lemma first_row_mem: "first_row rows = Some r \<Longrightarrow> r \<in> set rows"
  by (cases rows) auto

text \<open>
  The interface of a table of the session: reading the rows and mapping a function over
  them. Every table field of the session record provides it, and the lookup laws are
  proved once here.
\<close>

locale table =
  fixes rows :: "'s \<Rightarrow> 'r list"
    and put :: "('r list \<Rightarrow> 'r list) \<Rightarrow> 's \<Rightarrow> 's"
    and key :: "'r \<Rightarrow> 'k"
  assumes rows_put: "rows (put f s) = f (rows s)"
    and put_put: "put f (put g s) = put (f \<circ> g) s"
begin

lemma lookup_write:
  "(\<And>r. key (f r) = key r) \<Longrightarrow>
    find_row key k (rows (put (upd_row key k f) s)) = map_option f (find_row key k (rows s))"
  by (simp add: rows_put find_row_upd_row)

lemma lookup_write_other:
  "(\<And>r. key (f r) = key r) \<Longrightarrow> j \<noteq> k \<Longrightarrow>
    find_row key j (rows (put (upd_row key k f) s)) = find_row key j (rows s)"
  by (simp add: rows_put find_row_upd_row)

lemma lookup_insert:
  "key r \<notin> key ` set (rows s) \<Longrightarrow>
    find_row key (key r) (rows (put (\<lambda>rs. rs @ [r]) s)) = Some r"
  by (simp add: rows_put find_row_append find_row_None [THEN iffD2])

lemma lookup_insert_other:
  "key r \<noteq> j \<Longrightarrow> find_row key j (rows (put (\<lambda>rs. rs @ [r]) s)) = find_row key j (rows s)"
  by (simp add: rows_put find_row_append split: option.splits)

lemma write_twice:
  "(\<And>r. key (g r) = key r) \<Longrightarrow>
    put (upd_row key k f) (put (upd_row key k g) s) = put (upd_row key k (f \<circ> g)) s"
  by (simp add: put_put comp_def upd_row_upd_row)

lemma keys_write:
  "(\<And>r. key (f r) = key r) \<Longrightarrow>
    map key (rows (put (upd_row key k f) s)) = map key (rows s)"
  by (simp add: rows_put map_key_upd_row)

end

end
