(* ===== verification/PyLib.thy ===== *)
theory PyLib
  imports Prelude
begin

text \<open>
  The parts of the Python and PostgreSQL libraries that the modelled code calls: rendering
  of integers and UUIDs, rounding, the UTC calendar, and JSON values with Python's
  equality, ordering and membership operators. Floating-point numbers are modelled as
  exact rationals.
\<close>

section \<open>Numbers\<close>

type_synonym uuid = nat
type_synonym datetime = int   \<comment> \<open>microseconds since the epoch, UTC\<close>
type_synonym usd = rat        \<comment> \<open>\<open>Decimal\<close>\<close>

definition seconds :: "int \<Rightarrow> int" where
  \<comment> \<open>\<open>timedelta(seconds=n)\<close> for an integer number of seconds\<close>
  "seconds n = n * 1000000"

definition round_half_even :: "rat \<Rightarrow> int" where
  "round_half_even x =
     (let f = \<lfloor>x\<rfloor>; d = x - of_int f
      in if d < 1/2 then f else if 1/2 < d then f + 1 else if even f then f else f + 1)"

definition timedelta_seconds :: "rat \<Rightarrow> int" where
  \<comment> \<open>\<open>timedelta(seconds=x)\<close> for a float: rounded half-even to whole microseconds\<close>
  "timedelta_seconds x = round_half_even (x * 1000000)"

definition numeric4 :: "usd \<Rightarrow> usd" where
  \<comment> \<open>what a \<open>NUMERIC(_, 4)\<close> column stores: half away from zero at four decimals\<close>
  "numeric4 x = sgn x * of_int \<lfloor>\<bar>x\<bar> * 10000 + 1/2\<rfloor> / 10000"

lemma round_half_even_bounds: "\<lfloor>x\<rfloor> \<le> round_half_even x \<and> round_half_even x \<le> \<lfloor>x\<rfloor> + 1"
  by (simp add: round_half_even_def Let_def)

lemma round_half_even_mono_int: "x \<le> of_int n \<Longrightarrow> round_half_even x \<le> n"
proof -
  assume le: "x \<le> of_int n"
  show ?thesis
  proof (cases "x = of_int n")
    case True
    then show ?thesis by (simp add: round_half_even_def)
  next
    case False
    with le have "\<lfloor>x\<rfloor> < n" by (simp add: floor_less_iff)
    then show ?thesis using round_half_even_bounds [of x] by linarith
  qed
qed

lemma round_half_even_nonneg: "0 \<le> x \<Longrightarrow> 0 \<le> round_half_even x"
  using round_half_even_bounds [of x] by (meson order_trans zero_le_floor)

lemma numeric4_nonneg: "0 \<le> x \<Longrightarrow> 0 \<le> numeric4 x"
  by (simp add: numeric4_def sgn_if)

lemma numeric4_0 [simp]: "numeric4 0 = 0"
  by (simp add: numeric4_def)

lemma numeric4_pos: "0 \<le> x \<Longrightarrow> numeric4 x = of_int \<lfloor>x * 10000 + 1/2\<rfloor> / 10000"
  by (cases "x = 0") (simp_all add: numeric4_def floor_eq_iff)

lemma numeric4_mono: "0 \<le> x \<Longrightarrow> x \<le> y \<Longrightarrow> numeric4 x \<le> numeric4 y"
  by (simp add: numeric4_pos divide_right_mono floor_mono)

section \<open>Strings\<close>

definition digit :: "nat \<Rightarrow> char" where
  "digit n = char_of (if n < 10 then 48 + n else 87 + n)"

fun nat_str :: "nat \<Rightarrow> string" where
  "nat_str n = (if n < 10 then [digit n] else nat_str (n div 10) @ [digit (n mod 10)])"

declare nat_str.simps [simp del]

definition int_str :: "int \<Rightarrow> string" where
  "int_str i = (if i < 0 then ''-'' @ nat_str (nat (- i)) else nat_str (nat i))"

primrec hex_fixed :: "nat \<Rightarrow> nat \<Rightarrow> string" where
  "hex_fixed 0 k = []"
| "hex_fixed (Suc n) k = hex_fixed n (k div 16) @ [digit (k mod 16)]"

definition uuid_hex :: "uuid \<Rightarrow> string" where
  \<comment> \<open>\<open>uuid.UUID.hex\<close>\<close>
  "uuid_hex u = hex_fixed 32 u"

definition uuid_str :: "uuid \<Rightarrow> string" where
  \<comment> \<open>\<open>str(uuid.UUID)\<close>: the hex digits grouped 8-4-4-4-12\<close>
  "uuid_str u = (let h = uuid_hex u in
     take 8 h @ ''-'' @ take 4 (drop 8 h) @ ''-'' @ take 4 (drop 12 h) @ ''-''
       @ take 4 (drop 16 h) @ ''-'' @ drop 20 h)"

definition hex_val :: "char \<Rightarrow> nat option" where
  "hex_val c = (let n = of_char c in
     if 48 \<le> n \<and> n \<le> 57 then Some (n - 48)
     else if 97 \<le> n \<and> n \<le> 102 then Some (n - 87)
     else if 65 \<le> n \<and> n \<le> 70 then Some (n - 55) else None)"

fun hex_read :: "nat \<Rightarrow> string \<Rightarrow> nat option" where
  "hex_read acc [] = Some acc"
| "hex_read acc (c # cs) =
     (case hex_val c of None \<Rightarrow> None | Some d \<Rightarrow> hex_read (16 * acc + d) cs)"

definition uuid_of_str :: "string \<Rightarrow> py_error + uuid" where
  \<comment> \<open>\<open>uuid.UUID(s)\<close>: dashes are dropped, 32 hex digits must remain\<close>
  "uuid_of_str s = (let h = filter (\<lambda>c. c \<noteq> CHR ''-'') s in
     if length h \<noteq> 32 then Inl (ValueError ''badly formed hexadecimal UUID string'')
     else case hex_read 0 h of None \<Rightarrow> Inl (ValueError ''invalid literal for int()'')
                             | Some u \<Rightarrow> Inr u)"

lemma digit_cases: "(n::nat) < 16 \<Longrightarrow> n \<in> {0, 1, 2, 3, 4, 5, 6, 7, 8, 9, 10, 11, 12, 13, 14, 15}"
  by (simp, presburger)

lemma hex_val_digit: "n < 16 \<Longrightarrow> hex_val (digit n) = Some n"
  by (drule digit_cases) (auto simp: digit_def hex_val_def Let_def)

lemma digit_not_dash: "n < 16 \<Longrightarrow> digit n \<noteq> CHR ''-''"
  by (drule digit_cases) (auto simp: digit_def char_of_def)

lemma length_hex_fixed [simp]: "length (hex_fixed n k) = n"
  by (induction n arbitrary: k) auto

lemma hex_fixed_no_dash: "c \<in> set (hex_fixed n k) \<Longrightarrow> c \<noteq> CHR ''-''"
proof (induction n arbitrary: k)
  case (Suc n)
  have "digit (k mod 16) \<noteq> CHR ''-''" by (rule digit_not_dash) simp
  with Suc show ?case by fastforce
qed simp

lemma hex_read_append:
  "hex_read acc (xs @ ys) = (case hex_read acc xs of None \<Rightarrow> None | Some a \<Rightarrow> hex_read a ys)"
  by (induction acc xs rule: hex_read.induct) (auto split: option.splits)

lemma hex_read_fixed: "hex_read acc (hex_fixed n k) = Some (acc * 16 ^ n + k mod 16 ^ n)"
proof (induction n arbitrary: acc k)
  case (Suc n)
  have "16 * (acc * 16 ^ n + k div 16 mod 16 ^ n) + k mod 16 = acc * 16 ^ Suc n + k mod 16 ^ Suc n"
    by (simp add: mod_mult2_eq algebra_simps)
  then show ?case
    by (simp only: hex_fixed.simps hex_read_append Suc.IH hex_read.simps option.case
        hex_val_digit mod_less_divisor zero_less_numeral)
qed simp

lemma filter_uuid_str: "filter (\<lambda>c. c \<noteq> CHR ''-'') (uuid_str u) = uuid_hex u"
proof -
  let ?h = "hex_fixed 32 u"
  have keep: "filter (\<lambda>c. c \<noteq> CHR ''-'') xs = xs" if "set xs \<subseteq> set ?h" for xs
    using that hex_fixed_no_dash by (intro filter_True) blast
  have parts: "take 8 ?h @ take 4 (drop 8 ?h) @ take 4 (drop 12 ?h) @ take 4 (drop 16 ?h)
      @ drop 20 ?h = ?h"
    by (simp add: take_add [symmetric] flip: append_assoc)
  show ?thesis
    by (simp add: uuid_str_def uuid_hex_def Let_def keep set_take_subset set_drop_subset
        subset_trans [OF set_take_subset set_drop_subset] parts)
qed

lemma uuid_of_str_uuid_str: "u < 2 ^ 128 \<Longrightarrow> uuid_of_str (uuid_str u) = Inr u"
proof -
  assume u: "u < 2 ^ 128"
  have "(16::nat) ^ 32 = 2 ^ 128" by simp
  then have "hex_read 0 (uuid_hex u) = Some u"
    using u by (simp only: uuid_hex_def hex_read_fixed) simp
  then show ?thesis
    by (simp add: uuid_of_str_def filter_uuid_str Let_def) (simp add: uuid_hex_def)
qed

section \<open>The UTC calendar\<close>

definition us_per_day :: int where
  "us_per_day = 86400000000"

definition day_in_month :: "int \<Rightarrow> int" where
  \<comment> \<open>day of the month (from 1), given the day of a year that starts on 1 March\<close>
  "day_in_month doy = doy - (153 * ((5 * doy + 2) div 153) + 2) div 5 + 1"

definition day_of_month :: "int \<Rightarrow> int" where
  \<comment> \<open>day of the month (from 1) of a day number counted from the epoch, proleptic Gregorian\<close>
  "day_of_month days =
     (let z = days + 719468; doe = z mod 146097;
          yoe = (doe - doe div 1460 + doe div 36524 - doe div 146096) div 365
      in day_in_month (doe - (365 * yoe + yoe div 4 - yoe div 100)))"

lemma day_in_month_pos: "1 \<le> day_in_month d"
proof -
  have "153 * ((5 * d + 2) div 153) + 2 \<le> 5 * d + 4"
    using mult_div_mod_eq [of 153 "5 * d + 2"] pos_mod_sign [of 153 "5 * d + 2"] by linarith
  then have "(153 * ((5 * d + 2) div 153) + 2) div 5 \<le> (5 * d + 4) div 5"
    by (rule zdiv_mono1) simp
  also have "(5 * d + 4) div 5 = d" by simp
  finally show ?thesis by (simp add: day_in_month_def)
qed

lemma day_of_month_pos: "1 \<le> day_of_month days"
  unfolding day_of_month_def Let_def by (rule day_in_month_pos)

lemma day_of_month_samples:
  "day_of_month 0 = 1" "day_of_month 30 = 31" "day_of_month 31 = 1"
  "day_of_month 58 = 28" "day_of_month 59 = 1" "day_of_month 19782 = 29"
  by code_simp+

section \<open>JSON values\<close>

datatype json =
    JNull
  | JBool bool
  | JInt int
  | JNum rat
  | JStr string
  | JList "json list"
  | JObj "(string \<times> json) list"

fun json_number :: "json \<Rightarrow> rat option" where
  "json_number (JBool b) = Some (if b then 1 else 0)"
| "json_number (JInt i) = Some (of_int i)"
| "json_number (JNum r) = Some r"
| "json_number _ = None"

text \<open>Python's \<open>==\<close>: numbers (booleans included) by value, dictionaries regardless of order.\<close>

function json_eq :: "json \<Rightarrow> json \<Rightarrow> bool"
  and json_eq_list :: "json list \<Rightarrow> json list \<Rightarrow> bool"
  and json_eq_items :: "(string \<times> json) list \<Rightarrow> (string \<times> json) list \<Rightarrow> bool" where
  "json_eq a b =
     (case (json_number a, json_number b) of
        (Some x, Some y) \<Rightarrow> x = y
      | (None, None) \<Rightarrow>
          (case (a, b) of
             (JNull, JNull) \<Rightarrow> True
           | (JStr s, JStr t) \<Rightarrow> s = t
           | (JList xs, JList ys) \<Rightarrow> json_eq_list xs ys
           | (JObj xs, JObj ys) \<Rightarrow> length xs = length ys \<and> json_eq_items xs ys
           | _ \<Rightarrow> False)
      | _ \<Rightarrow> False)"
| "json_eq_list [] ys = (ys = [])"
| "json_eq_list (x # xs) ys = (case ys of [] \<Rightarrow> False | y # ys' \<Rightarrow> json_eq x y \<and> json_eq_list xs ys')"
| "json_eq_items [] ys = True"
| "json_eq_items ((k, x) # xs) ys =
     ((case map_of ys k of None \<Rightarrow> False | Some y \<Rightarrow> json_eq x y) \<and> json_eq_items xs ys)"
  by pat_completeness auto
termination
  by (relation "measure (\<lambda>x. case x of Inl (a, b) \<Rightarrow> size a
      | Inr (Inl (xs, ys)) \<Rightarrow> size_list size xs
      | Inr (Inr (xs, ys)) \<Rightarrow> size_list (size_prod (\<lambda>_. 0) size) xs)") auto

declare json_eq.simps [simp del]

fun string_cmp :: "string \<Rightarrow> string \<Rightarrow> int" where
  "string_cmp [] [] = 0"
| "string_cmp [] (_ # _) = -1"
| "string_cmp (_ # _) [] = 1"
| "string_cmp (c # cs) (d # ds) = (if c = d then string_cmp cs ds else if c < d then -1 else 1)"

text \<open>
  Python's ordering as a sign: numbers, strings and lists compare, any other pair raises
  \<open>TypeError\<close>. Lists compare by their first unequal elements.
\<close>

function json_cmp :: "json \<Rightarrow> json \<Rightarrow> py_error + int"
  and json_cmp_list :: "json list \<Rightarrow> json list \<Rightarrow> py_error + int" where
  "json_cmp a b =
     (case (json_number a, json_number b) of
        (Some x, Some y) \<Rightarrow> Inr (if x < y then -1 else if x = y then 0 else 1)
      | _ \<Rightarrow>
          (case (a, b) of
             (JStr s, JStr t) \<Rightarrow> Inr (string_cmp s t)
           | (JList xs, JList ys) \<Rightarrow> json_cmp_list xs ys
           | _ \<Rightarrow> Inl TypeError))"
| "json_cmp_list [] ys = Inr (if ys = [] then 0 else -1)"
| "json_cmp_list (x # xs) ys =
     (case ys of [] \<Rightarrow> Inr 1
      | y # ys' \<Rightarrow> if json_eq x y then json_cmp_list xs ys' else json_cmp x y)"
  by pat_completeness auto
termination
  by (relation "measure (\<lambda>x. case x of Inl (a, b) \<Rightarrow> size a
      | Inr (xs, ys) \<Rightarrow> size_list size xs)") auto

declare json_cmp.simps [simp del]

fun is_infix :: "string \<Rightarrow> string \<Rightarrow> bool" where
  \<comment> \<open>\<open>a in b\<close> for strings\<close>
  "is_infix a [] = (a = [])"
| "is_infix a (c # cs) = (take (length a) (c # cs) = a \<or> is_infix a cs)"

definition json_in :: "json \<Rightarrow> json \<Rightarrow> py_error + bool" where
  \<comment> \<open>\<open>a in b\<close>: list membership, substring, dictionary key\<close>
  "json_in a b =
     (case b of
        JList ys \<Rightarrow> Inr (\<exists>y\<in>set ys. json_eq a y)
      | JStr t \<Rightarrow> (case a of JStr s \<Rightarrow> Inr (is_infix s t) | _ \<Rightarrow> Inl TypeError)
      | JObj kvs \<Rightarrow>
          (case a of JStr s \<Rightarrow> Inr (s \<in> fst ` set kvs)
           | JList _ \<Rightarrow> Inl TypeError | JObj _ \<Rightarrow> Inl TypeError
           | _ \<Rightarrow> Inr False)
      | _ \<Rightarrow> Inl TypeError)"

fun split_dot :: "string \<Rightarrow> string list" where
  \<comment> \<open>\<open>s.split('.')\<close>\<close>
  "split_dot [] = [[]]"
| "split_dot (c # cs) =
     (if c = CHR ''.'' then [] # split_dot cs
      else case split_dot cs of [] \<Rightarrow> [[c]] | w # ws \<Rightarrow> (c # w) # ws)"

definition lower :: "string \<Rightarrow> string" where
  \<comment> \<open>\<open>s.lower()\<close> on ASCII\<close>
  "lower s = map (\<lambda>c. if CHR ''A'' \<le> c \<and> c \<le> CHR ''Z'' then char_of (of_char c + (32 :: nat)) else c) s"

lemma is_infix_iff: "is_infix a b \<longleftrightarrow> (\<exists>us vs. b = us @ a @ vs)"
proof (induction b)
  case Nil
  then show ?case by auto
next
  case (Cons c cs)
  show ?case
  proof
    assume "is_infix a (c # cs)"
    then consider "take (length a) (c # cs) = a" | "is_infix a cs" by auto
    then show "\<exists>us vs. c # cs = us @ a @ vs"
    proof cases
      case 1
      then have "c # cs = [] @ a @ drop (length a) (c # cs)"
        by (metis append_Nil append_take_drop_id)
      then show ?thesis by blast
    next
      case 2
      with Cons.IH show ?thesis by (metis append_Cons)
    qed
  next
    assume "\<exists>us vs. c # cs = us @ a @ vs"
    then obtain us vs where e: "c # cs = us @ a @ vs" by blast
    show "is_infix a (c # cs)"
    proof (cases us)
      case Nil
      with e have "take (length a) (c # cs) = a" by simp
      then show ?thesis by simp
    next
      case (Cons d ds)
      with e have "is_infix a cs" using Cons.IH by auto
      then show ?thesis by simp
    qed
  qed
qed

lemma split_dot_nonempty: "split_dot s \<noteq> []"
  by (induction s) (auto split: list.splits)

end
