(* ===== verification/Schema.thy ===== *)
theory Schema
  imports PyLib
begin

text \<open>
  The data model: the enums of \<open>models/enums.py\<close>, one record per table the orchestration
  engine reads or writes, and the session, which holds those tables together with the
  clock, the UUID supply, the random source and the settings.
  Columns no modelled code reads (\<open>version\<close>, \<open>updated_at\<close>, provider metadata) are left
  out. A row that other transactions hold locked is listed in \<open>locked\<close>; a query
  \<open>FOR UPDATE SKIP LOCKED\<close> leaves such rows out.
\<close>

section \<open>Enums\<close>

datatype content_stage =
  IDEA | SCRIPTING | VOICEOVER | VISUALS | RENDERING | SEO | REVIEW | SCHEDULED | PUBLISHED

datatype pipeline_run_status =
  RunCreated | RunRunning | RunPaused | RunCompensating | RunSucceeded | RunFailed | RunCancelled

datatype stage_run_status = StageSucceeded | StageFailed

datatype review_decision_value = DecApproved | DecChangesRequested | DecRejected

datatype reservation_status = Reserved | Committed | Released

datatype dead_letter_status = DlqPending | DlqResolved | DlqDiscarded

datatype workflow_transition_trigger = OnSuccess | OnFailure | OnReviewApproved | OnReviewRejected

datatype outbox_event_status = EvPending | EvDispatched | EvPoison

datatype job_type = JobStage | JobRetry | JobStageTimeout | JobReviewTimeout | JobRecurring | JobCompensation

datatype job_schedule_status = JobPending | JobLeased | JobDone | JobCancelled

datatype worker_status = WorkerOnline | WorkerBusy | WorkerDraining | WorkerOffline

datatype stage_assignment_status =
  AsgPending | AsgDispatched | AsgAcknowledged | AsgCompleted | AsgFailed | AsgCancelled

datatype review_gate_status = GateAwaiting | GateApproved | GateRejected | GateTimedOut | GateEscalated

datatype claim_outcome = Granted | NoWork | Capacity | Ineligible

datatype recovery_reason =
  LeaseExpired | ReasonWorkerOffline | WorkerDeregistered | WorkerRevoked | WorkerRestart | MaxLeaseExceeded

datatype recovery_outcome = OutRequeued | OutDeadLettered | OutSkipped

datatype backpressure_state = BpNormal | BpPressured | BpThrottled

fun stage_value :: "content_stage \<Rightarrow> string" where
  "stage_value IDEA = ''idea''"
| "stage_value SCRIPTING = ''scripting''"
| "stage_value VOICEOVER = ''voiceover''"
| "stage_value VISUALS = ''visuals''"
| "stage_value RENDERING = ''rendering''"
| "stage_value SEO = ''seo''"
| "stage_value REVIEW = ''review''"
| "stage_value SCHEDULED = ''scheduled''"
| "stage_value PUBLISHED = ''published''"

fun stage_repr :: "content_stage \<Rightarrow> string" where
  \<comment> \<open>how an f-string prints the enum member (\<open>Enum.__format__\<close>), as opposed to its value\<close>
  "stage_repr IDEA = ''ContentStage.IDEA''"
| "stage_repr SCRIPTING = ''ContentStage.SCRIPTING''"
| "stage_repr VOICEOVER = ''ContentStage.VOICEOVER''"
| "stage_repr VISUALS = ''ContentStage.VISUALS''"
| "stage_repr RENDERING = ''ContentStage.RENDERING''"
| "stage_repr SEO = ''ContentStage.SEO''"
| "stage_repr REVIEW = ''ContentStage.REVIEW''"
| "stage_repr SCHEDULED = ''ContentStage.SCHEDULED''"
| "stage_repr PUBLISHED = ''ContentStage.PUBLISHED''"

definition all_stages :: "content_stage list" where
  "all_stages = [IDEA, SCRIPTING, VOICEOVER, VISUALS, RENDERING, SEO, REVIEW, SCHEDULED, PUBLISHED]"

definition content_stage_of :: "string \<Rightarrow> content_stage option" where
  \<comment> \<open>\<open>ContentStage(s)\<close>, also what an enum column does with a string\<close>
  "content_stage_of s = List.find (\<lambda>st. stage_value st = s) all_stages"

fun run_status_value :: "pipeline_run_status \<Rightarrow> string" where
  "run_status_value RunCreated = ''created''"
| "run_status_value RunRunning = ''running''"
| "run_status_value RunPaused = ''paused''"
| "run_status_value RunCompensating = ''compensating''"
| "run_status_value RunSucceeded = ''succeeded''"
| "run_status_value RunFailed = ''failed''"
| "run_status_value RunCancelled = ''cancelled''"

fun asg_status_value :: "stage_assignment_status \<Rightarrow> string" where
  "asg_status_value AsgPending = ''pending''"
| "asg_status_value AsgDispatched = ''dispatched''"
| "asg_status_value AsgAcknowledged = ''acknowledged''"
| "asg_status_value AsgCompleted = ''completed''"
| "asg_status_value AsgFailed = ''failed''"
| "asg_status_value AsgCancelled = ''cancelled''"

fun recovery_reason_value :: "recovery_reason \<Rightarrow> string" where
  "recovery_reason_value LeaseExpired = ''lease_expired''"
| "recovery_reason_value ReasonWorkerOffline = ''worker_offline''"
| "recovery_reason_value WorkerDeregistered = ''worker_deregistered''"
| "recovery_reason_value WorkerRevoked = ''worker_revoked''"
| "recovery_reason_value WorkerRestart = ''worker_restart''"
| "recovery_reason_value MaxLeaseExceeded = ''max_lease_exceeded''"

fun backpressure_value :: "backpressure_state \<Rightarrow> string" where
  "backpressure_value BpNormal = ''normal''"
| "backpressure_value BpPressured = ''pressured''"
| "backpressure_value BpThrottled = ''throttled''"

fun worker_status_value :: "worker_status \<Rightarrow> string" where
  "worker_status_value WorkerOnline = ''online''"
| "worker_status_value WorkerBusy = ''busy''"
| "worker_status_value WorkerDraining = ''draining''"
| "worker_status_value WorkerOffline = ''offline''"

lemma content_stage_of_value: "content_stage_of (stage_value st) = Some st"
  by (cases st) (simp_all add: content_stage_of_def all_stages_def)

lemma stage_value_of: "content_stage_of s = Some st \<Longrightarrow> stage_value st = s"
  by (auto simp: content_stage_of_def find_Some_iff)

lemma stage_value_inj: "stage_value a = stage_value b \<longleftrightarrow> a = b"
  by (metis content_stage_of_value option.inject)

definition terminal_status :: "pipeline_run_status \<Rightarrow> bool" where
  \<comment> \<open>the set \<open>{SUCCEEDED, FAILED, CANCELLED}\<close> the code tests against\<close>
  "terminal_status st \<longleftrightarrow> st \<in> {RunSucceeded, RunFailed, RunCancelled}"

definition in_flight :: "stage_assignment_status \<Rightarrow> bool" where
  \<comment> \<open>the set \<open>[DISPATCHED, ACKNOWLEDGED]\<close>\<close>
  "in_flight st \<longleftrightarrow> st \<in> {AsgDispatched, AsgAcknowledged}"

definition open_status :: "stage_assignment_status \<Rightarrow> bool" where
  \<comment> \<open>the set \<open>[PENDING, DISPATCHED, ACKNOWLEDGED]\<close>\<close>
  "open_status st \<longleftrightarrow> st \<in> {AsgPending, AsgDispatched, AsgAcknowledged}"

lemma terminal_status_simps [simp]:
  "terminal_status RunSucceeded" "terminal_status RunFailed" "terminal_status RunCancelled"
  "\<not> terminal_status RunCreated" "\<not> terminal_status RunRunning" "\<not> terminal_status RunPaused"
  "\<not> terminal_status RunCompensating"
  by (simp_all add: terminal_status_def)

lemma in_flight_simps [simp]:
  "in_flight AsgDispatched" "in_flight AsgAcknowledged" "\<not> in_flight AsgPending"
  "\<not> in_flight AsgCompleted" "\<not> in_flight AsgFailed" "\<not> in_flight AsgCancelled"
  by (simp_all add: in_flight_def)

lemma open_status_simps [simp]:
  "open_status AsgDispatched" "open_status AsgAcknowledged" "open_status AsgPending"
  "\<not> open_status AsgCompleted" "\<not> open_status AsgFailed" "\<not> open_status AsgCancelled"
  by (simp_all add: open_status_def)

section \<open>Rows\<close>

type_synonym json_obj = "(string \<times> json) list"

record workspace =
  ws_id :: uuid
  ws_name :: string
  ws_created_by :: uuid
  ws_created_at :: datetime
  ws_priority_tier :: int

record workflow_definition =
  wd_id :: uuid
  wd_workspace_id :: uuid
  wd_name :: string
  wd_version :: int
  wd_is_active :: bool

record workflow_stage =
  wst_id :: uuid
  wst_definition_id :: uuid
  wst_stage_key :: content_stage
  wst_ordinal :: int
  wst_max_attempts :: int
  wst_backoff_base_seconds :: int
  wst_backoff_multiplier :: int
  wst_backoff_max_seconds :: int
  wst_timeout_seconds :: int
  wst_is_review_gate :: bool
  wst_is_terminal :: bool
  wst_compensation_stage_key :: "content_stage option"

record workflow_transition =
  wt_id :: uuid
  wt_definition_id :: uuid
  wt_from_stage :: content_stage
  wt_to_stage :: content_stage
  wt_trigger :: workflow_transition_trigger
  wt_condition :: "json_obj option"
  wt_priority :: int

record content_item =
  ci_id :: uuid
  ci_workspace_id :: uuid
  ci_topic :: string
  ci_target_length_seconds :: "int option"
  ci_current_stage :: content_stage
  ci_current_version_id :: "uuid option"
  ci_current_pipeline_run_id :: "uuid option"

record content_version =
  cv_id :: uuid
  cv_workspace_id :: uuid
  cv_content_item_id :: uuid
  cv_script_hook :: "string option"
  cv_script_body :: "string option"
  cv_script_cta :: "string option"
  cv_prompt_used :: "string option"
  cv_generated_by :: "string option"

record pipeline_run =
  run_id :: uuid
  run_workspace_id :: uuid
  run_content_item_id :: uuid
  run_idempotency_key :: "string option"
  run_current_stage :: content_stage
  run_status :: pipeline_run_status
  run_started_at :: "datetime option"
  run_completed_at :: "datetime option"
  run_pause_reason :: "string option"
  run_definition_id :: "uuid option"
  run_correlation_id :: "uuid option"
  run_trace_id :: "string option"

record pipeline_stage_run =
  psr_id :: uuid
  psr_workspace_id :: uuid
  psr_pipeline_run_id :: uuid
  psr_content_item_id :: uuid
  psr_stage :: content_stage
  psr_attempt_number :: int
  psr_status :: stage_run_status
  psr_error_message :: "string option"
  psr_started_at :: "datetime option"
  psr_completed_at :: "datetime option"

record stage_assignment =
  asg_id :: uuid
  asg_workspace_id :: uuid
  asg_pipeline_run_id :: uuid
  asg_stage :: content_stage
  asg_attempt_number :: int
  asg_worker_id :: "uuid option"
  asg_status :: stage_assignment_status
  asg_idempotency_key :: "string option"
  asg_lease_expires_at :: "datetime option"
  asg_dispatched_at :: "datetime option"
  asg_acknowledged_at :: "datetime option"
  asg_completed_at :: "datetime option"
  asg_result :: "json_obj option"
  asg_correlation_id :: "uuid option"
  asg_trace_id :: "string option"
  asg_claimed_at :: "datetime option"
  asg_claimed_by :: "uuid option"
  asg_claim_count :: int
  asg_claim_token :: "uuid option"
  asg_lease_started_at :: "datetime option"
  asg_lease_extension_count :: int
  asg_priority :: int
  asg_provider :: "string option"
  asg_created_at :: datetime

record worker_registration =
  wk_id :: uuid
  wk_workspace_id :: "uuid option"
  wk_name :: string
  wk_supported_stages :: "string list"
  wk_capabilities :: "json_obj option"
  wk_status :: worker_status
  wk_max_concurrency :: int
  wk_current_load :: int
  wk_health_score :: int
  wk_last_heartbeat_at :: "datetime option"
  wk_registered_at :: datetime
  wk_instance_key :: string
  wk_worker_version :: "string option"
  wk_drain :: bool
  wk_deregistered_at :: "datetime option"

record job_schedule =
  job_id :: uuid
  job_workspace_id :: uuid
  job_job_type :: job_type
  job_ref_table :: string
  job_ref_id :: uuid
  job_run_after :: datetime
  job_status :: job_schedule_status
  job_lease_owner :: "string option"
  job_lease_expires_at :: "datetime option"
  job_attempt :: int
  job_priority :: int
  job_correlation_id :: "uuid option"
  job_trace_id :: "string option"
  job_created_at :: datetime

record workspace_concurrency_limit =
  wcl_workspace_id :: uuid
  wcl_max_concurrent_assignments :: int
  wcl_max_per_scheduler_tick :: int
  wcl_queue_soft_limit :: int
  wcl_queue_hard_limit :: int

record workspace_backpressure_state =
  bp_workspace_id :: uuid
  bp_state :: backpressure_state
  bp_pending_depth :: int
  bp_entered_at :: "datetime option"
  bp_updated_at :: datetime

record provider_concurrency_budget =
  pcb_workspace_id :: uuid
  pcb_provider :: string
  pcb_max_concurrent :: int

record provider_effect_key =
  pek_id :: uuid
  pek_workspace_id :: uuid
  pek_assignment_id :: uuid
  pek_attempt_number :: int
  pek_effect_key :: string
  pek_effect_kind :: string

record spend_cap =
  cap_id :: uuid
  cap_workspace_id :: uuid
  cap_provider :: "string option"
  cap_daily_cap_usd :: usd
  cap_monthly_cap_usd :: usd
  cap_created_by :: "uuid option"
  cap_updated_by :: "uuid option"

record spend_log =
  sl_id :: uuid
  sl_workspace_id :: uuid
  sl_provider :: string
  sl_stage :: "content_stage option"
  sl_cost_usd :: usd
  sl_occurred_at :: datetime

record spend_reservation =
  rsv_id :: uuid
  rsv_workspace_id :: uuid
  rsv_pipeline_run_id :: "uuid option"
  rsv_provider :: string
  rsv_stage :: "content_stage option"
  rsv_estimated_cost_usd :: usd
  rsv_status :: reservation_status
  rsv_created_at :: datetime

record review_gate =
  gate_id :: uuid
  gate_workspace_id :: uuid
  gate_pipeline_run_id :: uuid
  gate_content_version_id :: "uuid option"
  gate_stage :: content_stage
  gate_status :: review_gate_status
  gate_requested_at :: datetime
  gate_timeout_at :: "datetime option"
  gate_decided_at :: "datetime option"
  gate_decided_by :: "uuid option"
  gate_escalation_level :: int

record review_decision =
  rd_id :: uuid
  rd_workspace_id :: uuid
  rd_content_item_id :: uuid
  rd_reviewer_id :: uuid
  rd_decision :: review_decision_value
  rd_notes :: "string option"

record outbox_event =
  ev_event_id :: uuid
  ev_workspace_id :: uuid
  ev_event_type :: string
  ev_event_version :: int
  ev_aggregate_type :: string
  ev_aggregate_id :: uuid
  ev_correlation_id :: uuid
  ev_causation_id :: "uuid option"
  ev_trace_id :: "string option"
  ev_span_id :: "string option"
  ev_sequence :: int
  ev_payload :: json_obj
  ev_status :: outbox_event_status
  ev_delivery_attempts :: int
  ev_occurred_at :: datetime
  ev_produced_by :: string

record event_consumer =
  con_id :: uuid
  con_name :: string
  con_max_delivery_attempts :: int

record consumer_checkpoint =
  ck_id :: uuid
  ck_consumer_id :: uuid
  ck_aggregate_type :: string
  ck_partition_key :: string
  ck_last_sequence :: int

record dead_letter_job =
  dlq_id :: uuid
  dlq_workspace_id :: uuid
  dlq_related_table :: string
  dlq_related_id :: uuid
  dlq_job_type :: string
  dlq_payload :: "json_obj option"
  dlq_failure_reason :: string
  dlq_attempt_count :: int
  dlq_first_failed_at :: datetime
  dlq_last_failed_at :: datetime
  dlq_status :: dead_letter_status

record stage_claim_audit =
  sca_id :: uuid
  sca_workspace_id :: uuid
  sca_assignment_id :: "uuid option"
  sca_worker_id :: uuid
  sca_outcome :: claim_outcome
  sca_stage :: "content_stage option"
  sca_detail :: string
  sca_correlation_id :: "uuid option"

record stage_recovery_audit =
  sra_id :: uuid
  sra_workspace_id :: uuid
  sra_assignment_id :: uuid
  sra_previous_worker_id :: "uuid option"
  sra_reason :: recovery_reason
  sra_previous_status :: string
  sra_previous_attempt :: int
  sra_new_attempt :: "int option"
  sra_outcome :: recovery_outcome
  sra_detail :: "string option"
  sra_correlation_id :: "uuid option"

section \<open>Settings and session\<close>

record settings =
  scheduler_interval_seconds :: rat
  scheduler_batch_size :: nat
  default_stage_estimate_usd :: usd
  worker_suspect_after_seconds :: int
  worker_offline_after_seconds :: int
  worker_credential_rotation_grace_seconds :: int
  worker_capability_protocol_versions :: "int list"
  assignment_lease_seconds :: int
  assignment_max_lease_seconds :: int
  assignment_reaper_interval_seconds :: int
  assignment_reaper_batch_size :: nat
  assignment_default_max_attempts :: int
  assignment_age_boost_interval_seconds :: int
  assignment_age_boost_per_interval :: int
  assignment_age_boost_max :: int
  workspace_tier_priority_weight :: int
  queue_soft_limit_default :: int
  queue_hard_limit_default :: int
  default_daily_spend_cap_usd :: usd
  default_monthly_spend_cap_usd :: usd
  outbox_relay_interval_seconds :: rat
  billing_enabled :: bool
  stripe_secret_key :: "string option"
  stripe_webhook_secret :: "string option"
  stripe_price_id_pro :: "string option"
  stripe_checkout_success_url :: "string option"
  stripe_checkout_cancel_url :: "string option"
  openai_api_key :: "string option"
  leon_stt_cost_usd_per_minute :: rat
  leon_llm_input_cost_usd_per_1k_tokens :: rat
  leon_llm_output_cost_usd_per_1k_tokens :: rat
  leon_tts_cost_usd_per_1k_chars :: rat

definition default_settings :: settings where
  "default_settings = \<lparr>
     scheduler_interval_seconds = 2,
     scheduler_batch_size = 50,
     default_stage_estimate_usd = 1/100,
     worker_suspect_after_seconds = 30,
     worker_offline_after_seconds = 90,
     worker_credential_rotation_grace_seconds = 3600,
     worker_capability_protocol_versions = [1],
     assignment_lease_seconds = 60,
     assignment_max_lease_seconds = 900,
     assignment_reaper_interval_seconds = 15,
     assignment_reaper_batch_size = 100,
     assignment_default_max_attempts = 3,
     assignment_age_boost_interval_seconds = 60,
     assignment_age_boost_per_interval = 1,
     assignment_age_boost_max = 100,
     workspace_tier_priority_weight = 10,
     queue_soft_limit_default = 50,
     queue_hard_limit_default = 200,
     default_daily_spend_cap_usd = 50,
     default_monthly_spend_cap_usd = 1000,
     outbox_relay_interval_seconds = 2,
     billing_enabled = False,
     stripe_secret_key = None,
     stripe_webhook_secret = None,
     stripe_price_id_pro = None,
     stripe_checkout_success_url = None,
     stripe_checkout_cancel_url = None,
     openai_api_key = None,
     leon_stt_cost_usd_per_minute = 6/1000,
     leon_llm_input_cost_usd_per_1k_tokens = 3/1000,
     leon_llm_output_cost_usd_per_1k_tokens = 15/1000,
     leon_tts_cost_usd_per_1k_chars = 15/1000\<rparr>"

record session =
  clock :: datetime
  next_uuid :: uuid
  rng :: "nat \<Rightarrow> rat"
  draws :: nat
  locked :: "uuid list"
  get_settings :: settings
  workspaces :: "workspace list"
  definitions :: "workflow_definition list"
  wf_stages :: "workflow_stage list"
  wf_transitions :: "workflow_transition list"
  items :: "content_item list"
  versions :: "content_version list"
  runs :: "pipeline_run list"
  stage_runs :: "pipeline_stage_run list"
  assignments :: "stage_assignment list"
  workers :: "worker_registration list"
  jobs :: "job_schedule list"
  limits :: "workspace_concurrency_limit list"
  bp_states :: "workspace_backpressure_state list"
  budgets :: "provider_concurrency_budget list"
  effect_keys :: "provider_effect_key list"
  caps :: "spend_cap list"
  spend_logs :: "spend_log list"
  reservations :: "spend_reservation list"
  gates :: "review_gate list"
  decisions :: "review_decision list"
  outbox :: "outbox_event list"
  consumers :: "event_consumer list"
  checkpoints :: "consumer_checkpoint list"
  dead_letters :: "dead_letter_job list"
  claim_audits :: "stage_claim_audit list"
  recovery_audits :: "stage_recovery_audit list"

type_synonym 'a svc = "(session, 'a) py"

definition empty_session :: session where
  "empty_session = \<lparr>
     clock = 0, next_uuid = 1000, rng = (\<lambda>_. 1/2), draws = 0, locked = [],
     get_settings = default_settings,
     workspaces = [], definitions = [], wf_stages = [], wf_transitions = [],
     items = [], versions = [], runs = [], stage_runs = [], assignments = [],
     workers = [], jobs = [], limits = [], bp_states = [], budgets = [],
     effect_keys = [], caps = [], spend_logs = [], reservations = [], gates = [],
     decisions = [], outbox = [], consumers = [], checkpoints = [], dead_letters = [],
     claim_audits = [], recovery_audits = []\<rparr>"

section \<open>The tables provide the table interface\<close>

interpretation run_tbl: table runs runs_update run_id
  by unfold_locales (simp_all add: comp_def)

interpretation asg_tbl: table assignments assignments_update asg_id
  by unfold_locales (simp_all add: comp_def)

interpretation wk_tbl: table workers workers_update wk_id
  by unfold_locales (simp_all add: comp_def)

interpretation job_tbl: table jobs jobs_update job_id
  by unfold_locales (simp_all add: comp_def)

interpretation rsv_tbl: table reservations reservations_update rsv_id
  by unfold_locales (simp_all add: comp_def)

interpretation gate_tbl: table gates gates_update gate_id
  by unfold_locales (simp_all add: comp_def)

interpretation ev_tbl: table outbox outbox_update ev_event_id
  by unfold_locales (simp_all add: comp_def)

interpretation bp_tbl: table bp_states bp_states_update bp_workspace_id
  by unfold_locales (simp_all add: comp_def)

section \<open>Reading the clock, drawing identifiers and random numbers\<close>

definition utcnow :: "datetime svc" where
  \<comment> \<open>\<open>datetime.now(UTC)\<close>: the clock does not advance within one transaction\<close>
  "utcnow = gets clock"

definition uuid4 :: "uuid svc" where
  "uuid4 = (\<lambda>s. (s\<lparr>next_uuid := Suc (next_uuid s)\<rparr>, Inr (next_uuid s)))"

definition random_uniform :: "rat \<Rightarrow> rat svc" where
  \<comment> \<open>\<open>random.uniform(0, hi)\<close>, \<open>rng\<close> giving the successive values of \<open>random.random()\<close>\<close>
  "random_uniform hi = (\<lambda>s. (s\<lparr>draws := Suc (draws s)\<rparr>, Inr (hi * rng s (draws s))))"

definition rng_ok :: "session \<Rightarrow> bool" where
  "rng_ok s \<longleftrightarrow> (\<forall>n. 0 \<le> rng s n \<and> rng s n \<le> 1)"

lemma utcnow_apply [simp]: "utcnow s = (s, Inr (clock s))"
  by (simp add: utcnow_def)

lemma uuid4_apply [simp]: "uuid4 s = (s\<lparr>next_uuid := Suc (next_uuid s)\<rparr>, Inr (next_uuid s))"
  by (simp add: uuid4_def)

lemma bindE_utcnow [simp]: "bindE utcnow f s = f (clock s) s"
  by (simp add: utcnow_def)

lemma bindE_uuid4 [simp]: "bindE uuid4 f s = f (next_uuid s) (s\<lparr>next_uuid := Suc (next_uuid s)\<rparr>)"
  by (simp add: bindE_def)

lemma bindE_random [simp]:
  "bindE (random_uniform hi) f s = f (hi * rng s (draws s)) (s\<lparr>draws := Suc (draws s)\<rparr>)"
  by (simp add: bindE_def random_uniform_def)

section \<open>Row access\<close>

abbreviation find_run :: "session \<Rightarrow> uuid \<Rightarrow> pipeline_run option" where
  "find_run s k \<equiv> find_row run_id k (runs s)"

abbreviation find_asg :: "session \<Rightarrow> uuid \<Rightarrow> stage_assignment option" where
  "find_asg s k \<equiv> find_row asg_id k (assignments s)"

abbreviation find_worker :: "session \<Rightarrow> uuid \<Rightarrow> worker_registration option" where
  "find_worker s k \<equiv> find_row wk_id k (workers s)"

abbreviation find_job :: "session \<Rightarrow> uuid \<Rightarrow> job_schedule option" where
  "find_job s k \<equiv> find_row job_id k (jobs s)"

abbreviation find_gate :: "session \<Rightarrow> uuid \<Rightarrow> review_gate option" where
  "find_gate s k \<equiv> find_row gate_id k (gates s)"

abbreviation find_rsv :: "session \<Rightarrow> uuid \<Rightarrow> spend_reservation option" where
  "find_rsv s k \<equiv> find_row rsv_id k (reservations s)"

definition the_row :: "string \<Rightarrow> (session \<Rightarrow> 'r option) \<Rightarrow> 'r svc" where
  \<comment> \<open>the attributes of an ORM object passed by reference\<close>
  "the_row tbl f = (\<lambda>s. case f s of None \<Rightarrow> (s, Inl (DetachedRow tbl)) | Some r \<Rightarrow> (s, Inr r))"

abbreviation the_run :: "uuid \<Rightarrow> pipeline_run svc" where
  "the_run k \<equiv> the_row ''pipeline_runs'' (\<lambda>s. find_run s k)"

abbreviation the_asg :: "uuid \<Rightarrow> stage_assignment svc" where
  "the_asg k \<equiv> the_row ''stage_assignments'' (\<lambda>s. find_asg s k)"

abbreviation the_worker :: "uuid \<Rightarrow> worker_registration svc" where
  "the_worker k \<equiv> the_row ''worker_registry'' (\<lambda>s. find_worker s k)"

abbreviation the_job :: "uuid \<Rightarrow> job_schedule svc" where
  "the_job k \<equiv> the_row ''job_schedule'' (\<lambda>s. find_job s k)"

abbreviation the_gate :: "uuid \<Rightarrow> review_gate svc" where
  "the_gate k \<equiv> the_row ''review_gates'' (\<lambda>s. find_gate s k)"

abbreviation the_rsv :: "uuid \<Rightarrow> spend_reservation svc" where
  "the_rsv k \<equiv> the_row ''spend_reservations'' (\<lambda>s. find_rsv s k)"

abbreviation set_run :: "uuid \<Rightarrow> (pipeline_run \<Rightarrow> pipeline_run) \<Rightarrow> unit svc" where
  "set_run k f \<equiv> modify (runs_update (upd_row run_id k f))"

abbreviation set_asg :: "uuid \<Rightarrow> (stage_assignment \<Rightarrow> stage_assignment) \<Rightarrow> unit svc" where
  "set_asg k f \<equiv> modify (assignments_update (upd_row asg_id k f))"

abbreviation set_worker :: "uuid \<Rightarrow> (worker_registration \<Rightarrow> worker_registration) \<Rightarrow> unit svc" where
  "set_worker k f \<equiv> modify (workers_update (upd_row wk_id k f))"

abbreviation set_job :: "uuid \<Rightarrow> (job_schedule \<Rightarrow> job_schedule) \<Rightarrow> unit svc" where
  "set_job k f \<equiv> modify (jobs_update (upd_row job_id k f))"

abbreviation set_gate :: "uuid \<Rightarrow> (review_gate \<Rightarrow> review_gate) \<Rightarrow> unit svc" where
  "set_gate k f \<equiv> modify (gates_update (upd_row gate_id k f))"

abbreviation set_rsv :: "uuid \<Rightarrow> (spend_reservation \<Rightarrow> spend_reservation) \<Rightarrow> unit svc" where
  "set_rsv k f \<equiv> modify (reservations_update (upd_row rsv_id k f))"

lemma the_row_apply:
  "the_row tbl f s = (case f s of None \<Rightarrow> (s, Inl (DetachedRow tbl)) | Some r \<Rightarrow> (s, Inr r))"
  by (simp add: the_row_def)

lemma bindE_the_row [simp]:
  "bindE (the_row tbl f) g s =
    (case f s of None \<Rightarrow> (s, Inl (DetachedRow tbl)) | Some r \<Rightarrow> g r s)"
  by (simp add: bindE_def the_row_def split: option.splits)

definition unlocked :: "session \<Rightarrow> uuid \<Rightarrow> bool" where
  "unlocked s k \<longleftrightarrow> k \<notin> set (locked s)"

end
