(* ===== verification/Outbox.thy ===== *)
theory Outbox
  imports Schema
begin

text \<open>
  The transactional outbox (\<open>orchestration/outbox.py\<close>) and the event envelope
  (\<open>orchestration/events/\<close>): trace propagation, payload upcasting, the per-aggregate
  sequence and \<open>emit\<close>, the one operation through which events are written.
  The lemmas show that the events of an aggregate are numbered \<open>1, 2, \<dots>\<close> without gaps.
\<close>

section \<open>Event vocabulary\<close>

abbreviation "PIPELINE_CANCELLED \<equiv> ''pipeline.cancelled''"
abbreviation "PIPELINE_FAILED \<equiv> ''pipeline.failed''"
abbreviation "PIPELINE_SUCCEEDED \<equiv> ''pipeline.succeeded''"
abbreviation "STAGE_ASSIGNED \<equiv> ''stage.assigned''"
abbreviation "STAGE_REASSIGNED \<equiv> ''stage.reassigned''"
abbreviation "STAGE_COMPLETED \<equiv> ''stage.completed''"
abbreviation "STAGE_FAILED \<equiv> ''stage.failed''"
abbreviation "REVIEW_REQUESTED \<equiv> ''review.requested''"
abbreviation "REVIEW_APPROVED \<equiv> ''review.approved''"
abbreviation "REVIEW_REJECTED \<equiv> ''review.rejected''"
abbreviation "REVIEW_TIMED_OUT \<equiv> ''review.timed_out''"
abbreviation "REVIEW_ESCALATED \<equiv> ''review.escalated''"
abbreviation "SPEND_RESERVED \<equiv> ''spend.reserved''"
abbreviation "SPEND_COMMITTED \<equiv> ''spend.committed''"
abbreviation "SPEND_RELEASED \<equiv> ''spend.released''"
abbreviation "SPEND_BUDGET_EXCEEDED \<equiv> ''spend.budget_exceeded''"
abbreviation "BACKPRESSURE_ENTERED \<equiv> ''backpressure.entered''"
abbreviation "BACKPRESSURE_CLEARED \<equiv> ''backpressure.cleared''"

text \<open>
  The verdicts of a reviewer are the only events that a person causes; the engine itself
  emits the others.
\<close>

definition engine_event :: "string \<Rightarrow> bool" where
  "engine_event event_type \<longleftrightarrow> event_type \<noteq> REVIEW_APPROVED \<and> event_type \<noteq> REVIEW_REJECTED"

lemma engine_events:
  "engine_event PIPELINE_CANCELLED"
  "engine_event PIPELINE_FAILED"
  "engine_event PIPELINE_SUCCEEDED"
  "engine_event STAGE_ASSIGNED"
  "engine_event STAGE_REASSIGNED"
  "engine_event STAGE_COMPLETED"
  "engine_event STAGE_FAILED"
  "engine_event REVIEW_REQUESTED"
  "engine_event REVIEW_TIMED_OUT"
  "engine_event REVIEW_ESCALATED"
  "engine_event SPEND_RESERVED"
  "engine_event SPEND_COMMITTED"
  "engine_event SPEND_RELEASED"
  "engine_event SPEND_BUDGET_EXCEEDED"
  "engine_event BACKPRESSURE_ENTERED"
  "engine_event BACKPRESSURE_CLEARED"
  by (simp_all add: engine_event_def)

lemma engine_event_if: "engine_event x \<Longrightarrow> engine_event y \<Longrightarrow> engine_event (if b then x else y)"
  by simp

section \<open>Envelope\<close>

definition new_trace_id :: "string svc" where
  "new_trace_id = bindE uuid4 (\<lambda>u. ret (uuid_hex u))"

definition new_span_id :: "string svc" where
  "new_span_id = bindE uuid4 (\<lambda>u. ret (take 16 (uuid_hex u)))"

definition child_span :: "string option \<Rightarrow> (string \<times> string) svc" where
  "child_span trace_id =
     bindE (case trace_id of None \<Rightarrow> new_trace_id
            | Some t \<Rightarrow> if t = [] then new_trace_id else ret t) (\<lambda>t.
     bindE new_span_id (\<lambda>sp. ret (t, sp)))"

type_synonym upcasters = "string \<times> int \<Rightarrow> (json_obj \<Rightarrow> json_obj) option"

definition register_upcaster ::
    "string \<Rightarrow> int \<Rightarrow> (json_obj \<Rightarrow> json_obj) \<Rightarrow> upcasters \<Rightarrow> upcasters" where
  "register_upcaster event_type from_version fn reg = reg((event_type, from_version) \<mapsto> fn)"

function upcast :: "upcasters \<Rightarrow> string \<Rightarrow> int \<Rightarrow> json_obj \<Rightarrow> int \<Rightarrow> json_obj" where
  "upcast reg event_type version payload target_version =
     (if version < target_version then
        (case reg (event_type, version) of
           None \<Rightarrow> payload
         | Some fn \<Rightarrow> upcast reg event_type (version + 1) (fn payload) target_version)
      else payload)"
  by pat_completeness auto
termination
  by (relation "measure (\<lambda>(reg, et, v, p, t). nat (t - v))") auto

declare upcast.simps [simp del]

section \<open>Emitting\<close>

definition coalesce_max :: "int list \<Rightarrow> int" where
  "coalesce_max xs = (if xs = [] then 0 else Max (set xs))"

definition agg_events :: "session \<Rightarrow> string \<Rightarrow> uuid \<Rightarrow> outbox_event list" where
  "agg_events s aggregate_type aggregate_id =
     filter (\<lambda>e. ev_aggregate_type e = aggregate_type \<and> ev_aggregate_id e = aggregate_id) (outbox s)"

definition next_sequence :: "string \<Rightarrow> uuid \<Rightarrow> int svc" where
  "next_sequence aggregate_type aggregate_id =
     gets (\<lambda>s. coalesce_max (map ev_sequence (agg_events s aggregate_type aggregate_id)) + 1)"

definition emit_full ::
    "string \<Rightarrow> uuid \<Rightarrow> string \<Rightarrow> uuid \<Rightarrow> uuid \<Rightarrow> json_obj \<Rightarrow> string \<Rightarrow> uuid option
      \<Rightarrow> string option \<Rightarrow> string option \<Rightarrow> int \<Rightarrow> outbox_event svc" where
  "emit_full event_type workspace_id aggregate_type aggregate_id correlation_id payload
       produced_by causation_id trace_id span_id event_version =
     bindE (next_sequence aggregate_type aggregate_id) (\<lambda>sequence.
     bindE uuid4 (\<lambda>event_id.
     bindE utcnow (\<lambda>now.
       let event = \<lparr>
         ev_event_id = event_id, ev_workspace_id = workspace_id, ev_event_type = event_type,
         ev_event_version = event_version, ev_aggregate_type = aggregate_type,
         ev_aggregate_id = aggregate_id, ev_correlation_id = correlation_id,
         ev_causation_id = causation_id, ev_trace_id = trace_id, ev_span_id = span_id,
         ev_sequence = sequence, ev_payload = payload, ev_status = EvPending,
         ev_delivery_attempts = 0, ev_occurred_at = now, ev_produced_by = produced_by\<rparr>
       in bindE (modify (outbox_update (\<lambda>es. es @ [event]))) (\<lambda>_. ret event))))"

text \<open>The calls that leave \<open>causation_id\<close> and \<open>event_version\<close> at their defaults.\<close>

definition emit ::
    "string \<Rightarrow> uuid \<Rightarrow> string \<Rightarrow> uuid \<Rightarrow> uuid \<Rightarrow> string \<Rightarrow> string \<Rightarrow> json_obj \<Rightarrow> string
      \<Rightarrow> outbox_event svc" where
  "emit event_type workspace_id aggregate_type aggregate_id correlation_id trace_id span_id
       payload produced_by =
     emit_full event_type workspace_id aggregate_type aggregate_id correlation_id payload
       produced_by None (Some trace_id) (Some span_id) 1"

record event_envelope =
  env_event_type :: string
  env_workspace_id :: uuid
  env_aggregate_type :: string
  env_aggregate_id :: uuid
  env_correlation_id :: uuid
  env_payload :: json_obj
  env_produced_by :: string
  env_causation_id :: "uuid option"
  env_trace_id :: "string option"
  env_span_id :: "string option"
  env_event_version :: int

definition emit_envelope :: "event_envelope \<Rightarrow> outbox_event svc" where
  "emit_envelope e =
     emit_full (env_event_type e) (env_workspace_id e) (env_aggregate_type e) (env_aggregate_id e)
       (env_correlation_id e) (env_payload e) (env_produced_by e) (env_causation_id e)
       (env_trace_id e) (env_span_id e) (env_event_version e)"

section \<open>Symbolic execution\<close>

lemma emit_full_apply:
  "emit_full et ws aty ai co pl pr ca tr sp ve s =
    (let ev = \<lparr>ev_event_id = next_uuid s, ev_workspace_id = ws, ev_event_type = et,
         ev_event_version = ve, ev_aggregate_type = aty, ev_aggregate_id = ai,
         ev_correlation_id = co, ev_causation_id = ca, ev_trace_id = tr, ev_span_id = sp,
         ev_sequence = coalesce_max (map ev_sequence (agg_events s aty ai)) + 1,
         ev_payload = pl, ev_status = EvPending, ev_delivery_attempts = 0,
         ev_occurred_at = clock s, ev_produced_by = pr\<rparr>
     in (s\<lparr>next_uuid := Suc (next_uuid s), outbox := outbox s @ [ev]\<rparr>, Inr ev))"
  by (simp add: emit_full_def next_sequence_def Let_def)

text \<open>
  \<open>child_span\<close> and \<open>emit\<close> always succeed. Their results and the sessions they leave are
  named here and kept folded; the simplifier knows that no table but the outbox differs.
\<close>

definition span_tr :: "string option \<Rightarrow> session \<Rightarrow> string" where
  "span_tr tr s = (case tr of None \<Rightarrow> uuid_hex (next_uuid s)
     | Some t \<Rightarrow> if t = [] then uuid_hex (next_uuid s) else t)"

definition span_sp :: "string option \<Rightarrow> session \<Rightarrow> string" where
  "span_sp tr s = (case result_of (child_span tr) s of Inl e \<Rightarrow> [] | Inr p \<Rightarrow> snd p)"

definition span_st :: "string option \<Rightarrow> session \<Rightarrow> session" where
  "span_st tr s = state_after (child_span tr) s"

definition emit_st ::
    "string \<Rightarrow> uuid \<Rightarrow> string \<Rightarrow> uuid \<Rightarrow> uuid \<Rightarrow> string \<Rightarrow> string \<Rightarrow> json_obj \<Rightarrow> string
      \<Rightarrow> session \<Rightarrow> session" where
  "emit_st et ws aty ai co tr sp pl pr s = state_after (emit et ws aty ai co tr sp pl pr) s"

definition emit_ev ::
    "string \<Rightarrow> uuid \<Rightarrow> string \<Rightarrow> uuid \<Rightarrow> uuid \<Rightarrow> string \<Rightarrow> string \<Rightarrow> json_obj \<Rightarrow> string
      \<Rightarrow> session \<Rightarrow> outbox_event" where
  "emit_ev et ws aty ai co tr sp pl pr s = \<lparr>
     ev_event_id = next_uuid s, ev_workspace_id = ws, ev_event_type = et,
     ev_event_version = 1, ev_aggregate_type = aty, ev_aggregate_id = ai,
     ev_correlation_id = co, ev_causation_id = None, ev_trace_id = Some tr, ev_span_id = Some sp,
     ev_sequence = coalesce_max (map ev_sequence (agg_events s aty ai)) + 1,
     ev_payload = pl, ev_status = EvPending, ev_delivery_attempts = 0,
     ev_occurred_at = clock s, ev_produced_by = pr\<rparr>"

lemma bindE_span [simp]:
  "bindE (child_span tr) f s = f (span_tr tr s, span_sp tr s) (span_st tr s)"
  unfolding span_sp_def span_st_def span_tr_def
  by (cases tr)
    (simp_all add: bindE_def child_span_def new_trace_id_def new_span_id_def)

lemma emit_apply:
  "emit et ws aty ai co tr sp pl pr s =
    (emit_st et ws aty ai co tr sp pl pr s, Inr (emit_ev et ws aty ai co tr sp pl pr s))"
  by (simp add: emit_st_def emit_ev_def emit_def emit_full_apply Let_def)

lemma bindE_emit [simp]:
  "bindE (emit et ws aty ai co tr sp pl pr) f s =
    f (emit_ev et ws aty ai co tr sp pl pr s) (emit_st et ws aty ai co tr sp pl pr s)"
  by (rule bindE_Inr) (rule emit_apply)

lemma emit_state [simp]:
  "state_after (emit et ws aty ai co tr sp pl pr) s = emit_st et ws aty ai co tr sp pl pr s"
  by (simp add: emit_st_def)

lemma emit_st_outbox [simp]:
  "outbox (emit_st et ws aty ai co tr sp pl pr s) = outbox s @ [emit_ev et ws aty ai co tr sp pl pr s]"
  by (simp add: emit_st_def emit_ev_def emit_def emit_full_apply Let_def)

lemma emit_st_next_uuid [simp]:
  "next_uuid (emit_st et ws aty ai co tr sp pl pr s) = Suc (next_uuid s)"
  by (simp add: emit_st_def emit_def emit_full_apply Let_def)

lemma emit_st_frame [simp]:
  "clock (emit_st et ws aty ai co tr sp pl pr s) = clock s"
  "rng (emit_st et ws aty ai co tr sp pl pr s) = rng s"
  "draws (emit_st et ws aty ai co tr sp pl pr s) = draws s"
  "locked (emit_st et ws aty ai co tr sp pl pr s) = locked s"
  "get_settings (emit_st et ws aty ai co tr sp pl pr s) = get_settings s"
  "workspaces (emit_st et ws aty ai co tr sp pl pr s) = workspaces s"
  "definitions (emit_st et ws aty ai co tr sp pl pr s) = definitions s"
  "wf_stages (emit_st et ws aty ai co tr sp pl pr s) = wf_stages s"
  "wf_transitions (emit_st et ws aty ai co tr sp pl pr s) = wf_transitions s"
  "items (emit_st et ws aty ai co tr sp pl pr s) = items s"
  "versions (emit_st et ws aty ai co tr sp pl pr s) = versions s"
  "runs (emit_st et ws aty ai co tr sp pl pr s) = runs s"
  "stage_runs (emit_st et ws aty ai co tr sp pl pr s) = stage_runs s"
  "assignments (emit_st et ws aty ai co tr sp pl pr s) = assignments s"
  "workers (emit_st et ws aty ai co tr sp pl pr s) = workers s"
  "jobs (emit_st et ws aty ai co tr sp pl pr s) = jobs s"
  "limits (emit_st et ws aty ai co tr sp pl pr s) = limits s"
  "bp_states (emit_st et ws aty ai co tr sp pl pr s) = bp_states s"
  "budgets (emit_st et ws aty ai co tr sp pl pr s) = budgets s"
  "effect_keys (emit_st et ws aty ai co tr sp pl pr s) = effect_keys s"
  "caps (emit_st et ws aty ai co tr sp pl pr s) = caps s"
  "spend_logs (emit_st et ws aty ai co tr sp pl pr s) = spend_logs s"
  "reservations (emit_st et ws aty ai co tr sp pl pr s) = reservations s"
  "gates (emit_st et ws aty ai co tr sp pl pr s) = gates s"
  "decisions (emit_st et ws aty ai co tr sp pl pr s) = decisions s"
  "consumers (emit_st et ws aty ai co tr sp pl pr s) = consumers s"
  "checkpoints (emit_st et ws aty ai co tr sp pl pr s) = checkpoints s"
  "dead_letters (emit_st et ws aty ai co tr sp pl pr s) = dead_letters s"
  "claim_audits (emit_st et ws aty ai co tr sp pl pr s) = claim_audits s"
  "recovery_audits (emit_st et ws aty ai co tr sp pl pr s) = recovery_audits s"
  by (simp_all add: emit_st_def emit_def emit_full_apply Let_def)

lemma span_st_upd: "span_st tr s = s\<lparr>next_uuid := next_uuid (span_st tr s)\<rparr>"
  by (cases tr) (simp_all add: span_st_def child_span_def new_trace_id_def new_span_id_def)

lemma span_st_frame [simp]:
  "clock (span_st tr s) = clock s"
  "rng (span_st tr s) = rng s"
  "draws (span_st tr s) = draws s"
  "locked (span_st tr s) = locked s"
  "get_settings (span_st tr s) = get_settings s"
  "workspaces (span_st tr s) = workspaces s"
  "definitions (span_st tr s) = definitions s"
  "wf_stages (span_st tr s) = wf_stages s"
  "wf_transitions (span_st tr s) = wf_transitions s"
  "items (span_st tr s) = items s"
  "versions (span_st tr s) = versions s"
  "runs (span_st tr s) = runs s"
  "stage_runs (span_st tr s) = stage_runs s"
  "assignments (span_st tr s) = assignments s"
  "workers (span_st tr s) = workers s"
  "jobs (span_st tr s) = jobs s"
  "limits (span_st tr s) = limits s"
  "bp_states (span_st tr s) = bp_states s"
  "budgets (span_st tr s) = budgets s"
  "effect_keys (span_st tr s) = effect_keys s"
  "caps (span_st tr s) = caps s"
  "spend_logs (span_st tr s) = spend_logs s"
  "reservations (span_st tr s) = reservations s"
  "gates (span_st tr s) = gates s"
  "decisions (span_st tr s) = decisions s"
  "consumers (span_st tr s) = consumers s"
  "checkpoints (span_st tr s) = checkpoints s"
  "dead_letters (span_st tr s) = dead_letters s"
  "claim_audits (span_st tr s) = claim_audits s"
  "recovery_audits (span_st tr s) = recovery_audits s"
  "outbox (span_st tr s) = outbox s"
  by (subst span_st_upd, simp)+

lemma span_st_next_uuid: "next_uuid s < next_uuid (span_st tr s)"
  by (cases tr) (simp_all add: span_st_def child_span_def new_trace_id_def new_span_id_def)

lemma emit_ev_sel [simp]:
  "ev_event_type (emit_ev et ws aty ai co tr sp pl pr s) = et"
  "ev_workspace_id (emit_ev et ws aty ai co tr sp pl pr s) = ws"
  "ev_aggregate_type (emit_ev et ws aty ai co tr sp pl pr s) = aty"
  "ev_aggregate_id (emit_ev et ws aty ai co tr sp pl pr s) = ai"
  "ev_payload (emit_ev et ws aty ai co tr sp pl pr s) = pl"
  "ev_status (emit_ev et ws aty ai co tr sp pl pr s) = EvPending"
  "ev_event_id (emit_ev et ws aty ai co tr sp pl pr s) = next_uuid s"
  "ev_correlation_id (emit_ev et ws aty ai co tr sp pl pr s) = co"
  "ev_delivery_attempts (emit_ev et ws aty ai co tr sp pl pr s) = 0"
  "ev_produced_by (emit_ev et ws aty ai co tr sp pl pr s) = pr"
  by (simp_all add: emit_ev_def)

section \<open>What an operation may do, seen from the other components\<close>

text \<open>
  The only fields \<open>child_span\<close> and \<open>emit\<close> change are the outbox and the UUID supply: any
  relation between sessions that ignores UUIDs and allows events of the engine to be
  appended includes their effect. This is the interface through which the components below
  use the outbox.
\<close>

locale emitting = effect_preorder R for R :: "session \<Rightarrow> session \<Rightarrow> bool" +
  assumes eff_uuid: "R s (s\<lparr>next_uuid := Suc (next_uuid s)\<rparr>)"
    and eff_event: "engine_event (ev_event_type ev) \<Longrightarrow> ev_status ev = EvPending \<Longrightarrow>
      ev_sequence ev = coalesce_max (map ev_sequence (agg_events s (ev_aggregate_type ev) (ev_aggregate_id ev))) + 1 \<Longrightarrow>
      ev_event_id ev = next_uuid s \<Longrightarrow>
      R s (s\<lparr>next_uuid := Suc (next_uuid s), outbox := outbox s @ [ev]\<rparr>)"
begin

lemma eff_utcnow: "effects R utcnow"
  by (simp add: effects_def eff_refl)

lemma eff_uuid4: "effects R uuid4"
  by (simp add: effects_def eff_uuid)

lemma eff_the_row: "effects R (the_row tbl f)"
  by (simp add: effects_def the_row_apply eff_refl split: option.splits)

lemma eff_child_span: "effects R (child_span tr)"
  unfolding child_span_def new_trace_id_def new_span_id_def
  by (intro eff_rules eff_uuid4)

lemma eff_emit_full: "engine_event et \<Longrightarrow> effects R (emit_full et ws aty ai co pl pr ca tr sp ve)"
  unfolding effects_def emit_full_apply Let_def by (auto intro!: eff_event)

lemma eff_emit: "engine_event et \<Longrightarrow> effects R (emit et ws aty ai co tr sp pl pr)"
  unfolding emit_def by (rule eff_emit_full)

lemma eff_modify: "(\<And>s. R s (f s)) \<Longrightarrow> effects R (modify f)"
  by (simp add: effects_def)

lemmas svc_rules = eff_rules eff_utcnow eff_uuid4 eff_the_row eff_child_span eff_emit_full eff_emit
  engine_events engine_event_if

end

text \<open>
  A relation that in addition ignores the mutable tables. Every operation of the engine is
  within such a relation, whichever rows it writes; \<open>frame_rules\<close> checks an operation by
  following its text. The assignments, the workers, the review gates and the decisions,
  which few operations write, are added in a second step: a relation that says something
  about those four includes every operation of the first kind.
\<close>

locale core_frame = emitting R for R :: "session \<Rightarrow> session \<Rightarrow> bool" +
  assumes eff_draw: "R s (s\<lparr>draws := n\<rparr>)"
    and eff_tbl_runs: "R s (runs_update fruns s)"
    and eff_tbl_stage_runs: "R s (stage_runs_update fstage_runs s)"
    and eff_tbl_jobs: "R s (jobs_update fjobs s)"
    and eff_tbl_bp_states: "R s (bp_states_update fbp_states s)"
    and eff_tbl_spend_logs: "R s (spend_logs_update fspend_logs s)"
    and eff_tbl_reservations: "R s (reservations_update freservations s)"
    and eff_tbl_consumers: "R s (consumers_update fconsumers s)"
    and eff_tbl_checkpoints: "R s (checkpoints_update fcheckpoints s)"
    and eff_tbl_dead_letters: "R s (dead_letters_update fdead_letters s)"
    and eff_tbl_claim_audits: "R s (claim_audits_update fclaim_audits s)"
    and eff_tbl_recovery_audits: "R s (recovery_audits_update frecovery_audits s)"
    and eff_tbl_items: "R s (items_update fitems s)"
    and eff_tbl_versions: "R s (versions_update fversions s)"
begin

lemmas eff_core_tables =
  eff_tbl_runs [THEN eff_modify]
  eff_tbl_stage_runs [THEN eff_modify]
  eff_tbl_jobs [THEN eff_modify]
  eff_tbl_bp_states [THEN eff_modify]
  eff_tbl_spend_logs [THEN eff_modify]
  eff_tbl_reservations [THEN eff_modify]
  eff_tbl_consumers [THEN eff_modify]
  eff_tbl_checkpoints [THEN eff_modify]
  eff_tbl_dead_letters [THEN eff_modify]
  eff_tbl_claim_audits [THEN eff_modify]
  eff_tbl_recovery_audits [THEN eff_modify]
  eff_tbl_items [THEN eff_modify]
  eff_tbl_versions [THEN eff_modify]

lemma eff_random: "effects R (random_uniform hi)"
  by (simp add: effects_def random_uniform_def eff_draw)

lemmas core_rules = svc_rules eff_core_tables eff_random

end

locale table_frame = core_frame R for R :: "session \<Rightarrow> session \<Rightarrow> bool" +
  assumes eff_tbl_assignments: "R s (assignments_update fassignments s)"
    and eff_tbl_workers: "R s (workers_update fworkers s)"
    and eff_tbl_gates: "R s (gates_update fgates s)"
    and eff_tbl_decisions: "R s (decisions_update fdecisions s)"
    and eff_verdict: "ev_status ev = EvPending \<Longrightarrow>
      ev_sequence ev = coalesce_max (map ev_sequence (agg_events s (ev_aggregate_type ev) (ev_aggregate_id ev))) + 1 \<Longrightarrow>
      ev_event_id ev = next_uuid s \<Longrightarrow>
      R s (s\<lparr>next_uuid := Suc (next_uuid s), outbox := outbox s @ [ev]\<rparr>)"
begin

lemma eff_emit_any: "effects R (emit et ws aty ai co tr sp pl pr)"
  unfolding emit_def effects_def emit_full_apply Let_def by (auto intro!: eff_verdict)

lemmas table_rules = core_rules
  eff_tbl_assignments [THEN eff_modify]
  eff_tbl_workers [THEN eff_modify]
  eff_tbl_gates [THEN eff_modify]
  eff_tbl_decisions [THEN eff_modify]
  eff_emit_any

end

section \<open>Numbering\<close>

definition numbered :: "session \<Rightarrow> bool" where
  \<comment> \<open>the events of every aggregate carry the sequence numbers 1, 2, ... in emission order\<close>
  "numbered s \<longleftrightarrow> (\<forall>aty ai. map ev_sequence (agg_events s aty ai) =
     map int [1..<Suc (length (agg_events s aty ai))])"

lemma Max_int_upt: "0 < n \<Longrightarrow> Max (int ` {1..<Suc n}) = int n"
  by (rule Max_eqI) auto

lemmas Max_int_upt_Suc = Max_int_upt [unfolded One_nat_def]

lemma coalesce_max_numbered:
  assumes "map ev_sequence es = map int [1..<Suc (length es)]"
  shows "coalesce_max (map ev_sequence es) = int (length es)"
  using assms by (cases "es = []") (simp_all add: coalesce_max_def Max_int_upt_Suc del: upt_Suc)

lemma agg_events_append:
  "agg_events (s\<lparr>next_uuid := n, outbox := outbox s @ [ev]\<rparr>) aty ai =
    agg_events s aty ai @ (if ev_aggregate_type ev = aty \<and> ev_aggregate_id ev = ai then [ev] else [])"
  by (simp add: agg_events_def)

lemma agg_events_uuid [simp]: "agg_events (s\<lparr>next_uuid := n\<rparr>) aty ai = agg_events s aty ai"
  by (simp add: agg_events_def)

lemma numbered_cong: "outbox t = outbox s \<Longrightarrow> numbered t = numbered s"
  by (simp add: numbered_def agg_events_def)

lemma numbered_append:
  assumes "numbered s"
    and "ev_sequence ev = coalesce_max (map ev_sequence (agg_events s (ev_aggregate_type ev) (ev_aggregate_id ev))) + 1"
  shows "numbered (s\<lparr>next_uuid := n, outbox := outbox s @ [ev]\<rparr>)"
proof -
  have "coalesce_max (map ev_sequence (agg_events s aty ai)) = int (length (agg_events s aty ai))" for aty ai
    using assms(1) by (intro coalesce_max_numbered) (simp add: numbered_def)
  with assms show ?thesis by (auto simp: numbered_def agg_events_append)
qed

interpretation numb: table_frame "\<lambda>s t. numbered s \<longrightarrow> numbered t"
proof unfold_locales
  show "numbered s \<longrightarrow> numbered (s\<lparr>next_uuid := Suc (next_uuid s)\<rparr>)" for s
    by (simp add: numbered_cong [of "s\<lparr>next_uuid := Suc (next_uuid s)\<rparr>" s])
qed (auto intro: numbered_append numbered_cong [THEN iffD2])

text \<open>An event's place in the log is fixed: nothing that is emitted moves or removes it.\<close>

definition ev_ident :: "outbox_event \<Rightarrow> uuid \<times> string \<times> string \<times> uuid \<times> int \<times> json_obj" where
  "ev_ident e = (ev_event_id e, ev_event_type e, ev_aggregate_type e, ev_aggregate_id e,
     ev_sequence e, ev_payload e)"

definition log_extends :: "session \<Rightarrow> session \<Rightarrow> bool" where
  "log_extends s t \<longleftrightarrow> (\<exists>es. map ev_ident (outbox t) = map ev_ident (outbox s) @ es)"

interpretation logx: table_frame log_extends
proof unfold_locales
  show "log_extends s u" if "log_extends s t" "log_extends t u" for s t u
    using that by (auto simp: log_extends_def)
qed (auto simp: log_extends_def)

text \<open>
  The configuration (workflow definitions, limits, budgets, caps, settings) and the clock
  are the same after an operation as before it.
\<close>

definition same_config :: "session \<Rightarrow> session \<Rightarrow> bool" where
  "same_config s t \<longleftrightarrow>
     clock t = clock s \<and>
     rng t = rng s \<and>
     locked t = locked s \<and>
     get_settings t = get_settings s \<and>
     workspaces t = workspaces s \<and>
     definitions t = definitions s \<and>
     wf_stages t = wf_stages s \<and>
     wf_transitions t = wf_transitions s \<and>
     limits t = limits s \<and>
     budgets t = budgets s \<and>
     caps t = caps s"

interpretation conf: table_frame same_config
  by unfold_locales (simp_all add: same_config_def)

text \<open>What the operations that stay away from assignments, workers and gates leave alone.\<close>

definition core_same :: "session \<Rightarrow> session \<Rightarrow> bool" where
  "core_same s t \<longleftrightarrow> assignments t = assignments s \<and> workers t = workers s \<and> gates t = gates s"

interpretation core: core_frame core_same
  by unfold_locales (simp_all add: core_same_def)

lemma distinct_sequences:
  assumes "numbered s" and "e \<in> set (outbox s)" and "f \<in> set (outbox s)"
    and "ev_aggregate_type e = ev_aggregate_type f" "ev_aggregate_id e = ev_aggregate_id f"
    and "ev_sequence e = ev_sequence f"
  shows "e = f"
proof -
  let ?es = "agg_events s (ev_aggregate_type f) (ev_aggregate_id f)"
  have "distinct (map ev_sequence ?es)"
    using assms(1) by (simp add: numbered_def distinct_map del: upt_Suc)
  moreover have "e \<in> set ?es" "f \<in> set ?es"
    using assms by (auto simp: agg_events_def)
  ultimately show ?thesis using assms(6) by (auto simp: distinct_map inj_on_def)
qed

text \<open>
  An emitted event gets the number one above the events its aggregate already has, so
  a gap-free numbering stays gap-free and the new event is the last of its aggregate.
\<close>

theorem emit_numbers_gap_free:
  assumes "numbered s"
    and "emit event_type ws aty ai corr tr sp payload prd s = (t, Inr ev)"
  shows "numbered t \<and> outbox t = outbox s @ [ev]
    \<and> ev_sequence ev = int (length (agg_events s aty ai)) + 1"
proof -
  have eff: "effects (\<lambda>s t. numbered s \<longrightarrow> numbered t)
      (emit event_type ws aty ai corr tr sp payload prd)" by (rule numb.eff_emit_any)
  have "coalesce_max (map ev_sequence (agg_events s aty ai)) = int (length (agg_events s aty ai))"
    using assms(1) by (intro coalesce_max_numbered) (simp add: numbered_def)
  with assms effects_result [OF eff assms(2)] show ?thesis
    by (auto simp: emit_def emit_full_apply Let_def)
qed

theorem emit_numbers_gap_free_witness:
  "\<exists>ev t. emit ''e'' 1 ''pipeline_run'' 7 2 ''t'' ''sp'' [] ''p'' empty_session = (t, Inr ev)
    \<and> numbered empty_session \<and> numbered t \<and> outbox t = [ev] \<and> ev_sequence ev = 1"
proof -
  have n: "numbered empty_session" by (simp add: numbered_def agg_events_def empty_session_def)
  have e: "outbox empty_session = []" "agg_events empty_session aty ai = []" for aty ai
    by (simp_all add: empty_session_def agg_events_def)
  show ?thesis
    using n emit_numbers_gap_free [OF n emit_apply, unfolded e] by (auto simp: emit_apply)
qed

lemma upcast_reaches:
  assumes "\<And>v. version \<le> v \<Longrightarrow> v < target \<Longrightarrow> reg (et, v) \<noteq> None"
    and "version \<le> target"
  shows "upcast reg et version p target =
    fold (\<lambda>v. the (reg (et, v))) [version..target - 1] p"
  using assms
proof (induction reg et version p target rule: upcast.induct)
  case (1 reg et version p target)
  show ?case
  proof (cases "version < target")
    case True
    then obtain fn where fn: "reg (et, version) = Some fn" using "1.prems" by fastforce
    have "[version..target - 1] = version # [version + 1..target - 1]"
      using True by (simp add: upto_rec1)
    moreover have "upcast reg et (version + 1) (fn p) target =
        fold (\<lambda>v. the (reg (et, v))) [version + 1..target - 1] (fn p)"
      using True "1.prems" by (intro "1.IH" [OF True fn]) auto
    ultimately show ?thesis using True fn by (simp add: upcast.simps [of reg et version])
  next
    case False
    with "1.prems" have "version = target" by simp
    then show ?thesis by (simp add: upcast.simps [of reg et target])
  qed
qed

end
