(* ===== verification/Retry.thy ===== *)
theory Retry
  imports Outbox
begin

text \<open>
  The retry framework (\<open>orchestration/retry.py\<close>): exponential backoff with full jitter,
  classification of errors as transient or permanent, and the dead-letter record.
\<close>

definition backoff_capped :: "int \<Rightarrow> int \<Rightarrow> rat \<Rightarrow> int \<Rightarrow> rat" where
  "backoff_capped attempt base_seconds multiplier max_seconds =
     (let attempt = (if attempt < 1 then 1 else attempt);
          raw = of_int base_seconds * multiplier ^ nat (attempt - 1)
      in min raw (of_int max_seconds))"

definition compute_backoff_seconds :: "int \<Rightarrow> int \<Rightarrow> rat \<Rightarrow> int \<Rightarrow> rat svc" where
  "compute_backoff_seconds attempt base_seconds multiplier max_seconds =
     random_uniform (backoff_capped attempt base_seconds multiplier max_seconds)"

definition next_run_after :: "int \<Rightarrow> int \<Rightarrow> rat \<Rightarrow> int \<Rightarrow> datetime svc" where
  "next_run_after attempt base_seconds multiplier max_seconds =
     bindE (compute_backoff_seconds attempt base_seconds multiplier max_seconds) (\<lambda>delay.
     bindE utcnow (\<lambda>now. ret (now + timedelta_seconds delay)))"

definition RETRYABLE_MARKERS :: "string list" where
  "RETRYABLE_MARKERS =
     [''timeout'', ''timed out'', ''connection reset'', ''connection refused'',
      ''temporarily unavailable'', ''lease lost'', ''rate limit'', ''503'', ''429'']"

definition is_retryable :: "string \<Rightarrow> bool" where
  "is_retryable error_message =
     (let lowered = lower error_message
      in list_ex (\<lambda>marker. is_infix marker lowered) RETRYABLE_MARKERS)"

definition route_to_dead_letter ::
    "uuid \<Rightarrow> string \<Rightarrow> uuid \<Rightarrow> string \<Rightarrow> json_obj option \<Rightarrow> string \<Rightarrow> int \<Rightarrow> datetime
      \<Rightarrow> dead_letter_job svc" where
  "route_to_dead_letter workspace_id related_table related_id jtype payload failure_reason
       attempt_count first_failed_at =
     bindE uuid4 (\<lambda>u.
     bindE utcnow (\<lambda>now.
       let entry = \<lparr>dlq_id = u, dlq_workspace_id = workspace_id, dlq_related_table = related_table,
         dlq_related_id = related_id, dlq_job_type = jtype, dlq_payload = payload,
         dlq_failure_reason = failure_reason, dlq_attempt_count = attempt_count,
         dlq_first_failed_at = first_failed_at, dlq_last_failed_at = now, dlq_status = DlqPending\<rparr>
       in bindE (modify (dead_letters_update (\<lambda>ds. ds @ [entry]))) (\<lambda>_. ret entry)))"

section \<open>Backoff\<close>

lemma backoff_capped_bounds:
  assumes "0 \<le> base" and "0 \<le> mult" and "0 \<le> mx"
  shows "0 \<le> backoff_capped attempt base mult mx" and "backoff_capped attempt base mult mx \<le> of_int mx"
  using assms by (simp_all add: backoff_capped_def Let_def)

lemma backoff_capped_mono:
  assumes "0 \<le> base" and "1 \<le> mult" and "a \<le> b"
  shows "backoff_capped a base mult mx \<le> backoff_capped b base mult mx"
proof -
  have "nat ((if a < 1 then 1 else a) - 1) \<le> nat ((if b < 1 then 1 else b) - 1)"
    using assms(3) by auto
  then have "mult ^ nat ((if a < 1 then 1 else a) - 1) \<le> mult ^ nat ((if b < 1 then 1 else b) - 1)"
    using assms(2) by (rule power_increasing)
  then have "of_int base * mult ^ nat ((if a < 1 then 1 else a) - 1)
      \<le> of_int base * mult ^ nat ((if b < 1 then 1 else b) - 1)"
    using assms(1) by (intro mult_left_mono) simp_all
  then show ?thesis unfolding backoff_capped_def Let_def by (rule min.mono) simp
qed

lemma timedelta_seconds_bounds:
  assumes "0 \<le> x" and "x \<le> of_int n"
  shows "0 \<le> timedelta_seconds x" and "timedelta_seconds x \<le> seconds n"
proof -
  show "0 \<le> timedelta_seconds x"
    using assms(1) by (simp add: timedelta_seconds_def round_half_even_nonneg)
  have "x * 1000000 \<le> of_int (seconds n)"
    using assms(2) by (simp add: seconds_def)
  then show "timedelta_seconds x \<le> seconds n"
    unfolding timedelta_seconds_def by (rule round_half_even_mono_int)
qed

lemma random_scaled_bounds:
  assumes "rng_ok s" and "0 \<le> hi"
  shows "0 \<le> hi * rng s n" and "hi * rng s n \<le> hi"
  using assms by (simp_all add: rng_ok_def mult_left_le)

text \<open>
  A retry is never scheduled in the past and never later than the stage's maximum
  backoff, whatever the attempt number and whatever the random source returns.
\<close>

theorem next_run_after_within_max:
  assumes "rng_ok s" and "0 \<le> base" and "0 \<le> mult" and "0 \<le> mx"
  shows "\<exists>due t. next_run_after attempt base mult mx s = (t, Inr due)
    \<and> clock s \<le> due \<and> due \<le> clock s + seconds mx"
proof -
  note hi = backoff_capped_bounds [OF assms(2-4), of attempt]
  note draw = random_scaled_bounds [OF assms(1) hi(1), of "draws s"]
  from timedelta_seconds_bounds [OF draw(1) order_trans [OF draw(2) hi(2)]] show ?thesis
    by (simp add: next_run_after_def compute_backoff_seconds_def)
qed

theorem next_run_after_within_max_witness:
  "rng_ok empty_session \<and>
   (\<exists>due t. next_run_after 4 5 2 300 empty_session = (t, Inr due) \<and> 0 \<le> due \<and> due \<le> 300000000)"
proof -
  have r: "rng_ok empty_session" by (simp add: rng_ok_def empty_session_def)
  show ?thesis
    using r next_run_after_within_max [OF r, of 5 2 300 4]
    by (simp add: empty_session_def seconds_def)
qed

section \<open>Classification\<close>

lemma is_retryable_iff:
  "is_retryable msg \<longleftrightarrow> (\<exists>m \<in> set RETRYABLE_MARKERS. \<exists>us vs. lower msg = us @ m @ vs)"
  by (simp add: is_retryable_def Let_def list_ex_iff is_infix_iff)

lemma lower_append: "lower (xs @ ys) = lower xs @ lower ys"
  by (simp add: lower_def)

lemma markers_lower: "m \<in> set RETRYABLE_MARKERS \<Longrightarrow> lower m = m"
  by (auto simp: RETRYABLE_MARKERS_def lower_def)

text \<open>
  An error is retried whenever a known-transient marker occurs anywhere in its message,
  in whatever context; an error none of whose substrings is a marker is permanent.
\<close>

theorem is_retryable_context:
  "(\<forall>m \<in> set RETRYABLE_MARKERS. is_retryable (us @ m @ vs))
    \<and> (is_retryable msg \<longrightarrow> (\<exists>m \<in> set RETRYABLE_MARKERS. \<exists>us vs. lower msg = us @ m @ vs))"
proof
  show "\<forall>m \<in> set RETRYABLE_MARKERS. is_retryable (us @ m @ vs)"
  proof
    fix m assume m: "m \<in> set RETRYABLE_MARKERS"
    then have "lower (us @ m @ vs) = lower us @ m @ lower vs"
      by (simp add: lower_append markers_lower)
    with m show "is_retryable (us @ m @ vs)" by (auto simp: is_retryable_iff)
  qed
qed (simp add: is_retryable_iff)

theorem is_retryable_context_witness:
  "is_retryable ''upstream timeout (5s)'' \<and> \<not> is_retryable ''invalid api key''"
proof -
  have "''timeout'' \<in> set RETRYABLE_MARKERS" by (simp add: RETRYABLE_MARKERS_def)
  then have "is_retryable (''upstream '' @ ''timeout'' @ '' (5s)'')"
    using is_retryable_context by blast
  moreover have "\<not> is_retryable ''invalid api key''" by code_simp
  ultimately show ?thesis by simp
qed

section \<open>Dead letters\<close>

lemma route_to_dead_letter_apply:
  "route_to_dead_letter ws rt ri jt pl fr ac ff s =
    (let entry = \<lparr>dlq_id = next_uuid s, dlq_workspace_id = ws, dlq_related_table = rt,
         dlq_related_id = ri, dlq_job_type = jt, dlq_payload = pl, dlq_failure_reason = fr,
         dlq_attempt_count = ac, dlq_first_failed_at = ff, dlq_last_failed_at = clock s,
         dlq_status = DlqPending\<rparr>
     in (s\<lparr>next_uuid := Suc (next_uuid s), dead_letters := dead_letters s @ [entry]\<rparr>, Inr entry))"
  by (simp add: route_to_dead_letter_def Let_def)

definition dlq_entry ::
    "uuid \<Rightarrow> string \<Rightarrow> uuid \<Rightarrow> string \<Rightarrow> json_obj option \<Rightarrow> string \<Rightarrow> int \<Rightarrow> datetime
      \<Rightarrow> session \<Rightarrow> dead_letter_job" where
  "dlq_entry ws rt ri jt pl fr ac ff s = \<lparr>dlq_id = next_uuid s, dlq_workspace_id = ws,
     dlq_related_table = rt, dlq_related_id = ri, dlq_job_type = jt, dlq_payload = pl,
     dlq_failure_reason = fr, dlq_attempt_count = ac, dlq_first_failed_at = ff,
     dlq_last_failed_at = clock s, dlq_status = DlqPending\<rparr>"

lemma bindE_route_to_dead_letter [simp]:
  "bindE (route_to_dead_letter ws rt ri jt pl fr ac ff) f s =
    f (dlq_entry ws rt ri jt pl fr ac ff s)
      (s\<lparr>next_uuid := Suc (next_uuid s),
         dead_letters := dead_letters s @ [dlq_entry ws rt ri jt pl fr ac ff s]\<rparr>)"
  by (simp add: bindE_def route_to_dead_letter_apply dlq_entry_def Let_def)

context core_frame
begin

lemma eff_compute_backoff: "effects R (compute_backoff_seconds a b m x)"
  unfolding compute_backoff_seconds_def by (rule eff_random)

lemma eff_route_to_dead_letter: "effects R (route_to_dead_letter ws rt ri jt pl fr ac ff)"
  unfolding route_to_dead_letter_def Let_def by (intro core_rules)

lemmas retry_rules = core_rules eff_compute_backoff eff_route_to_dead_letter

end

end
