(* ===== verification/Pressure.thy ===== *)
theory Pressure
  imports Retry
begin

text \<open>
  Priorities (\<open>orchestration/priority.py\<close>), provider concurrency budgets
  (\<open>orchestration/provider_budgets.py\<close>) and queue-depth back-pressure
  (\<open>orchestration/backpressure.py\<close>).
\<close>

section \<open>Priority\<close>

definition total_seconds :: "int \<Rightarrow> rat" where
  \<comment> \<open>\<open>timedelta.total_seconds()\<close>\<close>
  "total_seconds d = of_int d / 1000000"

definition compute_age_boost :: "settings \<Rightarrow> datetime \<Rightarrow> datetime \<Rightarrow> int" where
  \<comment> \<open>the call with \<open>now\<close> given and the three tuning parameters left to the settings\<close>
  "compute_age_boost st created_at now =
     (let interval = assignment_age_boost_interval_seconds st;
          step = assignment_age_boost_per_interval st;
          cap = assignment_age_boost_max st;
          age = max 0 (total_seconds (now - created_at))
      in if interval \<le> 0 then 0
         else min (\<lfloor>age / of_int interval\<rfloor> * step) cap)"

definition compute_effective_priority :: "settings \<Rightarrow> int \<Rightarrow> datetime \<Rightarrow> datetime \<Rightarrow> int" where
  "compute_effective_priority st priority created_at now =
     priority + compute_age_boost st created_at now"

definition base_priority_for_tier :: "settings \<Rightarrow> int \<Rightarrow> int" where
  "base_priority_for_tier st priority_tier = priority_tier * workspace_tier_priority_weight st"

definition effective_priority_expr :: "settings \<Rightarrow> datetime \<Rightarrow> stage_assignment \<Rightarrow> int" where
  \<comment> \<open>the SQL expression, evaluated on one row\<close>
  "effective_priority_expr st now a =
     (let interval = assignment_age_boost_interval_seconds st;
          step = assignment_age_boost_per_interval st;
          cap = assignment_age_boost_max st;
          age = max 0 (total_seconds (now - asg_created_at a))
      in if interval \<le> 0 then asg_priority a
         else asg_priority a + min cap (\<lfloor>age / of_int interval\<rfloor> * step))"

lemma compute_age_boost_bounds:
  assumes "0 \<le> assignment_age_boost_per_interval st" and "0 \<le> assignment_age_boost_max st"
  shows "0 \<le> compute_age_boost st created now"
    and "compute_age_boost st created now \<le> assignment_age_boost_max st"
  using assms by (auto simp: compute_age_boost_def Let_def intro!: mult_nonneg_nonneg)

lemma compute_age_boost_older:
  assumes "0 \<le> assignment_age_boost_per_interval st" and "created \<le> created'"
  shows "compute_age_boost st created' now \<le> compute_age_boost st created now"
proof (cases "assignment_age_boost_interval_seconds st \<le> 0")
  case True
  then show ?thesis by (simp add: compute_age_boost_def)
next
  case False
  let ?i = "of_int (assignment_age_boost_interval_seconds st) :: rat"
  have "max 0 (total_seconds (now - created')) / ?i \<le> max 0 (total_seconds (now - created)) / ?i"
    using False assms(2) by (intro divide_right_mono max.mono) (simp_all add: total_seconds_def)
  then have "\<lfloor>max 0 (total_seconds (now - created')) / ?i\<rfloor> * assignment_age_boost_per_interval st
      \<le> \<lfloor>max 0 (total_seconds (now - created)) / ?i\<rfloor> * assignment_age_boost_per_interval st"
    using assms(1) by (intro mult_right_mono floor_mono)
  with False show ?thesis
    unfolding compute_age_boost_def Let_def by (simp add: min.mono)
qed

text \<open>
  The SQL expression that orders the claim query and the Python function that reports
  an assignment's priority agree on every row; with the settings' documented signs the
  boost lies between 0 and its maximum, and of two rows of equal base priority the older
  one never ranks below the younger.
\<close>

theorem effective_priority_sql_matches_python:
  assumes "0 \<le> assignment_age_boost_per_interval st" and "0 \<le> assignment_age_boost_max st"
  shows "effective_priority_expr st now a =
      compute_effective_priority st (asg_priority a) (asg_created_at a) now
    \<and> asg_priority a \<le> effective_priority_expr st now a
    \<and> effective_priority_expr st now a \<le> asg_priority a + assignment_age_boost_max st
    \<and> (asg_priority a = asg_priority b \<and> asg_created_at a \<le> asg_created_at b \<longrightarrow>
        effective_priority_expr st now b \<le> effective_priority_expr st now a)"
proof -
  have eq: "effective_priority_expr st now c =
      compute_effective_priority st (asg_priority c) (asg_created_at c) now" for c
    by (simp add: effective_priority_expr_def compute_effective_priority_def
        compute_age_boost_def Let_def min.commute)
  show ?thesis
    using compute_age_boost_bounds [OF assms] compute_age_boost_older [OF assms(1)]
    by (simp add: eq compute_effective_priority_def)
qed

definition sample_asg :: "uuid \<Rightarrow> datetime \<Rightarrow> stage_assignment" where
  "sample_asg k created = \<lparr>asg_id = k, asg_workspace_id = 1, asg_pipeline_run_id = 50,
     asg_stage = SCRIPTING, asg_attempt_number = 1, asg_worker_id = None, asg_status = AsgPending,
     asg_idempotency_key = None, asg_lease_expires_at = None, asg_dispatched_at = None,
     asg_acknowledged_at = None, asg_completed_at = None, asg_result = None,
     asg_correlation_id = None, asg_trace_id = None, asg_claimed_at = None, asg_claimed_by = None,
     asg_claim_count = 0, asg_claim_token = None, asg_lease_started_at = None,
     asg_lease_extension_count = 0, asg_priority = 10, asg_provider = Some ''draft_desk'',
     asg_created_at = created\<rparr>"

theorem effective_priority_sql_matches_python_witness:
  "effective_priority_expr default_settings 600000000 (sample_asg 1 0) = 20
    \<and> effective_priority_expr default_settings 600000000 (sample_asg 2 300000000)
      \<le> effective_priority_expr default_settings 600000000 (sample_asg 1 0)"
proof -
  have pos: "0 \<le> assignment_age_boost_per_interval default_settings"
    "0 \<le> assignment_age_boost_max default_settings"
    by (simp_all add: default_settings_def)
  have "effective_priority_expr default_settings 600000000 (sample_asg 1 0) = 20"
    by (simp add: effective_priority_expr_def default_settings_def sample_asg_def
        total_seconds_def)
  then show ?thesis
    using effective_priority_sql_matches_python
      [OF pos, of 600000000 "sample_asg 1 0" "sample_asg 2 300000000"]
    by (simp add: sample_asg_def)
qed

section \<open>Provider budgets\<close>

definition lock_budget :: "uuid \<Rightarrow> string \<Rightarrow> provider_concurrency_budget option svc" where
  "lock_budget workspace_id provider =
     bindE (gets (\<lambda>s. filter (\<lambda>b. pcb_workspace_id b = workspace_id \<and> pcb_provider b = provider) (budgets s)))
       (\<lambda>rows. liftE (scalar_one_or_none rows))"

definition inflight_count :: "session \<Rightarrow> uuid \<Rightarrow> string \<Rightarrow> int" where
  "inflight_count s workspace_id provider =
     int (length (filter (\<lambda>a. asg_workspace_id a = workspace_id \<and> asg_provider a = Some provider
       \<and> in_flight (asg_status a)) (assignments s)))"

definition count_inflight :: "uuid \<Rightarrow> string \<Rightarrow> int svc" where
  "count_inflight workspace_id provider = gets (\<lambda>s. inflight_count s workspace_id provider)"

definition has_provider_capacity :: "uuid \<Rightarrow> string option \<Rightarrow> bool svc" where
  "has_provider_capacity workspace_id provider =
     (case provider of
        None \<Rightarrow> ret True
      | Some p \<Rightarrow>
          if p = [] then ret True
          else bindE (lock_budget workspace_id p) (\<lambda>budget.
            case budget of
              None \<Rightarrow> ret True
            | Some b \<Rightarrow> bindE (count_inflight workspace_id p) (\<lambda>inflight.
                ret (inflight < pcb_max_concurrent b))))"

definition unique_budgets :: "session \<Rightarrow> bool" where
  \<comment> \<open>the constraint \<open>uq_provider_concurrency_budgets_ws_provider\<close>\<close>
  "unique_budgets s \<longleftrightarrow> distinct (map (\<lambda>b. (pcb_workspace_id b, pcb_provider b)) (budgets s))"

lemma has_provider_capacity_apply:
  assumes "unique_budgets s"
  shows "has_provider_capacity ws provider s = (s, Inr
    (provider = None \<or> provider = Some [] \<or>
     \<not> (\<exists>b \<in> set (budgets s). pcb_workspace_id b = ws \<and> provider = Some (pcb_provider b)
        \<and> pcb_max_concurrent b \<le> inflight_count s ws (pcb_provider b))))"
proof (cases "provider = None \<or> provider = Some []")
  case True
  then show ?thesis by (auto simp: has_provider_capacity_def)
next
  case False
  then obtain p where p: "provider = Some p" "p \<noteq> []" by auto
  let ?key = "\<lambda>b. (pcb_workspace_id b, pcb_provider b)"
  have one: "scalar_one_or_none (filter (\<lambda>b. pcb_workspace_id b = ws \<and> pcb_provider b = p) (budgets s))
      = Inr (find_row ?key (ws, p) (budgets s))"
    using scalar_find_row [OF assms [unfolded unique_budgets_def], of "(ws, p)"] by simp
  show ?thesis
  proof (cases "find_row ?key (ws, p) (budgets s)")
    case None
    with p one show ?thesis
      by (auto simp: has_provider_capacity_def lock_budget_def find_row_None image_iff)
  next
    case (Some b)
    then have "?key b = (ws, p)" "b \<in> set (budgets s)" by (auto dest: find_row_SomeD)
    moreover have "c = b" if "c \<in> set (budgets s)" "?key c = (ws, p)" for c
      using find_row_mem [OF assms [unfolded unique_budgets_def] that(1)] that(2) Some by simp
    ultimately have "(\<exists>c \<in> set (budgets s). pcb_workspace_id c = ws \<and> p = pcb_provider c
        \<and> pcb_max_concurrent c \<le> inflight_count s ws (pcb_provider c))
      \<longleftrightarrow> pcb_max_concurrent b \<le> inflight_count s ws p" by (metis prod.inject)
    with p one Some show ?thesis
      by (auto simp: has_provider_capacity_def lock_budget_def count_inflight_def)
  qed
qed

section \<open>Back-pressure\<close>

record backpressure_snapshot =
  snap_workspace_id :: uuid
  snap_state :: backpressure_state
  snap_pending_depth :: int
  snap_soft_limit :: int
  snap_hard_limit :: int
  snap_changed :: bool

definition classify_depth :: "int \<Rightarrow> int \<Rightarrow> int \<Rightarrow> backpressure_state" where
  "classify_depth depth soft hard =
     (if hard \<le> depth then BpThrottled else if soft \<le> depth then BpPressured else BpNormal)"

definition pending_depth :: "uuid \<Rightarrow> int svc" where
  "pending_depth workspace_id =
     gets (\<lambda>s. int (length (filter (\<lambda>a. asg_workspace_id a = workspace_id \<and> asg_status a = AsgPending)
       (assignments s))))"

definition limits_of :: "uuid \<Rightarrow> (int \<times> int \<times> int) svc" where
  "limits_of workspace_id =
     bindE (gets get_settings) (\<lambda>st.
     bindE (gets (\<lambda>s. filter (\<lambda>r. wcl_workspace_id r = workspace_id) (limits s))) (\<lambda>rows.
     bindE (liftE (scalar_one_or_none rows)) (\<lambda>row.
       case row of
         None \<Rightarrow> ret (queue_soft_limit_default st, queue_hard_limit_default st, 5)
       | Some r \<Rightarrow> ret (wcl_queue_soft_limit r, wcl_queue_hard_limit r, wcl_max_per_scheduler_tick r))))"

definition evaluate_workspace_backpressure :: "uuid \<Rightarrow> uuid option \<Rightarrow> backpressure_snapshot svc" where
  "evaluate_workspace_backpressure workspace_id correlation_id =
     bindE utcnow (\<lambda>now.
     bindE (limits_of workspace_id) (\<lambda>(soft, hard, _).
     bindE (pending_depth workspace_id) (\<lambda>depth.
       let new_state = classify_depth depth soft hard in
     bindE (gets (\<lambda>s. filter (\<lambda>r. bp_workspace_id r = workspace_id) (bp_states s))) (\<lambda>rows.
     bindE (liftE (scalar_one_or_none rows)) (\<lambda>row.
       let previous = (case row of Some r \<Rightarrow> bp_state r | None \<Rightarrow> BpNormal);
           changed = (previous \<noteq> new_state);
           entered = (if new_state \<noteq> BpNormal then Some now else None)
       in
     bindE (case row of
         None \<Rightarrow> modify (bp_states_update (\<lambda>rs. rs @ [\<lparr>bp_workspace_id = workspace_id,
           bp_state = new_state, bp_pending_depth = depth, bp_entered_at = entered,
           bp_updated_at = now\<rparr>]))
       | Some r \<Rightarrow> modify (bp_states_update (upd_row bp_workspace_id workspace_id
           (\<lambda>r. r\<lparr>bp_state := new_state, bp_pending_depth := depth, bp_updated_at := now,
             bp_entered_at := (if changed then entered else bp_entered_at r)\<rparr>)))) (\<lambda>_.
     bindE (whenE changed
       (bindE (child_span None) (\<lambda>(trace_id, span_id).
        bindE (case correlation_id of Some c \<Rightarrow> ret c | None \<Rightarrow> uuid4) (\<lambda>corr.
        bindE (emit (if new_state = BpNormal then BACKPRESSURE_CLEARED else BACKPRESSURE_ENTERED)
            workspace_id ''workspace'' workspace_id corr trace_id span_id
            [(''state'', JStr (backpressure_value new_state)),
             (''previous_state'', JStr (backpressure_value previous)),
             (''pending_depth'', JInt depth), (''soft_limit'', JInt soft),
             (''hard_limit'', JInt hard)] ''backpressure'') (\<lambda>_. ret ()))))) (\<lambda>_.
     ret \<lparr>snap_workspace_id = workspace_id, snap_state = new_state, snap_pending_depth = depth,
       snap_soft_limit = soft, snap_hard_limit = hard, snap_changed = changed\<rparr>)))))))"

definition evaluate_all_active_workspaces :: "nat \<Rightarrow> backpressure_snapshot list svc" where
  "evaluate_all_active_workspaces batch_size =
     bindE (gets (\<lambda>s. take batch_size (remdups
       (map asg_workspace_id (filter (\<lambda>a. asg_status a = AsgPending) (assignments s)))))) (\<lambda>wss.
     collect_each (\<lambda>ws. evaluate_workspace_backpressure ws None) wss)"

definition effective_scheduler_tick_limit :: "uuid \<Rightarrow> int \<Rightarrow> int svc" where
  "effective_scheduler_tick_limit workspace_id configured =
     bindE (gets (\<lambda>s. map bp_state (filter (\<lambda>r. bp_workspace_id r = workspace_id) (bp_states s)))) (\<lambda>rows.
     bindE (liftE (scalar_one_or_none rows)) (\<lambda>state.
       if state = Some BpThrottled then ret (max 1 (configured div 2)) else ret configured))"

definition unique_pressure :: "session \<Rightarrow> bool" where
  \<comment> \<open>the keys of \<open>workspace_concurrency_limits\<close> and \<open>workspace_backpressure_state\<close>\<close>
  "unique_pressure s \<longleftrightarrow>
     distinct (map wcl_workspace_id (limits s)) \<and> distinct (map bp_workspace_id (bp_states s))"

context core_frame
begin

lemma eff_lock_budget: "effects R (lock_budget ws p)"
  unfolding lock_budget_def by (intro core_rules)

lemma eff_has_provider_capacity: "effects R (has_provider_capacity ws p)"
  unfolding has_provider_capacity_def count_inflight_def
  by (intro core_rules eff_lock_budget)

lemma eff_limits_of: "effects R (limits_of ws)"
  unfolding limits_of_def by (intro core_rules)

lemma eff_evaluate_workspace_backpressure: "effects R (evaluate_workspace_backpressure ws co)"
  unfolding evaluate_workspace_backpressure_def pending_depth_def Let_def
  by (intro core_rules eff_limits_of)

lemma eff_evaluate_all_active_workspaces: "effects R (evaluate_all_active_workspaces n)"
  unfolding evaluate_all_active_workspaces_def
  by (intro core_rules eff_evaluate_workspace_backpressure)

lemma eff_effective_scheduler_tick_limit: "effects R (effective_scheduler_tick_limit ws n)"
  unfolding effective_scheduler_tick_limit_def by (intro core_rules)

lemmas pressure_rules = retry_rules eff_has_provider_capacity
  eff_evaluate_workspace_backpressure eff_evaluate_all_active_workspaces
  eff_effective_scheduler_tick_limit

end

section \<open>Transitions are announced once\<close>

definition depth_of :: "session \<Rightarrow> uuid \<Rightarrow> int" where
  "depth_of s ws = int (length (filter (\<lambda>a. asg_workspace_id a = ws \<and> asg_status a = AsgPending) (assignments s)))"

definition soft_hard :: "session \<Rightarrow> uuid \<Rightarrow> int \<times> int" where
  "soft_hard s ws = (case find_row wcl_workspace_id ws (limits s) of
     None \<Rightarrow> (queue_soft_limit_default (get_settings s), queue_hard_limit_default (get_settings s))
   | Some r \<Rightarrow> (wcl_queue_soft_limit r, wcl_queue_hard_limit r))"

definition observed_state :: "session \<Rightarrow> uuid \<Rightarrow> backpressure_state" where
  "observed_state s ws = classify_depth (depth_of s ws) (fst (soft_hard s ws)) (snd (soft_hard s ws))"

definition recorded_state :: "session \<Rightarrow> uuid \<Rightarrow> backpressure_state" where
  "recorded_state s ws = (case find_row bp_workspace_id ws (bp_states s) of
     None \<Rightarrow> BpNormal | Some r \<Rightarrow> bp_state r)"

lemma limits_of_apply:
  "unique_pressure s \<Longrightarrow> \<exists>m. limits_of ws s = (s, Inr (fst (soft_hard s ws), snd (soft_hard s ws), m))"
  by (simp add: limits_of_def unique_pressure_def scalar_find_row soft_hard_def split: option.splits)

lemma evaluate_backpressure_apply:
  assumes u: "unique_pressure s"
  shows "\<exists>t snap. evaluate_workspace_backpressure ws co s = (t, Inr snap)
    \<and> snap_state snap = observed_state s ws
    \<and> snap_changed snap = (recorded_state s ws \<noteq> observed_state s ws)
    \<and> recorded_state t ws = observed_state s ws
    \<and> assignments t = assignments s \<and> limits t = limits s \<and> get_settings t = get_settings s
    \<and> unique_pressure t
    \<and> (\<exists>evs. outbox t = outbox s @ evs
        \<and> length evs = (if recorded_state s ws = observed_state s ws then 0 else 1)
        \<and> (\<forall>e \<in> set evs. ev_event_type e =
            (if observed_state s ws = BpNormal then BACKPRESSURE_CLEARED else BACKPRESSURE_ENTERED)))"
proof -
  obtain m where lim: "limits_of ws s = (s, Inr (fst (soft_hard s ws), snd (soft_hard s ws), m))"
    using limits_of_apply [OF u] by blast
  have d: "distinct (map bp_workspace_id (bp_states s))" using u by (simp add: unique_pressure_def)
  show ?thesis
  proof (cases "find_row bp_workspace_id ws (bp_states s)")
    case None
    then have fresh: "ws \<notin> bp_workspace_id ` set (bp_states s)" by (simp add: find_row_None)
    show ?thesis
      using u None fresh
      by (cases co)
        (simp_all add: evaluate_workspace_backpressure_def bindE_Inr [where m = "limits_of ws" and s = s, OF lim] pending_depth_def
          scalar_find_row [OF d] Let_def recorded_state_def observed_state_def depth_of_def
          find_row_append unique_pressure_def whenE_def)
  next
    case (Some r)
    show ?thesis
      using u Some
      by (cases co)
        (simp_all add: evaluate_workspace_backpressure_def bindE_Inr [where m = "limits_of ws" and s = s, OF lim] pending_depth_def
          scalar_find_row [OF d] Let_def recorded_state_def observed_state_def depth_of_def
          find_row_upd_row map_key_upd_row unique_pressure_def whenE_def)
  qed
qed

text \<open>
  Evaluating a workspace always succeeds, records exactly the state its pending depth
  calls for, and writes one event when that differs from the recorded state and none
  otherwise; evaluating again at once finds nothing to announce.
\<close>

theorem backpressure_announces_transitions_once:
  assumes "unique_pressure s"
  shows "\<exists>t snap u snap'.
    evaluate_workspace_backpressure ws co s = (t, Inr snap) \<and>
    evaluate_workspace_backpressure ws co t = (u, Inr snap') \<and>
    recorded_state t ws = observed_state s ws \<and>
    length (outbox t) = length (outbox s) + (if recorded_state s ws = observed_state s ws then 0 else 1) \<and>
    \<not> snap_changed snap' \<and> outbox u = outbox t"
proof -
  from evaluate_backpressure_apply [OF assms, of ws co] obtain t snap evs where
    1: "evaluate_workspace_backpressure ws co s = (t, Inr snap)"
      "recorded_state t ws = observed_state s ws" "assignments t = assignments s"
      "limits t = limits s" "get_settings t = get_settings s" "unique_pressure t"
      "outbox t = outbox s @ evs"
      "length evs = (if recorded_state s ws = observed_state s ws then 0 else 1)"
    by blast
  then have "observed_state t ws = recorded_state t ws"
    by (simp add: observed_state_def depth_of_def soft_hard_def split: option.splits)
  moreover from evaluate_backpressure_apply [OF 1(6), of ws co] obtain u snap' evs' where
    2: "evaluate_workspace_backpressure ws co t = (u, Inr snap')"
      "snap_changed snap' = (recorded_state t ws \<noteq> observed_state t ws)"
      "outbox u = outbox t @ evs'"
      "length evs' = (if recorded_state t ws = observed_state t ws then 0 else 1)"
    by blast
  ultimately show ?thesis using 1 by auto
qed

theorem backpressure_announces_transitions_once_witness:
  "unique_pressure (empty_session\<lparr>limits := [\<lparr>wcl_workspace_id = 1, wcl_max_concurrent_assignments = 10,
      wcl_max_per_scheduler_tick = 5, wcl_queue_soft_limit = 1, wcl_queue_hard_limit = 2\<rparr>],
      assignments := [sample_asg 5 0, sample_asg 6 0]\<rparr>)
   \<and> (\<exists>t snap u snap'.
    evaluate_workspace_backpressure 1 None (empty_session\<lparr>limits := [\<lparr>wcl_workspace_id = 1, wcl_max_concurrent_assignments = 10,
      wcl_max_per_scheduler_tick = 5, wcl_queue_soft_limit = 1, wcl_queue_hard_limit = 2\<rparr>],
      assignments := [sample_asg 5 0, sample_asg 6 0]\<rparr>) = (t, Inr snap) \<and>
    evaluate_workspace_backpressure 1 None t = (u, Inr snap') \<and>
    recorded_state t 1 = BpThrottled \<and> length (outbox t) = 1 \<and> \<not> snap_changed snap' \<and> outbox u = outbox t)"
  (is "unique_pressure ?s \<and> _")
proof -
  have u: "unique_pressure ?s" by (simp add: unique_pressure_def empty_session_def)
  have o: "observed_state ?s 1 = BpThrottled" "recorded_state ?s 1 = BpNormal" "outbox ?s = []"
    by (simp_all add: observed_state_def recorded_state_def depth_of_def soft_hard_def
        classify_depth_def empty_session_def sample_asg_def)
  from backpressure_announces_transitions_once [OF u, of 1 None] u show ?thesis
    unfolding o by simp
qed

text \<open>
  A throttled workspace still gets at least one job per scheduler tick and never more
  than configured; only a throttled workspace is slowed down, and it is at most halved.
\<close>

theorem tick_limit_never_starves:
  assumes "unique_pressure s" and "1 \<le> configured"
  shows "\<exists>n. effective_scheduler_tick_limit ws configured s = (s, Inr n)
    \<and> 1 \<le> n \<and> n \<le> configured \<and> configured \<le> 2 * n + 1
    \<and> (recorded_state s ws \<noteq> BpThrottled \<longrightarrow> n = configured)"
proof -
  have d: "distinct (map bp_workspace_id (bp_states s))" using assms by (simp add: unique_pressure_def)
  have "scalar_one_or_none (map bp_state (filter (\<lambda>r. bp_workspace_id r = ws) (bp_states s))) =
      Inr (map_option bp_state (find_row bp_workspace_id ws (bp_states s)))"
    by (simp add: filter_find_row [OF d] split: option.splits)
  with assms(2) show ?thesis
    by (cases "find_row bp_workspace_id ws (bp_states s)")
      (auto simp: effective_scheduler_tick_limit_def recorded_state_def max_def)
qed

theorem tick_limit_never_starves_witness:
  "\<exists>n. effective_scheduler_tick_limit 1 5 (empty_session\<lparr>bp_states := [\<lparr>bp_workspace_id = 1,
      bp_state = BpThrottled, bp_pending_depth = 300, bp_entered_at = Some 0, bp_updated_at = 0\<rparr>]\<rparr>)
    = (empty_session\<lparr>bp_states := [\<lparr>bp_workspace_id = 1,
      bp_state = BpThrottled, bp_pending_depth = 300, bp_entered_at = Some 0, bp_updated_at = 0\<rparr>]\<rparr>, Inr n)
    \<and> 1 \<le> n \<and> n \<le> 5"
  (is "\<exists>n. effective_scheduler_tick_limit 1 5 ?s = _ \<and> _")
proof -
  have "unique_pressure ?s" by (simp add: unique_pressure_def empty_session_def)
  from tick_limit_never_starves [OF this, of 5 1] show ?thesis by auto
qed

end
