(* ===== verification/Spend.thy ===== *)
theory Spend
  imports Pressure
begin

text \<open>
  Spend protection (the spend section of \<open>orchestration/controller.py\<close>): usage against the
  daily and monthly caps, reservation before dispatch, commit and release.
  An ORM object passed by reference is its key; \<open>str(Decimal)\<close> in an event payload is
  carried as the number.
\<close>

section \<open>Shared helpers of the controller\<close>

definition correlation_id :: "pipeline_run \<Rightarrow> uuid svc" where
  "correlation_id run = (case run_correlation_id run of Some c \<Rightarrow> ret c | None \<Rightarrow> uuid4)"

definition ensure_correlation_id :: "uuid \<Rightarrow> unit svc" where
  \<comment> \<open>\<open>if run.correlation_id is None: run.correlation_id = uuid.uuid4()\<close>\<close>
  "ensure_correlation_id rid =
     bindE (the_run rid) (\<lambda>run.
       if run_correlation_id run = None
       then bindE uuid4 (\<lambda>u. set_run rid (\<lambda>r. r\<lparr>run_correlation_id := Some u\<rparr>))
       else ret ())"

definition emit_for_run :: "uuid \<Rightarrow> string \<Rightarrow> json_obj \<Rightarrow> unit svc" where
  \<comment> \<open>the idiom \<open>trace_id, span_id = child_span(run.trace_id); run.trace_id = trace_id; await emit(...)\<close>
     with aggregate \<open>pipeline_run\<close>, producer \<open>controller\<close>\<close>
  "emit_for_run rid event_type payload =
     bindE (the_run rid) (\<lambda>run.
     bindE (child_span (run_trace_id run)) (\<lambda>(trace_id, span_id).
     bindE (set_run rid (\<lambda>r. r\<lparr>run_trace_id := Some trace_id\<rparr>)) (\<lambda>_.
     bindE (correlation_id run) (\<lambda>corr.
     bindE (emit event_type (run_workspace_id run) ''pipeline_run'' rid corr trace_id span_id
        payload ''controller'') (\<lambda>_. ret ())))))"

section \<open>Usage\<close>

definition utc_day_start :: "datetime \<Rightarrow> datetime" where
  "utc_day_start now = (now div us_per_day) * us_per_day"

definition utc_month_start :: "datetime \<Rightarrow> datetime" where
  "utc_month_start now =
     (let day = now div us_per_day in (day - (day_of_month day - 1)) * us_per_day)"

definition log_counts :: "uuid \<Rightarrow> string option \<Rightarrow> datetime option \<Rightarrow> spend_log \<Rightarrow> bool" where
  "log_counts ws provider since l \<longleftrightarrow> sl_workspace_id l = ws
     \<and> (case since of None \<Rightarrow> True | Some d \<Rightarrow> d \<le> sl_occurred_at l)
     \<and> (case provider of None \<Rightarrow> True | Some p \<Rightarrow> sl_provider l = p)"

definition rsv_counts :: "uuid \<Rightarrow> string option \<Rightarrow> spend_reservation \<Rightarrow> bool" where
  "rsv_counts ws provider r \<longleftrightarrow> rsv_workspace_id r = ws \<and> rsv_status r = Reserved
     \<and> (case provider of None \<Rightarrow> True | Some p \<Rightarrow> rsv_provider r = p)"

definition spend_committed_plus_reserved ::
    "session \<Rightarrow> uuid \<Rightarrow> string option \<Rightarrow> datetime option \<Rightarrow> usd" where
  "spend_committed_plus_reserved s ws provider since =
     sum_list (map sl_cost_usd (filter (log_counts ws provider since) (spend_logs s)))
     + sum_list (map rsv_estimated_cost_usd (filter (rsv_counts ws provider) (reservations s)))"

definition load_spend_cap_for_update :: "uuid \<Rightarrow> string \<Rightarrow> spend_cap option svc" where
  "load_spend_cap_for_update workspace_id provider =
     bindE (gets (\<lambda>s. filter (\<lambda>c. cap_workspace_id c = workspace_id \<and> cap_provider c = Some provider) (caps s)))
       (\<lambda>rows. bindE (liftE (scalar_one_or_none rows)) (\<lambda>cap.
     case cap of
       Some c \<Rightarrow> ret (Some c)
     | None \<Rightarrow>
         bindE (gets (\<lambda>s. filter (\<lambda>c. cap_workspace_id c = workspace_id \<and> cap_provider c = None) (caps s)))
           (\<lambda>rows. liftE (scalar_one_or_none rows))))"

section \<open>Release, commit, reserve\<close>

definition release_spend :: "uuid \<Rightarrow> uuid \<Rightarrow> unit svc" where
  "release_spend rid reservation =
     bindE (the_rsv reservation) (\<lambda>r.
       if rsv_status r \<noteq> Reserved then ret ()
       else
         bindE (set_rsv reservation (\<lambda>r. r\<lparr>rsv_status := Released\<rparr>)) (\<lambda>_.
         emit_for_run rid SPEND_RELEASED [(''reservation_id'', JStr (uuid_str reservation))]))"

definition open_reservations :: "session \<Rightarrow> uuid \<Rightarrow> spend_reservation list" where
  "open_reservations s rid =
     filter (\<lambda>r. rsv_pipeline_run_id r = Some rid \<and> rsv_status r = Reserved) (reservations s)"

definition open_stage_reservations :: "session \<Rightarrow> uuid \<Rightarrow> content_stage \<Rightarrow> spend_reservation list" where
  "open_stage_reservations s rid stage =
     filter (\<lambda>r. rsv_pipeline_run_id r = Some rid \<and> rsv_stage r = Some stage \<and> rsv_status r = Reserved)
       (reservations s)"

definition release_all_reservations :: "uuid \<Rightarrow> unit svc" where
  "release_all_reservations rid =
     bindE (gets (\<lambda>s. map rsv_id (open_reservations s rid))) (for_each (release_spend rid))"

definition release_stage_reservations :: "uuid \<Rightarrow> content_stage \<Rightarrow> unit svc" where
  "release_stage_reservations rid stage =
     bindE (gets (\<lambda>s. map rsv_id (open_stage_reservations s rid stage))) (for_each (release_spend rid))"

definition commit_spend :: "uuid \<Rightarrow> uuid \<Rightarrow> usd \<Rightarrow> unit svc" where
  "commit_spend rid reservation actual_cost_usd =
     bindE (the_rsv reservation) (\<lambda>r.
       if rsv_status r = Committed then ret ()
       else if rsv_status r \<noteq> Reserved then raise (ValueError ''cannot commit reservation; expected reserved'')
       else if actual_cost_usd < 0 then raise (ValueError ''actual_cost_usd must be >= 0'')
       else
         let reserved = rsv_estimated_cost_usd r;
             actual = (if reserved < actual_cost_usd then reserved else actual_cost_usd)
         in
         bindE (set_rsv reservation (\<lambda>r. r\<lparr>rsv_status := Committed\<rparr>)) (\<lambda>_.
         bindE (the_run rid) (\<lambda>run.
         bindE uuid4 (\<lambda>u.
         bindE utcnow (\<lambda>now.
         bindE (modify (spend_logs_update (\<lambda>ls. ls @ [\<lparr>sl_id = u, sl_workspace_id = run_workspace_id run,
             sl_provider = rsv_provider r, sl_stage = rsv_stage r, sl_cost_usd = numeric4 actual,
             sl_occurred_at = now\<rparr>]))) (\<lambda>_.
         emit_for_run rid SPEND_COMMITTED
           [(''reservation_id'', JStr (uuid_str reservation)), (''actual_usd'', JNum actual),
            (''reserved_usd'', JNum reserved)]))))))"

datatype cap_kind = MissingCap | DailyCap | MonthlyCap

fun cap_kind_value :: "cap_kind \<Rightarrow> string" where
  "cap_kind_value MissingCap = ''missing_cap''"
| "cap_kind_value DailyCap = ''daily''"
| "cap_kind_value MonthlyCap = ''monthly''"

definition check_caps ::
    "session \<Rightarrow> uuid \<Rightarrow> string \<Rightarrow> usd \<Rightarrow> spend_cap option \<Rightarrow> (cap_kind \<times> json_obj) option" where
  \<comment> \<open>the cap test of \<open>reserve_spend\<close>: \<open>None\<close>, or what is exceeded with the payload entries for it\<close>
  "check_caps s ws provider estimate cap =
     (case cap of
        None \<Rightarrow> Some (MissingCap, [(''attempted_usd'', JNum estimate)])
      | Some c \<Rightarrow>
          let usage_provider = (if cap_provider c = None then None else Some provider);
              daily = spend_committed_plus_reserved s ws usage_provider (Some (utc_day_start (clock s)));
              monthly = spend_committed_plus_reserved s ws usage_provider (Some (utc_month_start (clock s)));
              info = [(''attempted_usd'', JNum estimate), (''daily_used_usd'', JNum daily),
                (''monthly_used_usd'', JNum monthly), (''daily_cap_usd'', JNum (cap_daily_cap_usd c)),
                (''monthly_cap_usd'', JNum (cap_monthly_cap_usd c))]
          in if cap_daily_cap_usd c < daily + estimate then Some (DailyCap, info)
             else if cap_monthly_cap_usd c < monthly + estimate then Some (MonthlyCap, info)
             else None)"

definition spend_hold :: "uuid \<Rightarrow> json_obj \<Rightarrow> unit svc" where
  \<comment> \<open>pausing the run when a cap is exceeded\<close>
  "spend_hold rid payload =
     bindE (set_run rid (\<lambda>r. r\<lparr>run_status := RunPaused, run_pause_reason := Some ''spend_hold''\<rparr>)) (\<lambda>_.
     bindE (ensure_correlation_id rid) (\<lambda>_.
     emit_for_run rid SPEND_BUDGET_EXCEEDED payload))"

definition reserve_spend ::
    "uuid \<Rightarrow> content_stage \<Rightarrow> string \<Rightarrow> usd \<Rightarrow> uuid option svc" where
  "reserve_spend rid stage provider estimated_cost_usd =
     bindE (release_stage_reservations rid stage) (\<lambda>_.
     bindE (the_run rid) (\<lambda>run.
     bindE (load_spend_cap_for_update (run_workspace_id run) provider) (\<lambda>cap.
     bindE (gets (\<lambda>s. check_caps s (run_workspace_id run) provider estimated_cost_usd cap)) (\<lambda>exceeded.
       case exceeded of
         Some (kind, info) \<Rightarrow>
           bindE (spend_hold rid
             ([(''provider'', JStr provider), (''stage'', JStr (stage_value stage))] @ info
              @ [(''cap_kind'', JStr (cap_kind_value kind))])) (\<lambda>_. ret None)
       | None \<Rightarrow>
           bindE uuid4 (\<lambda>u.
           bindE utcnow (\<lambda>now.
           bindE (modify (reservations_update (\<lambda>rs. rs @ [\<lparr>rsv_id = u,
               rsv_workspace_id = run_workspace_id run, rsv_pipeline_run_id = Some rid,
               rsv_provider = provider, rsv_stage = Some stage,
               rsv_estimated_cost_usd = numeric4 estimated_cost_usd, rsv_status = Reserved,
               rsv_created_at = now\<rparr>]))) (\<lambda>_.
           bindE (ensure_correlation_id rid) (\<lambda>_.
           bindE (emit_for_run rid SPEND_RESERVED
             [(''reservation_id'', JStr (uuid_str u)), (''estimated_usd'', JNum estimated_cost_usd)])
             (\<lambda>_. ret (Some u)))))))))) "

context core_frame
begin

lemma eff_correlation_id: "effects R (correlation_id run)"
  unfolding correlation_id_def by (intro core_rules)

lemma eff_ensure_correlation_id: "effects R (ensure_correlation_id rid)"
  unfolding ensure_correlation_id_def by (intro core_rules)

lemma eff_emit_for_run: "engine_event et \<Longrightarrow> effects R (emit_for_run rid et pl)"
  unfolding emit_for_run_def by (intro core_rules eff_correlation_id)

lemma eff_release_spend: "effects R (release_spend rid k)"
  unfolding release_spend_def by (intro core_rules eff_emit_for_run)

lemma eff_release_all_reservations: "effects R (release_all_reservations rid)"
  unfolding release_all_reservations_def by (intro core_rules eff_release_spend)

lemma eff_release_stage_reservations: "effects R (release_stage_reservations rid st)"
  unfolding release_stage_reservations_def by (intro core_rules eff_release_spend)

lemma eff_commit_spend: "effects R (commit_spend rid k a)"
  unfolding commit_spend_def Let_def by (intro core_rules eff_emit_for_run)

lemma eff_load_spend_cap: "effects R (load_spend_cap_for_update ws p)"
  unfolding load_spend_cap_for_update_def by (intro core_rules)

lemma eff_spend_hold: "effects R (spend_hold rid pl)"
  unfolding spend_hold_def by (intro core_rules eff_emit_for_run eff_ensure_correlation_id)

lemma eff_reserve_spend: "effects R (reserve_spend rid st p e)"
  unfolding reserve_spend_def
  by (intro core_rules eff_emit_for_run eff_ensure_correlation_id eff_spend_hold
      eff_release_stage_reservations eff_load_spend_cap)

lemmas spend_rules = pressure_rules eff_correlation_id eff_ensure_correlation_id eff_emit_for_run
  eff_release_spend eff_release_all_reservations eff_release_stage_reservations eff_commit_spend
  eff_load_spend_cap eff_spend_hold eff_reserve_spend

end

section \<open>Symbolic execution of the helpers\<close>

definition efr_st :: "uuid \<Rightarrow> string \<Rightarrow> json_obj \<Rightarrow> session \<Rightarrow> session" where
  "efr_st rid et pl s = state_after (emit_for_run rid et pl) s"

lemma emit_for_run_apply:
  "find_run s rid = Some run \<Longrightarrow> emit_for_run rid et pl s = (efr_st rid et pl s, Inr ())"
  by (simp add: efr_st_def emit_for_run_def correlation_id_def split: option.splits)

lemma bindE_emit_for_run [simp]:
  "find_run s rid = Some run \<Longrightarrow> bindE (emit_for_run rid et pl) f s = f () (efr_st rid et pl s)"
  by (rule bindE_Inr) (rule emit_for_run_apply)

lemma efr_st_frame [simp]:
  "clock (efr_st rid et pl s) = clock s"
  "rng (efr_st rid et pl s) = rng s"
  "draws (efr_st rid et pl s) = draws s"
  "locked (efr_st rid et pl s) = locked s"
  "get_settings (efr_st rid et pl s) = get_settings s"
  "workspaces (efr_st rid et pl s) = workspaces s"
  "definitions (efr_st rid et pl s) = definitions s"
  "wf_stages (efr_st rid et pl s) = wf_stages s"
  "wf_transitions (efr_st rid et pl s) = wf_transitions s"
  "items (efr_st rid et pl s) = items s"
  "versions (efr_st rid et pl s) = versions s"
  "stage_runs (efr_st rid et pl s) = stage_runs s"
  "assignments (efr_st rid et pl s) = assignments s"
  "workers (efr_st rid et pl s) = workers s"
  "jobs (efr_st rid et pl s) = jobs s"
  "limits (efr_st rid et pl s) = limits s"
  "bp_states (efr_st rid et pl s) = bp_states s"
  "budgets (efr_st rid et pl s) = budgets s"
  "effect_keys (efr_st rid et pl s) = effect_keys s"
  "caps (efr_st rid et pl s) = caps s"
  "spend_logs (efr_st rid et pl s) = spend_logs s"
  "gates (efr_st rid et pl s) = gates s"
  "decisions (efr_st rid et pl s) = decisions s"
  "consumers (efr_st rid et pl s) = consumers s"
  "checkpoints (efr_st rid et pl s) = checkpoints s"
  "dead_letters (efr_st rid et pl s) = dead_letters s"
  "claim_audits (efr_st rid et pl s) = claim_audits s"
  "recovery_audits (efr_st rid et pl s) = recovery_audits s"
  "reservations (efr_st rid et pl s) = reservations s"
  by (simp_all add: efr_st_def emit_for_run_def correlation_id_def split: option.splits)

lemma efr_st_runs:
  "runs (efr_st rid et pl s) = upd_row run_id rid
     (\<lambda>r. r\<lparr>run_trace_id := Some (span_tr (case find_run s rid of None \<Rightarrow> None | Some q \<Rightarrow> run_trace_id q) s)\<rparr>)
     (runs s)"
  by (simp add: efr_st_def emit_for_run_def correlation_id_def upd_row_absent find_row_None
      split: option.splits)

lemma find_run_efr [simp]:
  "find_run (efr_st rid et pl s) k =
    (if k = rid then map_option (\<lambda>r. r\<lparr>run_trace_id := Some (span_tr (run_trace_id r) s)\<rparr>) (find_run s k)
     else find_run s k)"
  by (simp add: efr_st_runs find_row_upd_row split: option.splits)

lemma efr_st_outbox:
  "find_run s rid = Some run \<Longrightarrow> \<exists>ev. outbox (efr_st rid et pl s) = outbox s @ [ev]
    \<and> ev_event_type ev = et \<and> ev_payload ev = pl \<and> ev_aggregate_type ev = ''pipeline_run''
    \<and> ev_aggregate_id ev = rid \<and> ev_workspace_id ev = run_workspace_id run"
  by (simp add: efr_st_def emit_for_run_def correlation_id_def split: option.splits)

lemma efr_st_next_uuid: "next_uuid s \<le> next_uuid (efr_st rid et pl s)"
  using span_st_next_uuid [of s]
  by (simp add: efr_st_def emit_for_run_def correlation_id_def less_imp_le le_SucI split: option.splits)

definition eci_st :: "uuid \<Rightarrow> session \<Rightarrow> session" where
  "eci_st rid s = state_after (ensure_correlation_id rid) s"

lemma bindE_ensure_correlation_id [simp]:
  "find_run s rid = Some run \<Longrightarrow> bindE (ensure_correlation_id rid) f s = f () (eci_st rid s)"
  by (rule bindE_Inr) (simp add: eci_st_def ensure_correlation_id_def split: option.splits)

lemma eci_st_frame [simp]:
  "clock (eci_st rid s) = clock s"
  "rng (eci_st rid s) = rng s"
  "draws (eci_st rid s) = draws s"
  "locked (eci_st rid s) = locked s"
  "get_settings (eci_st rid s) = get_settings s"
  "workspaces (eci_st rid s) = workspaces s"
  "definitions (eci_st rid s) = definitions s"
  "wf_stages (eci_st rid s) = wf_stages s"
  "wf_transitions (eci_st rid s) = wf_transitions s"
  "items (eci_st rid s) = items s"
  "versions (eci_st rid s) = versions s"
  "stage_runs (eci_st rid s) = stage_runs s"
  "assignments (eci_st rid s) = assignments s"
  "workers (eci_st rid s) = workers s"
  "jobs (eci_st rid s) = jobs s"
  "limits (eci_st rid s) = limits s"
  "bp_states (eci_st rid s) = bp_states s"
  "budgets (eci_st rid s) = budgets s"
  "effect_keys (eci_st rid s) = effect_keys s"
  "caps (eci_st rid s) = caps s"
  "spend_logs (eci_st rid s) = spend_logs s"
  "gates (eci_st rid s) = gates s"
  "decisions (eci_st rid s) = decisions s"
  "consumers (eci_st rid s) = consumers s"
  "checkpoints (eci_st rid s) = checkpoints s"
  "dead_letters (eci_st rid s) = dead_letters s"
  "claim_audits (eci_st rid s) = claim_audits s"
  "recovery_audits (eci_st rid s) = recovery_audits s"
  "reservations (eci_st rid s) = reservations s"
  "outbox (eci_st rid s) = outbox s"
  by (simp_all add: eci_st_def ensure_correlation_id_def split: option.splits)

lemma find_run_eci [simp]:
  "find_run (eci_st rid s) k =
    (if k = rid then map_option (\<lambda>r. r\<lparr>run_correlation_id :=
        (case run_correlation_id r of None \<Rightarrow> Some (next_uuid s) | Some c \<Rightarrow> Some c)\<rparr>) (find_run s k)
     else find_run s k)"
  by (cases "find_run s rid")
    (auto simp: eci_st_def ensure_correlation_id_def find_row_upd_row split: option.splits)

lemma eci_st_next_uuid: "next_uuid s \<le> next_uuid (eci_st rid s)"
  by (simp add: eci_st_def ensure_correlation_id_def split: option.splits)

section \<open>Releasing\<close>

definition unique_rsv :: "session \<Rightarrow> bool" where
  "unique_rsv s \<longleftrightarrow> distinct (map rsv_id (reservations s))"

definition release_rows :: "(spend_reservation \<Rightarrow> bool) \<Rightarrow> spend_reservation list \<Rightarrow> spend_reservation list" where
  "release_rows P rows = map (\<lambda>r. if P r \<and> rsv_status r = Reserved then r\<lparr>rsv_status := Released\<rparr> else r) rows"

lemma map_id_release_rows [simp]: "map rsv_id (release_rows P rows) = map rsv_id rows"
  by (simp add: release_rows_def comp_def cong: map_cong)

text \<open>Everything releasing may do, apart from the reservations it releases.\<close>

definition released_from :: "session \<Rightarrow> session \<Rightarrow> bool" where
  "released_from s t \<longleftrightarrow>
     clock t = clock s \<and>
     rng t = rng s \<and>
     draws t = draws s \<and>
     locked t = locked s \<and>
     get_settings t = get_settings s \<and>
     workspaces t = workspaces s \<and>
     definitions t = definitions s \<and>
     wf_stages t = wf_stages s \<and>
     wf_transitions t = wf_transitions s \<and>
     items t = items s \<and>
     versions t = versions s \<and>
     stage_runs t = stage_runs s \<and>
     assignments t = assignments s \<and>
     workers t = workers s \<and>
     jobs t = jobs s \<and>
     limits t = limits s \<and>
     bp_states t = bp_states s \<and>
     budgets t = budgets s \<and>
     effect_keys t = effect_keys s \<and>
     caps t = caps s \<and>
     spend_logs t = spend_logs s \<and>
     gates t = gates s \<and>
     decisions t = decisions s \<and>
     consumers t = consumers s \<and>
     checkpoints t = checkpoints s \<and>
     dead_letters t = dead_letters s \<and>
     claim_audits t = claim_audits s \<and>
     recovery_audits t = recovery_audits s \<and>
     map (\<lambda>r. r\<lparr>run_trace_id := None\<rparr>) (runs t) = map (\<lambda>r. r\<lparr>run_trace_id := None\<rparr>) (runs s) \<and>
     next_uuid s \<le> next_uuid t"

lemma released_from_efr: "released_from s (efr_st rid et pl s)"
  by (simp add: released_from_def efr_st_runs efr_st_next_uuid upd_row_def comp_def)

lemma released_from_trans: "released_from s t \<Longrightarrow> released_from t u \<Longrightarrow> released_from s u"
  by (simp add: released_from_def)

lemma released_from_refl: "released_from s s"
  by (simp add: released_from_def)

lemma find_run_released:
  assumes "released_from s t"
  shows "map_option (\<lambda>r. r\<lparr>run_trace_id := None\<rparr>) (find_run t k) =
    map_option (\<lambda>r. r\<lparr>run_trace_id := None\<rparr>) (find_run s k)"
proof -
  have h: "map_option (\<lambda>r. r\<lparr>run_trace_id := None\<rparr>) (find_row run_id k rows) =
      find_row run_id k (map (\<lambda>r. r\<lparr>run_trace_id := None\<rparr>) rows)" for rows
    by (induction rows) auto
  from assms have "map (\<lambda>r. r\<lparr>run_trace_id := None\<rparr>) (runs t) =
      map (\<lambda>r. r\<lparr>run_trace_id := None\<rparr>) (runs s)"
    unfolding released_from_def by blast
  then show ?thesis by (simp only: h)
qed

lemma find_run_releasedE:
  assumes "released_from s t" and "find_run s k = Some run"
  obtains run' where "find_run t k = Some run'" and "run'\<lparr>run_trace_id := None\<rparr> = run\<lparr>run_trace_id := None\<rparr>"
  using find_run_released [OF assms(1), of k] assms(2) by (auto split: option.splits)

lemma release_spend_step:
  assumes "find_run s rid = Some run" and "unique_rsv s" and "k \<in> rsv_id ` set (reservations s)"
  shows "\<exists>t. release_spend rid k s = (t, Inr ()) \<and> released_from s t
    \<and> reservations t = release_rows (\<lambda>r. rsv_id r = k) (reservations s)"
proof -
  obtain r where r: "r \<in> set (reservations s)" "rsv_id r = k" using assms(3) by blast
  then have find: "find_rsv s k = Some r"
    using find_row_mem assms(2) by (fastforce simp: unique_rsv_def)
  have only: "r' = r" if "r' \<in> set (reservations s)" "rsv_id r' = k" for r'
    using that r assms(2) by (auto simp: unique_rsv_def distinct_map inj_on_def)
  show ?thesis
  proof (cases "rsv_status r = Reserved")
    case True
    let ?s = "reservations_update (upd_row rsv_id k (\<lambda>r. r\<lparr>rsv_status := Released\<rparr>)) s"
    have "upd_row rsv_id k (\<lambda>r. r\<lparr>rsv_status := Released\<rparr>) (reservations s) =
        release_rows (\<lambda>r. rsv_id r = k) (reservations s)"
      using only True by (auto simp: upd_row_def release_rows_def)
    moreover have "released_from s ?s" by (simp add: released_from_def)
    moreover have "find_run ?s rid = Some run" using assms(1) by simp
    ultimately show ?thesis
      using True find
        released_from_trans [OF _ released_from_efr, of s ?s rid SPEND_RELEASED
            "[(''reservation_id'', JStr (uuid_str k))]"]
      by (simp add: release_spend_def emit_for_run_apply)
  next
    case False
    then have "release_rows (\<lambda>r. rsv_id r = k) (reservations s) = reservations s"
      using only by (auto simp: release_rows_def intro!: map_idI)
    with False find show ?thesis by (simp add: release_spend_def released_from_refl)
  qed
qed

lemma release_rows_compose:
  "release_rows Q (release_rows P rows) = release_rows (\<lambda>r. P r \<or> Q r) rows"
  if "\<And>r. Q (r\<lparr>rsv_status := Released\<rparr>) = Q r"
  using that by (auto simp: release_rows_def comp_def)

lemma release_each:
  assumes "find_run s rid = Some run" and "unique_rsv s" and "set ks \<subseteq> rsv_id ` set (reservations s)"
  shows "\<exists>t. for_each (release_spend rid) ks s = (t, Inr ()) \<and> released_from s t
    \<and> reservations t = release_rows (\<lambda>r. rsv_id r \<in> set ks) (reservations s)"
  using assms
proof (induction ks arbitrary: s run)
  case Nil
  then show ?case by (simp add: released_from_refl release_rows_def)
next
  case (Cons k ks)
  from Cons.prems release_spend_step [of rid s run k] obtain t where
    t: "release_spend rid k s = (t, Inr ())" "released_from s t"
      "reservations t = release_rows (\<lambda>r. rsv_id r = k) (reservations s)" by auto
  obtain run' where "find_run t rid = Some run'"
    using find_run_releasedE [OF t(2) Cons.prems(1)] by blast
  moreover have ids: "map rsv_id (reservations t) = map rsv_id (reservations s)" by (simp add: t(3))
  moreover have "set ks \<subseteq> rsv_id ` set (reservations t)"
    using Cons.prems(3) ids by (metis list.set_map list.set_intros(2) subset_iff)
  ultimately obtain u where "for_each (release_spend rid) ks t = (u, Inr ())" "released_from t u"
      "reservations u = release_rows (\<lambda>r. rsv_id r \<in> set ks) (reservations t)"
    using Cons.IH [of t run'] Cons.prems(2) by (auto simp: unique_rsv_def)
  moreover have "release_rows (\<lambda>r. rsv_id r \<in> set ks) (release_rows (\<lambda>r. rsv_id r = k) (reservations s)) =
      release_rows (\<lambda>r. rsv_id r \<in> set (k # ks)) (reservations s)"
    by (subst release_rows_compose) auto
  ultimately show ?case
    using t released_from_trans [OF t(2)] by (simp add: bindE_Inr [where m = "release_spend rid k", OF t(1)])
qed

lemma release_rows_ids:
  assumes "distinct (map rsv_id rows)"
  shows "release_rows (\<lambda>r. rsv_id r \<in> rsv_id ` {r \<in> set rows. Q r}) rows = release_rows Q rows"
proof -
  have "rsv_id r \<in> rsv_id ` {r \<in> set rows. Q r} \<longleftrightarrow> Q r" if "r \<in> set rows" for r
    using that assms by (auto simp: distinct_map inj_on_def)
  then show ?thesis by (auto simp: release_rows_def)
qed

lemma release_all_apply:
  assumes "find_run s rid = Some run" and "unique_rsv s"
  shows "\<exists>t. release_all_reservations rid s = (t, Inr ()) \<and> released_from s t
    \<and> reservations t = release_rows (\<lambda>r. rsv_pipeline_run_id r = Some rid) (reservations s)"
proof -
  let ?ks = "map rsv_id (open_reservations s rid)"
  have "set ?ks \<subseteq> rsv_id ` set (reservations s)" by (auto simp: open_reservations_def)
  from release_each [OF assms this] obtain t where
    t: "for_each (release_spend rid) ?ks s = (t, Inr ())" "released_from s t"
      "reservations t = release_rows (\<lambda>r. rsv_id r \<in> set ?ks) (reservations s)" by blast
  have "release_rows (\<lambda>r. rsv_id r \<in> set ?ks) (reservations s) =
      release_rows (\<lambda>r. rsv_pipeline_run_id r = Some rid \<and> rsv_status r = Reserved) (reservations s)"
    using release_rows_ids [of "reservations s"] assms(2)
    by (simp add: open_reservations_def unique_rsv_def)
  also have "\<dots> = release_rows (\<lambda>r. rsv_pipeline_run_id r = Some rid) (reservations s)"
    by (auto simp: release_rows_def)
  finally show ?thesis using t by (auto simp: release_all_reservations_def)
qed

lemma release_stage_apply:
  assumes "find_run s rid = Some run" and "unique_rsv s"
  shows "\<exists>t. release_stage_reservations rid stage s = (t, Inr ()) \<and> released_from s t
    \<and> reservations t = release_rows
        (\<lambda>r. rsv_pipeline_run_id r = Some rid \<and> rsv_stage r = Some stage) (reservations s)"
proof -
  let ?ks = "map rsv_id (open_stage_reservations s rid stage)"
  have "set ?ks \<subseteq> rsv_id ` set (reservations s)" by (auto simp: open_stage_reservations_def)
  from release_each [OF assms this] obtain t where
    t: "for_each (release_spend rid) ?ks s = (t, Inr ())" "released_from s t"
      "reservations t = release_rows (\<lambda>r. rsv_id r \<in> set ?ks) (reservations s)" by blast
  have "release_rows (\<lambda>r. rsv_id r \<in> set ?ks) (reservations s) =
      release_rows (\<lambda>r. rsv_pipeline_run_id r = Some rid \<and> rsv_stage r = Some stage
        \<and> rsv_status r = Reserved) (reservations s)"
    using release_rows_ids [of "reservations s"] assms(2)
    by (simp add: open_stage_reservations_def unique_rsv_def)
  also have "\<dots> = release_rows (\<lambda>r. rsv_pipeline_run_id r = Some rid \<and> rsv_stage r = Some stage) (reservations s)"
    by (auto simp: release_rows_def)
  finally show ?thesis using t by (auto simp: release_stage_reservations_def)
qed

section \<open>Reserving\<close>

definition applicable_cap :: "spend_cap list \<Rightarrow> uuid \<Rightarrow> string \<Rightarrow> py_error + spend_cap option" where
  "applicable_cap cs ws p =
     (case scalar_one_or_none (filter (\<lambda>c. cap_workspace_id c = ws \<and> cap_provider c = Some p) cs) of
        Inl e \<Rightarrow> Inl e
      | Inr (Some c) \<Rightarrow> Inr (Some c)
      | Inr None \<Rightarrow> scalar_one_or_none (filter (\<lambda>c. cap_workspace_id c = ws \<and> cap_provider c = None) cs))"

lemma bindE_load_cap [simp]:
  "bindE (load_spend_cap_for_update ws p) f s =
    (case applicable_cap (caps s) ws p of Inl e \<Rightarrow> (s, Inl e) | Inr c \<Rightarrow> f c s)"
  by (simp add: bindE_def load_spend_cap_for_update_def applicable_cap_def liftE_def
      split: sum.splits option.splits)

definition held :: "uuid \<Rightarrow> json_obj \<Rightarrow> session \<Rightarrow> session" where
  "held rid pl s = efr_st rid SPEND_BUDGET_EXCEEDED pl (eci_st rid
     (runs_update (upd_row run_id rid
       (\<lambda>r. r\<lparr>run_status := RunPaused, run_pause_reason := Some ''spend_hold''\<rparr>)) s))"

definition granted_rsv :: "pipeline_run \<Rightarrow> content_stage \<Rightarrow> string \<Rightarrow> usd \<Rightarrow> session \<Rightarrow> spend_reservation" where
  "granted_rsv run stage p est s = \<lparr>rsv_id = next_uuid s,
     rsv_workspace_id = run_workspace_id run, rsv_pipeline_run_id = Some (run_id run),
     rsv_provider = p, rsv_stage = Some stage, rsv_estimated_cost_usd = numeric4 est,
     rsv_status = Reserved, rsv_created_at = clock s\<rparr>"

lemma granted_rsv_sel [simp]:
  "rsv_id (granted_rsv run stage p est s) = next_uuid s"
  "rsv_workspace_id (granted_rsv run stage p est s) = run_workspace_id run"
  "rsv_pipeline_run_id (granted_rsv run stage p est s) = Some (run_id run)"
  "rsv_stage (granted_rsv run stage p est s) = Some stage"
  "rsv_provider (granted_rsv run stage p est s) = p"
  "rsv_estimated_cost_usd (granted_rsv run stage p est s) = numeric4 est"
  "rsv_status (granted_rsv run stage p est s) = Reserved"
  by (simp_all add: granted_rsv_def)

definition reserved_st :: "uuid \<Rightarrow> pipeline_run \<Rightarrow> content_stage \<Rightarrow> string \<Rightarrow> usd \<Rightarrow> session \<Rightarrow> session" where
  "reserved_st rid run stage p est s =
     efr_st rid SPEND_RESERVED
       [(''reservation_id'', JStr (uuid_str (next_uuid s))), (''estimated_usd'', JNum est)]
       (eci_st rid (reservations_update (\<lambda>rs. rs @ [granted_rsv run stage p est s])
          (s\<lparr>next_uuid := Suc (next_uuid s)\<rparr>)))"

lemma spend_hold_apply:
  "find_run s rid = Some run \<Longrightarrow> spend_hold rid pl s = (held rid pl s, Inr ())"
  by (simp add: spend_hold_def held_def find_row_upd_row emit_for_run_apply)

lemma bindE_spend_hold [simp]:
  "find_run s rid = Some run \<Longrightarrow> bindE (spend_hold rid pl) f s = f () (held rid pl s)"
  by (rule bindE_Inr) (rule spend_hold_apply)

lemma held_frame [simp]:
  "reservations (held rid pl s) = reservations s"
  "spend_logs (held rid pl s) = spend_logs s"
  "assignments (held rid pl s) = assignments s"
  "jobs (held rid pl s) = jobs s"
  "gates (held rid pl s) = gates s"
  "workers (held rid pl s) = workers s"
  "clock (held rid pl s) = clock s"
  by (simp_all add: held_def)

lemma find_run_held:
  "find_run s rid = Some run \<Longrightarrow> \<exists>run'. find_run (held rid pl s) rid = Some run'
    \<and> run_status run' = RunPaused \<and> run_pause_reason run' = Some ''spend_hold''
    \<and> run_current_stage run' = run_current_stage run \<and> run_workspace_id run' = run_workspace_id run"
  by (simp add: held_def find_row_upd_row)

lemma find_run_id: "find_run s k = Some run \<Longrightarrow> run_id run = k"
  by (auto dest: find_row_SomeD)

definition reserve_outcome ::
    "uuid \<Rightarrow> pipeline_run \<Rightarrow> pipeline_run \<Rightarrow> content_stage \<Rightarrow> string \<Rightarrow> usd \<Rightarrow> spend_cap list \<Rightarrow> session
      \<Rightarrow> session \<times> (py_error + uuid option)" where
  \<comment> \<open>what \<open>reserve_spend\<close> comes to once the stage's older reservations are released\<close>
  "reserve_outcome rid run run0 stage p est cs s0 =
     (case applicable_cap cs (run_workspace_id run) p of
        Inl e \<Rightarrow> (s0, Inl e)
      | Inr cap \<Rightarrow>
          (case check_caps s0 (run_workspace_id run) p est cap of
             None \<Rightarrow> (reserved_st rid run0 stage p est s0, Inr (Some (next_uuid s0)))
           | Some (kind, info) \<Rightarrow>
               (held rid ([(''provider'', JStr p), (''stage'', JStr (stage_value stage))] @ info
                  @ [(''cap_kind'', JStr (cap_kind_value kind))]) s0, Inr None)))"

lemma reserve_spend_released:
  assumes "find_run s rid = Some run" and "unique_rsv s"
  obtains s0 run0 where "released_from s s0" "find_run s0 rid = Some run0"
    "run0\<lparr>run_trace_id := None\<rparr> = run\<lparr>run_trace_id := None\<rparr>"
    "reservations s0 = release_rows
       (\<lambda>r. rsv_pipeline_run_id r = Some rid \<and> rsv_stage r = Some stage) (reservations s)"
    "reserve_spend rid stage p est s =
      reserve_outcome rid run run0 stage p est (caps s) s0"
proof -
  from release_stage_apply [OF assms, of stage] obtain s0 where
    s0: "release_stage_reservations rid stage s = (s0, Inr ())" "released_from s s0"
      "reservations s0 = release_rows
        (\<lambda>r. rsv_pipeline_run_id r = Some rid \<and> rsv_stage r = Some stage) (reservations s)" by blast
  from find_run_releasedE [OF s0(2) assms(1)] obtain run0 where
    run0: "find_run s0 rid = Some run0" "run0\<lparr>run_trace_id := None\<rparr> = run\<lparr>run_trace_id := None\<rparr>" .
  have same: "run_workspace_id run0 = run_workspace_id run" "caps s0 = caps s"
    using run0(2) s0(2) by (cases run0, cases run, simp, simp add: released_from_def)
  have "reserve_spend rid stage p est s = reserve_outcome rid run run0 stage p est (caps s) s0"
    using run0(1) find_run_id [OF run0(1)]
    by (simp add: reserve_outcome_def reserve_spend_def same reserved_st_def granted_rsv_def
        bindE_Inr [where m = "release_stage_reservations rid stage", OF s0(1)]
        split: sum.splits option.splits prod.splits)
  with that [OF s0(2) run0 s0(3)] show ?thesis by blast
qed

lemma spend_usage_cong:
  "spend_logs t = spend_logs s \<Longrightarrow> reservations t = reservations s \<Longrightarrow>
    spend_committed_plus_reserved t ws p d = spend_committed_plus_reserved s ws p d"
  by (simp add: spend_committed_plus_reserved_def)

lemma reserved_st_tables [simp]:
  "reservations (reserved_st rid run stage p est s) = reservations s @ [granted_rsv run stage p est s]"
  "spend_logs (reserved_st rid run stage p est s) = spend_logs s"
  "clock (reserved_st rid run stage p est s) = clock s"
  by (simp_all add: reserved_st_def)

lemma usage_reserved_st:
  "spend_committed_plus_reserved (reserved_st rid run stage p est s) (run_workspace_id run) q d =
    spend_committed_plus_reserved s (run_workspace_id run) q d
      + (if q = None \<or> q = Some p then numeric4 est else 0)"
  by (simp add: spend_committed_plus_reserved_def rsv_counts_def split: option.splits)

lemma open_stage_released:
  "reservations t = release_rows (\<lambda>r. rsv_pipeline_run_id r = Some rid \<and> rsv_stage r = Some stage) rows
    \<Longrightarrow> open_stage_reservations t rid stage = []"
  by (auto simp: open_stage_reservations_def release_rows_def filter_empty_conv)

lemma reserve_opens_one:
  assumes "find_run s rid = Some run" and "unique_rsv s"
    and "reserve_spend rid stage p est s = (t, Inr (Some u))"
  shows "map rsv_id (open_stage_reservations t rid stage) = [u]"
proof -
  from assms(1,2) obtain s0 run0 where
    s0: "find_run s0 rid = Some run0"
      "reservations s0 = release_rows
         (\<lambda>r. rsv_pipeline_run_id r = Some rid \<and> rsv_stage r = Some stage) (reservations s)"
    and eq: "reserve_spend rid stage p est s = reserve_outcome rid run run0 stage p est (caps s) s0"
    by (rule reserve_spend_released)
  have "t = reserved_st rid run0 stage p est s0" "u = next_uuid s0"
    using eq assms(3) by (auto simp: reserve_outcome_def split: sum.splits option.splits prod.splits)
  with open_stage_released [OF s0(2)] find_run_id [OF s0(1)] show ?thesis
    by (simp add: open_stage_reservations_def)
qed

text \<open>
  C1: a reservation is granted only within the budget. When \<open>reserve_spend\<close> returns a
  reservation, the workspace has an applicable cap, and committed plus reserved spend, the
  new reservation included, is within both its daily and its monthly limit; the stage of
  the run then holds exactly that one open reservation.
\<close>

theorem reserve_spend_respects_caps:
  assumes "find_run s rid = Some run" and "unique_rsv s"
    and "numeric4 est = est"
    and "reserve_spend rid stage p est s = (t, Inr (Some u))"
  shows "\<exists>c. applicable_cap (caps s) (run_workspace_id run) p = Inr (Some c)
    \<and> (let scope = (if cap_provider c = None then None else Some p) in
        spend_committed_plus_reserved t (run_workspace_id run) scope (Some (utc_day_start (clock s)))
          \<le> cap_daily_cap_usd c
      \<and> spend_committed_plus_reserved t (run_workspace_id run) scope (Some (utc_month_start (clock s)))
          \<le> cap_monthly_cap_usd c)
    \<and> map rsv_id (open_stage_reservations t rid stage) = [u]"
proof -
  from assms(1,2) obtain s0 run0 where
    s0: "released_from s s0" "find_run s0 rid = Some run0"
      "run0\<lparr>run_trace_id := None\<rparr> = run\<lparr>run_trace_id := None\<rparr>"
      "reservations s0 = release_rows
         (\<lambda>r. rsv_pipeline_run_id r = Some rid \<and> rsv_stage r = Some stage) (reservations s)"
    and eq: "reserve_spend rid stage p est s =
      reserve_outcome rid run run0 stage p est (caps s) s0"
    by (rule reserve_spend_released)
  have ws: "run_workspace_id run0 = run_workspace_id run"
    using s0(3) by (cases run0, cases run) simp
  have clk: "clock s0 = clock s" using s0(1) by (simp add: released_from_def)
  from eq assms(4) obtain c where
    c: "applicable_cap (caps s) (run_workspace_id run) p = Inr (Some c)"
      "check_caps s0 (run_workspace_id run) p est (Some c) = None"
    and t: "t = reserved_st rid run0 stage p est s0" "u = next_uuid s0"
    by (auto simp: reserve_outcome_def check_caps_def split: sum.splits option.splits prod.splits)
  have usage: "spend_committed_plus_reserved t (run_workspace_id run)
      (if cap_provider c = None then None else Some p) d =
      spend_committed_plus_reserved s0 (run_workspace_id run)
      (if cap_provider c = None then None else Some p) d + est" for d
    unfolding t ws [symmetric] by (simp add: usage_reserved_st assms(3))
  with c reserve_opens_one [OF assms(1,2,4)] show ?thesis
    by (auto simp: usage clk check_caps_def Let_def not_less split: if_splits)
qed

text \<open>
  Spend protection fails closed. Without an applicable cap nothing is reserved: the
  run is paused as \<open>spend_hold\<close> at its stage, the stage holds no open reservation
  afterwards, and the last event says the budget was exceeded.
\<close>

theorem reserve_spend_fails_closed:
  assumes "find_run s rid = Some run" and "unique_rsv s"
    and "applicable_cap (caps s) (run_workspace_id run) p = Inr None"
  shows "\<exists>t run'. reserve_spend rid stage p est s = (t, Inr None)
    \<and> find_run t rid = Some run' \<and> run_status run' = RunPaused
    \<and> run_pause_reason run' = Some ''spend_hold''
    \<and> run_current_stage run' = run_current_stage run
    \<and> open_stage_reservations t rid stage = [] \<and> spend_logs t = spend_logs s
    \<and> ev_event_type (last (outbox t)) = SPEND_BUDGET_EXCEEDED"
proof -
  from assms(1,2) obtain s0 run0 where
    s0: "released_from s s0" "find_run s0 rid = Some run0"
      "run0\<lparr>run_trace_id := None\<rparr> = run\<lparr>run_trace_id := None\<rparr>"
      "reservations s0 = release_rows
         (\<lambda>r. rsv_pipeline_run_id r = Some rid \<and> rsv_stage r = Some stage) (reservations s)"
    and eq: "reserve_spend rid stage p est s =
      reserve_outcome rid run run0 stage p est (caps s) s0"
    by (rule reserve_spend_released)
  let ?pl = "[(''provider'', JStr p), (''stage'', JStr (stage_value stage)),
     (''attempted_usd'', JNum est), (''cap_kind'', JStr (cap_kind_value MissingCap))]"
  have t: "reserve_spend rid stage p est s = (held rid ?pl s0, Inr None)"
    by (simp add: eq assms(3) reserve_outcome_def check_caps_def)
  obtain run' where run': "find_run (held rid ?pl s0) rid = Some run'" "run_status run' = RunPaused"
      "run_pause_reason run' = Some ''spend_hold''" "run_current_stage run' = run_current_stage run0"
    using find_run_held [OF s0(2), of ?pl] by blast
  have "run_current_stage run0 = run_current_stage run" using s0(3) by (cases run0, cases run) simp
  moreover have "open_stage_reservations (held rid ?pl s0) rid stage = []"
    by (rule open_stage_released) (simp add: s0(4))
  moreover have "spend_logs s0 = spend_logs s" using s0(1) by (simp add: released_from_def)
  moreover have "ev_event_type (last (outbox (held rid ?pl s0))) = SPEND_BUDGET_EXCEEDED"
  proof -
    let ?s1 = "eci_st rid (runs_update (upd_row run_id rid
      (\<lambda>r. r\<lparr>run_status := RunPaused, run_pause_reason := Some ''spend_hold''\<rparr>)) s0)"
    obtain r1 where "find_run ?s1 rid = Some r1" using s0(2) by (simp add: find_row_upd_row)
    from efr_st_outbox [OF this, of SPEND_BUDGET_EXCEEDED ?pl] show ?thesis by (auto simp: held_def)
  qed
  ultimately show ?thesis using t run' by auto
qed

section \<open>Committing\<close>

lemma sum_filter_upd_row:
  assumes "distinct (map key rows)" and "find_row key k rows = Some r"
    and "P r" and "\<not> P (g r)"
  shows "sum_list (map f (filter P rows)) =
    (f r :: 'a :: comm_monoid_add) + sum_list (map f (filter P (upd_row key k g rows)))"
  using assms
proof (induction rows)
  case (Cons x rows)
  then show ?case
    by (auto simp: upd_row_absent add.left_commute split: if_splits)
qed simp

lemma filter_upd_row_same:
  assumes "\<not> P r" "\<not> P (g r)" and "distinct (map key rows)" and "find_row key k rows = Some r"
  shows "filter P (upd_row key k g rows) = filter P rows"
  using assms by (induction rows) (auto simp: upd_row_absent split: if_splits)

lemma commit_spend_apply:
  assumes "find_run s rid = Some run" and "find_rsv s k = Some r"
    and "rsv_status r = Reserved" and "0 \<le> actual"
  shows "\<exists>t u. commit_spend rid k actual s = (t, Inr ())
    \<and> reservations t = upd_row rsv_id k (\<lambda>r. r\<lparr>rsv_status := Committed\<rparr>) (reservations s)
    \<and> spend_logs t = spend_logs s @ [\<lparr>sl_id = u, sl_workspace_id = run_workspace_id run,
        sl_provider = rsv_provider r, sl_stage = rsv_stage r,
        sl_cost_usd = numeric4 (min actual (rsv_estimated_cost_usd r)), sl_occurred_at = clock s\<rparr>]"
proof -
  have "(if rsv_estimated_cost_usd r < actual then rsv_estimated_cost_usd r else actual) =
      min actual (rsv_estimated_cost_usd r)" by (simp add: min_def)
  with assms show ?thesis
    by (simp add: commit_spend_def Let_def emit_for_run_apply)
qed

text \<open>
  Committing a reservation never raises usage. The cost recorded is the actual cost,
  clamped to what was reserved, so for every workspace, provider and period the committed
  plus reserved spend after \<open>commit_spend\<close> is at most what it was before; the reservation
  is closed, and committing it again changes nothing.
\<close>

theorem commit_spend_never_raises_usage:
  assumes "find_run s rid = Some run" and "find_rsv s k = Some r"
    and "unique_rsv s" and "rsv_status r = Reserved" and "0 \<le> actual"
    and "rsv_workspace_id r = run_workspace_id run"
    and "numeric4 (rsv_estimated_cost_usd r) = rsv_estimated_cost_usd r"
    and "0 \<le> rsv_estimated_cost_usd r"
  shows "\<exists>t. commit_spend rid k actual s = (t, Inr ())
    \<and> (\<forall>ws q d. spend_committed_plus_reserved t ws q d \<le> spend_committed_plus_reserved s ws q d)
    \<and> sl_cost_usd (last (spend_logs t)) \<le> rsv_estimated_cost_usd r
    \<and> map_option rsv_status (find_rsv t k) = Some Committed
    \<and> (\<forall>again. commit_spend rid k again t = (t, Inr ()))"
proof -
  let ?cost = "numeric4 (min actual (rsv_estimated_cost_usd r))"
  from commit_spend_apply [OF assms(1,2,4,5)] obtain t u where
    t: "commit_spend rid k actual s = (t, Inr ())"
      "reservations t = upd_row rsv_id k (\<lambda>r. r\<lparr>rsv_status := Committed\<rparr>) (reservations s)"
      "spend_logs t = spend_logs s @ [\<lparr>sl_id = u, sl_workspace_id = run_workspace_id run,
        sl_provider = rsv_provider r, sl_stage = rsv_stage r, sl_cost_usd = ?cost,
        sl_occurred_at = clock s\<rparr>]" by blast
  have cost: "?cost \<le> rsv_estimated_cost_usd r" "0 \<le> ?cost"
    using numeric4_mono [of "min actual (rsv_estimated_cost_usd r)" "rsv_estimated_cost_usd r"]
      assms(5,7,8) by (simp_all add: numeric4_nonneg)
  have uniq: "distinct (map rsv_id (reservations s))" using assms(3) by (simp add: unique_rsv_def)
  have usage: "spend_committed_plus_reserved t ws q d \<le> spend_committed_plus_reserved s ws q d" for ws q d
  proof (cases "rsv_counts ws q r")
    case True
    then show ?thesis
      using cost sum_filter_upd_row [OF uniq assms(2), of "rsv_counts ws q"
          "\<lambda>r. r\<lparr>rsv_status := Committed\<rparr>" rsv_estimated_cost_usd]
      by (simp add: spend_committed_plus_reserved_def t(2,3) rsv_counts_def)
  next
    case False
    then show ?thesis
      using filter_upd_row_same [of "rsv_counts ws q", OF False _ uniq assms(2),
          where g = "\<lambda>r. r\<lparr>rsv_status := Committed\<rparr>"] assms(4,6)
      by (auto simp: spend_committed_plus_reserved_def t(2,3) rsv_counts_def log_counts_def
          split: option.splits)
  qed
  have closed: "find_rsv t k = Some (r\<lparr>rsv_status := Committed\<rparr>)"
    by (simp add: t(2) find_row_upd_row assms(2))
  then have "commit_spend rid k again t = (t, Inr ())" for again
    by (simp add: commit_spend_def)
  with t usage cost closed show ?thesis by simp
qed

section \<open>A small session to evaluate on\<close>

definition sample_run :: pipeline_run where
  "sample_run = \<lparr>run_id = 10, run_workspace_id = 1, run_content_item_id = 20,
     run_idempotency_key = None, run_current_stage = SCRIPTING, run_status = RunRunning,
     run_started_at = Some 0, run_completed_at = None, run_pause_reason = None,
     run_definition_id = Some 30, run_correlation_id = Some 40, run_trace_id = Some ''t''\<rparr>"

definition sample_cap :: spend_cap where
  "sample_cap = \<lparr>cap_id = 50, cap_workspace_id = 1, cap_provider = None,
     cap_daily_cap_usd = 1, cap_monthly_cap_usd = 10,
     cap_created_by = None, cap_updated_by = None\<rparr>"

definition sample_rsv :: spend_reservation where
  "sample_rsv = \<lparr>rsv_id = 60, rsv_workspace_id = 1, rsv_pipeline_run_id = Some 10,
     rsv_provider = ''groq'', rsv_stage = Some SCRIPTING, rsv_estimated_cost_usd = 1/100,
     rsv_status = Reserved, rsv_created_at = 0\<rparr>"

definition spend_sample :: session where
  "spend_sample = empty_session\<lparr>runs := [sample_run], caps := [sample_cap],
     reservations := [sample_rsv]\<rparr>"

lemma spend_sample_run: "find_run spend_sample 10 = Some sample_run"
  by (simp add: spend_sample_def sample_run_def)

lemma spend_sample_rsv: "find_rsv spend_sample 60 = Some sample_rsv"
  by (simp add: spend_sample_def sample_rsv_def)

lemma spend_sample_unique: "unique_rsv spend_sample"
  by (simp add: spend_sample_def unique_rsv_def)

lemma numeric4_cent: "numeric4 (1/100) = 1/100"
  by code_simp

lemma reserve_grants_first:
  assumes "find_run s rid = Some run" and "unique_rsv s"
    and "applicable_cap (caps s) (run_workspace_id run) p = Inr (Some c)" and "spend_logs s = []"
    and "list_all (\<lambda>r. rsv_pipeline_run_id r = Some rid \<and> rsv_stage r = Some stage) (reservations s)"
    and "est \<le> cap_daily_cap_usd c" and "est \<le> cap_monthly_cap_usd c"
  shows "\<exists>t u. reserve_spend rid stage p est s = (t, Inr (Some u))"
proof -
  from assms(1,2) obtain s0 run0 where
    s0: "released_from s s0"
      "reservations s0 = release_rows (\<lambda>r. rsv_pipeline_run_id r = Some rid \<and> rsv_stage r = Some stage)
         (reservations s)"
    and eq: "reserve_spend rid stage p est s = reserve_outcome rid run run0 stage p est (caps s) s0"
    by (rule reserve_spend_released)
  have "spend_logs s0 = []" using s0(1) assms(4) by (simp add: released_from_def)
  moreover have "filter (rsv_counts ws q) (reservations s0) = []" for ws q
    using assms(5) by (auto simp: s0(2) release_rows_def list_all_iff filter_empty_conv rsv_counts_def)
  ultimately have "spend_committed_plus_reserved s0 ws q d = 0" for ws q d
    by (simp add: spend_committed_plus_reserved_def)
  with assms(3,6,7) show ?thesis
    unfolding eq by (simp add: reserve_outcome_def check_caps_def)
qed

lemma spend_sample_grants:
  "\<exists>t u. reserve_spend 10 SCRIPTING ''groq'' (1/100) spend_sample = (t, Inr (Some u))"
  by (rule reserve_grants_first [OF spend_sample_run spend_sample_unique, of _ sample_cap])
    (simp_all add: applicable_cap_def spend_sample_def sample_cap_def sample_run_def sample_rsv_def empty_session_def)

theorem reserve_spend_respects_caps_witness:
  "\<exists>t u. reserve_spend 10 SCRIPTING ''groq'' (1/100) spend_sample = (t, Inr (Some u))
    \<and> spend_committed_plus_reserved t 1 None (Some (utc_day_start (clock spend_sample))) \<le> 1
    \<and> map rsv_id (open_stage_reservations t 10 SCRIPTING) = [u]"
proof -
  obtain t u where tu: "reserve_spend 10 SCRIPTING ''groq'' (1/100) spend_sample = (t, Inr (Some u))"
    using spend_sample_grants by blast
  from reserve_spend_respects_caps [OF spend_sample_run spend_sample_unique numeric4_cent tu] tu
  show ?thesis
    by (auto simp: applicable_cap_def spend_sample_def sample_cap_def sample_run_def Let_def)
qed

theorem reserve_spend_fails_closed_witness:
  "\<exists>t. reserve_spend 10 SCRIPTING ''groq'' (1/100) (spend_sample\<lparr>caps := []\<rparr>) = (t, Inr None)
    \<and> open_stage_reservations t 10 SCRIPTING = []"
proof -
  have "find_run (spend_sample\<lparr>caps := []\<rparr>) 10 = Some sample_run" "unique_rsv (spend_sample\<lparr>caps := []\<rparr>)"
    using spend_sample_run spend_sample_unique by (simp_all add: unique_rsv_def)
  moreover have "applicable_cap (caps (spend_sample\<lparr>caps := []\<rparr>)) (run_workspace_id sample_run) ''groq'' = Inr None"
    by (simp add: applicable_cap_def)
  ultimately show ?thesis
    using reserve_spend_fails_closed [of 10 "spend_sample\<lparr>caps := []\<rparr>" sample_run "''groq''"] by blast
qed

theorem commit_spend_never_raises_usage_witness:
  "\<exists>t. commit_spend 10 60 (3/100) spend_sample = (t, Inr ())
    \<and> sl_cost_usd (last (spend_logs t)) \<le> 1/100"
proof -
  have "rsv_status sample_rsv = Reserved" "rsv_workspace_id sample_rsv = run_workspace_id sample_run"
    "numeric4 (rsv_estimated_cost_usd sample_rsv) = rsv_estimated_cost_usd sample_rsv"
    "0 \<le> rsv_estimated_cost_usd sample_rsv" "(0::rat) \<le> 3/100"
    by (simp_all add: sample_rsv_def sample_run_def numeric4_cent)
  from commit_spend_never_raises_usage [OF spend_sample_run spend_sample_rsv spend_sample_unique
      this(1,5,2,3,4)]
  show ?thesis by (auto simp: sample_rsv_def)
qed

end
