(* ===== verification/Controller.thy ===== *)
theory Controller
  imports Spend
begin

text \<open>
  The execution controller (\<open>orchestration/controller.py\<close>): the condition language of the
  workflow transitions, advancing a run through its definition, failure and retry,
  cancellation, compensation and the human review gate.
  A stage name that comes from a \<open>content_stage\<close> column is a \<open>content_stage\<close>; a
  \<open>PipelineRun\<close>, \<open>ReviewGate\<close> or assignment passed by reference is its key.
\<close>

section \<open>The condition language\<close>

definition OPS :: "string \<Rightarrow> (json \<Rightarrow> json \<Rightarrow> py_error + bool) option" where
  "OPS name =
     (let ordered = (\<lambda>rel a b. if a = JNull then Inr False
        else case json_cmp a b of Inl e \<Rightarrow> Inl e | Inr c \<Rightarrow> Inr (rel c (0 :: int)))
      in map_of
        [(''eq'', \<lambda>a b. Inr (json_eq a b)),
         (''ne'', \<lambda>a b. Inr (\<not> json_eq a b)),
         (''gt'', ordered (\<lambda>c z. c > z)),
         (''gte'', ordered (\<lambda>c z. c \<ge> z)),
         (''lt'', ordered (\<lambda>c z. c < z)),
         (''lte'', ordered (\<lambda>c z. c \<le> z)),
         (''in'', json_in)] name)"

definition json_get :: "json_obj \<Rightarrow> string \<Rightarrow> py_error + json" where
  \<comment> \<open>\<open>d[key]\<close>\<close>
  "json_get obj key = (case map_of obj key of None \<Rightarrow> Inl (KeyError key) | Some v \<Rightarrow> Inr v)"

fun json_walk :: "json \<Rightarrow> string list \<Rightarrow> json" where
  "json_walk value [] = value"
| "json_walk value (part # parts) =
     json_walk (case value of
        JObj obj \<Rightarrow> (case map_of obj part of None \<Rightarrow> JNull | Some v \<Rightarrow> v)
      | _ \<Rightarrow> JNull) parts"

definition lookup_op :: "json \<Rightarrow> py_error + (json \<Rightarrow> json \<Rightarrow> py_error + bool)" where
  \<comment> \<open>\<open>_OPS.get(condition["op"])\<close> and the check of its result; lists and dicts are unhashable\<close>
  "lookup_op v =
     (case v of
        JStr name \<Rightarrow>
          (case OPS name of None \<Rightarrow> Inl (ValueError ''unsupported condition operator'') | Some op \<Rightarrow> Inr op)
      | JList _ \<Rightarrow> Inl TypeError
      | JObj _ \<Rightarrow> Inl TypeError
      | _ \<Rightarrow> Inl (ValueError ''unsupported condition operator''))"

definition bind_sum :: "py_error + 'a \<Rightarrow> ('a \<Rightarrow> py_error + 'b) \<Rightarrow> py_error + 'b" where
  "bind_sum m f = (case m of Inl e \<Rightarrow> Inl e | Inr x \<Rightarrow> f x)"

definition evaluate_condition :: "json_obj option \<Rightarrow> json_obj \<Rightarrow> py_error + bool" where
  "evaluate_condition condition ctx =
     (case condition of
        None \<Rightarrow> Inr True
      | Some c \<Rightarrow>
          bind_sum (json_get c ''field'') (\<lambda>fld.
          bind_sum (case fld of JStr p \<Rightarrow> Inr (split_dot p) | _ \<Rightarrow> Inl AttributeError) (\<lambda>field_path.
          let val = json_walk (JObj ctx) field_path in
          bind_sum (json_get c ''op'') (\<lambda>opname.
          bind_sum (lookup_op opname) (\<lambda>op.
          bind_sum (json_get c ''value'') (\<lambda>v. op val v))))))"

section \<open>Looking up the workflow definition\<close>

definition definition_id :: "pipeline_run \<Rightarrow> uuid svc" where
  "definition_id run =
     (case run_definition_id run of
        None \<Rightarrow> raise (ValueError ''pipeline run has no definition_id pinned'')
      | Some d \<Rightarrow> ret d)"

fun first_matching :: "json_obj \<Rightarrow> workflow_transition list \<Rightarrow> py_error + workflow_transition option" where
  "first_matching ctx [] = Inr None"
| "first_matching ctx (tr # trs) =
     bind_sum (evaluate_condition (wt_condition tr) ctx) (\<lambda>holds.
       if holds then Inr (Some tr) else first_matching ctx trs)"

definition candidate_transitions ::
    "session \<Rightarrow> uuid \<Rightarrow> content_stage \<Rightarrow> workflow_transition_trigger \<Rightarrow> workflow_transition list" where
  "candidate_transitions s def from_stage trigger =
     sort_key wt_priority (filter (\<lambda>w. wt_definition_id w = def \<and> wt_from_stage w = from_stage
       \<and> wt_trigger w = trigger) (wf_transitions s))"

definition find_transition ::
    "uuid \<Rightarrow> content_stage \<Rightarrow> workflow_transition_trigger \<Rightarrow> json_obj \<Rightarrow> workflow_transition option svc" where
  "find_transition def from_stage trigger ctx =
     bindE (gets (\<lambda>s. candidate_transitions s def from_stage trigger)) (\<lambda>rows.
     liftE (first_matching ctx rows))"

definition get_stage_def :: "uuid \<Rightarrow> content_stage \<Rightarrow> workflow_stage svc" where
  "get_stage_def def stage_key =
     bindE (gets (\<lambda>s. filter (\<lambda>w. wst_definition_id w = def \<and> wst_stage_key w = stage_key) (wf_stages s)))
       (\<lambda>rows. bindE (liftE (scalar_one_or_none rows)) (\<lambda>st.
     case st of
       None \<Rightarrow> raise (ValueError ''workflow_stages has no row for stage'')
     | Some w \<Rightarrow> ret w))"

section \<open>Jobs and events of a run\<close>

definition add_job ::
    "uuid \<Rightarrow> job_type \<Rightarrow> string \<Rightarrow> uuid \<Rightarrow> datetime \<Rightarrow> int \<Rightarrow> int \<Rightarrow> uuid option \<Rightarrow> string option \<Rightarrow> uuid svc" where
  \<comment> \<open>\<open>session.add(JobSchedule(...))\<close> with the column defaults\<close>
  "add_job workspace_id jt ref_table ref_id run_after attempt prio corr trace =
     bindE uuid4 (\<lambda>u.
     bindE utcnow (\<lambda>now.
     bindE (modify (jobs_update (\<lambda>js. js @ [\<lparr>job_id = u, job_workspace_id = workspace_id,
         job_job_type = jt, job_ref_table = ref_table, job_ref_id = ref_id, job_run_after = run_after,
         job_status = JobPending, job_lease_owner = None, job_lease_expires_at = None,
         job_attempt = attempt, job_priority = prio, job_correlation_id = corr,
         job_trace_id = trace, job_created_at = now\<rparr>]))) (\<lambda>_.
     ret u)))"

definition run_span :: "uuid \<Rightarrow> (string \<times> string) svc" where
  \<comment> \<open>\<open>trace_id, span_id = child_span(run.trace_id); run.trace_id = trace_id\<close>\<close>
  "run_span rid =
     bindE (the_run rid) (\<lambda>run.
     bindE (child_span (run_trace_id run)) (\<lambda>(trace_id, span_id).
     bindE (set_run rid (\<lambda>r. r\<lparr>run_trace_id := Some trace_id\<rparr>)) (\<lambda>_.
     ret (trace_id, span_id))))"

definition emit_run :: "uuid \<Rightarrow> string \<Rightarrow> string \<Rightarrow> string \<Rightarrow> json_obj \<Rightarrow> unit svc" where
  \<comment> \<open>\<open>await emit(session, event_type=..., aggregate_type="pipeline_run", ...)\<close>\<close>
  "emit_run rid event_type trace_id span_id payload =
     bindE (the_run rid) (\<lambda>run.
     bindE (correlation_id run) (\<lambda>corr.
     bindE (emit event_type (run_workspace_id run) ''pipeline_run'' rid corr trace_id span_id
        payload ''controller'') (\<lambda>_. ret ())))"

definition enqueue_stage :: "uuid \<Rightarrow> content_stage \<Rightarrow> int \<Rightarrow> datetime option \<Rightarrow> uuid svc" where
  "enqueue_stage rid stage_key attempt run_after =
     bindE (the_run rid) (\<lambda>run.
     bindE (gets (\<lambda>s. find_row ws_id (run_workspace_id run) (workspaces s))) (\<lambda>workspace.
     bindE (gets get_settings) (\<lambda>st.
       let prio = base_priority_for_tier st (case workspace of None \<Rightarrow> 0 | Some w \<Rightarrow> ws_priority_tier w) in
     bindE utcnow (\<lambda>now.
     bindE (correlation_id run) (\<lambda>corr.
       add_job (run_workspace_id run) (if attempt = 0 then JobStage else JobRetry)
         (stage_value stage_key) rid (case run_after of None \<Rightarrow> now | Some d \<Rightarrow> d)
         attempt prio (Some corr) (run_trace_id run))))))"

section \<open>Run lifecycle\<close>

definition start_run :: "uuid \<Rightarrow> uuid \<Rightarrow> unit svc" where
  "start_run rid definition =
     bindE (set_run rid (\<lambda>r. r\<lparr>run_definition_id := Some definition\<rparr>)) (\<lambda>_.
     bindE (ensure_correlation_id rid) (\<lambda>_.
     bindE (gets (\<lambda>s. sort_key wst_ordinal
         (filter (\<lambda>w. wst_definition_id w = definition) (wf_stages s)))) (\<lambda>stages.
     case first_row stages of
       None \<Rightarrow> raise (ValueError ''workflow_definitions has no stages'')
     | Some first_stage \<Rightarrow>
         bindE utcnow (\<lambda>now.
         bindE (set_run rid (\<lambda>r. r\<lparr>run_current_stage := wst_stage_key first_stage,
            run_started_at := Some now\<rparr>)) (\<lambda>_.
         bindE (enqueue_stage rid (wst_stage_key first_stage) 0 None) (\<lambda>_. ret ()))))))"

definition gate_insert :: "uuid \<Rightarrow> content_stage \<Rightarrow> uuid option \<Rightarrow> datetime \<Rightarrow> uuid svc" where
  \<comment> \<open>the new \<open>ReviewGate\<close> row of \<open>pause_for_review\<close>\<close>
  "gate_insert rid stage_key version_id timeout_at =
     bindE (the_run rid) (\<lambda>run.
     bindE uuid4 (\<lambda>u.
     bindE utcnow (\<lambda>now.
     bindE (modify (gates_update (\<lambda>gs. gs @ [\<lparr>gate_id = u, gate_workspace_id = run_workspace_id run,
         gate_pipeline_run_id = rid, gate_content_version_id = version_id, gate_stage = stage_key,
         gate_status = GateAwaiting, gate_requested_at = now, gate_timeout_at = Some timeout_at,
         gate_decided_at = None, gate_decided_by = None, gate_escalation_level = 0\<rparr>]))) (\<lambda>_.
     ret u))))"

text \<open>
  The sessions are created with \<open>autoflush=False\<close>: a query selects by what was last
  flushed. \<open>emit\<close>, \<open>enqueue_stage\<close> and \<open>route_to_dead_letter\<close> flush, so a query sees
  the assignments to columns before it, with one exception: between \<open>resume_from_review\<close>
  closing a gate and \<open>pause_for_review\<close> looking for an open one nothing is flushed. The
  gate so closed is the argument \<open>unflushed\<close>, and the query still selects it.
\<close>

definition pause_for_review :: "uuid option \<Rightarrow> uuid \<Rightarrow> content_stage \<Rightarrow> int \<Rightarrow> uuid svc" where
  "pause_for_review unflushed rid stage_key timeout_seconds =
     bindE (the_run rid) (\<lambda>run.
     if terminal_status (run_status run)
     then raise (ValueError ''cannot open review gate on terminal run'')
     else
       bindE (gets (\<lambda>s. filter (\<lambda>g. gate_pipeline_run_id g = rid
            \<and> (gate_status g = GateAwaiting \<or> Some (gate_id g) = unflushed)) (gates s)))
         (\<lambda>rows. bindE (liftE (scalar_one_or_none rows)) (\<lambda>existing_awaiting.
       case existing_awaiting of
         Some g \<Rightarrow> ret (gate_id g)
       | None \<Rightarrow>
           bindE (gets (\<lambda>s. find_row ci_id (run_content_item_id run) (items s))) (\<lambda>item.
           case item of
             None \<Rightarrow> raise (ValueError ''pipeline run has no content item'')
           | Some it \<Rightarrow>
               bindE (set_run rid (\<lambda>r. r\<lparr>run_status := RunPaused,
                  run_pause_reason := Some ''review_gate''\<rparr>)) (\<lambda>_.
               bindE utcnow (\<lambda>now.
                 let timeout_at = now + seconds timeout_seconds in
               bindE (gate_insert rid stage_key (ci_current_version_id it) timeout_at) (\<lambda>gate.
               bindE (correlation_id run) (\<lambda>corr.
               bindE (add_job (run_workspace_id run) JobReviewTimeout ''review_gates'' gate timeout_at
                  0 0 (Some corr) (run_trace_id run)) (\<lambda>_.
               bindE (run_span rid) (\<lambda>(trace_id, span_id).
               bindE (emit_run rid REVIEW_REQUESTED trace_id span_id
                  [(''stage'', JStr (stage_value stage_key)), (''review_gate_id'', JStr (uuid_str gate))])
                 (\<lambda>_. ret gate)))))))))))"

definition succeed_run :: "uuid \<Rightarrow> content_stage \<Rightarrow> string \<Rightarrow> string \<Rightarrow> unit svc" where
  \<comment> \<open>the terminal branches of \<open>_advance_or_finish\<close>\<close>
  "succeed_run rid final_stage trace_id span_id =
     bindE utcnow (\<lambda>now.
     bindE (set_run rid (\<lambda>r. r\<lparr>run_status := RunSucceeded, run_completed_at := Some now,
        run_current_stage := final_stage\<rparr>)) (\<lambda>_.
     emit_run rid PIPELINE_SUCCEEDED trace_id span_id
       [(''final_stage'', JStr (stage_value final_stage))]))"

definition advance_or_finish ::
    "uuid option \<Rightarrow> uuid \<Rightarrow> content_stage \<Rightarrow> workflow_transition_trigger \<Rightarrow> json_obj \<Rightarrow> unit svc" where
  "advance_or_finish unflushed rid from_stage trigger ctx =
     bindE (the_run rid) (\<lambda>run.
     bindE (definition_id run) (\<lambda>def.
     bindE (find_transition def from_stage trigger ctx) (\<lambda>transition.
     case transition of
       None \<Rightarrow>
         bindE (get_stage_def def from_stage) (\<lambda>current_stage_def.
           if wst_is_terminal current_stage_def then
             bindE (run_span rid) (\<lambda>(trace_id, span_id).
             succeed_run rid from_stage trace_id span_id)
           else raise (ValueError ''no matching transition''))
     | Some tr \<Rightarrow>
         bindE (get_stage_def def (wt_to_stage tr)) (\<lambda>to_stage_def.
         bindE (run_span rid) (\<lambda>(trace_id, span_id).
         bindE (set_run rid (\<lambda>r. r\<lparr>run_current_stage := wt_to_stage tr\<rparr>)) (\<lambda>_.
           if wst_is_terminal to_stage_def then succeed_run rid (wt_to_stage tr) trace_id span_id
           else if wst_is_review_gate to_stage_def then
             bindE (pause_for_review unflushed rid (wst_stage_key to_stage_def) (wst_timeout_seconds to_stage_def))
               (\<lambda>_. ret ())
           else
             bindE (enqueue_stage rid (wst_stage_key to_stage_def) 0 None) (\<lambda>_. ret ())))))))"

definition handle_stage_success :: "uuid \<Rightarrow> content_stage \<Rightarrow> json_obj option \<Rightarrow> unit svc" where
  "handle_stage_success rid stage result_context =
     bindE (the_run rid) (\<lambda>run.
     if terminal_status (run_status run) then ret ()
     else advance_or_finish None rid stage OnSuccess (case result_context of None \<Rightarrow> [] | Some c \<Rightarrow> c))"

definition fail_run :: "uuid \<Rightarrow> string \<Rightarrow> unit svc" where
  "fail_run rid reason =
     bindE utcnow (\<lambda>now.
     bindE (set_run rid (\<lambda>r. r\<lparr>run_status := RunFailed, run_completed_at := Some now\<rparr>)) (\<lambda>_.
     bindE (run_span rid) (\<lambda>(trace_id, span_id).
     bindE (emit_run rid PIPELINE_FAILED trace_id span_id [(''reason'', JStr reason)]) (\<lambda>_.
     release_all_reservations rid))))"

definition completed_stage_runs :: "session \<Rightarrow> uuid \<Rightarrow> pipeline_stage_run list" where
  \<comment> \<open>\<open>ORDER BY completed_at DESC\<close>, in which PostgreSQL puts NULLs first\<close>
  "completed_stage_runs s rid =
     (let rows = filter (\<lambda>r. psr_pipeline_run_id r = rid \<and> psr_status r = StageSucceeded) (stage_runs s)
      in filter (\<lambda>r. psr_completed_at r = None) rows
         @ sort_key (\<lambda>r. - the (psr_completed_at r)) (filter (\<lambda>r. psr_completed_at r \<noteq> None) rows))"

definition compensate_stage_run :: "uuid \<Rightarrow> pipeline_stage_run \<Rightarrow> unit svc" where
  \<comment> \<open>the loop body of \<open>_trigger_compensation\<close>\<close>
  "compensate_stage_run rid stage_run =
     bindE (the_run rid) (\<lambda>run.
     bindE (definition_id run) (\<lambda>def.
     bindE (get_stage_def def (psr_stage stage_run)) (\<lambda>stage_def.
     case wst_compensation_stage_key stage_def of
       None \<Rightarrow> ret ()
     | Some key \<Rightarrow>
         bindE utcnow (\<lambda>now.
         bindE (correlation_id run) (\<lambda>corr.
         bindE (add_job (run_workspace_id run) JobCompensation (stage_value key) rid now 0 0
            (Some corr) (run_trace_id run)) (\<lambda>_. ret ()))))))"

definition trigger_compensation :: "uuid \<Rightarrow> unit svc" where
  "trigger_compensation rid =
     bindE (set_run rid (\<lambda>r. r\<lparr>run_status := RunCompensating\<rparr>)) (\<lambda>_.
     bindE (gets (\<lambda>s. completed_stage_runs s rid)) (\<lambda>completed.
     bindE (for_each (compensate_stage_run rid) completed) (\<lambda>_.
     set_run rid (\<lambda>r. r\<lparr>run_status := RunFailed\<rparr>))))"

definition run_compensation_stage :: "uuid \<Rightarrow> string \<Rightarrow> unit svc" where
  \<comment> \<open>only logs\<close>
  "run_compensation_stage pipeline_run_id stage = ret ()"

definition handle_stage_failure :: "string \<Rightarrow> uuid \<Rightarrow> content_stage \<Rightarrow> int \<Rightarrow> string \<Rightarrow> unit svc" where
  \<comment> \<open>\<open>printed\<close> is how the stage prints in \<open>f"stage:{stage}"\<close>: its value from a caller that
     holds a string, \<open>ContentStage.NAME\<close> from one that holds the enum member\<close>
  "handle_stage_failure printed rid stage attempt_number error_message =
     bindE (run_span rid) (\<lambda>(trace_id, span_id).
     bindE (emit_run rid STAGE_FAILED trace_id span_id
       [(''stage'', JStr (stage_value stage)), (''attempt_number'', JInt attempt_number),
        (''error'', JStr error_message)]) (\<lambda>_.
     bindE (the_run rid) (\<lambda>run.
     bindE (definition_id run) (\<lambda>def.
     bindE (get_stage_def def stage) (\<lambda>stage_def.
     if is_retryable error_message \<and> attempt_number < wst_max_attempts stage_def then
       bindE (compute_backoff_seconds (attempt_number + 1) (wst_backoff_base_seconds stage_def)
          (of_int (wst_backoff_multiplier stage_def)) (wst_backoff_max_seconds stage_def)) (\<lambda>delay.
       bindE utcnow (\<lambda>now.
       bindE (enqueue_stage rid stage attempt_number (Some (now + timedelta_seconds delay))) (\<lambda>_.
       ret ())))
     else
       bindE utcnow (\<lambda>now.
       bindE (route_to_dead_letter (run_workspace_id run) ''pipeline_runs'' rid
          (''stage:'' @ printed)
          (Some [(''stage'', JStr (stage_value stage)), (''attempt_number'', JInt attempt_number)])
          error_message attempt_number
          (case run_started_at run of None \<Rightarrow> now | Some d \<Rightarrow> d)) (\<lambda>_.
       bindE (fail_run rid error_message) (\<lambda>_.
       if wst_compensation_stage_key stage_def \<noteq> None then trigger_compensation rid
       else ret ()))))))))"

definition handle_stage_timeout :: "uuid \<Rightarrow> content_stage \<Rightarrow> unit svc" where
  "handle_stage_timeout pipeline_run_id stage =
     bindE (gets (\<lambda>s. find_run s pipeline_run_id)) (\<lambda>r.
     case r of
       None \<Rightarrow> ret ()
     | Some run \<Rightarrow>
         if run_current_stage run \<noteq> stage \<or> run_status run \<noteq> RunRunning then ret ()
         else
           bindE (gets (\<lambda>s. int (length (filter (\<lambda>p. psr_pipeline_run_id p = pipeline_run_id
              \<and> psr_stage p = stage) (stage_runs s))))) (\<lambda>n.
           handle_stage_failure (stage_value stage) pipeline_run_id stage (n + 1) ''timeout''))"

definition cancel_run :: "uuid \<Rightarrow> unit svc" where
  "cancel_run rid =
     bindE (the_run rid) (\<lambda>run.
     if terminal_status (run_status run) then ret ()
     else
       bindE (modify (assignments_update (map (\<lambda>a.
          if asg_pipeline_run_id a = rid \<and> open_status (asg_status a)
          then a\<lparr>asg_status := AsgCancelled\<rparr> else a)))) (\<lambda>_.
       bindE utcnow (\<lambda>now.
       bindE (set_run rid (\<lambda>r. r\<lparr>run_status := RunCancelled, run_completed_at := Some now\<rparr>)) (\<lambda>_.
       bindE (run_span rid) (\<lambda>(trace_id, span_id).
       bindE (release_all_reservations rid) (\<lambda>_.
       emit_run rid PIPELINE_CANCELLED trace_id span_id []))))))"

section \<open>The human review gate\<close>

definition resume_from_review :: "uuid \<Rightarrow> bool \<Rightarrow> unit svc" where
  "resume_from_review gid approved =
     bindE (the_gate gid) (\<lambda>gate.
     if gate_status gate \<noteq> GateAwaiting then ret ()
     else
       let rid = gate_pipeline_run_id gate in
       bindE (gets (\<lambda>s. find_run s rid)) (\<lambda>r.
       case r of
         None \<Rightarrow> raise (ValueError ''review_gate has no pipeline_run'')
       | Some run \<Rightarrow>
           bindE utcnow (\<lambda>now.
           bindE (set_gate gid (\<lambda>g. g\<lparr>gate_status := (if approved then GateApproved else GateRejected),
              gate_decided_at := Some now\<rparr>)) (\<lambda>_.
           bindE (if approved then ret False
             else
               bindE (definition_id run) (\<lambda>def.
               bindE (find_transition def (gate_stage gate) OnReviewRejected []) (\<lambda>reject_transition.
               ret (reject_transition = None)))) (\<lambda>no_reject_edge.
           if no_reject_edge then
             bindE (set_run rid (\<lambda>r. r\<lparr>run_pause_reason := None\<rparr>)) (\<lambda>_.
             fail_run rid ''review_rejected'')
           else
             bindE (set_run rid (\<lambda>r. r\<lparr>run_status := RunRunning, run_pause_reason := None\<rparr>)) (\<lambda>_.
             advance_or_finish (Some gid) rid (gate_stage gate)
               (if approved then OnReviewApproved else OnReviewRejected) []))))))"

definition DEFAULT_REVIEW_TIMEOUT_HOURS :: int where
  "DEFAULT_REVIEW_TIMEOUT_HOURS = 48"

definition gate_correlation :: "pipeline_run option \<Rightarrow> uuid svc" where
  \<comment> \<open>\<open>_correlation_id(run) if run else uuid.uuid4()\<close>\<close>
  "gate_correlation r = (case r of None \<Rightarrow> uuid4 | Some run \<Rightarrow> correlation_id run)"

definition handle_review_timeout :: "uuid \<Rightarrow> unit svc" where
  "handle_review_timeout review_gate_id =
     bindE (gets (\<lambda>s. find_gate s review_gate_id)) (\<lambda>g.
     case g of
       None \<Rightarrow> ret ()
     | Some gate \<Rightarrow>
         if gate_status gate \<noteq> GateAwaiting then ret ()
         else
           bindE (gets (\<lambda>s. find_run s (gate_pipeline_run_id gate))) (\<lambda>r.
           bindE (child_span (case r of None \<Rightarrow> None | Some run \<Rightarrow> run_trace_id run)) (\<lambda>(trace_id, span_id).
           if gate_escalation_level gate = 0 then
             bindE utcnow (\<lambda>now.
               let new_timeout = now + seconds (DEFAULT_REVIEW_TIMEOUT_HOURS * 3600) in
             bindE (set_gate review_gate_id (\<lambda>g. g\<lparr>gate_status := GateEscalated,
                gate_escalation_level := gate_escalation_level g + 1,
                gate_timeout_at := Some new_timeout\<rparr>)) (\<lambda>_.
             bindE (add_job (gate_workspace_id gate) JobReviewTimeout ''review_gates'' review_gate_id
                new_timeout 0 0 None None) (\<lambda>_.
             bindE (gate_correlation r) (\<lambda>corr.
             bindE (emit REVIEW_ESCALATED (gate_workspace_id gate) ''pipeline_run''
                (gate_pipeline_run_id gate) corr trace_id span_id
                [(''review_gate_id'', JStr (uuid_str review_gate_id)),
                 (''escalation_level'', JInt (gate_escalation_level gate + 1))] ''controller'') (\<lambda>_.
             ret ())))))
           else
             bindE (set_gate review_gate_id (\<lambda>g. g\<lparr>gate_status := GateTimedOut\<rparr>)) (\<lambda>_.
             bindE (gate_correlation r) (\<lambda>corr.
             bindE (emit REVIEW_TIMED_OUT (gate_workspace_id gate) ''pipeline_run''
                (gate_pipeline_run_id gate) corr trace_id span_id
                [(''review_gate_id'', JStr (uuid_str review_gate_id))] ''controller'') (\<lambda>_.
             case r of
               None \<Rightarrow> ret ()
             | Some run \<Rightarrow> fail_run (run_id run) ''review_gate_timed_out''))))))"

definition submit_review_decision ::
    "uuid \<Rightarrow> uuid \<Rightarrow> bool \<Rightarrow> string option \<Rightarrow> outbox_event svc" where
  "submit_review_decision gid reviewer_id approved notes =
     bindE (the_gate gid) (\<lambda>gate.
     if gate_status gate \<noteq> GateAwaiting then raise (ValueError ''review_gate is not awaiting a decision'')
     else
       bindE (gets (\<lambda>s. find_run s (gate_pipeline_run_id gate))) (\<lambda>r.
       case r of
         None \<Rightarrow> raise (ValueError ''review_gate missing pipeline run / content item'')
       | Some run \<Rightarrow>
           bindE (set_gate gid (\<lambda>g. g\<lparr>gate_decided_by := Some reviewer_id\<rparr>)) (\<lambda>_.
           bindE uuid4 (\<lambda>did.
           bindE (modify (decisions_update (\<lambda>ds. ds @ [\<lparr>rd_id = did,
               rd_workspace_id = gate_workspace_id gate, rd_content_item_id = run_content_item_id run,
               rd_reviewer_id = reviewer_id,
               rd_decision = (if approved then DecApproved else DecRejected), rd_notes = notes\<rparr>]))) (\<lambda>_.
           bindE (child_span (run_trace_id run)) (\<lambda>(trace_id, span_id).
           bindE (correlation_id run) (\<lambda>corr.
           emit (if approved then REVIEW_APPROVED else REVIEW_REJECTED) (gate_workspace_id gate)
             ''pipeline_run'' (gate_pipeline_run_id gate) corr trace_id span_id
             [(''review_gate_id'', JStr (uuid_str gid)), (''decision_id'', JStr (uuid_str did))]
             ''review_hook''))))))) "

context core_frame
begin

lemma eff_definition_id: "effects R (definition_id run)"
  unfolding definition_id_def by (intro core_rules)

lemma eff_find_transition: "effects R (find_transition d st tg ctx)"
  unfolding find_transition_def by (intro core_rules)

lemma eff_get_stage_def: "effects R (get_stage_def d st)"
  unfolding get_stage_def_def by (intro core_rules)

lemma eff_add_job: "effects R (add_job ws jt rt ri ra atm prio corr tr)"
  unfolding add_job_def by (intro core_rules)

lemma eff_run_span: "effects R (run_span rid)"
  unfolding run_span_def by (intro core_rules)

lemma eff_emit_run: "engine_event et \<Longrightarrow> effects R (emit_run rid et tr sp pl)"
  unfolding emit_run_def by (intro spend_rules)

lemma eff_enqueue_stage: "effects R (enqueue_stage rid st atm ra)"
  unfolding enqueue_stage_def Let_def by (intro spend_rules eff_add_job)

lemmas job_rules = spend_rules eff_definition_id eff_find_transition eff_get_stage_def eff_add_job
  eff_run_span eff_emit_run eff_enqueue_stage

lemma eff_start_run: "effects R (start_run rid d)"
  unfolding start_run_def by (intro job_rules)

lemma eff_succeed_run: "effects R (succeed_run rid st tr sp)"
  unfolding succeed_run_def by (intro job_rules)

lemma eff_fail_run: "effects R (fail_run rid reason)"
  unfolding fail_run_def by (intro job_rules)

lemma eff_trigger_compensation: "effects R (trigger_compensation rid)"
  unfolding trigger_compensation_def compensate_stage_run_def by (intro job_rules)

lemma eff_handle_stage_failure: "effects R (handle_stage_failure pr rid st n e)"
  unfolding handle_stage_failure_def compute_backoff_seconds_def
  by (intro job_rules eff_fail_run eff_trigger_compensation)

lemma eff_handle_stage_timeout: "effects R (handle_stage_timeout rid st)"
  unfolding handle_stage_timeout_def by (intro job_rules eff_handle_stage_failure)

lemma eff_gate_correlation: "effects R (gate_correlation r)"
  unfolding gate_correlation_def by (intro job_rules)

lemmas run_rules = job_rules eff_start_run eff_succeed_run eff_fail_run eff_trigger_compensation
  eff_handle_stage_failure eff_handle_stage_timeout eff_gate_correlation

end

text \<open>
  The operations that write review gates and decisions are a contract of their own: a
  relation may say what it likes about gates as long as it includes the three of them. The
  fourth, resuming a run after a verdict, is added with the relay, which alone calls it.
\<close>

locale engine_frame = core_frame R for R :: "session \<Rightarrow> session \<Rightarrow> bool" +
  assumes eff_assignments: "R s (assignments_update fassignments s)"
    and eff_workers: "R s (workers_update fworkers s)"
    and eff_pause_for_review: "effects R (pause_for_review uf rid st n)"
    and eff_handle_review_timeout: "effects R (handle_review_timeout gid)"
begin

lemmas frame_rules = core_rules
  eff_assignments [THEN eff_modify]
  eff_workers [THEN eff_modify]

lemma eff_advance_or_finish: "effects R (advance_or_finish uf rid st tg ctx)"
  unfolding advance_or_finish_def by (intro run_rules eff_pause_for_review)

lemma eff_handle_stage_success: "effects R (handle_stage_success rid st ctx)"
  unfolding handle_stage_success_def by (intro run_rules eff_advance_or_finish)

lemma eff_cancel_run: "effects R (cancel_run rid)"
  unfolding cancel_run_def by (intro run_rules frame_rules)

lemmas controller_rules = run_rules frame_rules eff_pause_for_review eff_advance_or_finish
  eff_handle_stage_success eff_cancel_run eff_handle_review_timeout

end

context table_frame
begin

lemma rows_pause: "effects R (pause_for_review uf rid st n)"
  unfolding pause_for_review_def gate_insert_def Let_def by (intro run_rules table_rules)

lemma reviews: "engine_frame R"
proof unfold_locales
  show "effects R (handle_review_timeout gid)" for gid
    unfolding handle_review_timeout_def Let_def by (intro run_rules table_rules)
qed (rule rows_pause eff_tbl_assignments eff_tbl_workers)+

lemma rows_submit: "effects R (submit_review_decision gid rv ok nt)"
  unfolding submit_review_decision_def by (intro run_rules table_rules)

lemma rows_resume: "effects R (resume_from_review gid ok)"
  unfolding resume_from_review_def Let_def
  by (intro run_rules table_rules engine_frame.eff_advance_or_finish [OF reviews])

end

interpretation numb: engine_frame "\<lambda>s t. numbered s \<longrightarrow> numbered t"
  by (rule numb.reviews)

interpretation logx: engine_frame log_extends
  by (rule logx.reviews)

interpretation conf: engine_frame same_config
  by (rule conf.reviews)

section \<open>Symbolic execution\<close>

definition cor_id :: "pipeline_run \<Rightarrow> session \<Rightarrow> uuid" where
  "cor_id run s = (case run_correlation_id run of Some c \<Rightarrow> c | None \<Rightarrow> next_uuid s)"

definition cor_st :: "pipeline_run \<Rightarrow> session \<Rightarrow> session" where
  "cor_st run s = state_after (correlation_id run) s"

lemma bindE_correlation_id [simp]: "bindE (correlation_id run) f s = f (cor_id run s) (cor_st run s)"
  by (rule bindE_Inr) (simp add: cor_id_def cor_st_def correlation_id_def split: option.splits)

lemma cor_st_frame [simp]:
  "clock (cor_st run s) = clock s"
  "rng (cor_st run s) = rng s"
  "draws (cor_st run s) = draws s"
  "locked (cor_st run s) = locked s"
  "get_settings (cor_st run s) = get_settings s"
  "workspaces (cor_st run s) = workspaces s"
  "definitions (cor_st run s) = definitions s"
  "wf_stages (cor_st run s) = wf_stages s"
  "wf_transitions (cor_st run s) = wf_transitions s"
  "items (cor_st run s) = items s"
  "versions (cor_st run s) = versions s"
  "runs (cor_st run s) = runs s"
  "stage_runs (cor_st run s) = stage_runs s"
  "assignments (cor_st run s) = assignments s"
  "workers (cor_st run s) = workers s"
  "jobs (cor_st run s) = jobs s"
  "limits (cor_st run s) = limits s"
  "bp_states (cor_st run s) = bp_states s"
  "budgets (cor_st run s) = budgets s"
  "effect_keys (cor_st run s) = effect_keys s"
  "caps (cor_st run s) = caps s"
  "spend_logs (cor_st run s) = spend_logs s"
  "reservations (cor_st run s) = reservations s"
  "gates (cor_st run s) = gates s"
  "decisions (cor_st run s) = decisions s"
  "outbox (cor_st run s) = outbox s"
  "consumers (cor_st run s) = consumers s"
  "checkpoints (cor_st run s) = checkpoints s"
  "dead_letters (cor_st run s) = dead_letters s"
  "claim_audits (cor_st run s) = claim_audits s"
  "recovery_audits (cor_st run s) = recovery_audits s"
  by (simp_all add: cor_st_def correlation_id_def split: option.splits)

definition rs_st :: "uuid \<Rightarrow> session \<Rightarrow> session" where
  "rs_st rid s = state_after (run_span rid) s"

definition rs_tr :: "uuid \<Rightarrow> session \<Rightarrow> string" where
  "rs_tr rid s = span_tr (case find_run s rid of None \<Rightarrow> None | Some run \<Rightarrow> run_trace_id run) s"

definition rs_sp :: "uuid \<Rightarrow> session \<Rightarrow> string" where
  "rs_sp rid s = span_sp (case find_run s rid of None \<Rightarrow> None | Some run \<Rightarrow> run_trace_id run) s"

lemma bindE_run_span [simp]:
  "find_run s rid = Some run \<Longrightarrow> bindE (run_span rid) f s = f (rs_tr rid s, rs_sp rid s) (rs_st rid s)"
  by (rule bindE_Inr) (simp add: rs_st_def rs_tr_def rs_sp_def run_span_def)

lemma rs_st_frame [simp]:
  "clock (rs_st rid s) = clock s"
  "rng (rs_st rid s) = rng s"
  "draws (rs_st rid s) = draws s"
  "locked (rs_st rid s) = locked s"
  "get_settings (rs_st rid s) = get_settings s"
  "workspaces (rs_st rid s) = workspaces s"
  "definitions (rs_st rid s) = definitions s"
  "wf_stages (rs_st rid s) = wf_stages s"
  "wf_transitions (rs_st rid s) = wf_transitions s"
  "items (rs_st rid s) = items s"
  "versions (rs_st rid s) = versions s"
  "stage_runs (rs_st rid s) = stage_runs s"
  "assignments (rs_st rid s) = assignments s"
  "workers (rs_st rid s) = workers s"
  "jobs (rs_st rid s) = jobs s"
  "limits (rs_st rid s) = limits s"
  "bp_states (rs_st rid s) = bp_states s"
  "budgets (rs_st rid s) = budgets s"
  "effect_keys (rs_st rid s) = effect_keys s"
  "caps (rs_st rid s) = caps s"
  "spend_logs (rs_st rid s) = spend_logs s"
  "reservations (rs_st rid s) = reservations s"
  "gates (rs_st rid s) = gates s"
  "decisions (rs_st rid s) = decisions s"
  "outbox (rs_st rid s) = outbox s"
  "consumers (rs_st rid s) = consumers s"
  "checkpoints (rs_st rid s) = checkpoints s"
  "dead_letters (rs_st rid s) = dead_letters s"
  "claim_audits (rs_st rid s) = claim_audits s"
  "recovery_audits (rs_st rid s) = recovery_audits s"
  by (simp_all add: rs_st_def run_span_def split: option.splits)

lemma rs_st_runs:
  "runs (rs_st rid s) = upd_row run_id rid (\<lambda>r. r\<lparr>run_trace_id := Some (rs_tr rid s)\<rparr>) (runs s)"
  by (simp add: rs_st_def rs_tr_def run_span_def upd_row_absent find_row_None split: option.splits)

lemma find_run_rs [simp]:
  "find_run (rs_st rid s) k =
    (if k = rid then map_option (\<lambda>r. r\<lparr>run_trace_id := Some (rs_tr rid s)\<rparr>) (find_run s k) else find_run s k)"
  by (simp add: rs_st_runs find_row_upd_row)

definition er_st :: "uuid \<Rightarrow> string \<Rightarrow> string \<Rightarrow> string \<Rightarrow> json_obj \<Rightarrow> session \<Rightarrow> session" where
  "er_st rid et tr sp pl s = state_after (emit_run rid et tr sp pl) s"

lemma emit_run_apply:
  "find_run s rid = Some run \<Longrightarrow> emit_run rid et tr sp pl s = (er_st rid et tr sp pl s, Inr ())"
  by (simp add: er_st_def emit_run_def)

lemma bindE_emit_run [simp]:
  "find_run s rid = Some run \<Longrightarrow> bindE (emit_run rid et tr sp pl) f s = f () (er_st rid et tr sp pl s)"
  by (rule bindE_Inr) (rule emit_run_apply)

lemma er_st_frame [simp]:
  "clock (er_st rid et tr sp pl s) = clock s"
  "rng (er_st rid et tr sp pl s) = rng s"
  "draws (er_st rid et tr sp pl s) = draws s"
  "locked (er_st rid et tr sp pl s) = locked s"
  "get_settings (er_st rid et tr sp pl s) = get_settings s"
  "workspaces (er_st rid et tr sp pl s) = workspaces s"
  "definitions (er_st rid et tr sp pl s) = definitions s"
  "wf_stages (er_st rid et tr sp pl s) = wf_stages s"
  "wf_transitions (er_st rid et tr sp pl s) = wf_transitions s"
  "items (er_st rid et tr sp pl s) = items s"
  "versions (er_st rid et tr sp pl s) = versions s"
  "runs (er_st rid et tr sp pl s) = runs s"
  "stage_runs (er_st rid et tr sp pl s) = stage_runs s"
  "assignments (er_st rid et tr sp pl s) = assignments s"
  "workers (er_st rid et tr sp pl s) = workers s"
  "jobs (er_st rid et tr sp pl s) = jobs s"
  "limits (er_st rid et tr sp pl s) = limits s"
  "bp_states (er_st rid et tr sp pl s) = bp_states s"
  "budgets (er_st rid et tr sp pl s) = budgets s"
  "effect_keys (er_st rid et tr sp pl s) = effect_keys s"
  "caps (er_st rid et tr sp pl s) = caps s"
  "spend_logs (er_st rid et tr sp pl s) = spend_logs s"
  "reservations (er_st rid et tr sp pl s) = reservations s"
  "gates (er_st rid et tr sp pl s) = gates s"
  "decisions (er_st rid et tr sp pl s) = decisions s"
  "consumers (er_st rid et tr sp pl s) = consumers s"
  "checkpoints (er_st rid et tr sp pl s) = checkpoints s"
  "dead_letters (er_st rid et tr sp pl s) = dead_letters s"
  "claim_audits (er_st rid et tr sp pl s) = claim_audits s"
  "recovery_audits (er_st rid et tr sp pl s) = recovery_audits s"
  by (simp_all add: er_st_def emit_run_def split: option.splits)

lemma er_st_outbox:
  "find_run s rid = Some run \<Longrightarrow> \<exists>ev. outbox (er_st rid et tr sp pl s) = outbox s @ [ev]
    \<and> ev_event_type ev = et \<and> ev_payload ev = pl \<and> ev_aggregate_id ev = rid"
  by (simp add: er_st_def emit_run_def)

definition new_job ::
    "uuid \<Rightarrow> job_type \<Rightarrow> string \<Rightarrow> uuid \<Rightarrow> datetime \<Rightarrow> int \<Rightarrow> int \<Rightarrow> uuid option \<Rightarrow> string option
      \<Rightarrow> session \<Rightarrow> job_schedule" where
  "new_job ws jt rt ri ra atm prio corr tr s = \<lparr>job_id = next_uuid s, job_workspace_id = ws,
     job_job_type = jt, job_ref_table = rt, job_ref_id = ri, job_run_after = ra,
     job_status = JobPending, job_lease_owner = None, job_lease_expires_at = None,
     job_attempt = atm, job_priority = prio, job_correlation_id = corr,
     job_trace_id = tr, job_created_at = clock s\<rparr>"

lemma new_job_sel [simp]:
  "job_id (new_job ws jt rt ri ra atm prio corr tr s) = next_uuid s"
  "job_job_type (new_job ws jt rt ri ra atm prio corr tr s) = jt"
  "job_ref_table (new_job ws jt rt ri ra atm prio corr tr s) = rt"
  "job_ref_id (new_job ws jt rt ri ra atm prio corr tr s) = ri"
  "job_run_after (new_job ws jt rt ri ra atm prio corr tr s) = ra"
  "job_attempt (new_job ws jt rt ri ra atm prio corr tr s) = atm"
  "job_status (new_job ws jt rt ri ra atm prio corr tr s) = JobPending"
  by (simp_all add: new_job_def)

lemma add_job_apply:
  "add_job ws jt rt ri ra atm prio corr tr s =
    (jobs_update (\<lambda>js. js @ [new_job ws jt rt ri ra atm prio corr tr s]) (s\<lparr>next_uuid := Suc (next_uuid s)\<rparr>),
     Inr (next_uuid s))"
  by (simp add: add_job_def new_job_def)

lemma bindE_add_job [simp]:
  "bindE (add_job ws jt rt ri ra atm prio corr tr) f s =
    f (next_uuid s)
      (jobs_update (\<lambda>js. js @ [new_job ws jt rt ri ra atm prio corr tr s]) (s\<lparr>next_uuid := Suc (next_uuid s)\<rparr>))"
  by (rule bindE_Inr) (rule add_job_apply)

definition stage_of :: "session \<Rightarrow> uuid \<Rightarrow> content_stage \<Rightarrow> workflow_stage option" where
  "stage_of s def key = List.find (\<lambda>w. wst_definition_id w = def \<and> wst_stage_key w = key) (wf_stages s)"

definition unique_stages :: "session \<Rightarrow> bool" where
  \<comment> \<open>the constraint \<open>uq_workflow_stage_per_definition\<close>\<close>
  "unique_stages s \<longleftrightarrow> distinct (map (\<lambda>w. (wst_definition_id w, wst_stage_key w)) (wf_stages s))"

lemma bindE_get_stage_def [simp]:
  assumes "unique_stages s"
  shows "bindE (get_stage_def def key) f s =
    (case stage_of s def key of
       None \<Rightarrow> (s, Inl (ValueError ''workflow_stages has no row for stage'')) | Some w \<Rightarrow> f w s)"
proof -
  have "scalar_one_or_none (filter (\<lambda>w. (wst_definition_id w, wst_stage_key w) = (def, key)) (wf_stages s))
      = Inr (find_row (\<lambda>w. (wst_definition_id w, wst_stage_key w)) (def, key) (wf_stages s))"
    using assms unfolding unique_stages_def by (rule scalar_find_row)
  moreover have "find_row (\<lambda>w. (wst_definition_id w, wst_stage_key w)) (def, key) (wf_stages s) =
      stage_of s def key" by (simp add: find_row_def stage_of_def)
  ultimately show ?thesis by (simp add: get_stage_def_def split: option.splits)
qed

lemma unique_stages_cong: "wf_stages t = wf_stages s \<Longrightarrow> unique_stages t = unique_stages s"
  by (simp add: unique_stages_def)

lemma stage_of_cong: "wf_stages t = wf_stages s \<Longrightarrow> stage_of t d k = stage_of s d k"
  by (simp add: stage_of_def)

section \<open>Terminal runs and cancellation\<close>

text \<open>
  A run that has succeeded, failed or been cancelled stays out of the workflow graph: a
  late stage success, a late stage timeout and another cancellation leave the session as
  it is, and opening a review gate on it is refused.
\<close>

theorem terminal_run_stays_out:
  assumes "find_run s rid = Some run" and "terminal_status (run_status run)"
  shows "handle_stage_success rid stage ctx s = (s, Inr ())
    \<and> handle_stage_timeout rid stage s = (s, Inr ())
    \<and> cancel_run rid s = (s, Inr ())
    \<and> (\<exists>e. pause_for_review uf rid stage secs s = (s, Inl (ValueError e)))"
proof -
  have "run_status run \<noteq> RunRunning" using assms(2) by auto
  with assms show ?thesis
    by (simp add: handle_stage_success_def handle_stage_timeout_def cancel_run_def pause_for_review_def)
qed

definition cancel_assignments :: "uuid \<Rightarrow> stage_assignment list \<Rightarrow> stage_assignment list" where
  "cancel_assignments rid = map (\<lambda>a. if asg_pipeline_run_id a = rid \<and> open_status (asg_status a)
     then a\<lparr>asg_status := AsgCancelled\<rparr> else a)"

lemma cancel_assignments_closed:
  "list_all (\<lambda>a. asg_pipeline_run_id a \<noteq> rid \<or> \<not> open_status (asg_status a)) (cancel_assignments rid rows)"
  by (induction rows) (simp_all add: cancel_assignments_def)

lemma open_reservations_released:
  assumes "reservations t = release_rows (\<lambda>r. rsv_pipeline_run_id r = Some rid) (reservations s)"
  shows "open_reservations t k = (if k = rid then [] else open_reservations s k)"
proof -
  have "filter (\<lambda>r. rsv_pipeline_run_id r = Some k \<and> rsv_status r = Reserved)
      (release_rows (\<lambda>r. rsv_pipeline_run_id r = Some rid) rows) =
      (if k = rid then [] else filter (\<lambda>r. rsv_pipeline_run_id r = Some k \<and> rsv_status r = Reserved) rows)"
    for rows by (induction rows) (auto simp: release_rows_def)
  with assms show ?thesis by (simp add: open_reservations_def)
qed

lemma released_run_field:
  assumes "released_from s t" and "\<And>r v. f (r\<lparr>run_trace_id := v\<rparr>) = f r"
  shows "map_option f (find_run t k) = map_option f (find_run s k)"
proof -
  have "map_option (f \<circ> (\<lambda>r. r\<lparr>run_trace_id := None\<rparr>)) (find_run t k) =
      map_option (f \<circ> (\<lambda>r. r\<lparr>run_trace_id := None\<rparr>)) (find_run s k)"
    using find_run_released [OF assms(1), of k] by (metis option.map_comp)
  with assms(2) show ?thesis by (simp add: comp_def)
qed

lemma cancel_run_apply:
  assumes "find_run s rid = Some run" and "\<not> terminal_status (run_status run)" and "unique_rsv s"
  shows "\<exists>t. cancel_run rid s = (t, Inr ())
    \<and> map_option run_status (find_run t rid) = Some RunCancelled
    \<and> map_option run_completed_at (find_run t rid) = Some (Some (clock s))
    \<and> (\<forall>k. k \<noteq> rid \<longrightarrow> map_option run_status (find_run t k) = map_option run_status (find_run s k))
    \<and> assignments t = cancel_assignments rid (assignments s)
    \<and> reservations t = release_rows (\<lambda>r. rsv_pipeline_run_id r = Some rid) (reservations s)
    \<and> gates t = gates s"
proof -
  let ?s1 = "runs_update (upd_row run_id rid (\<lambda>r. r\<lparr>run_status := RunCancelled,
      run_completed_at := Some (clock s)\<rparr>)) (assignments_update (cancel_assignments rid) s)"
  let ?s2 = "rs_st rid ?s1"
  obtain run2 where run2: "find_run ?s2 rid = Some run2" "run_status run2 = RunCancelled"
      "run_completed_at run2 = Some (clock s)"
    using assms(1) by (simp add: find_row_upd_row)
  have "unique_rsv ?s2" using assms(3) by (simp add: unique_rsv_def)
  from release_all_apply [OF run2(1) this] obtain t where
    t: "release_all_reservations rid ?s2 = (t, Inr ())" "released_from ?s2 t"
      "reservations t = release_rows (\<lambda>r. rsv_pipeline_run_id r = Some rid) (reservations s)" by auto
  obtain run3 where run3: "find_run t rid = Some run3" using find_run_releasedE [OF t(2) run2(1)] by blast
  have st: "map_option run_status (find_run t k) = map_option run_status (find_run ?s2 k)" for k
    using t(2) by (rule released_run_field) simp
  have co: "map_option run_completed_at (find_run t k) = map_option run_completed_at (find_run ?s2 k)" for k
    using t(2) by (rule released_run_field) simp
  let ?u = "er_st rid PIPELINE_CANCELLED (rs_tr rid ?s1) (rs_sp rid ?s1) [] t"
  have "cancel_run rid s = (?u, Inr ())"
    using assms(1,2) run3
    by (simp add: cancel_run_def cancel_assignments_def [symmetric] find_row_upd_row
        bindE_Inr [where m = "release_all_reservations rid", OF t(1)] emit_run_apply)
  moreover have "assignments t = cancel_assignments rid (assignments s)" "gates t = gates s"
    using t(2) by (simp_all add: released_from_def)
  moreover have "map_option run_status (find_run ?u rid) = Some RunCancelled"
    "map_option run_completed_at (find_run ?u rid) = Some (Some (clock s))"
    using st [of rid] co [of rid] unfolding er_st_frame run2(1) by (simp_all add: run2)
  moreover have "map_option run_status (find_run ?u k) = map_option run_status (find_run s k)" if "k \<noteq> rid" for k
    using st [of k] that by (simp add: find_row_upd_row)
  ultimately show ?thesis using t(3) by (intro exI [of _ ?u]) simp
qed

text \<open>
  Cancelling an active run stops all its work at once: the run is cancelled and
  completed now, none of its assignments is pending or in flight, none of its reservations
  is open, the other runs keep their status and their reservations, and a second
  cancellation changes nothing.
\<close>

theorem cancel_run_stops_the_run:
  assumes "find_run s rid = Some run" and "\<not> terminal_status (run_status run)" and "unique_rsv s"
  shows "\<exists>t run'. cancel_run rid s = (t, Inr ())
    \<and> find_run t rid = Some run' \<and> run_status run' = RunCancelled
    \<and> run_completed_at run' = Some (clock s)
    \<and> list_all (\<lambda>a. asg_pipeline_run_id a \<noteq> rid \<or> \<not> open_status (asg_status a)) (assignments t)
    \<and> open_reservations t rid = []
    \<and> (\<forall>k. k \<noteq> rid \<longrightarrow> open_reservations t k = open_reservations s k
         \<and> map_option run_status (find_run t k) = map_option run_status (find_run s k))
    \<and> cancel_run rid t = (t, Inr ())"
proof -
  from cancel_run_apply [OF assms] obtain t where
    t: "cancel_run rid s = (t, Inr ())"
      "map_option run_status (find_run t rid) = Some RunCancelled"
      "map_option run_completed_at (find_run t rid) = Some (Some (clock s))"
      "\<And>k. k \<noteq> rid \<Longrightarrow> map_option run_status (find_run t k) = map_option run_status (find_run s k)"
      "assignments t = cancel_assignments rid (assignments s)"
      "reservations t = release_rows (\<lambda>r. rsv_pipeline_run_id r = Some rid) (reservations s)" by blast
  from t(2,3) obtain run' where run': "find_run t rid = Some run'" "run_status run' = RunCancelled"
      "run_completed_at run' = Some (clock s)" by auto
  moreover have "list_all (\<lambda>a. asg_pipeline_run_id a \<noteq> rid \<or> \<not> open_status (asg_status a)) (assignments t)"
    unfolding t(5) by (rule cancel_assignments_closed)
  moreover have "cancel_run rid t = (t, Inr ())" using run' by (simp add: cancel_run_def)
  moreover note t(1)
  moreover have "open_reservations t rid = []"
    "\<forall>k. k \<noteq> rid \<longrightarrow> open_reservations t k = open_reservations s k
       \<and> map_option run_status (find_run t k) = map_option run_status (find_run s k)"
    by (simp_all add: open_reservations_released [OF t(6)] t(4))
  ultimately show ?thesis by blast
qed

section \<open>The review gate\<close>

text \<open>
  An escalated review gate can never be decided. The first timeout of an open gate
  turns it \<open>escalated\<close>, arms a second timeout 48 hours later and leaves the run's status as
  it was; from then on the second timeout, the resumption and every decision, approval or
  rejection, are no-ops or refused, so nothing moves the paused run on.
\<close>

theorem escalated_gate_is_stuck:
  assumes "find_gate s gid = Some gate" and "gate_status gate = GateAwaiting"
    and "gate_escalation_level gate = 0"
  shows "\<exists>t gate'. handle_review_timeout gid s = (t, Inr ())
    \<and> find_gate t gid = Some gate' \<and> gate_status gate' = GateEscalated
    \<and> gate_timeout_at gate' = Some (clock s + seconds (48 * 3600)) \<and> runs t = runs s
    \<and> handle_review_timeout gid t = (t, Inr ())
    \<and> (\<forall>approved. resume_from_review gid approved t = (t, Inr ()))
    \<and> (\<forall>reviewer approved notes.
        \<exists>e. submit_review_decision gid reviewer approved notes t = (t, Inl (ValueError e)))"
  using assms
  by (auto simp: handle_review_timeout_def Let_def gate_correlation_def find_row_upd_row
      DEFAULT_REVIEW_TIMEOUT_HOURS_def resume_from_review_def submit_review_decision_def
      split: option.splits)

definition next_edge ::
    "session \<Rightarrow> pipeline_run \<Rightarrow> content_stage \<Rightarrow> workflow_transition_trigger \<Rightarrow> json_obj
      \<Rightarrow> workflow_transition \<Rightarrow> workflow_stage \<Rightarrow> bool" where
  \<comment> \<open>the edge the run takes: the pinned definition has it first among those whose condition holds\<close>
  "next_edge s run st trigger ctx tr w \<longleftrightarrow>
     (case run_definition_id run of None \<Rightarrow> False
      | Some def \<Rightarrow> first_matching ctx (candidate_transitions s def st trigger) = Inr (Some tr)
          \<and> stage_of s def (wt_to_stage tr) = Some w)"

lemma stage_of_key: "stage_of s def key = Some w \<Longrightarrow> wst_stage_key w = key"
  by (auto simp: stage_of_def find_Some_iff)

lemma next_edge_key: "next_edge s run st trigger ctx tr w \<Longrightarrow> wst_stage_key w = wt_to_stage tr"
  by (auto simp: next_edge_def stage_of_key split: option.splits)

lemma next_edge_cong:
  "next_edge s run st trigger ctx tr w \<Longrightarrow> wf_stages t = wf_stages s \<Longrightarrow> wf_transitions t = wf_transitions s
    \<Longrightarrow> run_definition_id run' = run_definition_id run \<Longrightarrow> next_edge t run' st trigger ctx tr w"
  by (simp add: next_edge_def candidate_transitions_def stage_of_def split: option.splits)

lemma advance_takes_edge:
  assumes "find_run s rid = Some run" and "unique_stages s" and "next_edge s run st trigger ctx tr w"
  shows "advance_or_finish uf rid st trigger ctx s =
    (let s' = runs_update (upd_row run_id rid (\<lambda>r. r\<lparr>run_current_stage := wt_to_stage tr\<rparr>)) (rs_st rid s) in
     if wst_is_terminal w then succeed_run rid (wt_to_stage tr) (rs_tr rid s) (rs_sp rid s) s'
     else if wst_is_review_gate w then
       bindE (pause_for_review uf rid (wt_to_stage tr) (wst_timeout_seconds w)) (\<lambda>_. ret ()) s'
     else bindE (enqueue_stage rid (wt_to_stage tr) 0 None) (\<lambda>_. ret ()) s')"
  using assms next_edge_key [OF assms(3)]
  by (simp add: advance_or_finish_def next_edge_def definition_id_def find_transition_def Let_def
      split: option.splits)

lemma enqueue_stage_apply:
  assumes "find_run s rid = Some run"
  shows "\<exists>t job. enqueue_stage rid st n ra s = (t, Inr (job_id job))
    \<and> jobs t = jobs s @ [job] \<and> job_ref_id job = rid \<and> job_ref_table job = stage_value st
    \<and> job_job_type job = (if n = 0 then JobStage else JobRetry) \<and> job_attempt job = n
    \<and> job_run_after job = (case ra of None \<Rightarrow> clock s | Some d \<Rightarrow> d) \<and> job_status job = JobPending
    \<and> runs t = runs s \<and> gates t = gates s \<and> assignments t = assignments s
    \<and> reservations t = reservations s \<and> dead_letters t = dead_letters s"
  using assms by (simp add: enqueue_stage_def Let_def add_job_apply)

lemma bindE_ret_apply: "m s = (t, Inr x) \<Longrightarrow> bindE m (\<lambda>_. ret y) s = (t, Inr y)"
  by (simp add: bindE_def)

lemma advance_enqueues:
  assumes "find_run s rid = Some run" and "unique_stages s" and "next_edge s run st trigger ctx tr w"
    and "\<not> wst_is_terminal w" and "\<not> wst_is_review_gate w"
  shows "\<exists>t run' job. advance_or_finish uf rid st trigger ctx s = (t, Inr ())
    \<and> find_run t rid = Some run' \<and> run_current_stage run' = wt_to_stage tr
    \<and> run_status run' = run_status run \<and> run_pause_reason run' = run_pause_reason run
    \<and> jobs t = jobs s @ [job] \<and> job_job_type job = JobStage
    \<and> job_ref_table job = stage_value (wt_to_stage tr) \<and> job_ref_id job = rid
    \<and> gates t = gates s"
proof -
  let ?s1 = "runs_update (upd_row run_id rid (\<lambda>r. r\<lparr>run_current_stage := wt_to_stage tr\<rparr>)) (rs_st rid s)"
  obtain run1 where run1: "find_run ?s1 rid = Some run1" "run_current_stage run1 = wt_to_stage tr"
      "run_status run1 = run_status run" "run_pause_reason run1 = run_pause_reason run"
    using assms(1) by (simp add: find_row_upd_row)
  from enqueue_stage_apply [OF run1(1), of "wt_to_stage tr" 0 None] obtain t job where
    t: "enqueue_stage rid (wt_to_stage tr) 0 None ?s1 = (t, Inr (job_id job))" "jobs t = jobs s @ [job]"
      "job_ref_id job = rid" "job_ref_table job = stage_value (wt_to_stage tr)"
      "job_job_type job = JobStage" "runs t = runs ?s1" "gates t = gates s" by auto
  moreover have "advance_or_finish uf rid st trigger ctx s = (t, Inr ())"
    using assms(4,5) bindE_ret_apply [where m = "enqueue_stage rid (wt_to_stage tr) 0 None", OF t(1)]
    by (simp add: advance_takes_edge [OF assms(1-3)])
  moreover have "find_run t rid = Some run1" using t(6) run1(1) by simp
  ultimately show ?thesis using run1 by blast
qed

definition awaiting_gates :: "session \<Rightarrow> uuid \<Rightarrow> review_gate list" where
  "awaiting_gates s rid =
     filter (\<lambda>g. gate_pipeline_run_id g = rid \<and> gate_status g = GateAwaiting) (gates s)"

text \<open>What no operation of the engine changes in a run: its key, its workspace, its item and its idempotency key.\<close>

definition run_ident :: "pipeline_run \<Rightarrow> uuid \<times> uuid \<times> uuid \<times> string option" where
  "run_ident r = (run_id r, run_workspace_id r, run_content_item_id r, run_idempotency_key r)"

definition run_idents :: "session \<Rightarrow> (uuid \<times> uuid \<times> uuid \<times> string option) list" where
  "run_idents s = map run_ident (runs s)"

lemma run_idents_cong: "runs t = runs s \<Longrightarrow> run_idents t = run_idents s"
  by (simp add: run_idents_def)

lemma run_idents_upd: "(\<And>r. run_ident (f r) = run_ident r) \<Longrightarrow> map run_ident (upd_row run_id k f rs) = map run_ident rs"
  by (induction rs) auto

lemma run_idents_eci [simp]: "map run_ident (runs (eci_st rid s)) = map run_ident (runs s)"
  by (auto simp: eci_st_def ensure_correlation_id_def the_row_apply bindE_def run_idents_upd run_ident_def
      split: option.splits)

lemma run_idents_rs [simp]: "map run_ident (runs (rs_st rid s)) = map run_ident (runs s)"
  by (simp add: rs_st_runs run_idents_upd run_ident_def)

lemma run_idents_released:
  assumes "released_from s t"
  shows "map run_ident (runs t) = map run_ident (runs s)"
proof -
  have "map run_ident rs = map run_ident (map (\<lambda>r. r\<lparr>run_trace_id := None\<rparr>) rs)" for rs
    by (simp add: run_ident_def comp_def)
  moreover have "map (\<lambda>r. r\<lparr>run_trace_id := None\<rparr>) (runs t) = map (\<lambda>r. r\<lparr>run_trace_id := None\<rparr>) (runs s)"
    using assms unfolding released_from_def by blast
  ultimately show ?thesis by metis
qed

lemma run_idents_efr [simp]: "map run_ident (runs (efr_st rid et pl s)) = map run_ident (runs s)"
  by (rule run_idents_released [OF released_from_efr])

lemma pause_opens_gate:
  assumes "find_run s rid = Some run" and "\<not> terminal_status (run_status run)"
    and "awaiting_gates s rid = []"
    and "find_row ci_id (run_content_item_id run) (items s) = Some it"
  shows "\<exists>t gid gate job run'. pause_for_review None rid st n s = (t, Inr gid)
    \<and> find_run t rid = Some run' \<and> run_status run' = RunPaused
    \<and> run_pause_reason run' = Some ''review_gate'' \<and> run_current_stage run' = run_current_stage run
    \<and> gates t = gates s @ [gate] \<and> gate_id gate = gid \<and> gate_pipeline_run_id gate = rid
    \<and> gate_status gate = GateAwaiting \<and> gate_stage gate = st
    \<and> gate_content_version_id gate = ci_current_version_id it
    \<and> gate_timeout_at gate = Some (clock s + seconds n) \<and> gate_escalation_level gate = 0
    \<and> jobs t = jobs s @ [job] \<and> job_job_type job = JobReviewTimeout \<and> job_ref_id job = gid
    \<and> job_run_after job = clock s + seconds n
    \<and> run_workspace_id run' = run_workspace_id run \<and> run_content_item_id run' = run_content_item_id run
    \<and> items t = items s \<and> versions t = versions s \<and> reservations t = reservations s \<and> run_idents t = run_idents s"
  using assms
  by (simp add: pause_for_review_def awaiting_gates_def Let_def gate_insert_def find_row_upd_row run_idents_def
      run_idents_upd run_ident_def)

lemma success_opens_gate:
  assumes "find_run s rid = Some run" and "\<not> terminal_status (run_status run)"
    and "unique_stages s" and "next_edge s run stage OnSuccess ctx tr w"
    and "\<not> wst_is_terminal w" and "wst_is_review_gate w"
    and "awaiting_gates s rid = []"
    and "find_row ci_id (run_content_item_id run) (items s) = Some it"
  shows "\<exists>t run' gate job. handle_stage_success rid stage (Some ctx) s = (t, Inr ())
    \<and> find_run t rid = Some run' \<and> run_status run' = RunPaused
    \<and> run_pause_reason run' = Some ''review_gate'' \<and> run_current_stage run' = wt_to_stage tr
    \<and> gates t = gates s @ [gate] \<and> gate_pipeline_run_id gate = rid \<and> gate_status gate = GateAwaiting
    \<and> gate_stage gate = wt_to_stage tr \<and> gate_content_version_id gate = ci_current_version_id it
    \<and> jobs t = jobs s @ [job] \<and> job_job_type job = JobReviewTimeout \<and> job_ref_id job = gate_id gate
    \<and> job_run_after job = clock s + seconds (wst_timeout_seconds w)
    \<and> run_workspace_id run' = run_workspace_id run \<and> run_content_item_id run' = run_content_item_id run
    \<and> items t = items s \<and> versions t = versions s \<and> reservations t = reservations s \<and> run_idents t = run_idents s"
proof -
  let ?s1 = "runs_update (upd_row run_id rid (\<lambda>r. r\<lparr>run_current_stage := wt_to_stage tr\<rparr>)) (rs_st rid s)"
  obtain run1 where run1: "find_run ?s1 rid = Some run1" "run_current_stage run1 = wt_to_stage tr"
      "run_status run1 = run_status run" "run_content_item_id run1 = run_content_item_id run"
      "run_workspace_id run1 = run_workspace_id run"
    using assms(1) by (simp add: find_row_upd_row)
  have "awaiting_gates ?s1 rid = []" "find_row ci_id (run_content_item_id run1) (items ?s1) = Some it"
    using assms(7,8) run1(4) by (simp_all add: awaiting_gates_def)
  from pause_opens_gate [OF run1(1) _ this, of "wt_to_stage tr" "wst_timeout_seconds w"] assms(2) run1(3)
  obtain t gid gate job run' where
    t: "pause_for_review None rid (wt_to_stage tr) (wst_timeout_seconds w) ?s1 = (t, Inr gid)"
      "find_run t rid = Some run'" "run_status run' = RunPaused"
      "run_pause_reason run' = Some ''review_gate''" "run_current_stage run' = wt_to_stage tr"
      "run_workspace_id run' = run_workspace_id run" "run_content_item_id run' = run_content_item_id run"
    and g: "gates t = gates s @ [gate]" "gate_id gate = gid" "gate_pipeline_run_id gate = rid"
      "gate_status gate = GateAwaiting" "gate_stage gate = wt_to_stage tr"
      "gate_content_version_id gate = ci_current_version_id it"
    and j: "jobs t = jobs s @ [job]" "job_job_type job = JobReviewTimeout" "job_ref_id job = gid"
      "job_run_after job = clock s + seconds (wst_timeout_seconds w)"
    and same: "items t = items s" "versions t = versions s" "reservations t = reservations s" "run_idents t = run_idents ?s1"
    using run1(2,4,5) by auto
  have "run_idents ?s1 = run_idents s" by (simp add: run_idents_def run_idents_upd run_ident_def)
  have "handle_stage_success rid stage (Some ctx) s = (t, Inr ())"
    using assms(1,2,5,6) bindE_ret_apply [where m = "pause_for_review None rid (wt_to_stage tr) (wst_timeout_seconds w)", OF t(1)]
    by (simp add: handle_stage_success_def advance_takes_edge [OF assms(1,3,4)])
  with t(2-7) g j same \<open>run_idents ?s1 = run_idents s\<close> show ?thesis by auto
qed


lemma resume_approved_apply:
  assumes "find_gate s gid = Some gate" and "gate_status gate = GateAwaiting"
    and "find_run s (gate_pipeline_run_id gate) = Some run"
  shows "resume_from_review gid True s =
    advance_or_finish (Some gid) (gate_pipeline_run_id gate) (gate_stage gate) OnReviewApproved []
      (runs_update (upd_row run_id (gate_pipeline_run_id gate)
          (\<lambda>r. r\<lparr>run_status := RunRunning, run_pause_reason := None\<rparr>))
        (gates_update (upd_row gate_id gid
          (\<lambda>g. g\<lparr>gate_status := GateApproved, gate_decided_at := Some (clock s)\<rparr>)) s))"
  using assms by (simp add: resume_from_review_def Let_def)

text \<open>
  Approval sends the run on. Resuming from an open gate with an approval closes the
  gate, and the run, whatever its status was, is running at the stage the approval edge
  leads to, with one stage job for it. The status is not consulted, so a run cancelled
  while its gate was open is set running again by a later approval.
\<close>

lemma approval_advances:
  assumes "find_gate s gid = Some gate" and "gate_status gate = GateAwaiting"
    and "find_run s (gate_pipeline_run_id gate) = Some run"
    and "unique_stages s" and "next_edge s run (gate_stage gate) OnReviewApproved [] tr w"
    and "\<not> wst_is_terminal w" and "\<not> wst_is_review_gate w"
  shows "\<exists>t run' job. resume_from_review gid True s = (t, Inr ())
    \<and> map_option gate_status (find_gate t gid) = Some GateApproved
    \<and> find_run t (gate_pipeline_run_id gate) = Some run' \<and> run_status run' = RunRunning
    \<and> run_pause_reason run' = None \<and> run_current_stage run' = wt_to_stage tr
    \<and> jobs t = jobs s @ [job] \<and> job_job_type job = JobStage
    \<and> job_ref_table job = stage_value (wt_to_stage tr) \<and> job_ref_id job = gate_pipeline_run_id gate"
proof -
  let ?rid = "gate_pipeline_run_id gate"
  let ?s1 = "runs_update (upd_row run_id ?rid (\<lambda>r. r\<lparr>run_status := RunRunning, run_pause_reason := None\<rparr>))
        (gates_update (upd_row gate_id gid
          (\<lambda>g. g\<lparr>gate_status := GateApproved, gate_decided_at := Some (clock s)\<rparr>)) s)"
  obtain run1 where run1: "find_run ?s1 ?rid = Some run1" "run_status run1 = RunRunning"
      "run_pause_reason run1 = None" "run_definition_id run1 = run_definition_id run"
    using assms(3) by (simp add: find_row_upd_row)
  have "unique_stages ?s1" using assms(4) by (simp add: unique_stages_def)
  moreover have "next_edge ?s1 run1 (gate_stage gate) OnReviewApproved [] tr w"
    by (rule next_edge_cong [OF assms(5)]) (simp_all add: run1(4))
  ultimately obtain t run' job where
    t: "advance_or_finish (Some gid) ?rid (gate_stage gate) OnReviewApproved [] ?s1 = (t, Inr ())"
      "find_run t ?rid = Some run'" "run_current_stage run' = wt_to_stage tr"
      "run_status run' = run_status run1" "run_pause_reason run' = run_pause_reason run1"
      "jobs t = jobs ?s1 @ [job]" "job_job_type job = JobStage"
      "job_ref_table job = stage_value (wt_to_stage tr)" "job_ref_id job = ?rid" "gates t = gates ?s1"
    using advance_enqueues [OF run1(1) _ _ assms(6,7)] by blast
  moreover have "resume_from_review gid True s = (t, Inr ())"
    using t(1) by (simp add: resume_approved_apply [OF assms(1-3)])
  moreover have "map_option gate_status (find_gate t gid) = Some GateApproved"
    using assms(1) by (simp add: t(10) find_row_upd_row)
  ultimately show ?thesis using run1 by simp
qed

lemma stale_gate_rows:
  assumes "distinct (map gate_id (gates s))" and "find_gate s gid = Some gate"
    and "awaiting_gates s rid = [gate]" and "\<And>g. gate_id (f g) = gate_id g"
    and "\<And>g. gate_pipeline_run_id (f g) = gate_pipeline_run_id g"
  shows "filter (\<lambda>g. gate_pipeline_run_id g = rid \<and> (gate_status g = GateAwaiting \<or> Some (gate_id g) = Some gid))
    (upd_row gate_id gid f (gates s)) = [f gate]"
proof -
  let ?P = "\<lambda>g. gate_pipeline_run_id g = rid \<and> (gate_status g = GateAwaiting \<or> Some (gate_id g) = Some gid)"
  let ?h = "\<lambda>g. if gate_id g = gid then f g else g"
  have gate: "gate \<in> set (gates s)" "gate_id gate = gid" "gate_pipeline_run_id gate = rid" "gate_status gate = GateAwaiting"
    using find_row_SomeD [OF assms(2)] arg_cong [OF assms(3), of set] by (auto simp: awaiting_gates_def)
  have only: "g = gate" if "g \<in> set (gates s)" "gate_id g = gid" for g
    using that gate(1,2) assms(1) by (auto simp: distinct_map inj_on_def)
  have "filter (?P \<circ> ?h) (gates s) = awaiting_gates s rid"
    unfolding awaiting_gates_def using only gate(3,4) assms(4,5) by (intro filter_cong) auto
  then show ?thesis using assms(3) gate(2) by (simp add: upd_row_def filter_map)
qed

text \<open>
  Two review gates in a row lose the second one. When an approval leads to a stage that
  is itself a review gate, the query for an open gate still finds the gate just approved,
  so none is opened: the run is left running at the second review stage with no open gate
  and no job, and nobody is asked.
\<close>

theorem second_review_gate_is_lost:
  assumes "find_gate s gid = Some gate" and "gate_status gate = GateAwaiting"
    and "find_run s (gate_pipeline_run_id gate) = Some run" and "unique_stages s"
    and "distinct (map gate_id (gates s))" and "awaiting_gates s (gate_pipeline_run_id gate) = [gate]"
    and "next_edge s run (gate_stage gate) OnReviewApproved [] tr w"
    and "\<not> wst_is_terminal w" and "wst_is_review_gate w"
  shows "\<exists>t run'. resume_from_review gid True s = (t, Inr ())
    \<and> find_run t (gate_pipeline_run_id gate) = Some run' \<and> run_status run' = RunRunning
    \<and> run_current_stage run' = wt_to_stage tr
    \<and> awaiting_gates t (gate_pipeline_run_id gate) = [] \<and> jobs t = jobs s"
proof -
  let ?rid = "gate_pipeline_run_id gate"
  let ?f = "\<lambda>g. g\<lparr>gate_status := GateApproved, gate_decided_at := Some (clock s)\<rparr>"
  let ?s1 = "runs_update (upd_row run_id ?rid (\<lambda>r. r\<lparr>run_status := RunRunning, run_pause_reason := None\<rparr>))
        (gates_update (upd_row gate_id gid ?f) s)"
  let ?s2 = "runs_update (upd_row run_id ?rid (\<lambda>r. r\<lparr>run_current_stage := wt_to_stage tr\<rparr>)) (rs_st ?rid ?s1)"
  obtain run1 where run1: "find_run ?s1 ?rid = Some run1" "run_definition_id run1 = run_definition_id run"
    using assms(3) by (simp add: find_row_upd_row)
  obtain run2 where run2: "find_run ?s2 ?rid = Some run2" "run_status run2 = RunRunning"
      "run_current_stage run2 = wt_to_stage tr"
    using assms(3) by (simp add: find_row_upd_row)
  have "unique_stages ?s1" using assms(4) by (simp add: unique_stages_def)
  moreover have "next_edge ?s1 run1 (gate_stage gate) OnReviewApproved [] tr w"
    by (rule next_edge_cong [OF assms(7)]) (simp_all add: run1(2))
  ultimately have "resume_from_review gid True s =
      bindE (pause_for_review (Some gid) ?rid (wt_to_stage tr) (wst_timeout_seconds w)) (\<lambda>_. ret ()) ?s2"
    using assms(8,9) by (simp add: resume_approved_apply [OF assms(1-3)] advance_takes_edge [OF run1(1)])
  moreover have rows: "filter (\<lambda>g. gate_pipeline_run_id g = ?rid \<and> (gate_status g = GateAwaiting \<or>
      Some (gate_id g) = Some gid)) (gates ?s2) = [?f gate]"
    using stale_gate_rows [OF assms(5,1,6), of ?f] by simp
  ultimately have "resume_from_review gid True s = (?s2, Inr ())"
    using run2 by (simp add: pause_for_review_def)
  moreover have "awaiting_gates ?s2 ?rid = []"
  proof -
    have "awaiting_gates ?s2 ?rid = filter (\<lambda>g. gate_status g = GateAwaiting) [?f gate]"
      unfolding rows [symmetric] awaiting_gates_def by (auto intro: filter_cong)
    then show ?thesis by simp
  qed
  ultimately show ?thesis using run2 by auto
qed

lemma fail_run_apply:
  assumes "find_run s rid = Some run" and "unique_rsv s"
  shows "\<exists>t. fail_run rid reason s = (t, Inr ())
    \<and> map_option run_status (find_run t rid) = Some RunFailed
    \<and> map_option run_completed_at (find_run t rid) = Some (Some (clock s))
    \<and> map_option run_pause_reason (find_run t rid) = Some (run_pause_reason run)
    \<and> open_reservations t rid = []
    \<and> gates t = gates s \<and> jobs t = jobs s \<and> assignments t = assignments s
    \<and> dead_letters t = dead_letters s \<and> stage_runs t = stage_runs s \<and> wf_stages t = wf_stages s
    \<and> map_option run_definition_id (find_run t rid) = Some (run_definition_id run)
    \<and> unique_rsv t"
proof -
  let ?s1 = "runs_update (upd_row run_id rid (\<lambda>r. r\<lparr>run_status := RunFailed,
      run_completed_at := Some (clock s)\<rparr>)) s"
  let ?s2 = "er_st rid PIPELINE_FAILED (rs_tr rid ?s1) (rs_sp rid ?s1) [(''reason'', JStr reason)] (rs_st rid ?s1)"
  obtain run2 where run2: "find_run ?s2 rid = Some run2" "run_status run2 = RunFailed"
      "run_completed_at run2 = Some (clock s)" "run_pause_reason run2 = run_pause_reason run"
      "run_definition_id run2 = run_definition_id run"
    using assms(1) by (simp add: find_row_upd_row)
  have "unique_rsv ?s2" using assms(2) by (simp add: unique_rsv_def)
  from release_all_apply [OF run2(1) this] obtain t where
    t: "release_all_reservations rid ?s2 = (t, Inr ())" "released_from ?s2 t"
      "reservations t = release_rows (\<lambda>r. rsv_pipeline_run_id r = Some rid) (reservations ?s2)" by auto
  have eq: "fail_run rid reason s = (t, Inr ())"
    using assms(1) t(1) by (simp add: fail_run_def find_row_upd_row)
  have fld: "map_option run_status (find_run t rid) = Some RunFailed"
    "map_option run_completed_at (find_run t rid) = Some (Some (clock s))"
    "map_option run_pause_reason (find_run t rid) = Some (run_pause_reason run)"
    "map_option run_definition_id (find_run t rid) = Some (run_definition_id run)"
    using released_run_field [OF t(2), of run_status rid] released_run_field [OF t(2), of run_completed_at rid]
      released_run_field [OF t(2), of run_pause_reason rid]
      released_run_field [OF t(2), of run_definition_id rid] unfolding run2(1) by (simp_all add: run2)
  have "open_reservations t rid = []" by (simp add: open_reservations_released [OF t(3)])
  moreover have "unique_rsv t" using assms(2) by (simp add: unique_rsv_def t(3))
  ultimately show ?thesis using eq fld t(2) by (simp add: released_from_def)
qed

text \<open>
  A rejected piece of content is never published by default. If the workflow has no
  edge for a rejected review, a rejection closes the gate, fails the run, releases every
  reservation it holds and schedules nothing.
\<close>

theorem rejection_fails_the_run:
  assumes "find_gate s gid = Some gate" and "gate_status gate = GateAwaiting"
    and "find_run s (gate_pipeline_run_id gate) = Some run" and "unique_rsv s"
    and "run_definition_id run = Some def"
    and "candidate_transitions s def (gate_stage gate) OnReviewRejected = []"
  shows "\<exists>t run'. resume_from_review gid False s = (t, Inr ())
    \<and> map_option gate_status (find_gate t gid) = Some GateRejected
    \<and> find_run t (gate_pipeline_run_id gate) = Some run' \<and> run_status run' = RunFailed
    \<and> run_pause_reason run' = None \<and> open_reservations t (gate_pipeline_run_id gate) = []
    \<and> jobs t = jobs s"
proof -
  let ?rid = "gate_pipeline_run_id gate"
  let ?s1 = "runs_update (upd_row run_id ?rid (\<lambda>r. r\<lparr>run_pause_reason := None\<rparr>))
        (gates_update (upd_row gate_id gid
          (\<lambda>g. g\<lparr>gate_status := GateRejected, gate_decided_at := Some (clock s)\<rparr>)) s)"
  obtain run1 where run1: "find_run ?s1 ?rid = Some run1" "run_pause_reason run1 = None"
    using assms(3) by (simp add: find_row_upd_row)
  have "unique_rsv ?s1" using assms(4) by (simp add: unique_rsv_def)
  from fail_run_apply [OF run1(1) this, of "''review_rejected''"] obtain t where
    t: "fail_run ?rid ''review_rejected'' ?s1 = (t, Inr ())"
      "map_option run_status (find_run t ?rid) = Some RunFailed"
      "map_option run_pause_reason (find_run t ?rid) = Some None"
      "open_reservations t ?rid = []" "gates t = gates ?s1" "jobs t = jobs s"
    by (auto simp: run1(2))
  have "candidate_transitions (gates_update f s) def (gate_stage gate) OnReviewRejected = []" for f
    using assms(6) by (simp add: candidate_transitions_def)
  then have "resume_from_review gid False s = (t, Inr ())"
    using assms t(1) by (simp add: resume_from_review_def Let_def definition_id_def find_transition_def)
  moreover have "map_option gate_status (find_gate t gid) = Some GateRejected"
    using assms(1) by (simp add: t(5) find_row_upd_row)
  ultimately show ?thesis using t by auto
qed

section \<open>At most one open gate per run\<close>

definition gates_single :: "session \<Rightarrow> bool" where
  "gates_single s \<longleftrightarrow> (\<forall>rid. length (awaiting_gates s rid) \<le> 1)"

lemma gates_single_cong: "gates t = gates s \<Longrightarrow> gates_single t = gates_single s"
  by (simp add: gates_single_def awaiting_gates_def)

interpretation gate: core_frame "\<lambda>s t. gates_single s \<longrightarrow> gates_single t"
  by unfold_locales (auto intro: gates_single_cong [THEN iffD2])

lemma gates_single_decide:
  assumes "gates_single s" and "\<And>g. gate_pipeline_run_id (f g) = gate_pipeline_run_id g"
    and "\<And>g. gate_status (f g) = GateAwaiting \<Longrightarrow> gate_status g = GateAwaiting"
  shows "gates_single (gates_update (upd_row gate_id gid f) s)"
proof -
  have "length (filter (\<lambda>g. gate_pipeline_run_id g = rid \<and> gate_status g = GateAwaiting) (upd_row gate_id gid f gs))
      \<le> length (filter (\<lambda>g. gate_pipeline_run_id g = rid \<and> gate_status g = GateAwaiting) gs)" for rid gs
    using assms(2,3) by (induction gs) (auto simp: le_SucI)
  then show ?thesis
    using assms(1) unfolding gates_single_def awaiting_gates_def by (auto intro: order_trans)
qed

lemma pause_gates:
  "gates (state_after (pause_for_review uf rid st n) s) = gates s
   \<or> awaiting_gates s rid = [] \<and> (\<exists>g. gates (state_after (pause_for_review uf rid st n) s) = gates s @ [g]
      \<and> gate_pipeline_run_id g = rid)"
  by (auto simp: pause_for_review_def gate_insert_def Let_def awaiting_gates_def find_row_upd_row
      scalar_one_or_none_None filter_empty_conv split: option.splits sum.splits)

lemma gate_pause: "effects (\<lambda>s t. gates_single s \<longrightarrow> gates_single t) (pause_for_review uf rid st n)"
  unfolding effects_def
proof (intro allI impI)
  fix s assume "gates_single s"
  with pause_gates [of uf rid st n s] show "gates_single (state_after (pause_for_review uf rid st n) s)"
    by (auto simp: gates_single_def awaiting_gates_def)
qed

lemma gate_advance: "effects (\<lambda>s t. gates_single s \<longrightarrow> gates_single t) (advance_or_finish uf rid st tg ctx)"
  unfolding advance_or_finish_def by (intro gate.run_rules gate_pause)

lemma gate_resume: "effects (\<lambda>s t. gates_single s \<longrightarrow> gates_single t) (resume_from_review gid ok)"
  unfolding resume_from_review_def Let_def
  by (intro gate.run_rules gate_advance gate.eff_modify impI gates_single_decide)
    (auto split: if_splits)

lemma gate_timeout: "effects (\<lambda>s t. gates_single s \<longrightarrow> gates_single t) (handle_review_timeout gid)"
  unfolding handle_review_timeout_def Let_def
  by (intro gate.run_rules gate.eff_modify impI gates_single_decide) auto

lemma gate_submit: "effects (\<lambda>s t. gates_single s \<longrightarrow> gates_single t) (submit_review_decision gid rv ok n)"
proof -
  have e: "effects (\<lambda>s t. gates_single s \<longrightarrow> gates_single t) (emit et ws aty ai co tr sp pl pr)" for et ws aty ai co tr sp pl pr
    by (auto simp: effects_def intro: gates_single_cong [THEN iffD2])
  have d: "effects (\<lambda>s t. gates_single s \<longrightarrow> gates_single t) (modify (decisions_update f))" for f
    by (auto simp: effects_def intro: gates_single_cong [THEN iffD2])
  have g: "effects (\<lambda>s t. gates_single s \<longrightarrow> gates_single t) (set_gate gid (\<lambda>g. g\<lparr>gate_decided_by := x\<rparr>))" for x
    by (auto simp: effects_def intro: gates_single_decide)
  show ?thesis unfolding submit_review_decision_def by (intro gate.run_rules e d g)
qed

lemma gate_cancel: "effects (\<lambda>s t. gates_single s \<longrightarrow> gates_single t) (cancel_run rid)"
  unfolding cancel_run_def
  by (intro gate.run_rules gate.eff_modify) (auto intro: gates_single_cong [THEN iffD2])

lemma gate_success: "effects (\<lambda>s t. gates_single s \<longrightarrow> gates_single t) (handle_stage_success rid st ctx)"
  unfolding handle_stage_success_def by (intro gate.run_rules gate_advance)

section \<open>Failure, retry and dead letters\<close>

definition failed_st :: "uuid \<Rightarrow> content_stage \<Rightarrow> int \<Rightarrow> string \<Rightarrow> session \<Rightarrow> session" where
  \<comment> \<open>the session once \<open>handle_stage_failure\<close> has recorded the failure\<close>
  "failed_st rid stage n err s =
     er_st rid STAGE_FAILED (rs_tr rid s) (rs_sp rid s)
       [(''stage'', JStr (stage_value stage)), (''attempt_number'', JInt n), (''error'', JStr err)]
       (rs_st rid s)"

lemma find_run_failed_st:
  "find_run s rid = Some run \<Longrightarrow> find_run (failed_st rid stage n err s) rid =
    Some (run\<lparr>run_trace_id := Some (rs_tr rid s)\<rparr>)"
  by (simp add: failed_st_def)

text \<open>
  A transient failure below the stage's attempt limit is retried. Exactly one job for
  the same stage is scheduled, carrying the attempt number, due between now and the stage's
  maximum backoff; the run keeps its status and nothing is dead-lettered.
\<close>

theorem transient_failure_is_retried:
  assumes "find_run s rid = Some run" and "run_definition_id run = Some def"
    and "unique_stages s" and "stage_of s def stage = Some w"
    and "is_retryable err" and "n < wst_max_attempts w"
    and "rng_ok s" and "0 \<le> wst_backoff_base_seconds w" and "0 \<le> wst_backoff_multiplier w"
    and "0 \<le> wst_backoff_max_seconds w"
  shows "\<exists>t run' job. handle_stage_failure printed rid stage n err s = (t, Inr ())
    \<and> find_run t rid = Some run' \<and> run_status run' = run_status run
    \<and> jobs t = jobs s @ [job] \<and> job_ref_id job = rid \<and> job_ref_table job = stage_value stage
    \<and> job_attempt job = n \<and> clock s \<le> job_run_after job
    \<and> job_run_after job \<le> clock s + seconds (wst_backoff_max_seconds w)
    \<and> dead_letters t = dead_letters s"
proof -
  let ?s1 = "failed_st rid stage n err s"
  let ?hi = "backoff_capped (n + 1) (wst_backoff_base_seconds w) (of_int (wst_backoff_multiplier w))
      (wst_backoff_max_seconds w)"
  let ?delay = "?hi * rng s (draws s)"
  let ?s2 = "?s1\<lparr>draws := Suc (draws s)\<rparr>"
  note hi = backoff_capped_bounds [OF assms(8) _ assms(10), of "of_int (wst_backoff_multiplier w)" "n + 1"]
  have hi0: "0 \<le> ?hi" "?hi \<le> of_int (wst_backoff_max_seconds w)" using hi assms(9) by simp_all
  note draw = random_scaled_bounds [OF assms(7) hi0(1), of "draws s"]
  note due = timedelta_seconds_bounds [OF draw(1) order_trans [OF draw(2) hi0(2)]]
  have run2: "find_run ?s2 rid = Some (run\<lparr>run_trace_id := Some (rs_tr rid s)\<rparr>)"
    using find_run_failed_st [OF assms(1)] by simp
  from enqueue_stage_apply [OF this, of stage n "Some (clock s + timedelta_seconds ?delay)"] obtain t job where
    t: "enqueue_stage rid stage n (Some (clock s + timedelta_seconds ?delay)) ?s2 = (t, Inr (job_id job))"
      "jobs t = jobs s @ [job]" "job_ref_id job = rid" "job_ref_table job = stage_value stage"
      "job_attempt job = n" "job_run_after job = clock s + timedelta_seconds ?delay"
      "runs t = runs ?s2" "dead_letters t = dead_letters s"
    by (auto simp: failed_st_def)
  have "unique_stages ?s1" "stage_of ?s1 def stage = Some w"
    using assms(3,4) by (simp_all add: failed_st_def unique_stages_def stage_of_def)
  then have "handle_stage_failure printed rid stage n err s = (t, Inr ())"
    using assms(1,2,5,6) t(1) bindE_ret_apply [where m = "enqueue_stage rid stage n
        (Some (clock s + timedelta_seconds ?delay))", OF t(1)]
    by (simp add: handle_stage_failure_def failed_st_def definition_id_def compute_backoff_seconds_def)
  moreover have "find_run t rid = Some (run\<lparr>run_trace_id := Some (rs_tr rid s)\<rparr>)"
    using run2 t(7) by simp
  ultimately show ?thesis using t due by auto
qed

text \<open>
  A permanent failure, or one that has used up the stage's attempts, ends the run. The
  run is failed and completed now, its reservations are released, exactly one dead-letter
  record keeps the reason and the attempt count, and nothing is scheduled (for a stage
  without compensation).
\<close>

theorem exhausted_failure_ends_the_run:
  assumes "find_run s rid = Some run" and "run_definition_id run = Some def"
    and "unique_stages s" and "stage_of s def stage = Some w" and "unique_rsv s"
    and "\<not> (is_retryable err \<and> n < wst_max_attempts w)"
    and "wst_compensation_stage_key w = None"
  shows "\<exists>t run' d. handle_stage_failure printed rid stage n err s = (t, Inr ())
    \<and> find_run t rid = Some run' \<and> run_status run' = RunFailed
    \<and> run_completed_at run' = Some (clock s) \<and> open_reservations t rid = []
    \<and> jobs t = jobs s \<and> dead_letters t = dead_letters s @ [d] \<and> dlq_related_id d = rid
    \<and> dlq_failure_reason d = err \<and> dlq_attempt_count d = n"
proof -
  let ?s1 = "failed_st rid stage n err s"
  let ?first = "case run_started_at run of None \<Rightarrow> clock ?s1 | Some d \<Rightarrow> d"
  let ?d = "dlq_entry (run_workspace_id run) ''pipeline_runs'' rid (''stage:'' @ printed)
      (Some [(''stage'', JStr (stage_value stage)), (''attempt_number'', JInt n)]) err n ?first ?s1"
  let ?s2 = "?s1\<lparr>next_uuid := Suc (next_uuid ?s1), dead_letters := dead_letters s @ [?d]\<rparr>"
  have run2: "find_run ?s2 rid = Some (run\<lparr>run_trace_id := Some (rs_tr rid s)\<rparr>)"
    using find_run_failed_st [OF assms(1)] by simp
  moreover have "unique_rsv ?s2" using assms(5) by (simp add: unique_rsv_def failed_st_def)
  ultimately obtain t where
    t: "fail_run rid err ?s2 = (t, Inr ())" "map_option run_status (find_run t rid) = Some RunFailed"
      "map_option run_completed_at (find_run t rid) = Some (Some (clock s))"
      "open_reservations t rid = []" "jobs t = jobs s" "dead_letters t = dead_letters s @ [?d]"
    using fail_run_apply [of rid ?s2 _ err] by (auto simp: failed_st_def)
  have "unique_stages ?s1" "stage_of ?s1 def stage = Some w"
    using assms(3,4) by (simp_all add: failed_st_def unique_stages_def stage_of_def)
  then have "handle_stage_failure printed rid stage n err s = (t, Inr ())"
    using assms(1,2,6,7) t(1) unfolding failed_st_def
    by (auto simp: handle_stage_failure_def definition_id_def)
  with t show ?thesis by (auto simp: dlq_entry_def)
qed

section \<open>Choosing the transition\<close>

lemma first_matching_Some:
  assumes "first_matching ctx trs = Inr (Some tr)"
  shows "\<exists>us vs. trs = us @ tr # vs \<and> evaluate_condition (wt_condition tr) ctx = Inr True
    \<and> (\<forall>u\<in>set us. evaluate_condition (wt_condition u) ctx = Inr False)"
  using assms
proof (induction trs)
  case (Cons x xs)
  show ?case
  proof (cases "evaluate_condition (wt_condition x) ctx = Inr True")
    case True
    with Cons.prems have "x = tr" by (simp add: bind_sum_def)
    with True show ?thesis by (intro exI [of _ "[]"] exI [of _ xs]) simp
  next
    case False
    with Cons.prems have x: "evaluate_condition (wt_condition x) ctx = Inr False"
      and "first_matching ctx xs = Inr (Some tr)"
      by (auto simp: bind_sum_def split: sum.splits if_splits)
    then obtain us vs where "xs = us @ tr # vs" "evaluate_condition (wt_condition tr) ctx = Inr True"
      "\<forall>u\<in>set us. evaluate_condition (wt_condition u) ctx = Inr False" using Cons.IH by blast
    with x show ?thesis by (intro exI [of _ "x # us"] exI [of _ vs]) simp
  qed
qed simp

lemma first_matching_None:
  "first_matching ctx trs = Inr None \<Longrightarrow> tr \<in> set trs \<Longrightarrow> evaluate_condition (wt_condition tr) ctx = Inr False"
  by (induction trs) (auto simp: bind_sum_def split: sum.splits if_splits)

definition edge_from :: "session \<Rightarrow> uuid \<Rightarrow> content_stage \<Rightarrow> workflow_transition_trigger \<Rightarrow> workflow_transition \<Rightarrow> bool" where
  "edge_from s def st trigger w \<longleftrightarrow> w \<in> set (wf_transitions s) \<and> wt_definition_id w = def
     \<and> wt_from_stage w = st \<and> wt_trigger w = trigger"

lemma set_candidate_transitions: "w \<in> set (candidate_transitions s def st trigger) \<longleftrightarrow> edge_from s def st trigger w"
  by (auto simp: candidate_transitions_def edge_from_def)

text \<open>
  The edge a run takes is the first by priority whose condition holds: it belongs to
  the run's definition, stage and trigger, its condition is true of the context, and every
  other such edge with a true condition has a priority number at least as large. When no
  edge is taken, no edge of that stage and trigger has a true condition.
\<close>

theorem transition_is_first_by_priority:
  assumes "find_transition def st trigger ctx s = (t, Inr choice)"
  shows "t = s \<and> (case choice of
      None \<Rightarrow> \<forall>w. edge_from s def st trigger w \<longrightarrow> evaluate_condition (wt_condition w) ctx = Inr False
    | Some tr \<Rightarrow> edge_from s def st trigger tr \<and> evaluate_condition (wt_condition tr) ctx = Inr True
        \<and> (\<forall>w. edge_from s def st trigger w \<and> evaluate_condition (wt_condition w) ctx = Inr True
             \<longrightarrow> wt_priority tr \<le> wt_priority w))"
proof -
  let ?c = "candidate_transitions s def st trigger"
  have t: "t = s" and m: "first_matching ctx ?c = Inr choice"
    using assms by (auto simp: find_transition_def)
  show ?thesis
  proof (cases choice)
    case None
    then show ?thesis using t m first_matching_None by (auto simp: set_candidate_transitions [symmetric])
  next
    case (Some tr)
    with m first_matching_Some obtain us vs where
      split: "?c = us @ tr # vs" "evaluate_condition (wt_condition tr) ctx = Inr True"
        "\<forall>u\<in>set us. evaluate_condition (wt_condition u) ctx = Inr False" by blast
    have "sorted (map wt_priority ?c)" unfolding candidate_transitions_def by (rule sorted_sort_key)
    then have "wt_priority tr \<le> wt_priority w" if "w \<in> set vs" for w
      using that by (simp add: split(1) sorted_append)
    moreover have "w \<in> set us \<or> w = tr \<or> w \<in> set vs" if "edge_from s def st trigger w" for w
      using that by (simp add: set_candidate_transitions [symmetric] split(1)) blast
    moreover have "edge_from s def st trigger tr"
      by (simp add: set_candidate_transitions [symmetric] split(1))
    ultimately show ?thesis using t Some split(2,3) by fastforce
  qed
qed

section \<open>A small workflow to evaluate on\<close>

definition sample_stage :: "content_stage \<Rightarrow> int \<Rightarrow> bool \<Rightarrow> workflow_stage" where
  "sample_stage key ord gate = \<lparr>wst_id = 300 + nat ord, wst_definition_id = 30, wst_stage_key = key,
     wst_ordinal = ord, wst_max_attempts = 3, wst_backoff_base_seconds = 5,
     wst_backoff_multiplier = 2, wst_backoff_max_seconds = 300, wst_timeout_seconds = 600,
     wst_is_review_gate = gate, wst_is_terminal = False, wst_compensation_stage_key = None\<rparr>"

definition sample_edge :: "content_stage \<Rightarrow> content_stage \<Rightarrow> workflow_transition_trigger \<Rightarrow> workflow_transition" where
  "sample_edge a b trigger = \<lparr>wt_id = 400, wt_definition_id = 30, wt_from_stage = a,
     wt_to_stage = b, wt_trigger = trigger, wt_condition = None, wt_priority = 0\<rparr>"

definition sample_item :: content_item where
  "sample_item = \<lparr>ci_id = 20, ci_workspace_id = 1, ci_topic = ''t'', ci_target_length_seconds = None,
     ci_current_stage = SCRIPTING, ci_current_version_id = Some 21, ci_current_pipeline_run_id = Some 10\<rparr>"

definition sample_gate :: review_gate where
  "sample_gate = \<lparr>gate_id = 70, gate_workspace_id = 1, gate_pipeline_run_id = 10,
     gate_content_version_id = Some 21, gate_stage = REVIEW, gate_status = GateAwaiting,
     gate_requested_at = 0, gate_timeout_at = Some 600, gate_decided_at = None,
     gate_decided_by = None, gate_escalation_level = 0\<rparr>"

definition wf_sample :: session where
  "wf_sample = spend_sample\<lparr>items := [sample_item],
     wf_stages := [sample_stage SCRIPTING 0 False, sample_stage REVIEW 1 True, sample_stage VISUALS 2 False],
     wf_transitions := [sample_edge SCRIPTING REVIEW OnSuccess, sample_edge REVIEW VISUALS OnReviewApproved]\<rparr>"

definition gate_sample :: "pipeline_run_status \<Rightarrow> session" where
  "gate_sample st = wf_sample\<lparr>runs := [sample_run\<lparr>run_status := st\<rparr>], gates := [sample_gate]\<rparr>"

lemmas wf_sample_defs = wf_sample_def gate_sample_def spend_sample_def sample_item_def sample_stage_def
  sample_edge_def sample_gate_def

lemma wf_sample_facts:
  "find_run wf_sample 10 = Some sample_run" "unique_stages wf_sample" "unique_rsv wf_sample"
  "find_row ci_id 20 (items wf_sample) = Some sample_item" "awaiting_gates wf_sample 10 = []"
  "next_edge wf_sample sample_run SCRIPTING OnSuccess ctx
     (sample_edge SCRIPTING REVIEW OnSuccess) (sample_stage REVIEW 1 True)"
  "stage_of wf_sample 30 SCRIPTING = Some (sample_stage SCRIPTING 0 False)" "rng_ok wf_sample"
  by (simp_all add: wf_sample_defs sample_run_def unique_stages_def unique_rsv_def awaiting_gates_def
      empty_session_def next_edge_def candidate_transitions_def evaluate_condition_def bind_sum_def
      stage_of_def rng_ok_def)

lemma gate_sample_facts:
  "find_run (gate_sample st) 10 = Some (sample_run\<lparr>run_status := st\<rparr>)" "unique_stages (gate_sample st)"
  "unique_rsv (gate_sample st)" "find_gate (gate_sample st) 70 = Some sample_gate"
  "next_edge (gate_sample st) (sample_run\<lparr>run_status := st\<rparr>) REVIEW OnReviewApproved []
     (sample_edge REVIEW VISUALS OnReviewApproved) (sample_stage VISUALS 2 False)"
  "candidate_transitions (gate_sample st) 30 REVIEW OnReviewRejected = []"
  by (simp_all add: wf_sample_defs sample_run_def unique_stages_def unique_rsv_def
      empty_session_def next_edge_def candidate_transitions_def evaluate_condition_def bind_sum_def
      stage_of_def)

theorem terminal_run_stays_out_witness:
  "handle_stage_success 10 SCRIPTING None (gate_sample RunCancelled) = (gate_sample RunCancelled, Inr ())"
  using terminal_run_stays_out [OF gate_sample_facts(1) [of RunCancelled]] by simp

theorem cancel_run_stops_the_run_witness:
  "\<exists>t. cancel_run 10 wf_sample = (t, Inr ()) \<and> open_reservations t 10 = []
    \<and> open_reservations wf_sample 10 = [sample_rsv]"
proof -
  have "\<not> terminal_status (run_status sample_run)" by (simp add: sample_run_def)
  moreover have "open_reservations wf_sample 10 = [sample_rsv]"
    by (simp add: open_reservations_def wf_sample_defs sample_rsv_def)
  ultimately show ?thesis
    using cancel_run_stops_the_run [OF wf_sample_facts(1) _ wf_sample_facts(3)] by blast
qed

theorem escalated_gate_is_stuck_witness:
  "\<exists>t. handle_review_timeout 70 (gate_sample RunPaused) = (t, Inr ())
    \<and> handle_review_timeout 70 t = (t, Inr ())
    \<and> resume_from_review 70 True t = (t, Inr ())"
  using escalated_gate_is_stuck [OF gate_sample_facts(4) [of RunPaused]]
  by (auto simp: sample_gate_def)


definition two_gates_sample :: session where
  "two_gates_sample = (gate_sample RunPaused)\<lparr>
     wf_stages := [sample_stage REVIEW 1 True, sample_stage SCHEDULED 2 True],
     wf_transitions := [sample_edge REVIEW SCHEDULED OnReviewApproved]\<rparr>"

theorem second_review_gate_is_lost_witness:
  "\<exists>t run'. resume_from_review 70 True two_gates_sample = (t, Inr ())
    \<and> find_run t 10 = Some run' \<and> run_status run' = RunRunning
    \<and> run_current_stage run' = SCHEDULED \<and> awaiting_gates t 10 = [] \<and> jobs t = []"
proof -
  let ?s = two_gates_sample
  have facts: "find_gate ?s 70 = Some sample_gate" "gate_status sample_gate = GateAwaiting"
    "find_run ?s (gate_pipeline_run_id sample_gate) = Some (sample_run\<lparr>run_status := RunPaused\<rparr>)"
    "unique_stages ?s" "distinct (map gate_id (gates ?s))"
    "awaiting_gates ?s (gate_pipeline_run_id sample_gate) = [sample_gate]"
    "next_edge ?s (sample_run\<lparr>run_status := RunPaused\<rparr>) (gate_stage sample_gate) OnReviewApproved []
       (sample_edge REVIEW SCHEDULED OnReviewApproved) (sample_stage SCHEDULED 2 True)"
    "\<not> wst_is_terminal (sample_stage SCHEDULED 2 True)" "wst_is_review_gate (sample_stage SCHEDULED 2 True)"
    by (simp_all add: two_gates_sample_def wf_sample_defs sample_run_def unique_stages_def awaiting_gates_def
        next_edge_def candidate_transitions_def evaluate_condition_def bind_sum_def stage_of_def)
  have "jobs ?s = []" by (simp add: two_gates_sample_def wf_sample_defs empty_session_def)
  with second_review_gate_is_lost [OF facts] show ?thesis
    by (simp add: sample_gate_def sample_edge_def)
qed

theorem rejection_fails_the_run_witness:
  "\<exists>t run'. resume_from_review 70 False (gate_sample RunPaused) = (t, Inr ())
    \<and> find_run t 10 = Some run' \<and> run_status run' = RunFailed"
proof -
  have "gate_status sample_gate = GateAwaiting" "gate_pipeline_run_id sample_gate = 10"
    "gate_stage sample_gate = REVIEW" "run_definition_id (sample_run\<lparr>run_status := RunPaused\<rparr>) = Some 30"
    by (simp_all add: sample_gate_def sample_run_def)
  with rejection_fails_the_run [OF gate_sample_facts(4) [of RunPaused], where def = 30] gate_sample_facts(1,3,6)
  show ?thesis by auto
qed

theorem transient_failure_is_retried_witness:
  "\<exists>t job. handle_stage_failure ''scripting'' 10 SCRIPTING 1 ''timeout'' wf_sample = (t, Inr ())
    \<and> jobs t = [job] \<and> job_attempt job = 1"
proof -
  have "is_retryable ''timeout''" by code_simp
  moreover have "jobs wf_sample = []" by (simp add: wf_sample_defs empty_session_def)
  ultimately show ?thesis
    using transient_failure_is_retried [OF wf_sample_facts(1) _ wf_sample_facts(2,7) _ _ wf_sample_facts(8), of "''timeout''" 1 "''scripting''"]
    by (auto simp: sample_run_def sample_stage_def)
qed

theorem exhausted_failure_ends_the_run_witness:
  "\<exists>t run'. handle_stage_failure ''scripting'' 10 SCRIPTING 3 ''timeout'' wf_sample = (t, Inr ())
    \<and> find_run t 10 = Some run' \<and> run_status run' = RunFailed"
  using exhausted_failure_ends_the_run
    [OF wf_sample_facts(1) _ wf_sample_facts(2,7,3), of "''timeout''" 3 "''scripting''"]
  by (auto simp: sample_run_def sample_stage_def)

theorem transition_is_first_by_priority_witness:
  "find_transition 30 SCRIPTING OnSuccess [] wf_sample =
     (wf_sample, Inr (Some (sample_edge SCRIPTING REVIEW OnSuccess)))
   \<and> edge_from wf_sample 30 SCRIPTING OnSuccess (sample_edge SCRIPTING REVIEW OnSuccess)"
proof -
  have "find_transition 30 SCRIPTING OnSuccess [] wf_sample =
      (wf_sample, Inr (Some (sample_edge SCRIPTING REVIEW OnSuccess)))"
    by (simp add: find_transition_def candidate_transitions_def wf_sample_defs evaluate_condition_def bind_sum_def)
  with transition_is_first_by_priority [OF this] show ?thesis by simp
qed

end
