(* ===== verification/Recovery.thy ===== *)
theory Recovery
  imports Controller
begin

text \<open>
  Lease recovery (\<open>orchestration/recovery.py\<close>): an assignment whose worker is gone or whose
  lease has run out is requeued with the next attempt number, or, when its attempts are
  used up, failed and dead-lettered; the batch reapers and their termination.
\<close>

section \<open>Operations\<close>

datatype recovery_result_kind = KindRequeued | KindDeadLettered | KindSkipped

record recovery_result =
  rr_assignment :: uuid
  rr_kind :: recovery_result_kind
  rr_previous_attempt :: int
  rr_new_attempt :: "int option"

definition clear_lease_and_claim_fields :: "stage_assignment \<Rightarrow> stage_assignment" where
  "clear_lease_and_claim_fields a = a\<lparr>asg_worker_id := None, asg_lease_expires_at := None,
     asg_lease_started_at := None, asg_lease_extension_count := 0, asg_dispatched_at := None,
     asg_acknowledged_at := None, asg_claimed_by := None, asg_claimed_at := None,
     asg_claim_token := None\<rparr>"

definition release_slot :: "worker_registration \<Rightarrow> worker_registration" where
  \<comment> \<open>the two conditional assignments of \<open>_release_worker_slot\<close>\<close>
  "release_slot w =
     (let w1 = (if 0 < wk_current_load w then w\<lparr>wk_current_load := wk_current_load w - 1\<rparr> else w)
      in if wk_status w1 = WorkerBusy \<and> wk_current_load w1 < wk_max_concurrency w1
         then w1\<lparr>wk_status := WorkerOnline\<rparr> else w1)"

definition release_worker_slot :: "uuid option \<Rightarrow> unit svc" where
  "release_worker_slot worker_id =
     (case worker_id of
        None \<Rightarrow> ret ()
      | Some k \<Rightarrow>
          bindE (gets (\<lambda>s. find_worker s k)) (\<lambda>worker.
          case worker of None \<Rightarrow> ret () | Some w \<Rightarrow> set_worker k release_slot))"

definition resolve_max_attempts :: "stage_assignment \<Rightarrow> int svc" where
  "resolve_max_attempts a =
     bindE (gets get_settings) (\<lambda>st.
     bindE (gets (\<lambda>s. find_run s (asg_pipeline_run_id a))) (\<lambda>r.
     case r of
       None \<Rightarrow> ret (assignment_default_max_attempts st)
     | Some run \<Rightarrow>
         (case run_definition_id run of
            None \<Rightarrow> ret (assignment_default_max_attempts st)
          | Some def \<Rightarrow>
              bindE (gets (\<lambda>s. filter (\<lambda>w. wst_definition_id w = def \<and> wst_stage_key w = asg_stage a)
                 (wf_stages s))) (\<lambda>rows.
              bindE (liftE (scalar_one_or_none rows)) (\<lambda>stage_def.
              ret (case stage_def of None \<Rightarrow> assignment_default_max_attempts st
                   | Some w \<Rightarrow> wst_max_attempts w))))))"

definition recovery_audit ::
    "stage_assignment \<Rightarrow> uuid option \<Rightarrow> recovery_reason \<Rightarrow> string \<Rightarrow> int \<Rightarrow> int option
      \<Rightarrow> recovery_outcome \<Rightarrow> string option \<Rightarrow> unit svc" where
  "recovery_audit a previous_worker_id reason previous_status previous_attempt new_attempt outc detail =
     bindE uuid4 (\<lambda>u.
     modify (recovery_audits_update (\<lambda>rs. rs @ [\<lparr>sra_id = u, sra_workspace_id = asg_workspace_id a,
       sra_assignment_id = asg_id a, sra_previous_worker_id = previous_worker_id, sra_reason = reason,
       sra_previous_status = previous_status, sra_previous_attempt = previous_attempt,
       sra_new_attempt = new_attempt, sra_outcome = outc, sra_detail = detail,
       sra_correlation_id = asg_correlation_id a\<rparr>])))"

definition or_str :: "string option \<Rightarrow> string \<Rightarrow> string" where
  \<comment> \<open>\<open>detail or default\<close>: the empty string is false\<close>
  "or_str detail d = (case detail of None \<Rightarrow> d | Some x \<Rightarrow> if x = [] then d else x)"

definition idempotency_key :: "uuid \<Rightarrow> string \<Rightarrow> int \<Rightarrow> string" where
  "idempotency_key rid stage n = uuid_str rid @ '':'' @ stage @ '':'' @ int_str n"

definition flush_idempotency_key :: "uuid \<Rightarrow> unit svc" where
  \<comment> \<open>the flush of a changed key against \<open>uq_stage_assignments_workspace_idem\<close>\<close>
  "flush_idempotency_key k =
     bindE (the_asg k) (\<lambda>a.
     bindE (gets (\<lambda>s. list_ex (\<lambda>b. asg_id b \<noteq> k \<and> asg_workspace_id b = asg_workspace_id a
        \<and> asg_idempotency_key b = asg_idempotency_key a) (assignments s))) (\<lambda>taken.
     if taken \<and> asg_idempotency_key a \<noteq> None
     then raise (IntegrityError ''uq_stage_assignments_workspace_idem'') else ret ()))"

definition asg_correlation :: "stage_assignment \<Rightarrow> uuid svc" where
  \<comment> \<open>\<open>assignment.correlation_id or uuid.uuid4()\<close>\<close>
  "asg_correlation a = (case asg_correlation_id a of None \<Rightarrow> uuid4 | Some c \<Rightarrow> ret c)"

definition release_for_recovery :: "stage_assignment \<Rightarrow> unit svc" where
  \<comment> \<open>the stale reservations of the stage, if the run still exists\<close>
  "release_for_recovery a =
     bindE (gets (\<lambda>s. find_run s (asg_pipeline_run_id a))) (\<lambda>run_for_release.
     case run_for_release of
       None \<Rightarrow> ret ()
     | Some run \<Rightarrow> release_stage_reservations (run_id run) (asg_stage a))"

definition fail_for_recovery :: "stage_assignment \<Rightarrow> recovery_reason \<Rightarrow> unit svc" where
  \<comment> \<open>failing the run of an assignment whose attempts are used up, unless it is over already\<close>
  "fail_for_recovery a reason =
     bindE (gets (\<lambda>s. find_run s (asg_pipeline_run_id a))) (\<lambda>r.
     case r of
       None \<Rightarrow> ret ()
     | Some run \<Rightarrow>
         if terminal_status (run_status run) then ret ()
         else
           bindE (if run_correlation_id run = None
             then bindE (asg_correlation a) (\<lambda>c.
               set_run (run_id run) (\<lambda>r. r\<lparr>run_correlation_id := Some c\<rparr>))
             else ret ()) (\<lambda>_.
           fail_run (run_id run) (''assignment recovery exhausted ('' @ recovery_reason_value reason @ '')'')))"

definition recover_exhausted ::
    "uuid \<Rightarrow> recovery_reason \<Rightarrow> datetime \<Rightarrow> string option \<Rightarrow> stage_assignment \<Rightarrow> int \<Rightarrow> recovery_result svc" where
  \<comment> \<open>the branch \<open>next_attempt > max_attempts\<close> of \<open>recover_assignment\<close>, \<open>a\<close> the row before it\<close>
  "recover_exhausted k reason now detail a max_attempts =
     bindE (set_asg k (\<lambda>x. x\<lparr>asg_status := AsgFailed, asg_completed_at := Some now\<rparr>)) (\<lambda>_.
     bindE (set_asg k clear_lease_and_claim_fields) (\<lambda>_.
     bindE (the_asg k) (\<lambda>cleared.
     bindE (route_to_dead_letter (asg_workspace_id a) ''stage_assignments'' k
        (''stage:'' @ stage_repr (asg_stage a))
        (Some [(''stage'', JStr (stage_value (asg_stage a))), (''attempt_number'', JInt (asg_attempt_number a)),
               (''reason'', JStr (recovery_reason_value reason))])
        (''recovery exhausted ('' @ recovery_reason_value reason @ '') after ''
           @ int_str (asg_attempt_number a) @ '' attempts'')
        (asg_attempt_number a)
        (case asg_dispatched_at cleared of None \<Rightarrow> now | Some d \<Rightarrow> d)) (\<lambda>_.
     bindE (fail_for_recovery a reason) (\<lambda>_.
     bindE (recovery_audit a (asg_worker_id a) reason (asg_status_value (asg_status a)) (asg_attempt_number a)
        None OutDeadLettered (Some (or_str detail (''max_attempts='' @ int_str max_attempts)))) (\<lambda>_.
     ret \<lparr>rr_assignment = k, rr_kind = KindDeadLettered,
       rr_previous_attempt = asg_attempt_number a, rr_new_attempt = None\<rparr>))))))"

definition recover_requeue ::
    "uuid \<Rightarrow> recovery_reason \<Rightarrow> string option \<Rightarrow> stage_assignment \<Rightarrow> recovery_result svc" where
  \<comment> \<open>the requeue branch of \<open>recover_assignment\<close>\<close>
  "recover_requeue k reason detail a =
     (let next_attempt = asg_attempt_number a + 1 in
     bindE (release_for_recovery a) (\<lambda>_.
     bindE (set_asg k (\<lambda>x. clear_lease_and_claim_fields (x\<lparr>asg_status := AsgPending,
        asg_attempt_number := next_attempt,
        asg_idempotency_key := Some (idempotency_key (asg_pipeline_run_id a)
           (stage_value (asg_stage a)) next_attempt)\<rparr>))) (\<lambda>_.
     bindE (child_span (asg_trace_id a)) (\<lambda>(trace_id, span_id).
     bindE (set_asg k (\<lambda>x. x\<lparr>asg_trace_id := Some trace_id\<rparr>)) (\<lambda>_.
     bindE (asg_correlation a) (\<lambda>corr.
     bindE (flush_idempotency_key k) (\<lambda>_.
     bindE (emit STAGE_REASSIGNED (asg_workspace_id a) ''pipeline_run'' (asg_pipeline_run_id a) corr
        trace_id span_id
        [(''stage'', JStr (stage_value (asg_stage a))), (''assignment_id'', JStr (uuid_str k)),
         (''reason'', JStr (recovery_reason_value reason)),
         (''previous_attempt'', JInt (asg_attempt_number a)), (''attempt_number'', JInt next_attempt)]
        ''recovery'') (\<lambda>_.
     bindE (recovery_audit a (asg_worker_id a) reason (asg_status_value (asg_status a)) (asg_attempt_number a)
        (Some next_attempt) OutRequeued detail) (\<lambda>_.
     ret \<lparr>rr_assignment = k, rr_kind = KindRequeued,
       rr_previous_attempt = asg_attempt_number a, rr_new_attempt = Some next_attempt\<rparr>)))))))))"

definition recover_assignment ::
    "uuid \<Rightarrow> recovery_reason \<Rightarrow> datetime option \<Rightarrow> string option \<Rightarrow> recovery_result svc" where
  "recover_assignment k reason now detail =
     bindE utcnow (\<lambda>clk.
       let now = (case now of None \<Rightarrow> clk | Some n \<Rightarrow> n) in
     bindE (the_asg k) (\<lambda>a.
     if \<not> in_flight (asg_status a) then
       bindE (recovery_audit a (asg_worker_id a) reason (asg_status_value (asg_status a)) (asg_attempt_number a)
          None OutSkipped (Some (or_str detail ''not in-flight''))) (\<lambda>_.
       ret \<lparr>rr_assignment = k, rr_kind = KindSkipped,
         rr_previous_attempt = asg_attempt_number a, rr_new_attempt = None\<rparr>)
     else
       bindE (release_worker_slot (asg_worker_id a)) (\<lambda>_.
       bindE (resolve_max_attempts a) (\<lambda>max_attempts.
       if max_attempts < asg_attempt_number a + 1 then recover_exhausted k reason now detail a max_attempts
       else recover_requeue k reason detail a))))"

definition expired_holdings :: "session \<Rightarrow> datetime \<Rightarrow> stage_assignment list" where
  "expired_holdings s now =
     sort_key (\<lambda>a. the (asg_lease_expires_at a))
       (filter (\<lambda>a. in_flight (asg_status a) \<and> unlocked s (asg_id a)
          \<and> (case asg_lease_expires_at a of None \<Rightarrow> False | Some d \<Rightarrow> d < now)) (assignments s))"

definition reap_expired_leases :: "nat option \<Rightarrow> datetime option \<Rightarrow> recovery_result list svc" where
  "reap_expired_leases batch_size now =
     bindE (gets get_settings) (\<lambda>st.
     bindE utcnow (\<lambda>clk.
       let now = (case now of None \<Rightarrow> clk | Some n \<Rightarrow> n);
           limit = (case batch_size of None \<Rightarrow> assignment_reaper_batch_size st | Some b \<Rightarrow> b) in
     bindE (gets (\<lambda>s. map asg_id (take limit (expired_holdings s now)))) (\<lambda>expired.
     collect_each (\<lambda>k. recover_assignment k LeaseExpired (Some now) None) expired)))"

definition worker_holdings :: "session \<Rightarrow> uuid \<Rightarrow> stage_assignment list" where
  "worker_holdings s wid = filter (\<lambda>a. asg_worker_id a = Some wid \<and> in_flight (asg_status a)
     \<and> unlocked s (asg_id a)) (assignments s)"

text \<open>
  The \<open>while True\<close> loop, with fuel: \<open>None\<close> is a loop that has not ended when the fuel is
  used up. Each pass that does not end the loop takes at least one row away from the
  worker, so one more than the rows it holds is enough.
\<close>

primrec reap_worker_loop ::
    "nat \<Rightarrow> uuid \<Rightarrow> recovery_reason \<Rightarrow> nat \<Rightarrow> datetime \<Rightarrow> string option \<Rightarrow> recovery_result list option svc" where
  "reap_worker_loop 0 wid reason limit now detail = ret None"
| "reap_worker_loop (Suc fuel) wid reason limit now detail =
     bindE (gets (\<lambda>s. map asg_id (take limit (worker_holdings s wid)))) (\<lambda>holdings.
     if holdings = [] then ret (Some [])
     else
       bindE (collect_each (\<lambda>k. recover_assignment k reason (Some now) detail) holdings) (\<lambda>outcomes.
       if length holdings < limit then ret (Some outcomes)
       else
         bindE (reap_worker_loop fuel wid reason limit now detail) (\<lambda>rest.
         ret (map_option (\<lambda>r. outcomes @ r) rest))))"

definition reap_worker_assignments ::
    "uuid \<Rightarrow> recovery_reason \<Rightarrow> nat option \<Rightarrow> datetime option \<Rightarrow> string option
      \<Rightarrow> recovery_result list option svc" where
  "reap_worker_assignments wid reason batch_size now detail =
     bindE (gets get_settings) (\<lambda>st.
     bindE utcnow (\<lambda>clk.
       let now = (case now of None \<Rightarrow> clk | Some n \<Rightarrow> n);
           limit = (case batch_size of None \<Rightarrow> assignment_reaper_batch_size st | Some b \<Rightarrow> b) in
     bindE (gets (\<lambda>s. Suc (length (worker_holdings s wid)))) (\<lambda>fuel.
     reap_worker_loop fuel wid reason limit now detail)))"

context core_frame
begin

lemma eff_resolve_max_attempts: "effects R (resolve_max_attempts a)"
  unfolding resolve_max_attempts_def by (intro core_rules)

lemma eff_recovery_audit: "effects R (recovery_audit a w rs ps pa na oc d)"
  unfolding recovery_audit_def by (intro core_rules)

lemma eff_flush_idempotency_key: "effects R (flush_idempotency_key k)"
  unfolding flush_idempotency_key_def by (intro core_rules)

lemma eff_asg_correlation: "effects R (asg_correlation a)"
  unfolding asg_correlation_def by (intro core_rules)

lemma eff_release_for_recovery: "effects R (release_for_recovery a)"
  unfolding release_for_recovery_def by (intro run_rules)

lemma eff_fail_for_recovery: "effects R (fail_for_recovery a rs)"
  unfolding fail_for_recovery_def by (intro run_rules eff_asg_correlation)

lemmas audit_rules = run_rules eff_fail_for_recovery eff_asg_correlation eff_release_for_recovery eff_resolve_max_attempts eff_recovery_audit eff_flush_idempotency_key

end

context engine_frame
begin

lemma eff_release_worker_slot: "effects R (release_worker_slot w)"
  unfolding release_worker_slot_def by (intro frame_rules)

lemma eff_recover_exhausted: "effects R (recover_exhausted k rs n d a m)"
  unfolding recover_exhausted_def by (intro audit_rules frame_rules)

lemma eff_recover_requeue: "effects R (recover_requeue k rs d a)"
  unfolding recover_requeue_def Let_def by (intro audit_rules frame_rules)

lemma eff_recover_assignment: "effects R (recover_assignment k rs n d)"
  unfolding recover_assignment_def Let_def
  by (intro audit_rules frame_rules eff_release_worker_slot eff_recover_exhausted eff_recover_requeue)

lemma eff_reap_expired_leases: "effects R (reap_expired_leases b n)"
  unfolding reap_expired_leases_def Let_def by (intro frame_rules eff_recover_assignment)

lemma eff_reap_worker_loop: "effects R (reap_worker_loop fuel w rs l n d)"
proof (induction fuel)
  case 0
  show ?case unfolding reap_worker_loop.simps by (rule eff_ret)
next
  case (Suc fuel)
  then show ?case unfolding reap_worker_loop.simps by (intro frame_rules eff_recover_assignment)
qed

lemma eff_reap_worker_assignments: "effects R (reap_worker_assignments w rs b n d)"
  unfolding reap_worker_assignments_def Let_def by (intro frame_rules eff_reap_worker_loop)

lemmas recovery_rules = controller_rules audit_rules eff_release_worker_slot eff_recover_assignment
  eff_reap_expired_leases eff_reap_worker_assignments

end

section \<open>Symbolic execution\<close>

definition slot_freed :: "uuid option \<Rightarrow> worker_registration list \<Rightarrow> worker_registration list" where
  "slot_freed w rows = (case w of None \<Rightarrow> rows | Some k \<Rightarrow> upd_row wk_id k release_slot rows)"

lemma wk_id_release_slot [simp]: "wk_id (release_slot w) = wk_id w"
  by (simp add: release_slot_def Let_def)

lemma bindE_release_worker_slot [simp]:
  "bindE (release_worker_slot w) f s = f () (workers_update (slot_freed w) s)"
  by (cases s) (auto simp: release_worker_slot_def slot_freed_def upd_row_absent find_row_None
      split: option.splits)

definition max_attempts_of :: "session \<Rightarrow> stage_assignment \<Rightarrow> int" where
  "max_attempts_of s a =
     (case find_run s (asg_pipeline_run_id a) of
        None \<Rightarrow> assignment_default_max_attempts (get_settings s)
      | Some run \<Rightarrow>
          (case run_definition_id run of
             None \<Rightarrow> assignment_default_max_attempts (get_settings s)
           | Some def \<Rightarrow>
               (case stage_of s def (asg_stage a) of
                  None \<Rightarrow> assignment_default_max_attempts (get_settings s)
                | Some w \<Rightarrow> wst_max_attempts w)))"

lemma scalar_stage_of:
  assumes "unique_stages s"
  shows "scalar_one_or_none (filter (\<lambda>w. wst_definition_id w = def \<and> wst_stage_key w = key) (wf_stages s))
    = Inr (stage_of s def key)"
  using scalar_find_row [of "\<lambda>w. (wst_definition_id w, wst_stage_key w)" "wf_stages s" "(def, key)"] assms
  by (simp add: unique_stages_def find_row_def stage_of_def)

lemma bindE_resolve_max_attempts [simp]:
  "unique_stages s \<Longrightarrow> bindE (resolve_max_attempts a) f s = f (max_attempts_of s a) s"
  by (simp add: resolve_max_attempts_def max_attempts_of_def scalar_stage_of split: option.splits)

definition ra_st ::
    "stage_assignment \<Rightarrow> uuid option \<Rightarrow> recovery_reason \<Rightarrow> string \<Rightarrow> int \<Rightarrow> int option
      \<Rightarrow> recovery_outcome \<Rightarrow> string option \<Rightarrow> session \<Rightarrow> session" where
  "ra_st a w rs ps pa na oc d s = state_after (recovery_audit a w rs ps pa na oc d) s"

lemma bindE_recovery_audit [simp]:
  "bindE (recovery_audit a w rs ps pa na oc d) f s = f () (ra_st a w rs ps pa na oc d s)"
  by (rule bindE_Inr) (simp add: ra_st_def recovery_audit_def)

lemma ra_st_frame [simp]:
  "clock (ra_st a w rs ps pa na oc d s) = clock s"
  "rng (ra_st a w rs ps pa na oc d s) = rng s"
  "draws (ra_st a w rs ps pa na oc d s) = draws s"
  "locked (ra_st a w rs ps pa na oc d s) = locked s"
  "get_settings (ra_st a w rs ps pa na oc d s) = get_settings s"
  "workspaces (ra_st a w rs ps pa na oc d s) = workspaces s"
  "definitions (ra_st a w rs ps pa na oc d s) = definitions s"
  "wf_stages (ra_st a w rs ps pa na oc d s) = wf_stages s"
  "wf_transitions (ra_st a w rs ps pa na oc d s) = wf_transitions s"
  "items (ra_st a w rs ps pa na oc d s) = items s"
  "versions (ra_st a w rs ps pa na oc d s) = versions s"
  "runs (ra_st a w rs ps pa na oc d s) = runs s"
  "stage_runs (ra_st a w rs ps pa na oc d s) = stage_runs s"
  "assignments (ra_st a w rs ps pa na oc d s) = assignments s"
  "workers (ra_st a w rs ps pa na oc d s) = workers s"
  "jobs (ra_st a w rs ps pa na oc d s) = jobs s"
  "limits (ra_st a w rs ps pa na oc d s) = limits s"
  "bp_states (ra_st a w rs ps pa na oc d s) = bp_states s"
  "budgets (ra_st a w rs ps pa na oc d s) = budgets s"
  "effect_keys (ra_st a w rs ps pa na oc d s) = effect_keys s"
  "caps (ra_st a w rs ps pa na oc d s) = caps s"
  "spend_logs (ra_st a w rs ps pa na oc d s) = spend_logs s"
  "reservations (ra_st a w rs ps pa na oc d s) = reservations s"
  "gates (ra_st a w rs ps pa na oc d s) = gates s"
  "decisions (ra_st a w rs ps pa na oc d s) = decisions s"
  "outbox (ra_st a w rs ps pa na oc d s) = outbox s"
  "consumers (ra_st a w rs ps pa na oc d s) = consumers s"
  "checkpoints (ra_st a w rs ps pa na oc d s) = checkpoints s"
  "dead_letters (ra_st a w rs ps pa na oc d s) = dead_letters s"
  "claim_audits (ra_st a w rs ps pa na oc d s) = claim_audits s"
  by (simp_all add: ra_st_def recovery_audit_def)

section \<open>One assignment\<close>

definition next_key :: "stage_assignment \<Rightarrow> string" where
  "next_key a = idempotency_key (asg_pipeline_run_id a) (stage_value (asg_stage a)) (asg_attempt_number a + 1)"

definition next_key_taken :: "session \<Rightarrow> stage_assignment \<Rightarrow> bool" where
  "next_key_taken s a \<longleftrightarrow> list_ex (\<lambda>b. asg_id b \<noteq> asg_id a \<and> asg_workspace_id b = asg_workspace_id a
     \<and> asg_idempotency_key b = Some (next_key a)) (assignments s)"

definition requeued :: "stage_assignment \<Rightarrow> string \<Rightarrow> stage_assignment \<Rightarrow> stage_assignment" where
  "requeued a tr x = (clear_lease_and_claim_fields (x\<lparr>asg_status := AsgPending,
     asg_attempt_number := asg_attempt_number a + 1, asg_idempotency_key := Some (next_key a)\<rparr>))
     \<lparr>asg_trace_id := Some tr\<rparr>"

definition exhausted :: "datetime \<Rightarrow> stage_assignment \<Rightarrow> stage_assignment" where
  "exhausted now x = clear_lease_and_claim_fields (x\<lparr>asg_status := AsgFailed, asg_completed_at := Some now\<rparr>)"

lemma clear_sel [simp]:
  "asg_id (clear_lease_and_claim_fields a) = asg_id a"
  "asg_workspace_id (clear_lease_and_claim_fields a) = asg_workspace_id a"
  "asg_status (clear_lease_and_claim_fields a) = asg_status a"
  "asg_worker_id (clear_lease_and_claim_fields a) = None"
  "asg_lease_expires_at (clear_lease_and_claim_fields a) = None"
  "asg_claim_token (clear_lease_and_claim_fields a) = None"
  "asg_dispatched_at (clear_lease_and_claim_fields a) = None"
  "asg_attempt_number (clear_lease_and_claim_fields a) = asg_attempt_number a"
  "asg_idempotency_key (clear_lease_and_claim_fields a) = asg_idempotency_key a"
  "asg_provider (clear_lease_and_claim_fields a) = asg_provider a"
  "asg_pipeline_run_id (clear_lease_and_claim_fields a) = asg_pipeline_run_id a"
  "asg_stage (clear_lease_and_claim_fields a) = asg_stage a"
  by (simp_all add: clear_lease_and_claim_fields_def)

lemma requeued_sel [simp]:
  "asg_id (requeued a tr x) = asg_id x" "asg_status (requeued a tr x) = AsgPending"
  "asg_worker_id (requeued a tr x) = None" "asg_lease_expires_at (requeued a tr x) = None"
  "asg_claim_token (requeued a tr x) = None"
  "asg_attempt_number (requeued a tr x) = asg_attempt_number a + 1"
  "asg_idempotency_key (requeued a tr x) = Some (next_key a)"
  "asg_workspace_id (requeued a tr x) = asg_workspace_id x"
  by (simp_all add: requeued_def)

lemma exhausted_sel [simp]:
  "asg_id (exhausted now x) = asg_id x" "asg_status (exhausted now x) = AsgFailed"
  "asg_worker_id (exhausted now x) = None" "asg_lease_expires_at (exhausted now x) = None"
  "asg_claim_token (exhausted now x) = None"
  "asg_attempt_number (exhausted now x) = asg_attempt_number x"
  by (simp_all add: exhausted_def)

lemma list_ex_upd_row_other:
  assumes "\<And>r. key (f r) = key r"
  shows "list_ex (\<lambda>b. key b \<noteq> k \<and> P b) (upd_row key k f rows) = list_ex (\<lambda>b. key b \<noteq> k \<and> P b) rows"
  using assms by (induction rows) auto

lemma asg_row_id: "find_asg s k = Some a \<Longrightarrow> asg_id a = k"
  by (auto dest: find_row_SomeD)

text \<open>What a recovery leaves alone: the other assignments, the workflow and the row locks.\<close>

definition recovered :: "uuid \<Rightarrow> (stage_assignment \<Rightarrow> stage_assignment) \<Rightarrow> session \<Rightarrow> session \<Rightarrow> bool" where
  "recovered k f s t \<longleftrightarrow> assignments t = upd_row asg_id k f (assignments s) \<and> unique_rsv t
     \<and> wf_stages t = wf_stages s \<and> locked t = locked s \<and> gates t = gates s"

definition acor_st :: "stage_assignment \<Rightarrow> session \<Rightarrow> session" where
  "acor_st a s = state_after (asg_correlation a) s"

definition acor_id :: "stage_assignment \<Rightarrow> session \<Rightarrow> uuid" where
  "acor_id a s = (case asg_correlation_id a of None \<Rightarrow> next_uuid s | Some c \<Rightarrow> c)"

lemma bindE_asg_correlation [simp]: "bindE (asg_correlation a) f s = f (acor_id a s) (acor_st a s)"
  by (rule bindE_Inr) (simp add: acor_st_def acor_id_def asg_correlation_def split: option.splits)

lemma acor_st_frame [simp]:
  "clock (acor_st a s) = clock s"
  "rng (acor_st a s) = rng s"
  "draws (acor_st a s) = draws s"
  "locked (acor_st a s) = locked s"
  "get_settings (acor_st a s) = get_settings s"
  "workspaces (acor_st a s) = workspaces s"
  "definitions (acor_st a s) = definitions s"
  "wf_stages (acor_st a s) = wf_stages s"
  "wf_transitions (acor_st a s) = wf_transitions s"
  "items (acor_st a s) = items s"
  "versions (acor_st a s) = versions s"
  "runs (acor_st a s) = runs s"
  "stage_runs (acor_st a s) = stage_runs s"
  "assignments (acor_st a s) = assignments s"
  "workers (acor_st a s) = workers s"
  "jobs (acor_st a s) = jobs s"
  "limits (acor_st a s) = limits s"
  "bp_states (acor_st a s) = bp_states s"
  "budgets (acor_st a s) = budgets s"
  "effect_keys (acor_st a s) = effect_keys s"
  "caps (acor_st a s) = caps s"
  "spend_logs (acor_st a s) = spend_logs s"
  "reservations (acor_st a s) = reservations s"
  "gates (acor_st a s) = gates s"
  "decisions (acor_st a s) = decisions s"
  "outbox (acor_st a s) = outbox s"
  "consumers (acor_st a s) = consumers s"
  "checkpoints (acor_st a s) = checkpoints s"
  "dead_letters (acor_st a s) = dead_letters s"
  "claim_audits (acor_st a s) = claim_audits s"
  "recovery_audits (acor_st a s) = recovery_audits s"
  by (simp_all add: acor_st_def asg_correlation_def split: option.splits)

lemma release_for_recovery_apply:
  assumes "unique_rsv s"
  shows "\<exists>t. release_for_recovery a s = (t, Inr ()) \<and> released_from s t \<and> unique_rsv t
    \<and> (find_run s (asg_pipeline_run_id a) \<noteq> None \<longrightarrow>
        open_stage_reservations t (asg_pipeline_run_id a) (asg_stage a) = [])"
proof (cases "find_run s (asg_pipeline_run_id a)")
  case None
  then show ?thesis using assms by (simp add: release_for_recovery_def released_from_refl)
next
  case (Some run)
  with release_stage_apply [OF Some assms, of "asg_stage a"] find_run_id [OF Some] assms show ?thesis
    by (auto simp: release_for_recovery_def unique_rsv_def dest: open_stage_released)
qed

lemma requeued_rows:
  "upd_row asg_id k (\<lambda>x. x\<lparr>asg_trace_id := Some tr\<rparr>) (upd_row asg_id k
      (\<lambda>x. clear_lease_and_claim_fields (x\<lparr>asg_status := AsgPending,
        asg_attempt_number := asg_attempt_number a + 1, asg_idempotency_key := Some (next_key a)\<rparr>)) xs)
    = upd_row asg_id k (requeued a tr) xs"
  by (induction xs) (simp_all add: requeued_def)

lemma next_key_taken_upd:
  assumes "find_asg s k = Some a"
  shows "list_ex (\<lambda>b. asg_id b \<noteq> k \<and> asg_workspace_id b = asg_workspace_id a
      \<and> asg_idempotency_key b = Some (next_key a)) (upd_row asg_id k (requeued a tr) (assignments s)) =
      next_key_taken s a"
  using list_ex_upd_row_other [of asg_id "requeued a tr" k] asg_row_id [OF assms]
  by (simp add: next_key_taken_def)

lemma recover_requeue_apply:
  assumes "find_asg s k = Some a" and "unique_rsv s"
  shows "\<exists>t tr. recovered k (requeued a tr) s t
    \<and> (find_run s (asg_pipeline_run_id a) \<noteq> None \<longrightarrow>
        open_stage_reservations t (asg_pipeline_run_id a) (asg_stage a) = [])
    \<and> recover_requeue k reason detail a s =
      (t, if next_key_taken s a then Inl (IntegrityError ''uq_stage_assignments_workspace_idem'')
          else Inr \<lparr>rr_assignment = k, rr_kind = KindRequeued, rr_previous_attempt = asg_attempt_number a,
                 rr_new_attempt = Some (asg_attempt_number a + 1)\<rparr>)"
proof -
  from release_for_recovery_apply [OF assms(2), of a] obtain s0 where
    s0: "release_for_recovery a s = (s0, Inr ())" "released_from s s0" "unique_rsv s0"
      "find_run s (asg_pipeline_run_id a) \<noteq> None \<longrightarrow>
         open_stage_reservations s0 (asg_pipeline_run_id a) (asg_stage a) = []" by blast
  have same: "assignments s0 = assignments s" "wf_stages s0 = wf_stages s" "locked s0 = locked s" "gates s0 = gates s"
    using s0(2) by (simp_all add: released_from_def)
  let ?s1 = "assignments_update (upd_row asg_id k (\<lambda>x. clear_lease_and_claim_fields (x\<lparr>asg_status := AsgPending,
        asg_attempt_number := asg_attempt_number a + 1, asg_idempotency_key := Some (next_key a)\<rparr>))) s0"
  let ?tr = "span_tr (asg_trace_id a) ?s1"
  let ?s2 = "acor_st a (assignments_update (upd_row asg_id k (\<lambda>x. x\<lparr>asg_trace_id := Some ?tr\<rparr>))
      (span_st (asg_trace_id a) ?s1))"
  have rows: "assignments ?s2 = upd_row asg_id k (requeued a ?tr) (assignments s)"
    by (simp add: requeued_rows same)
  have find2: "find_asg ?s2 k = Some (requeued a ?tr a)"
    unfolding rows using assms(1) by (simp add: find_row_upd_row)
  have flush: "flush_idempotency_key k ?s2 =
      (?s2, if next_key_taken s a then Inl (IntegrityError ''uq_stage_assignments_workspace_idem'') else Inr ())"
    unfolding flush_idempotency_key_def bindE_the_row find2
    using next_key_taken_upd [OF assms(1), of ?tr] by (simp add: requeued_rows same)
  define s2 where "s2 = ?s2"
  define cont where "cont = (\<lambda>_ :: unit.
        bindE (emit STAGE_REASSIGNED (asg_workspace_id a) ''pipeline_run'' (asg_pipeline_run_id a)
          (acor_id a (assignments_update (upd_row asg_id k (\<lambda>x. x\<lparr>asg_trace_id := Some ?tr\<rparr>))
             (span_st (asg_trace_id a) ?s1))) ?tr (span_sp (asg_trace_id a) ?s1)
          [(''stage'', JStr (stage_value (asg_stage a))), (''assignment_id'', JStr (uuid_str k)),
           (''reason'', JStr (recovery_reason_value reason)),
           (''previous_attempt'', JInt (asg_attempt_number a)),
           (''attempt_number'', JInt (asg_attempt_number a + 1))] ''recovery'') (\<lambda>_.
        bindE (recovery_audit a (asg_worker_id a) reason (asg_status_value (asg_status a))
          (asg_attempt_number a) (Some (asg_attempt_number a + 1)) OutRequeued detail) (\<lambda>_.
        ret \<lparr>rr_assignment = k, rr_kind = KindRequeued, rr_previous_attempt = asg_attempt_number a,
          rr_new_attempt = Some (asg_attempt_number a + 1)\<rparr>)))"
  have eq: "recover_requeue k reason detail a s = bindE (flush_idempotency_key k) cont s2"
    unfolding recover_requeue_def Let_def next_key_def [symmetric] cont_def s2_def
      bindE_Inr [where m = "release_for_recovery a", OF s0(1)] by simp
  have s2: "assignments s2 = upd_row asg_id k (requeued a ?tr) (assignments s)" "reservations s2 = reservations s0"
    "wf_stages s2 = wf_stages s" "locked s2 = locked s" "gates s2 = gates s"
    unfolding s2_def by (simp_all add: requeued_rows same)
  note fl = flush [folded s2_def]
  have open_rsv: "open_stage_reservations t r st = open_stage_reservations s0 r st"
    if "reservations t = reservations s0" for t r st using that by (simp add: open_stage_reservations_def)
  have uniq: "unique_rsv t" if "reservations t = reservations s0" for t
    using that s0(3) by (simp add: unique_rsv_def)
  show ?thesis
  proof (cases "next_key_taken s a")
    case True
    with fl have "recover_requeue k reason detail a s =
        (s2, Inl (IntegrityError ''uq_stage_assignments_workspace_idem''))"
      unfolding eq by (simp add: bindE_Inl)
    moreover have "recovered k (requeued a ?tr) s s2"
      using uniq [of s2] by (simp add: recovered_def s2)
    ultimately show ?thesis
      using True s0(4) open_rsv [of s2] s2(2) by (intro exI [of _ s2] exI [of _ ?tr]) simp
  next
    case False
    with fl have "recover_requeue k reason detail a s = cont () s2"
      unfolding eq by (simp add: bindE_Inr)
    then obtain t where t: "recover_requeue k reason detail a s =
        (t, Inr \<lparr>rr_assignment = k, rr_kind = KindRequeued, rr_previous_attempt = asg_attempt_number a,
          rr_new_attempt = Some (asg_attempt_number a + 1)\<rparr>)"
      "assignments t = assignments s2" "reservations t = reservations s0" "wf_stages t = wf_stages s"
      "locked t = locked s" "gates t = gates s"
      by (simp add: cont_def s2(2-5))
    then have "recovered k (requeued a ?tr) s t"
      using uniq [of t] by (simp add: recovered_def s2)
    with t(1,3) False s0(4) open_rsv [of t] show ?thesis by auto
  qed
qed

lemma fail_for_recovery_apply:
  assumes "unique_rsv s"
  shows "\<exists>t. fail_for_recovery a reason s = (t, Inr ()) \<and> unique_rsv t
    \<and> assignments t = assignments s \<and> wf_stages t = wf_stages s \<and> locked t = locked s \<and> gates t = gates s
    \<and> dead_letters t = dead_letters s
    \<and> (\<forall>run. find_run s (asg_pipeline_run_id a) = Some run \<longrightarrow>
        (\<exists>run'. find_run t (asg_pipeline_run_id a) = Some run' \<and> terminal_status (run_status run')))"
proof (cases "find_run s (asg_pipeline_run_id a)")
  case None
  with assms show ?thesis by (simp add: fail_for_recovery_def)
next
  case (Some run)
  let ?rid = "asg_pipeline_run_id a"
  have rid: "run_id run = ?rid" using Some by (rule find_run_id)
  show ?thesis
  proof (cases "terminal_status (run_status run)")
    case True
    with Some assms show ?thesis by (simp add: fail_for_recovery_def)
  next
    case False
    define s1 where "s1 = (if run_correlation_id run = None then
        runs_update (upd_row run_id ?rid (\<lambda>r. r\<lparr>run_correlation_id := Some (acor_id a s)\<rparr>)) (acor_st a s) else s)"
    define why where "why = ''assignment recovery exhausted ('' @ recovery_reason_value reason @ '')''"
    have s1: "assignments s1 = assignments s" "wf_stages s1 = wf_stages s" "locked s1 = locked s"
      "gates s1 = gates s" "dead_letters s1 = dead_letters s" "reservations s1 = reservations s"
      by (simp_all add: s1_def)
    obtain run1 where run1: "find_run s1 ?rid = Some run1"
      using Some by (cases "run_correlation_id run = None") (simp_all add: s1_def find_row_upd_row)
    have "unique_rsv s1" using assms s1(6) by (simp add: unique_rsv_def)
    from fail_run_apply [OF run1 this, of why] obtain t where
      t: "fail_run ?rid why s1 = (t, Inr ())" "map_option run_status (find_run t ?rid) = Some RunFailed"
        "gates t = gates s1" "assignments t = assignments s1" "dead_letters t = dead_letters s1"
        "wf_stages t = wf_stages s1" "unique_rsv t" by blast
    have "locked t = locked s1"
      using effects_result [OF conf.eff_fail_run t(1)] by (simp add: same_config_def)
    moreover have "fail_for_recovery a reason s = (t, Inr ())"
      using Some False rid t(1) by (auto simp: fail_for_recovery_def why_def s1_def)
    ultimately show ?thesis using t s1 Some by auto
  qed
qed

lemma recover_exhausted_apply:
  assumes "find_asg s k = Some a" and "unique_rsv s"
  shows "\<exists>t d. recovered k (exhausted now) s t
    \<and> dead_letters t = dead_letters s @ [d] \<and> dlq_related_id d = k
    \<and> dlq_attempt_count d = asg_attempt_number a \<and> dlq_first_failed_at d = now
    \<and> (\<forall>run. find_run s (asg_pipeline_run_id a) = Some run \<longrightarrow>
        (\<exists>run'. find_run t (asg_pipeline_run_id a) = Some run' \<and> terminal_status (run_status run')))
    \<and> recover_exhausted k reason now detail a mx s =
      (t, Inr \<lparr>rr_assignment = k, rr_kind = KindDeadLettered, rr_previous_attempt = asg_attempt_number a,
         rr_new_attempt = None\<rparr>)"
proof -
  let ?rows = "\<lambda>xs. upd_row asg_id k clear_lease_and_claim_fields
      (upd_row asg_id k (\<lambda>x. x\<lparr>asg_status := AsgFailed, asg_completed_at := Some now\<rparr>) xs)"
  have rows: "?rows xs = upd_row asg_id k (exhausted now) xs" for xs
    by (induction xs) (simp_all add: exhausted_def)
  define s1 where "s1 = assignments_update (upd_row asg_id k clear_lease_and_claim_fields)
      (assignments_update (upd_row asg_id k (\<lambda>x. x\<lparr>asg_status := AsgFailed, asg_completed_at := Some now\<rparr>)) s)"
  have s1: "assignments s1 = upd_row asg_id k (exhausted now) (assignments s)" "reservations s1 = reservations s"
    "runs s1 = runs s" "wf_stages s1 = wf_stages s" "locked s1 = locked s" "gates s1 = gates s"
    "dead_letters s1 = dead_letters s"
    by (simp_all add: s1_def rows)
  have find1: "find_asg s1 k = Some (exhausted now a)"
    unfolding s1(1) using assms(1) by (simp add: find_row_upd_row)
  define d where "d = dlq_entry (asg_workspace_id a) ''stage_assignments'' k
      (''stage:'' @ stage_repr (asg_stage a))
      (Some [(''stage'', JStr (stage_value (asg_stage a))), (''attempt_number'', JInt (asg_attempt_number a)),
             (''reason'', JStr (recovery_reason_value reason))])
      (''recovery exhausted ('' @ recovery_reason_value reason @ '') after ''
         @ int_str (asg_attempt_number a) @ '' attempts'') (asg_attempt_number a) now s1"
  define s2 where "s2 = s1\<lparr>next_uuid := Suc (next_uuid s1), dead_letters := dead_letters s1 @ [d]\<rparr>"
  have "unique_rsv s2" using assms(2) by (simp add: s2_def s1(2) unique_rsv_def)
  from fail_for_recovery_apply [OF this, of a reason] obtain u where
    u: "fail_for_recovery a reason s2 = (u, Inr ())" "unique_rsv u" "assignments u = assignments s1"
      "wf_stages u = wf_stages s" "locked u = locked s" "gates u = gates s" "dead_letters u = dead_letters s @ [d]"
      "\<forall>run. find_run s (asg_pipeline_run_id a) = Some run \<longrightarrow>
        (\<exists>run'. find_run u (asg_pipeline_run_id a) = Some run' \<and> terminal_status (run_status run'))"
    by (auto simp: s2_def s1)
  let ?t = "ra_st a (asg_worker_id a) reason (asg_status_value (asg_status a)) (asg_attempt_number a) None
      OutDeadLettered (Some (or_str detail (''max_attempts='' @ int_str mx))) u"
  have disp: "asg_dispatched_at (exhausted now a) = None" by (simp add: exhausted_def)
  have "recover_exhausted k reason now detail a mx s = bindE (fail_for_recovery a reason) (\<lambda>_.
     bindE (recovery_audit a (asg_worker_id a) reason (asg_status_value (asg_status a)) (asg_attempt_number a)
        None OutDeadLettered (Some (or_str detail (''max_attempts='' @ int_str mx)))) (\<lambda>_.
     ret \<lparr>rr_assignment = k, rr_kind = KindDeadLettered, rr_previous_attempt = asg_attempt_number a,
       rr_new_attempt = None\<rparr>)) s2"
    unfolding recover_exhausted_def bindE_modify s1_def [symmetric] bindE_the_row find1 option.case
      bindE_route_to_dead_letter disp d_def [symmetric] s2_def ..
  then have "recover_exhausted k reason now detail a mx s =
      (?t, Inr \<lparr>rr_assignment = k, rr_kind = KindDeadLettered, rr_previous_attempt = asg_attempt_number a,
         rr_new_attempt = None\<rparr>)"
    by (simp add: bindE_Inr [where m = "fail_for_recovery a reason", OF u(1)])
  moreover have "recovered k (exhausted now) s ?t"
    using u(2) by (simp add: recovered_def u(3-6) s1(1) unique_rsv_def)
  moreover have "dlq_related_id d = k" "dlq_attempt_count d = asg_attempt_number a" "dlq_first_failed_at d = now"
    by (simp_all add: d_def dlq_entry_def)
  ultimately show ?thesis using u(7,8) by (intro exI [of _ ?t] exI [of _ d]) simp
qed

lemma recover_in_flight:
  assumes "find_asg s k = Some a" and "in_flight (asg_status a)" and "unique_stages s"
  shows "recover_assignment k reason now detail s =
    (let s1 = workers_update (slot_freed (asg_worker_id a)) s in
     if max_attempts_of s a < asg_attempt_number a + 1
     then recover_exhausted k reason (case now of None \<Rightarrow> clock s | Some n \<Rightarrow> n) detail a (max_attempts_of s a) s1
     else recover_requeue k reason detail a s1)"
proof -
  have "unique_stages (workers_update f s)" "max_attempts_of (workers_update f s) a = max_attempts_of s a" for f
    using assms(3) by (simp_all add: unique_stages_def max_attempts_of_def stage_of_def split: option.splits)
  with assms(1,2) show ?thesis by (simp add: recover_assignment_def Let_def)
qed

text \<open>
  C13: recovering an in-flight assignment either requeues it for exactly one more attempt,
  which is within the stage's limit, or ends it. The row is unowned afterwards in both
  cases: without worker, lease and claim token. Requeued, it is pending with the next
  attempt number and its stage holds no reservation; exhausted, it is failed, its run is
  over and one dead-letter record keeps the attempt count. No other assignment changes.
\<close>

theorem recovery_consumes_an_attempt:
  assumes "find_asg s k = Some a" and "in_flight (asg_status a)" and "unique_stages s"
    and "unique_rsv s" and "\<not> next_key_taken s a"
    and "find_run s (asg_pipeline_run_id a) = Some run"
  shows "\<exists>t b res. recover_assignment k reason now detail s = (t, Inr res)
    \<and> find_asg t k = Some b \<and> asg_worker_id b = None \<and> asg_lease_expires_at b = None \<and> asg_claim_token b = None
    \<and> (\<forall>j. j \<noteq> k \<longrightarrow> find_asg t j = find_asg s j)
    \<and> (if asg_attempt_number a + 1 \<le> max_attempts_of s a
       then rr_kind res = KindRequeued \<and> asg_status b = AsgPending
          \<and> asg_attempt_number b = asg_attempt_number a + 1 \<and> asg_attempt_number b \<le> max_attempts_of s a
          \<and> open_stage_reservations t (asg_pipeline_run_id a) (asg_stage a) = []
       else rr_kind res = KindDeadLettered \<and> asg_status b = AsgFailed
          \<and> asg_attempt_number b = asg_attempt_number a
          \<and> (\<exists>run'. find_run t (asg_pipeline_run_id a) = Some run' \<and> terminal_status (run_status run'))
          \<and> (\<exists>d. dead_letters t = dead_letters s @ [d] \<and> dlq_related_id d = k
               \<and> dlq_attempt_count d = asg_attempt_number a))"
proof -
  define s1 where "s1 = workers_update (slot_freed (asg_worker_id a)) s"
  have s1: "assignments s1 = assignments s" "runs s1 = runs s" "reservations s1 = reservations s"
    "dead_letters s1 = dead_letters s" by (simp_all add: s1_def)
  have find1: "find_asg s1 k = Some a" "unique_rsv s1" "\<not> next_key_taken s1 a"
    "find_run s1 (asg_pipeline_run_id a) = Some run"
    using assms by (simp_all add: s1 unique_rsv_def next_key_taken_def)
  have others: "\<forall>j. j \<noteq> k \<longrightarrow> find_asg t j = find_asg s j" "find_asg t k = Some (f a)"
    if "recovered k f s1 t" "\<And>x. asg_id (f x) = asg_id x" for t f
    using that assms(1) by (simp_all add: recovered_def s1 find_row_upd_row)
  show ?thesis
  proof (cases "asg_attempt_number a + 1 \<le> max_attempts_of s a")
    case True
    from recover_requeue_apply [OF find1(1,2), of reason detail] find1(3,4) obtain t tr where
      t: "recovered k (requeued a tr) s1 t"
        "open_stage_reservations t (asg_pipeline_run_id a) (asg_stage a) = []"
        "recover_requeue k reason detail a s1 = (t, Inr \<lparr>rr_assignment = k, rr_kind = KindRequeued,
           rr_previous_attempt = asg_attempt_number a, rr_new_attempt = Some (asg_attempt_number a + 1)\<rparr>)"
      by auto
    then show ?thesis
      using True others [OF t(1)] by (simp add: recover_in_flight [OF assms(1-3)] s1_def [symmetric])
  next
    case False
    from recover_exhausted_apply [OF find1(1,2), of "case now of None \<Rightarrow> clock s | Some n \<Rightarrow> n"
        reason detail "max_attempts_of s a"] find1(4) obtain t d where
      t: "recovered k (exhausted (case now of None \<Rightarrow> clock s | Some n \<Rightarrow> n)) s1 t"
        "dead_letters t = dead_letters s @ [d]" "dlq_related_id d = k" "dlq_attempt_count d = asg_attempt_number a"
        "\<exists>run'. find_run t (asg_pipeline_run_id a) = Some run' \<and> terminal_status (run_status run')"
        "recover_exhausted k reason (case now of None \<Rightarrow> clock s | Some n \<Rightarrow> n) detail a (max_attempts_of s a) s1 =
          (t, Inr \<lparr>rr_assignment = k, rr_kind = KindDeadLettered,
             rr_previous_attempt = asg_attempt_number a, rr_new_attempt = None\<rparr>)"
      by (auto simp: s1)
    then show ?thesis
      using False others [OF t(1)] by (simp add: recover_in_flight [OF assms(1-3)] s1_def [symmetric])
  qed
qed

text \<open>
  The dead-letter record of an exhausted recovery says the first failure was now. The
  lease and claim fields are cleared before \<open>dispatched_at\<close> is read, so the time the
  assignment was dispatched never reaches the record, whatever it was.
\<close>

theorem recovery_loses_dispatch_time:
  assumes "find_asg s k = Some a" and "in_flight (asg_status a)" and "unique_stages s"
    and "unique_rsv s" and "max_attempts_of s a \<le> asg_attempt_number a"
  shows "\<exists>t res d. recover_assignment k reason (Some now) detail s = (t, Inr res)
    \<and> dead_letters t = dead_letters s @ [d] \<and> dlq_first_failed_at d = now"
proof -
  define s1 where "s1 = workers_update (slot_freed (asg_worker_id a)) s"
  have "find_asg s1 k = Some a" "unique_rsv s1" "dead_letters s1 = dead_letters s"
    using assms by (simp_all add: s1_def unique_rsv_def)
  with recover_exhausted_apply [of k s1 a now reason detail "max_attempts_of s a"] assms(5) show ?thesis
    by (auto simp: recover_in_flight [OF assms(1-3)] s1_def [symmetric])
qed

section \<open>Reaping a worker\<close>

definition reapable :: "session \<Rightarrow> bool" where
  "reapable s \<longleftrightarrow> distinct (map asg_id (assignments s)) \<and> unique_stages s \<and> unique_rsv s"

lemma holdings_after_recovery:
  assumes "\<And>x. asg_id (f x) = asg_id x" and "\<And>x. asg_worker_id (f x) = None"
    and "assignments t = upd_row asg_id k f (assignments s)" and "locked t = locked s"
  shows "worker_holdings t wid = filter (\<lambda>a. asg_id a \<noteq> k) (worker_holdings s wid)"
proof -
  have "filter (\<lambda>a. asg_worker_id a = Some wid \<and> in_flight (asg_status a) \<and> unlocked s (asg_id a))
      (upd_row asg_id k f xs) = filter (\<lambda>a. asg_id a \<noteq> k)
      (filter (\<lambda>a. asg_worker_id a = Some wid \<and> in_flight (asg_status a) \<and> unlocked s (asg_id a)) xs)" for xs
    using assms(1,2) by (induction xs) auto
  then show ?thesis using assms(3,4) by (simp add: worker_holdings_def unlocked_def)
qed

lemma recover_holding:
  assumes "reapable s" and "k \<in> asg_id ` set (worker_holdings s wid)"
  shows "\<exists>t r. recover_assignment k reason now detail s = (t, r)
    \<and> ((\<exists>res. r = Inr res) \<or> (\<exists>m. r = Inl (IntegrityError m)))
    \<and> reapable t \<and> worker_holdings t wid = filter (\<lambda>a. asg_id a \<noteq> k) (worker_holdings s wid)"
proof -
  from assms(2) obtain a where a: "a \<in> set (assignments s)" "asg_id a = k" "in_flight (asg_status a)"
    by (auto simp: worker_holdings_def)
  have find: "find_asg s k = Some a"
    using find_row_mem [of asg_id "assignments s" a] assms(1) a by (simp add: reapable_def)
  have uniq: "unique_stages s" "unique_rsv s" using assms(1) by (simp_all add: reapable_def)
  define s1 where "s1 = workers_update (slot_freed (asg_worker_id a)) s"
  have s1: "find_asg s1 k = Some a" "unique_rsv s1" "assignments s1 = assignments s"
    "wf_stages s1 = wf_stages s" "locked s1 = locked s"
    using find uniq by (simp_all add: s1_def unique_rsv_def)
  have after: "reapable t \<and> worker_holdings t wid = filter (\<lambda>a. asg_id a \<noteq> k) (worker_holdings s wid)"
    if "recovered k f s1 t" "\<And>x. asg_id (f x) = asg_id x" "\<And>x. asg_worker_id (f x) = None" for f t
    using that assms(1) holdings_after_recovery [of f t k s wid]
    by (simp add: recovered_def s1 reapable_def unique_stages_def map_key_upd_row)
  show ?thesis
  proof (cases "max_attempts_of s a < asg_attempt_number a + 1")
    case True
    from recover_exhausted_apply [OF s1(1,2), of "case now of None \<Rightarrow> clock s | Some n \<Rightarrow> n" reason detail
        "max_attempts_of s a"] obtain t res where
      t: "recovered k (exhausted (case now of None \<Rightarrow> clock s | Some n \<Rightarrow> n)) s1 t"
        "recover_exhausted k reason (case now of None \<Rightarrow> clock s | Some n \<Rightarrow> n) detail a (max_attempts_of s a) s1 =
          (t, Inr res)" by blast
    with after [OF t(1)] True show ?thesis
      by (simp add: recover_in_flight [OF find a(3) uniq(1)] s1_def [symmetric])
  next
    case False
    from recover_requeue_apply [OF s1(1,2), of reason detail] obtain t tr where
      t: "recovered k (requeued a tr) s1 t" "recover_requeue k reason detail a s1 =
        (t, if next_key_taken s1 a then Inl (IntegrityError ''uq_stage_assignments_workspace_idem'')
          else Inr \<lparr>rr_assignment = k, rr_kind = KindRequeued, rr_previous_attempt = asg_attempt_number a,
                 rr_new_attempt = Some (asg_attempt_number a + 1)\<rparr>)" by blast
    with after [OF t(1)] False show ?thesis
      by (auto simp: recover_in_flight [OF find a(3) uniq(1)] s1_def [symmetric])
  qed
qed

lemma recover_holdings:
  assumes "reapable s" and "set ks \<subseteq> asg_id ` set (worker_holdings s wid)" and "distinct ks"
  shows "(\<exists>t outs. collect_each (\<lambda>k. recover_assignment k reason now detail) ks s = (t, Inr outs)
      \<and> length outs = length ks \<and> reapable t
      \<and> worker_holdings t wid = filter (\<lambda>a. asg_id a \<notin> set ks) (worker_holdings s wid))
    \<or> (\<exists>t m. collect_each (\<lambda>k. recover_assignment k reason now detail) ks s = (t, Inl (IntegrityError m)))"
  using assms
proof (induction ks arbitrary: s)
  case Nil
  then show ?case by simp
next
  case (Cons k ks)
  let ?rec = "\<lambda>k. recover_assignment k reason now detail"
  from recover_holding [OF Cons.prems(1), of k wid reason now detail] Cons.prems(2) obtain t r where
    t: "?rec k s = (t, r)" "(\<exists>res. r = Inr res) \<or> (\<exists>m. r = Inl (IntegrityError m))" "reapable t"
      "worker_holdings t wid = filter (\<lambda>a. asg_id a \<noteq> k) (worker_holdings s wid)" by auto
  from t(2) consider res where "r = Inr res" | m where "r = Inl (IntegrityError m)" by blast
  then show ?case
  proof cases
    case 1
    have sub: "set ks \<subseteq> asg_id ` set (worker_holdings t wid)"
    proof
      fix x assume "x \<in> set ks"
      then have "x \<in> asg_id ` set (worker_holdings s wid)" "x \<noteq> k" using Cons.prems(2,3) by auto
      then obtain b where "b \<in> set (worker_holdings s wid)" "x = asg_id b" "x \<noteq> k" by blast
      then show "x \<in> asg_id ` set (worker_holdings t wid)" by (simp add: t(4))
    qed
    from Cons.IH [OF t(3) sub] Cons.prems(3) consider
      u outs where "collect_each ?rec ks t = (u, Inr outs)" "length outs = length ks" "reapable u"
        "worker_holdings u wid = filter (\<lambda>a. asg_id a \<notin> set ks) (worker_holdings t wid)"
      | u m where "collect_each ?rec ks t = (u, Inl (IntegrityError m))" by auto
    then show ?thesis
    proof cases
      case 1
      have "bindE (collect_each ?rec ks) (\<lambda>ys. ret (res # ys)) t = (u, Inr (res # outs))"
        by (simp add: bindE_Inr [where m = "collect_each ?rec ks", OF 1(1)])
      then have "collect_each ?rec (k # ks) s = (u, Inr (res # outs))"
        using t(1) \<open>r = Inr res\<close> by (simp add: bindE_Inr [where m = "?rec k"])
      with 1 show ?thesis by (intro disjI1 exI [of _ u] exI [of _ "res # outs"]) (simp add: t(4) conj_commute)
    next
      case 2
      have "bindE (collect_each ?rec ks) (\<lambda>ys. ret (res # ys)) t = (u, Inl (IntegrityError m))"
        by (simp add: bindE_Inl [where m = "collect_each ?rec ks", OF 2])
      then show ?thesis using t(1) \<open>r = Inr res\<close> by (simp add: bindE_Inr [where m = "?rec k"])
    qed
  next
    case 2
    then show ?thesis using t(1) by (simp add: bindE_Inl [where m = "?rec k"])
  qed
qed

lemma filter_not_taken:
  assumes "distinct (map key xs)"
  shows "filter (\<lambda>a. key a \<notin> key ` set (take n xs)) xs = drop n xs"
proof -
  have d: "distinct (map key (take n xs @ drop n xs))" using assms by simp
  have "filter (\<lambda>a. key a \<notin> key ` set (take n xs)) (take n xs) = []" by (auto simp: filter_empty_conv)
  moreover have "filter (\<lambda>a. key a \<notin> key ` set (take n xs)) (drop n xs) = drop n xs"
    using d unfolding map_append distinct_append by (auto simp: filter_id_conv)
  ultimately have "filter (\<lambda>a. key a \<notin> key ` set (take n xs)) (take n xs @ drop n xs) = drop n xs"
    unfolding filter_append by simp
  then show ?thesis by simp
qed

lemma reap_worker_loop_ends:
  assumes "reapable s" and "0 < limit" and "length (worker_holdings s wid) < fuel"
  shows "(\<exists>t outs. reap_worker_loop fuel wid reason limit now detail s = (t, Inr (Some outs))
      \<and> worker_holdings t wid = [] \<and> length outs = length (worker_holdings s wid) \<and> reapable t)
    \<or> (\<exists>t m. reap_worker_loop fuel wid reason limit now detail s = (t, Inl (IntegrityError m)))"
  using assms
proof (induction fuel arbitrary: s)
  case (Suc fuel)
  let ?held = "worker_holdings s wid"
  let ?rec = "\<lambda>k. recover_assignment k reason (Some now) detail"
  let ?ks = "map asg_id (take limit ?held)"
  have dist: "distinct (map asg_id ?held)"
    using Suc.prems(1) by (simp add: reapable_def worker_holdings_def distinct_map_filter)
  show ?case
  proof (cases "?held = []")
    case True
    then show ?thesis using Suc.prems(1) by simp
  next
    case False
    have ks: "set ?ks \<subseteq> asg_id ` set ?held" "distinct ?ks" "?ks \<noteq> []"
      using dist False Suc.prems(2) by (auto simp: take_map [symmetric] dest: in_set_takeD)
    from recover_holdings [OF Suc.prems(1) ks(1,2), of reason "Some now" detail] show ?thesis
    proof (elim disjE exE conjE)
      fix t outs
      assume t: "collect_each ?rec ?ks s = (t, Inr outs)" "length outs = length ?ks" "reapable t"
        "worker_holdings t wid = filter (\<lambda>a. asg_id a \<notin> set ?ks) ?held"
      have rest: "worker_holdings t wid = drop limit ?held"
        using filter_not_taken [OF dist, of limit] by (simp add: t(4))
      have step: "reap_worker_loop (Suc fuel) wid reason limit now detail s =
          (if length ?ks < limit then ret (Some outs)
           else bindE (reap_worker_loop fuel wid reason limit now detail)
             (\<lambda>rest. ret (map_option (\<lambda>r. outs @ r) rest))) t"
        using ks(3) by (simp add: bindE_Inr [where m = "collect_each ?rec ?ks", OF t(1)] del: map_is_Nil_conv)
      show ?thesis
      proof (cases "length ?ks < limit")
        case True
        then show ?thesis using rest step t(2,3) by (simp add: min_def split: if_splits)
      next
        case False
        have "length (worker_holdings t wid) < fuel"
          using Suc.prems(2,3) length_greater_0_conv [of ?held] \<open>?held \<noteq> []\<close> unfolding rest length_drop
          by linarith
        from Suc.IH [OF t(3) Suc.prems(2) this] show ?thesis
        proof (elim disjE exE conjE)
          fix u outs'
          assume "reap_worker_loop fuel wid reason limit now detail t = (u, Inr (Some outs'))"
            "worker_holdings u wid = []" "length outs' = length (worker_holdings t wid)" "reapable u"
          then show ?thesis
            using False step t(2) by (simp add: rest bindE_Inr min_def split: if_splits)
        next
          fix u m
          assume "reap_worker_loop fuel wid reason limit now detail t = (u, Inl (IntegrityError m))"
          then show ?thesis using False step by (simp add: bindE_Inl)
        qed
      qed
    next
      fix t m
      assume "collect_each ?rec ?ks s = (t, Inl (IntegrityError m))"
      then show ?thesis using ks(3) by (simp add: bindE_Inl del: map_is_Nil_conv)
    qed
  qed
qed simp

lemma reap_worker_ends:
  assumes "reapable s"
    and "0 < (case batch of None \<Rightarrow> assignment_reaper_batch_size (get_settings s) | Some b \<Rightarrow> b)"
  shows "(\<exists>t outs. reap_worker_assignments wid reason batch now detail s = (t, Inr (Some outs))
      \<and> worker_holdings t wid = [] \<and> length outs = length (worker_holdings s wid) \<and> reapable t)
    \<or> (\<exists>t m. reap_worker_assignments wid reason batch now detail s = (t, Inl (IntegrityError m)))"
  using reap_worker_loop_ends [OF assms, of wid "Suc (length (worker_holdings s wid))" reason
      "case now of None \<Rightarrow> clock s | Some n \<Rightarrow> n" detail]
  by (simp add: reap_worker_assignments_def Let_def)


text \<open>
  Recovering assignments takes work away from workers and gives none: what is in flight
  afterwards was in flight before, in the same hands.
\<close>

definition holdings_shrink :: "session \<Rightarrow> session \<Rightarrow> bool" where
  "holdings_shrink s t \<longleftrightarrow> (\<forall>a\<in>set (assignments t). in_flight (asg_status a) \<and> asg_worker_id a \<noteq> None \<longrightarrow>
     (\<exists>b\<in>set (assignments s). asg_id b = asg_id a \<and> in_flight (asg_status b) \<and> asg_worker_id b = asg_worker_id a))"

interpretation shrk: core_frame holdings_shrink
proof unfold_locales
  show "holdings_shrink s u" if "holdings_shrink s t" "holdings_shrink t u" for s t u
    using that unfolding holdings_shrink_def by metis
qed (auto simp: holdings_shrink_def)

lemma shrink_set_asg:
  assumes "\<And>x. asg_id (f x) = asg_id x"
    and "\<And>x. in_flight (asg_status (f x)) \<Longrightarrow> asg_worker_id (f x) \<noteq> None \<Longrightarrow>
      in_flight (asg_status x) \<and> asg_worker_id (f x) = asg_worker_id x"
  shows "effects holdings_shrink (set_asg k f)"
  unfolding effects_def holdings_shrink_def
proof (intro allI ballI impI)
  fix s a assume "a \<in> set (assignments (state_after (set_asg k f) s))" and fl: "in_flight (asg_status a) \<and> asg_worker_id a \<noteq> None"
  then obtain x where x: "x \<in> set (assignments s)" and a: "a = (if asg_id x = k then f x else x)"
    by (auto simp: set_upd_row)
  have "asg_id x = asg_id a \<and> in_flight (asg_status x) \<and> asg_worker_id x = asg_worker_id a"
    using fl assms(1) [of x] assms(2) [of x] unfolding a by (cases "asg_id x = k") simp_all
  with x show "\<exists>b\<in>set (assignments s). asg_id b = asg_id a \<and> in_flight (asg_status b) \<and> asg_worker_id b = asg_worker_id a"
    by blast
qed

lemma shrink_workers: "effects holdings_shrink (modify (workers_update f))"
  by (auto simp: effects_def holdings_shrink_def)

lemma shrink_exhausted: "effects holdings_shrink (recover_exhausted k reason now detail a m)"
  unfolding recover_exhausted_def
  by (rule shrk.audit_rules shrk.core_rules shrink_set_asg | simp add: clear_lease_and_claim_fields_def)+

lemma shrink_requeue: "effects holdings_shrink (recover_requeue k reason detail a)"
  unfolding recover_requeue_def Let_def
  by (rule shrk.audit_rules shrk.core_rules shrink_set_asg | simp add: clear_lease_and_claim_fields_def)+

lemma shrink_recover: "effects holdings_shrink (recover_assignment k reason now detail)"
  unfolding recover_assignment_def release_worker_slot_def Let_def
  by (intro shrk.audit_rules shrk.core_rules shrink_workers shrink_exhausted shrink_requeue)

lemma shrink_reap_expired: "effects holdings_shrink (reap_expired_leases b n)"
  unfolding reap_expired_leases_def Let_def by (intro shrk.core_rules shrink_recover)

lemma shrink_reap_worker: "effects holdings_shrink (reap_worker_assignments w reason b n d)"
proof -
  have "effects holdings_shrink (reap_worker_loop fuel w reason l m d)" for fuel l m
  proof (induction fuel)
    case 0
    show ?case unfolding reap_worker_loop.simps by (rule shrk.eff_ret)
  next
    case (Suc fuel)
    then show ?case unfolding reap_worker_loop.simps by (intro shrk.core_rules shrink_recover)
  qed
  then show ?thesis unfolding reap_worker_assignments_def Let_def by (intro shrk.core_rules)
qed

lemma no_holdings_kept:
  assumes "holdings_shrink s t" and "locked t = locked s" and "worker_holdings s w = []"
  shows "worker_holdings t w = []"
  using assms by (fastforce simp: holdings_shrink_def worker_holdings_def filter_empty_conv unlocked_def)

section \<open>Samples\<close>

definition held_asg :: "uuid \<Rightarrow> int \<Rightarrow> stage_assignment" where
  "held_asg k n = (sample_asg k 0)\<lparr>asg_pipeline_run_id := 10, asg_status := AsgDispatched,
     asg_attempt_number := n, asg_worker_id := Some 80, asg_lease_expires_at := Some 5,
     asg_dispatched_at := Some 1, asg_lease_started_at := Some 1\<rparr>"

definition held_sample :: "int \<Rightarrow> session" where
  "held_sample n = wf_sample\<lparr>assignments := [held_asg 90 n]\<rparr>"

lemma held_sample_facts:
  "find_asg (held_sample n) 90 = Some (held_asg 90 n)" "in_flight (asg_status (held_asg 90 n))"
  "unique_stages (held_sample n)" "unique_rsv (held_sample n)" "\<not> next_key_taken (held_sample n) (held_asg 90 n)"
  "find_run (held_sample n) (asg_pipeline_run_id (held_asg 90 n)) = Some sample_run"
  "max_attempts_of (held_sample n) (held_asg 90 n) = 3" "asg_attempt_number (held_asg 90 n) = n"
  "reapable (held_sample n)"
  using wf_sample_facts(2,3)
  by (simp_all add: held_sample_def held_asg_def sample_asg_def unique_stages_def unique_rsv_def reapable_def
      next_key_taken_def max_attempts_of_def wf_sample_defs sample_run_def stage_of_def)

theorem recovery_consumes_an_attempt_witness:
  "(\<exists>t b res. recover_assignment 90 LeaseExpired None None (held_sample 1) = (t, Inr res)
      \<and> find_asg t 90 = Some b \<and> asg_attempt_number b = 2)
   \<and> (\<exists>t b res. recover_assignment 90 LeaseExpired None None (held_sample 3) = (t, Inr res)
      \<and> find_asg t 90 = Some b \<and> asg_status b = AsgFailed)"
  using recovery_consumes_an_attempt [OF held_sample_facts(1-6) [of 1], of LeaseExpired None None]
    recovery_consumes_an_attempt [OF held_sample_facts(1-6) [of 3], of LeaseExpired None None]
  by (auto simp: held_sample_facts(7,8))

theorem recovery_loses_dispatch_time_witness:
  "asg_dispatched_at (held_asg 90 3) = Some 1 \<and>
   (\<exists>t res d. recover_assignment 90 LeaseExpired (Some 1000) None (held_sample 3) = (t, Inr res)
      \<and> dead_letters t = dead_letters (held_sample 3) @ [d] \<and> dlq_first_failed_at d = 1000)"
  using recovery_loses_dispatch_time [OF held_sample_facts(1-4) [of 3]]
  by (simp add: held_sample_facts(7,8)) (simp add: held_asg_def)


end
