(* ===== verification/Dispatcher.thy ===== *)
theory Dispatcher
  imports Recovery "HOL-Library.Product_Lexorder" "HOL-Library.Option_ord"
begin

text \<open>
  The dispatcher (\<open>orchestration/dispatcher.py\<close>): choosing a worker, creating the assignment
  with its spend reservation and lease, acknowledging, renewing and submitting a result.
\<close>

section \<open>Leases\<close>

definition opt_or :: "'a option \<Rightarrow> 'a \<Rightarrow> 'a" where
  "opt_or x d = (case x of None \<Rightarrow> d | Some y \<Rightarrow> y)"

lemma opt_or_simps [simp]: "opt_or None d = d" "opt_or (Some x) d = x"
  by (simp_all add: opt_or_def)

definition status_conflict :: "string \<Rightarrow> stage_assignment \<Rightarrow> string \<Rightarrow> py_error" where
  "status_conflict prefix a suffix =
     LeaseConflict ''invalid_status'' (prefix @ asg_status_value (asg_status a) @ suffix)"

definition lease_expired :: py_error where
  "lease_expired = LeaseConflict ''lease_expired'' ''lease has expired; assignment is eligible for recovery''"

definition max_lease_exceeded :: py_error where
  "max_lease_exceeded =
     LeaseConflict ''max_lease_exceeded'' ''renewal would exceed the maximum total lease duration''"

lemmas lease_error_defs = status_conflict_def lease_expired_def max_lease_exceeded_def

definition lease_started :: "stage_assignment \<Rightarrow> datetime \<Rightarrow> datetime" where
  \<comment> \<open>\<open>assignment.lease_started_at or assignment.dispatched_at or now\<close>\<close>
  "lease_started a now = opt_or (asg_lease_started_at a) (opt_or (asg_dispatched_at a) now)"

definition assert_lease_extendable ::
    "stage_assignment \<Rightarrow> uuid \<Rightarrow> datetime option \<Rightarrow> int option \<Rightarrow> unit svc" where
  "assert_lease_extendable a worker_id now lease_seconds =
     bindE utcnow (\<lambda>clk.
     bindE (gets get_settings) (\<lambda>st.
       let now = opt_or now clk; secs = opt_or lease_seconds (assignment_lease_seconds st) in
     if asg_worker_id a \<noteq> Some worker_id then raise LeaseNotOwned
     else if \<not> in_flight (asg_status a) then raise (status_conflict ''assignment status is '' a '', expected dispatched or acknowledged'')
     else if (case asg_lease_expires_at a of None \<Rightarrow> True | Some d \<Rightarrow> d < now)
       then raise lease_expired
     else if lease_started a now + seconds (assignment_max_lease_seconds st) < now + seconds secs
       then raise max_lease_exceeded
     else ret ()))"

definition extend_lease :: "datetime \<Rightarrow> int \<Rightarrow> stage_assignment \<Rightarrow> stage_assignment" where
  \<comment> \<open>the common tail of \<open>acknowledge\<close> and \<open>renew_lease\<close>\<close>
  "extend_lease now secs a = a\<lparr>asg_lease_expires_at := Some (now + seconds secs),
     asg_lease_started_at := Some (lease_started a now),
     asg_lease_extension_count := asg_lease_extension_count a + 1\<rparr>"

definition acknowledge :: "uuid \<Rightarrow> int option \<Rightarrow> uuid option \<Rightarrow> datetime option \<Rightarrow> unit svc" where
  "acknowledge k lease_seconds worker_id now =
     bindE utcnow (\<lambda>clk.
     bindE (gets get_settings) (\<lambda>st.
       let now = opt_or now clk; secs = opt_or lease_seconds (assignment_lease_seconds st) in
     bindE (the_asg k) (\<lambda>a.
     bindE (case worker_id of
         None \<Rightarrow> ret ()
       | Some wid \<Rightarrow>
           bindE (assert_lease_extendable a wid (Some now) (Some secs)) (\<lambda>_.
           if asg_status a \<noteq> AsgDispatched then raise (status_conflict ''ack requires dispatched, got '' a []) else ret ())) (\<lambda>_.
     set_asg k (\<lambda>a. extend_lease now secs
       (a\<lparr>asg_status := AsgAcknowledged, asg_acknowledged_at := Some now\<rparr>))))))"

definition renew_lease :: "uuid \<Rightarrow> int option \<Rightarrow> uuid option \<Rightarrow> datetime option \<Rightarrow> unit svc" where
  "renew_lease k lease_seconds worker_id now =
     bindE utcnow (\<lambda>clk.
     bindE (gets get_settings) (\<lambda>st.
       let now = opt_or now clk; secs = opt_or lease_seconds (assignment_lease_seconds st) in
     bindE (the_asg k) (\<lambda>a.
     bindE (case worker_id of
         None \<Rightarrow> ret ()
       | Some wid \<Rightarrow> assert_lease_extendable a wid (Some now) (Some secs)) (\<lambda>_.
     set_asg k (extend_lease now secs)))))"

section \<open>Dispatching a stage\<close>

datatype dispatch_outcome =
  Dispatched | Idempotent | NoWorker | Backpressure | SpendHold | Skipped

record dispatch_result =
  dr_outcome :: dispatch_outcome
  dr_assignment :: "uuid option"

abbreviation dispatch_res :: "dispatch_outcome \<Rightarrow> uuid option \<Rightarrow> dispatch_result" where
  "dispatch_res oc k \<equiv> \<lparr>dr_outcome = oc, dr_assignment = k\<rparr>"

definition DEFAULT_MAX_CONCURRENT_ASSIGNMENTS :: int where
  "DEFAULT_MAX_CONCURRENT_ASSIGNMENTS = 10"

definition eligible_worker :: "session \<Rightarrow> string \<Rightarrow> int \<Rightarrow> worker_registration \<Rightarrow> bool" where
  "eligible_worker s stage_key min_health_score w \<longleftrightarrow>
     wk_status w \<in> {WorkerOnline, WorkerBusy} \<and> \<not> wk_drain w \<and> wk_deregistered_at w = None
     \<and> min_health_score \<le> wk_health_score w \<and> stage_key \<in> set (wk_supported_stages w)
     \<and> wk_current_load w < wk_max_concurrency w \<and> unlocked s (wk_id w)"

definition select_worker :: "string \<Rightarrow> int \<Rightarrow> worker_registration option svc" where
  "select_worker stage_key min_health_score =
     gets (\<lambda>s. first_row (sort_key (\<lambda>w. (- wk_health_score w, wk_current_load w, wk_last_heartbeat_at w))
       (filter (eligible_worker s stage_key min_health_score) (workers s))))"

definition workspace_in_flight :: "session \<Rightarrow> uuid \<Rightarrow> int" where
  "workspace_in_flight s ws =
     int (length (filter (\<lambda>a. asg_workspace_id a = ws \<and> in_flight (asg_status a)) (assignments s)))"

definition max_concurrent_for :: "uuid \<Rightarrow> int svc" where
  "max_concurrent_for workspace_id =
     bindE (gets (\<lambda>s. filter (\<lambda>l. wcl_workspace_id l = workspace_id) (limits s))) (\<lambda>rows.
     bindE (liftE (scalar_one_or_none rows)) (\<lambda>limit_row.
     ret (case limit_row of None \<Rightarrow> DEFAULT_MAX_CONCURRENT_ASSIGNMENTS
          | Some l \<Rightarrow> wcl_max_concurrent_assignments l)))"

definition run_blocks_dispatch :: "pipeline_run option \<Rightarrow> dispatch_outcome option" where
  \<comment> \<open>the status checks of \<open>dispatch_stage\<close>: why it returns early, or \<open>None\<close>\<close>
  "run_blocks_dispatch r =
     (case r of
        None \<Rightarrow> None
      | Some run \<Rightarrow>
          if terminal_status (run_status run) then Some Skipped
          else if run_status run = RunPaused then
            (if run_pause_reason run = Some ''spend_hold'' then Some SpendHold else Some Skipped)
          else None)"

definition take_slot :: "worker_registration \<Rightarrow> worker_registration" where
  \<comment> \<open>\<open>worker.current_load += 1\<close> and BUSY at capacity\<close>
  "take_slot w =
     (let w1 = w\<lparr>wk_current_load := wk_current_load w + 1\<rparr>
      in if wk_max_concurrency w1 \<le> wk_current_load w1 then w1\<lparr>wk_status := WorkerBusy\<rparr> else w1)"

definition or_provider :: "string option \<Rightarrow> string" where
  "or_provider p = or_str p ''draft_desk''"

definition stage_column :: "string \<Rightarrow> content_stage svc" where
  \<comment> \<open>binding a string to a \<open>content_stage\<close> column\<close>
  "stage_column st = (case content_stage_of st of None \<Rightarrow> raise LookupError | Some c \<Rightarrow> ret c)"

definition create_assignment ::
    "uuid \<Rightarrow> uuid \<Rightarrow> content_stage \<Rightarrow> int \<Rightarrow> uuid \<Rightarrow> string option \<Rightarrow> string \<Rightarrow> int
      \<Rightarrow> worker_registration option \<Rightarrow> dispatch_result svc" where
  \<comment> \<open>the tail of \<open>dispatch_stage\<close>, from the new row on\<close>
  "create_assignment workspace_id pipeline_run_id stage attempt_number corr_id trace provider prio worker =
     bindE (gets get_settings) (\<lambda>st.
     bindE utcnow (\<lambda>now.
     bindE (child_span trace) (\<lambda>(trace_id, span_id).
     bindE uuid4 (\<lambda>u.
     bindE (modify (assignments_update (\<lambda>as. as @ [\<lparr>asg_id = u, asg_workspace_id = workspace_id,
        asg_pipeline_run_id = pipeline_run_id, asg_stage = stage, asg_attempt_number = attempt_number,
        asg_worker_id = map_option wk_id worker,
        asg_status = (if worker = None then AsgPending else AsgDispatched),
        asg_idempotency_key = Some (idempotency_key pipeline_run_id (stage_value stage) attempt_number),
        asg_lease_expires_at = map_option (\<lambda>_. now + seconds (assignment_lease_seconds st)) worker,
        asg_dispatched_at = map_option (\<lambda>_. now) worker, asg_acknowledged_at = None,
        asg_completed_at = None, asg_result = None, asg_correlation_id = Some corr_id,
        asg_trace_id = Some trace_id, asg_claimed_at = None, asg_claimed_by = None,
        asg_claim_count = 0, asg_claim_token = None,
        asg_lease_started_at = map_option (\<lambda>_. now) worker, asg_lease_extension_count = 0,
        asg_priority = prio, asg_provider = Some provider, asg_created_at = now\<rparr>]))) (\<lambda>_.
     bindE (case worker of None \<Rightarrow> ret () | Some w \<Rightarrow> set_worker (wk_id w) take_slot) (\<lambda>_.
     bindE (emit STAGE_ASSIGNED workspace_id ''pipeline_run'' pipeline_run_id corr_id trace_id span_id
        [(''stage'', JStr (stage_value stage)), (''attempt_number'', JInt attempt_number),
         (''worker_id'', (case worker of None \<Rightarrow> JNull | Some w \<Rightarrow> JStr (uuid_str (wk_id w)))),
         (''assignment_id'', JStr (uuid_str u)), (''priority'', JInt prio), (''provider'', JStr provider)]
        ''dispatcher'') (\<lambda>_.
     ret (dispatch_res (if worker = None then NoWorker else Dispatched) (Some u)))))))))"

definition reserve_for_dispatch ::
    "pipeline_run option \<Rightarrow> worker_registration option \<Rightarrow> content_stage \<Rightarrow> string \<Rightarrow> bool svc" where
  \<comment> \<open>whether work may be created: budget is reserved only when a worker is assigned\<close>
  "reserve_for_dispatch r worker stage provider =
     (case (r, worker) of
        (Some run, Some w) \<Rightarrow>
          bindE (gets get_settings) (\<lambda>st.
          bindE (reserve_spend (run_id run) stage provider (default_stage_estimate_usd st)) (\<lambda>reservation.
          ret (reservation \<noteq> None)))
      | _ \<Rightarrow> ret True)"

definition dispatch_precheck :: "uuid \<Rightarrow> uuid \<Rightarrow> dispatch_outcome option svc" where
  \<comment> \<open>the early returns of \<open>dispatch_stage\<close>: workspace concurrency, then the run's status\<close>
  "dispatch_precheck workspace_id pipeline_run_id =
     bindE (max_concurrent_for workspace_id) (\<lambda>max_concurrent.
     bindE (gets (\<lambda>s. workspace_in_flight s workspace_id)) (\<lambda>n.
     if max_concurrent \<le> n then ret (Some Backpressure)
     else gets (\<lambda>s. run_blocks_dispatch (find_run s pipeline_run_id))))"

definition dispatch_target ::
    "uuid \<Rightarrow> uuid \<Rightarrow> string \<Rightarrow> int \<Rightarrow> string option \<Rightarrow> int option
      \<Rightarrow> (int \<times> worker_registration option \<times> stage_assignment option) svc" where
  \<comment> \<open>the priority, the worker, and the assignment that already has the idempotency key\<close>
  "dispatch_target workspace_id pipeline_run_id stage attempt_number provider prio =
     bindE (gets get_settings) (\<lambda>st.
     bindE (gets (\<lambda>s. opt_or prio (base_priority_for_tier st
       (case find_row ws_id workspace_id (workspaces s) of None \<Rightarrow> 0 | Some w \<Rightarrow> ws_priority_tier w)))) (\<lambda>prio.
     bindE (has_provider_capacity workspace_id provider) (\<lambda>provider_ok.
     bindE (if provider_ok then select_worker stage 50 else ret None) (\<lambda>worker.
     bindE (gets (\<lambda>s. filter (\<lambda>a. asg_workspace_id a = workspace_id \<and>
        asg_idempotency_key a = Some (idempotency_key pipeline_run_id stage attempt_number))
        (assignments s))) (\<lambda>rows.
     bindE (liftE (scalar_one_or_none rows)) (\<lambda>already.
     ret (prio, worker, already)))))))"

definition dispatch_stage ::
    "uuid \<Rightarrow> uuid \<Rightarrow> string \<Rightarrow> int \<Rightarrow> uuid \<Rightarrow> string option \<Rightarrow> string option \<Rightarrow> int option
      \<Rightarrow> dispatch_result svc" where
  "dispatch_stage workspace_id pipeline_run_id stage attempt_number corr_id trace_id provider prio =
     bindE (dispatch_precheck workspace_id pipeline_run_id) (\<lambda>blocked.
     case blocked of
       Some oc \<Rightarrow> ret (dispatch_res oc None)
     | None \<Rightarrow>
         bindE (gets (\<lambda>s. find_run s pipeline_run_id)) (\<lambda>run_for_spend.
         bindE (dispatch_target workspace_id pipeline_run_id stage attempt_number provider prio)
           (\<lambda>(prio, worker, already).
         case already of
           Some a \<Rightarrow> ret (dispatch_res Idempotent (Some (asg_id a)))
         | None \<Rightarrow>
             bindE (stage_column stage) (\<lambda>stg.
             bindE (reserve_for_dispatch run_for_spend worker stg (or_provider provider)) (\<lambda>funded.
             if \<not> funded then ret (dispatch_res SpendHold None)
             else create_assignment workspace_id pipeline_run_id stg attempt_number corr_id
               trace_id (or_provider provider) prio worker)))))"

section \<open>\<open>Decimal\<close> of a worker-reported cost\<close>

datatype decimal_value = Finite rat | Infinite bool | NotANumber

definition is_digit :: "char \<Rightarrow> bool" where
  "is_digit c \<longleftrightarrow> CHR ''0'' \<le> c \<and> c \<le> CHR ''9''"

definition digits_val :: "string \<Rightarrow> nat" where
  "digits_val ds = foldl (\<lambda>n c. 10 * n + (of_char c - 48)) 0 ds"

definition parse_exponent :: "string \<Rightarrow> int option" where
  \<comment> \<open>\<open>(E[-+]?[0-9]+)?\<close>, on the lowered text\<close>
  "parse_exponent s =
     (case s of
        [] \<Rightarrow> Some 0
      | c # cs \<Rightarrow>
          if c \<noteq> CHR ''e'' then None
          else
            (let neg = (cs \<noteq> [] \<and> hd cs = CHR ''-'');
                 ds = (if cs \<noteq> [] \<and> (hd cs = CHR ''-'' \<or> hd cs = CHR ''+'') then tl cs else cs)
             in if ds = [] \<or> \<not> list_all is_digit ds then None
                else Some (if neg then - int (digits_val ds) else int (digits_val ds))))"

definition parse_unsigned :: "string \<Rightarrow> decimal_value option" where
  "parse_unsigned s =
     (if s = ''inf'' \<or> s = ''infinity'' then Some (Infinite True)
      else if take 3 s = ''nan'' \<and> list_all is_digit (drop 3 s) then Some NotANumber
      else if take 4 s = ''snan'' \<and> list_all is_digit (drop 4 s) then Some NotANumber
      else
        (let ip = takeWhile is_digit s; r = dropWhile is_digit s;
             dot = (r \<noteq> [] \<and> hd r = CHR ''.'');
             fp = (if dot then takeWhile is_digit (tl r) else []);
             rest = (if dot then dropWhile is_digit (tl r) else r)
         in if ip = [] \<and> fp = [] then None
            else
              (case parse_exponent rest of
                 None \<Rightarrow> None
               | Some e \<Rightarrow>
                   let m = of_nat (digits_val (ip @ fp)) / 10 ^ length fp
                   in Some (Finite (if 0 \<le> e then m * 10 ^ nat e else m / 10 ^ nat (- e))))))"

definition parse_decimal :: "string \<Rightarrow> decimal_value option" where
  \<comment> \<open>\<open>Decimal(text)\<close>; \<open>None\<close> is \<open>InvalidOperation\<close>\<close>
  "parse_decimal text =
     (let blank = (\<lambda>c. c \<in> set [CHR '' '', char_of (9::nat), char_of (10::nat), char_of (13::nat)]);
          s = filter (\<lambda>c. c \<noteq> CHR ''_'') (lower (rev (dropWhile blank (rev (dropWhile blank text)))))
      in (case s of
            [] \<Rightarrow> None
          | c # cs \<Rightarrow>
              if c = CHR ''-'' then
                map_option (\<lambda>v. case v of Finite r \<Rightarrow> Finite (- r) | Infinite b \<Rightarrow> Infinite False | NotANumber \<Rightarrow> NotANumber)
                  (parse_unsigned cs)
              else if c = CHR ''+'' then parse_unsigned cs
              else parse_unsigned (c # cs)))"

definition reported_cost :: "json_obj option \<Rightarrow> usd \<Rightarrow> decimal_value" where
  \<comment> \<open>\<open>Decimal(str(result["estimated_cost_usd"]))\<close>, or the default when absent or invalid\<close>
  "reported_cost result dflt =
     (case result of
        None \<Rightarrow> Finite dflt
      | Some obj \<Rightarrow>
          (case map_of obj ''estimated_cost_usd'' of
             Some (JInt i) \<Rightarrow> Finite (of_int i)
           | Some (JNum r) \<Rightarrow> Finite r
           | Some (JStr t) \<Rightarrow> opt_or (parse_decimal t) (Finite dflt)
           | _ \<Rightarrow> Finite dflt))"

definition commit_reported :: "uuid \<Rightarrow> uuid \<Rightarrow> decimal_value \<Rightarrow> unit svc" where
  \<comment> \<open>\<open>commit_spend\<close> on a \<open>Decimal\<close>: an infinity is above, or below, every amount, and
     comparing a NaN raises\<close>
  "commit_reported rid rsv v =
     (case v of
        Finite r \<Rightarrow> commit_spend rid rsv r
      | Infinite pos \<Rightarrow>
          bindE (the_rsv rsv) (\<lambda>r. commit_spend rid rsv (if pos then rsv_estimated_cost_usd r + 1 else - 1))
      | NotANumber \<Rightarrow>
          bindE (the_rsv rsv) (\<lambda>r. if rsv_status r = Reserved then raise (RuntimeError ''InvalidOperation'')
            else commit_spend rid rsv 0))"

section \<open>Submitting a result\<close>

definition check_submit :: "stage_assignment \<Rightarrow> uuid option \<Rightarrow> datetime \<Rightarrow> unit svc" where
  "check_submit a worker_id now =
     (if worker_id \<noteq> None \<and> asg_worker_id a \<noteq> worker_id then raise LeaseNotOwned
      else if \<not> in_flight (asg_status a) then raise (status_conflict ''submit requires in-flight status, got '' a [])
      else if worker_id \<noteq> None \<and> (case asg_lease_expires_at a of None \<Rightarrow> True | Some d \<Rightarrow> d < now)
        then raise lease_expired
      else ret ())"

definition submit_slot :: "worker_registration \<Rightarrow> worker_registration" where
  \<comment> \<open>unlike \<open>_release_worker_slot\<close>, the status is only looked at when the load was positive\<close>
  "submit_slot w =
     (if 0 < wk_current_load w then
        (let w1 = w\<lparr>wk_current_load := wk_current_load w - 1\<rparr>
         in if wk_status w1 = WorkerBusy \<and> wk_current_load w1 < wk_max_concurrency w1
            then w1\<lparr>wk_status := WorkerOnline\<rparr> else w1)
      else w)"

definition add_stage_run :: "stage_assignment \<Rightarrow> pipeline_run \<Rightarrow> bool \<Rightarrow> string \<Rightarrow> datetime \<Rightarrow> unit svc" where
  "add_stage_run a run success error_message now =
     bindE uuid4 (\<lambda>u.
     bindE (gets (\<lambda>s. list_ex (\<lambda>p. psr_pipeline_run_id p = asg_pipeline_run_id a \<and> psr_stage p = asg_stage a
        \<and> psr_attempt_number p = asg_attempt_number a) (stage_runs s))) (\<lambda>taken.
     if taken then raise (IntegrityError ''uq_stage_run_attempt'')
     else modify (stage_runs_update (\<lambda>ps. ps @ [\<lparr>psr_id = u, psr_workspace_id = asg_workspace_id a,
        psr_pipeline_run_id = asg_pipeline_run_id a, psr_content_item_id = run_content_item_id run,
        psr_stage = asg_stage a, psr_attempt_number = asg_attempt_number a,
        psr_status = (if success then StageSucceeded else StageFailed),
        psr_error_message = (if success then None else Some error_message),
        psr_started_at = asg_dispatched_at a, psr_completed_at = Some now\<rparr>]))))"

definition emit_stage_completed :: "stage_assignment \<Rightarrow> pipeline_run \<Rightarrow> json_obj option \<Rightarrow> unit svc" where
  "emit_stage_completed a run result =
     bindE (child_span (asg_trace_id a)) (\<lambda>(trace_id, span_id).
     bindE (case asg_correlation_id a of Some c \<Rightarrow> ret c
        | None \<Rightarrow> (case run_correlation_id run of Some c \<Rightarrow> ret c | None \<Rightarrow> uuid4)) (\<lambda>corr.
     bindE (emit STAGE_COMPLETED (asg_workspace_id a) ''pipeline_run'' (asg_pipeline_run_id a) corr
        trace_id span_id
        [(''stage'', JStr (stage_value (asg_stage a))), (''attempt_number'', JInt (asg_attempt_number a)),
         (''context'', JObj (opt_or result []))] ''dispatcher'') (\<lambda>_. ret ())))"

definition newest_open_reservation :: "session \<Rightarrow> uuid \<Rightarrow> content_stage \<Rightarrow> uuid option" where
  "newest_open_reservation s rid stage =
     map_option rsv_id (first_row (sort_key (\<lambda>r. - rsv_created_at r) (open_stage_reservations s rid stage)))"

definition submit_result ::
    "uuid \<Rightarrow> bool \<Rightarrow> json_obj option \<Rightarrow> string \<Rightarrow> uuid option \<Rightarrow> datetime option \<Rightarrow> unit svc" where
  "submit_result k success result error_message worker_id now =
     bindE utcnow (\<lambda>clk.
       let now = opt_or now clk in
     bindE (the_asg k) (\<lambda>a.
     bindE (check_submit a worker_id now) (\<lambda>_.
     bindE (set_asg k (\<lambda>x. x\<lparr>asg_status := (if success then AsgCompleted else AsgFailed),
        asg_completed_at := Some now, asg_result := result, asg_lease_expires_at := None,
        asg_lease_started_at := None\<rparr>)) (\<lambda>_.
     bindE (case asg_worker_id a of None \<Rightarrow> ret () | Some w \<Rightarrow> set_worker w submit_slot) (\<lambda>_.
     bindE (gets (\<lambda>s. find_run s (asg_pipeline_run_id a))) (\<lambda>r.
     case r of
       None \<Rightarrow> ret ()
     | Some run \<Rightarrow>
         bindE (add_stage_run a run success error_message now) (\<lambda>_.
         bindE (whenE success (emit_stage_completed a run result)) (\<lambda>_.
         bindE (gets (\<lambda>s. newest_open_reservation s (run_id run) (asg_stage a))) (\<lambda>open_reservation.
         bindE (gets get_settings) (\<lambda>st.
         if success then
           bindE (case open_reservation of
               None \<Rightarrow> ret ()
             | Some rsv \<Rightarrow> commit_reported (run_id run) rsv
                 (reported_cost result (default_stage_estimate_usd st))) (\<lambda>_.
           handle_stage_success (run_id run) (asg_stage a) (Some (opt_or result [])))
         else
           bindE (case open_reservation of
               None \<Rightarrow> ret () | Some rsv \<Rightarrow> release_spend (run_id run) rsv) (\<lambda>_.
           handle_stage_failure (stage_repr (asg_stage a)) (run_id run) (asg_stage a)
             (asg_attempt_number a) error_message)))))))))))"

context core_frame
begin

lemma eff_assert_lease: "effects R (assert_lease_extendable a w n l)"
  unfolding assert_lease_extendable_def Let_def by (intro core_rules)

lemma eff_select_worker: "effects R (select_worker st m)"
  unfolding select_worker_def by (intro core_rules)

lemma eff_max_concurrent_for: "effects R (max_concurrent_for ws)"
  unfolding max_concurrent_for_def by (intro core_rules)

lemma eff_stage_column: "effects R (stage_column st)"
  unfolding stage_column_def by (intro core_rules)

lemma eff_reserve_for_dispatch: "effects R (reserve_for_dispatch r w st p)"
  unfolding reserve_for_dispatch_def by (intro audit_rules)

lemma eff_commit_reported: "effects R (commit_reported rid rsv v)"
  unfolding commit_reported_def by (cases v) (simp_all, (intro audit_rules)+)

lemma eff_check_submit: "effects R (check_submit a w n)"
  unfolding check_submit_def by (intro core_rules)

lemma eff_add_stage_run: "effects R (add_stage_run a run ok e n)"
  unfolding add_stage_run_def by (intro core_rules)

lemma eff_emit_stage_completed: "effects R (emit_stage_completed a run result)"
  unfolding emit_stage_completed_def by (intro core_rules)

lemma eff_dispatch_precheck: "effects R (dispatch_precheck ws rid)"
  unfolding dispatch_precheck_def by (intro core_rules eff_max_concurrent_for)

lemma eff_dispatch_target: "effects R (dispatch_target ws rid st n p prio)"
  unfolding dispatch_target_def by (intro audit_rules eff_select_worker)

lemmas dispatch_core_rules = audit_rules eff_dispatch_precheck eff_dispatch_target eff_assert_lease eff_select_worker eff_max_concurrent_for
  eff_stage_column eff_reserve_for_dispatch eff_commit_reported eff_check_submit eff_add_stage_run
  eff_emit_stage_completed

end

context engine_frame
begin

lemma eff_acknowledge: "effects R (acknowledge k l w n)"
  unfolding acknowledge_def Let_def by (intro dispatch_core_rules frame_rules)

lemma eff_renew_lease: "effects R (renew_lease k l w n)"
  unfolding renew_lease_def Let_def by (intro dispatch_core_rules frame_rules)

lemma eff_create_assignment: "effects R (create_assignment ws rid st n c tr p prio w)"
  unfolding create_assignment_def by (intro dispatch_core_rules frame_rules)

lemma eff_dispatch_stage: "effects R (dispatch_stage ws rid st n c tr p prio)"
  unfolding dispatch_stage_def by (intro dispatch_core_rules frame_rules eff_create_assignment)

lemma eff_submit_result: "effects R (submit_result k ok res e w n)"
  unfolding submit_result_def Let_def
  by (intro dispatch_core_rules frame_rules eff_handle_stage_success)

lemmas dispatcher_rules = recovery_rules dispatch_core_rules eff_acknowledge eff_renew_lease
  eff_dispatch_stage eff_submit_result

end

section \<open>The lease stays within its maximum\<close>

lemma assert_lease_outcome:
  "assert_lease_extendable a wid (Some now) (Some secs) s =
    (s, if asg_worker_id a \<noteq> Some wid then Inl LeaseNotOwned
        else if \<not> in_flight (asg_status a) then Inl (status_conflict ''assignment status is '' a '', expected dispatched or acknowledged'')
        else if (case asg_lease_expires_at a of None \<Rightarrow> True | Some d \<Rightarrow> d < now)
          then Inl lease_expired
        else if lease_started a now + seconds (assignment_max_lease_seconds (get_settings s)) < now + seconds secs
          then Inl max_lease_exceeded
        else Inr ())"
  by (simp add: assert_lease_extendable_def Let_def)

lemma bindE_assert_lease:
  "bindE (assert_lease_extendable a wid (Some now) (Some secs)) f s =
    (case result_of (assert_lease_extendable a wid (Some now) (Some secs)) s of
       Inl e \<Rightarrow> (s, Inl e) | Inr _ \<Rightarrow> f () s)"
  by (simp add: bindE_def assert_lease_outcome)

definition lease_granted ::
    "session \<Rightarrow> uuid \<Rightarrow> uuid \<Rightarrow> stage_assignment \<Rightarrow> datetime \<Rightarrow> int \<Rightarrow> session \<Rightarrow> bool" where
  "lease_granted s k wid a now secs t \<longleftrightarrow>
     asg_worker_id a = Some wid \<and> in_flight (asg_status a)
     \<and> (\<exists>d. asg_lease_expires_at a = Some d \<and> now \<le> d)
     \<and> (\<exists>b. find_asg t k = Some b \<and> asg_lease_started_at b = Some (lease_started a now)
          \<and> asg_lease_expires_at b = Some (now + seconds secs)
          \<and> now + seconds secs \<le> lease_started a now + seconds (assignment_max_lease_seconds (get_settings s)))"

definition lease_refused :: "session \<Rightarrow> session \<Rightarrow> py_error \<Rightarrow> bool" where
  "lease_refused s t e \<longleftrightarrow> t = s \<and> (e = LeaseNotOwned \<or> (\<exists>c m. e = LeaseConflict c m))"

lemma extend_lease_sel [simp]:
  "asg_id (extend_lease now secs a) = asg_id a"
  "asg_lease_expires_at (extend_lease now secs a) = Some (now + seconds secs)"
  "asg_lease_started_at (extend_lease now secs a) = Some (lease_started a now)"
  by (simp_all add: extend_lease_def)

lemma renew_lease_outcome:
  assumes "find_asg s k = Some a"
  shows "renew_lease k ls (Some wid) now s =
    (let n = opt_or now (clock s); secs = opt_or ls (assignment_lease_seconds (get_settings s)) in
     case result_of (assert_lease_extendable a wid (Some n) (Some secs)) s of
       Inl e \<Rightarrow> (s, Inl e)
     | Inr _ \<Rightarrow> (assignments_update (upd_row asg_id k (extend_lease n secs)) s, Inr ()))"
  using assms by (simp add: renew_lease_def Let_def bindE_assert_lease split: sum.splits)

lemma acknowledge_outcome:
  assumes "find_asg s k = Some a"
  shows "acknowledge k ls (Some wid) now s =
    (let n = opt_or now (clock s); secs = opt_or ls (assignment_lease_seconds (get_settings s)) in
     case result_of (assert_lease_extendable a wid (Some n) (Some secs)) s of
       Inl e \<Rightarrow> (s, Inl e)
     | Inr _ \<Rightarrow>
         if asg_status a \<noteq> AsgDispatched then (s, Inl (status_conflict ''ack requires dispatched, got '' a []))
         else (assignments_update (upd_row asg_id k (\<lambda>a. extend_lease n secs
             (a\<lparr>asg_status := AsgAcknowledged, asg_acknowledged_at := Some n\<rparr>))) s, Inr ()))"
  using assms by (simp add: acknowledge_def Let_def bindE_assert_lease split: sum.splits)

lemma assert_lease_passes:
  assumes "result_of (assert_lease_extendable a wid (Some n) (Some secs)) s = Inr x"
  shows "asg_worker_id a = Some wid \<and> in_flight (asg_status a)
    \<and> (\<exists>d. asg_lease_expires_at a = Some d \<and> n \<le> d)
    \<and> n + seconds secs \<le> lease_started a n + seconds (assignment_max_lease_seconds (get_settings s))"
  using assms by (auto simp: assert_lease_outcome split: if_splits option.splits)

lemma assert_lease_fails:
  "result_of (assert_lease_extendable a wid (Some n) (Some secs)) s = Inl e \<Longrightarrow> lease_refused s s e"
  by (auto simp: assert_lease_outcome lease_refused_def lease_error_defs split: if_splits)

lemma lease_started_ack [simp]:
  "lease_started (a\<lparr>asg_status := st, asg_acknowledged_at := d\<rparr>) now = lease_started a now"
  by (simp add: lease_started_def)

text \<open>
  C30: a worker can hold an assignment only so long. Renewing or acknowledging a lease
  succeeds only for the owning worker while the lease is still running, moves its end to
  now plus the lease time, and never past the maximum total duration counted from when the
  lease began, which an extension does not move; every refusal leaves the session as it was.
\<close>

theorem lease_extension_is_bounded:
  assumes "find_asg s k = Some a" and "op = renew_lease \<or> op = acknowledge"
  shows "case op k lease_seconds (Some wid) now s of
      (t, Inr _) \<Rightarrow> lease_granted s k wid a (opt_or now (clock s))
        (opt_or lease_seconds (assignment_lease_seconds (get_settings s))) t
    | (t, Inl e) \<Rightarrow> lease_refused s t e"
proof -
  let ?n = "opt_or now (clock s)" and ?secs = "opt_or lease_seconds (assignment_lease_seconds (get_settings s))"
  note [simp] = renew_lease_outcome [OF assms(1)] acknowledge_outcome [OF assms(1)] Let_def
  show ?thesis
  proof (cases "result_of (assert_lease_extendable a wid (Some ?n) (Some ?secs)) s")
    case (Inl e)
    with assms(2) assert_lease_fails [OF Inl] show ?thesis by auto
  next
    case (Inr x)
    from assert_lease_passes [OF Inr] assms Inr show ?thesis
      by (auto simp: lease_granted_def find_row_upd_row lease_refused_def status_conflict_def split: if_splits)
  qed
qed

section \<open>What dispatching does\<close>

interpretation unch: effect_preorder "\<lambda>s t :: session. t = s"
  by unfold_locales simp_all

abbreviation unchanged :: "'a svc \<Rightarrow> bool" where
  "unchanged m \<equiv> effects (\<lambda>s t. t = s) m"

lemma bindE_unchangedE:
  assumes "unchanged m" and "bindE m f s = (t, r)"
  obtains e where "m s = (s, Inl e)" "t = s" "r = Inl e" | x where "m s = (s, Inr x)" "f x s = (t, r)"
proof -
  have "state_after m s = s" using effectsD [OF assms(1)] by simp
  then obtain r' where m: "m s = (s, r')" by (cases "m s") simp
  show ?thesis
  proof (cases r')
    case (Inl e)
    with m assms(2) show ?thesis by (intro that(1) [of e]) (simp_all add: bindE_def)
  next
    case (Inr x)
    with m assms(2) show ?thesis by (intro that(2) [of x]) (simp_all add: bindE_def)
  qed
qed

lemma unchanged_prefix:
  "unchanged (max_concurrent_for ws)" "unchanged (has_provider_capacity ws p)"
  "unchanged (select_worker st m)" "unchanged (stage_column st)"
  unfolding max_concurrent_for_def has_provider_capacity_def lock_budget_def count_inflight_def
    select_worker_def stage_column_def
  by (intro unch.eff_rules)+

lemma unchanged_dispatch:
  "unchanged (dispatch_precheck ws rid)" "unchanged (dispatch_target ws rid st n p prio)"
  unfolding dispatch_precheck_def dispatch_target_def
  by (intro unch.eff_rules unchanged_prefix)+

definition dispatch_creates ::
    "session \<Rightarrow> uuid \<Rightarrow> uuid \<Rightarrow> string \<Rightarrow> int \<Rightarrow> uuid \<Rightarrow> string option \<Rightarrow> string option
      \<Rightarrow> session \<Rightarrow> dispatch_result \<Rightarrow> bool" where
  \<comment> \<open>dispatching reached the point where the assignment is created, in session \<open>s1\<close>\<close>
  "dispatch_creates s ws rid stage n corr trace p t res \<longleftrightarrow>
     (\<exists>s1 stg prio worker. content_stage_of stage = Some stg
        \<and> filter (\<lambda>a. asg_workspace_id a = ws \<and> asg_idempotency_key a = Some (idempotency_key rid stage n))
            (assignments s) = []
        \<and> (\<forall>w. worker = Some w \<longrightarrow> w \<in> set (workers s) \<and> eligible_worker s stage 50 w)
        \<and> run_blocks_dispatch (find_run s rid) = None
        \<and> reserve_for_dispatch (find_run s rid) worker stg (or_provider p) s = (s1, Inr True)
        \<and> create_assignment ws rid stg n corr trace (or_provider p) prio worker s1 = (t, Inr res))"

lemma select_worker_eligible:
  "select_worker st m s = (s, Inr (Some w)) \<Longrightarrow> w \<in> set (workers s) \<and> eligible_worker s st m w"
  by (auto simp: select_worker_def dest!: first_row_mem)

lemma create_assignment_returns:
  "\<exists>t res. create_assignment ws rid stg n c tr p prio w s = (t, Inr res)"
  by (cases w) (simp_all add: create_assignment_def)

lemma dispatch_precheck_None:
  assumes "dispatch_precheck ws rid s = (s, Inr None)"
  shows "run_blocks_dispatch (find_run s rid) = None"
  using assms unfolding dispatch_precheck_def
  by (rule bindE_unchangedE [OF unchanged_prefix(1)]) (auto split: if_splits)

lemma dispatch_target_result:
  assumes "dispatch_target ws rid stage n p prio s = (s, Inr (prio', worker, already))"
  shows "(\<forall>w. worker = Some w \<longrightarrow> w \<in> set (workers s) \<and> eligible_worker s stage 50 w)
    \<and> scalar_one_or_none (filter (\<lambda>a. asg_workspace_id a = ws \<and>
        asg_idempotency_key a = Some (idempotency_key rid stage n)) (assignments s)) = Inr already"
  using assms unfolding dispatch_target_def bindE_gets
  apply (elim bindE_unchangedE [OF unchanged_prefix(2)])
   apply simp
  subgoal for ok
    by (cases ok) (auto simp: select_worker_def split: sum.splits dest!: first_row_mem)
  done

lemma stage_column_Inr: "stage_column st s = (s, Inr c) \<Longrightarrow> content_stage_of st = Some c"
  by (simp add: stage_column_def split: option.splits)

lemma core_same_reserve: "reserve_for_dispatch r w st p s = (t, x) \<Longrightarrow> core_same s t"
  by (rule effects_result [OF core.eff_reserve_for_dispatch])

lemma dispatch_cases:
  assumes "dispatch_stage ws rid stage n corr trace p prio s = (t, r)"
  shows "core_same s t \<and> (\<forall>res. r = Inr res \<longrightarrow> dr_outcome res \<notin> {Dispatched, NoWorker})
    \<or> (\<exists>res. r = Inr res \<and> dispatch_creates s ws rid stage n corr trace p t res)"
  using assms unfolding dispatch_stage_def
proof (rule bindE_unchangedE [OF unchanged_dispatch(1)])
  define tail where "tail = (\<lambda>(prio, worker, already :: stage_assignment option).
         case already of
           Some a \<Rightarrow> ret (dispatch_res Idempotent (Some (asg_id a)))
         | None \<Rightarrow>
             bindE (stage_column stage) (\<lambda>stg.
             bindE (reserve_for_dispatch (find_run s rid) worker stg (or_provider p)) (\<lambda>funded.
             if \<not> funded then ret (dispatch_res SpendHold None)
             else create_assignment ws rid stg n corr trace (or_provider p) prio worker)))"
  fix blocked
  assume pre: "dispatch_precheck ws rid s = (s, Inr blocked)"
    and cont: "(case blocked of Some oc \<Rightarrow> ret (dispatch_res oc None)
     | None \<Rightarrow>
         bindE (gets (\<lambda>s. find_run s rid)) (\<lambda>run_for_spend.
         bindE (dispatch_target ws rid stage n p prio) (\<lambda>(prio, worker, already).
         case already of
           Some a \<Rightarrow> ret (dispatch_res Idempotent (Some (asg_id a)))
         | None \<Rightarrow>
             bindE (stage_column stage) (\<lambda>stg.
             bindE (reserve_for_dispatch run_for_spend worker stg (or_provider p)) (\<lambda>funded.
             if \<not> funded then ret (dispatch_res SpendHold None)
             else create_assignment ws rid stg n corr trace (or_provider p) prio worker))))) s = (t, r)"
  show ?thesis
  proof (cases blocked)
    case (Some oc)
    have "oc \<notin> {Dispatched, NoWorker}"
      using pre Some unfolding dispatch_precheck_def
      by (elim bindE_unchangedE [OF unchanged_prefix(1)])
        (auto simp: run_blocks_dispatch_def split: if_splits option.splits)
    with cont Some show ?thesis by (auto simp: core_same_def)
  next
    case None
    with cont have "bindE (dispatch_target ws rid stage n p prio) tail s = (t, r)"
      by (simp add: tail_def)
    then show ?thesis
    proof (rule bindE_unchangedE [OF unchanged_dispatch(2)])
      fix x assume x: "dispatch_target ws rid stage n p prio s = (s, Inr x)" "tail x s = (t, r)"
      obtain prio' worker already where x': "x = (prio', worker, already)" by (cases x)
      note target = dispatch_target_result [OF x(1) [unfolded x']]
      show ?thesis
      proof (cases already)
        case (Some a)
        with x(2) x' show ?thesis by (auto simp: tail_def core_same_def)
      next
        case None
        then have rows: "filter (\<lambda>a. asg_workspace_id a = ws \<and>
            asg_idempotency_key a = Some (idempotency_key rid stage n)) (assignments s) = []"
          using target by (simp add: scalar_one_or_none_None)
        from x(2) x' None have "bindE (stage_column stage) (\<lambda>stg.
             bindE (reserve_for_dispatch (find_run s rid) worker stg (or_provider p)) (\<lambda>funded.
             if \<not> funded then ret (dispatch_res SpendHold None)
             else create_assignment ws rid stg n corr trace (or_provider p) prio' worker)) s = (t, r)"
          by (simp add: tail_def)
        then show ?thesis
        proof (rule bindE_unchangedE [OF unchanged_prefix(4)])
          fix stg
          assume stg: "stage_column stage s = (s, Inr stg)"
            and *: "bindE (reserve_for_dispatch (find_run s rid) worker stg (or_provider p)) (\<lambda>funded.
             if \<not> funded then ret (dispatch_res SpendHold None)
             else create_assignment ws rid stg n corr trace (or_provider p) prio' worker) s = (t, r)"
          obtain s1 v where s1: "reserve_for_dispatch (find_run s rid) worker stg (or_provider p) s = (s1, v)"
            by fastforce
          note core_same_reserve [OF s1]
          moreover have "t = s1 \<and> (\<forall>res. r = Inr res \<longrightarrow> dr_outcome res = SpendHold)" if "v \<noteq> Inr True"
            using * s1 that by (auto simp: bindE_def split: sum.splits if_splits)
          moreover have "\<exists>res. r = Inr res \<and> dispatch_creates s ws rid stage n corr trace p t res" if "v = Inr True"
          proof -
            have "create_assignment ws rid stg n corr trace (or_provider p) prio' worker s1 = (t, r)"
              using * s1 that by (simp add: bindE_def)
            moreover from this obtain res where "r = Inr res"
              using create_assignment_returns by (metis prod.inject)
            ultimately show ?thesis
              using target rows s1 that dispatch_precheck_None pre \<open>blocked = None\<close> stage_column_Inr [OF stg]
              unfolding dispatch_creates_def by blast
          qed
          ultimately show ?thesis by (cases "v = Inr True") auto
        qed (auto simp: core_same_def)
      qed
    qed (auto simp: core_same_def)
  qed
qed (auto simp: core_same_def)

text \<open>
  C11: dispatching is idempotent per attempt. While the workspace has an assignment with the
  idempotency key of this run, stage and attempt, dispatching it again creates no
  assignment and takes no worker slot, whatever the outcome it reports.
\<close>

theorem dispatch_never_duplicates:
  assumes "a \<in> set (assignments s)" and "asg_workspace_id a = ws"
    and "asg_idempotency_key a = Some (idempotency_key rid stage n)"
  shows "core_same s (state_after (dispatch_stage ws rid stage n corr trace p prio) s)"
proof -
  obtain t r where tr: "dispatch_stage ws rid stage n corr trace p prio s = (t, r)" by fastforce
  have "\<not> dispatch_creates s ws rid stage n corr trace p t res" for res
    using assms by (auto simp: dispatch_creates_def filter_empty_conv)
  with dispatch_cases [OF tr] tr show ?thesis by auto
qed

section \<open>Worker slots\<close>

definition load_ok :: "session \<Rightarrow> bool" where
  "load_ok s \<longleftrightarrow> list_all (\<lambda>w. 0 \<le> wk_current_load w \<and> wk_current_load w \<le> wk_max_concurrency w) (workers s)"

lemma load_ok_cong: "workers t = workers s \<Longrightarrow> load_ok t = load_ok s"
  by (simp add: load_ok_def)

interpretation load: core_frame "\<lambda>s t. load_ok s \<longrightarrow> load_ok t"
  by unfold_locales (auto intro: load_ok_cong [THEN iffD2])

lemma load_ok_set_worker:
  assumes "load_ok s"
    and "\<And>w. w \<in> set (workers s) \<Longrightarrow> wk_id w = k \<Longrightarrow> 0 \<le> wk_current_load w \<Longrightarrow> wk_current_load w \<le> wk_max_concurrency w
      \<Longrightarrow> 0 \<le> wk_current_load (f w) \<and> wk_current_load (f w) \<le> wk_max_concurrency (f w)"
  shows "load_ok (workers_update (upd_row wk_id k f) s)"
  using assms by (auto simp: load_ok_def list_all_iff set_upd_row)

lemma slot_bounds:
  "0 \<le> wk_current_load w \<Longrightarrow> wk_current_load w \<le> wk_max_concurrency w \<Longrightarrow>
    0 \<le> wk_current_load (release_slot w) \<and> wk_current_load (release_slot w) \<le> wk_max_concurrency (release_slot w)"
  "0 \<le> wk_current_load w \<Longrightarrow> wk_current_load w \<le> wk_max_concurrency w \<Longrightarrow>
    0 \<le> wk_current_load (submit_slot w) \<and> wk_current_load (submit_slot w) \<le> wk_max_concurrency (submit_slot w)"
  "0 \<le> wk_current_load w \<Longrightarrow> wk_current_load w < wk_max_concurrency w \<Longrightarrow>
    0 \<le> wk_current_load (take_slot w) \<and> wk_current_load (take_slot w) \<le> wk_max_concurrency (take_slot w)"
  by (simp_all add: release_slot_def submit_slot_def take_slot_def Let_def)

lemma load_assignments: "effects (\<lambda>s t. load_ok s \<longrightarrow> load_ok t) (modify (assignments_update f))"
  "effects (\<lambda>s t. load_ok s \<longrightarrow> load_ok t) (modify (gates_update g))"
  by (auto simp: effects_def intro: load_ok_cong [THEN iffD2])

lemma load_release: "effects (\<lambda>s t. load_ok s \<longrightarrow> load_ok t) (release_worker_slot w)"
  unfolding release_worker_slot_def
  by (intro load.core_rules load.eff_modify impI load_ok_set_worker slot_bounds)

lemma load_recover: "effects (\<lambda>s t. load_ok s \<longrightarrow> load_ok t) (recover_assignment k rs n d)"
  unfolding recover_assignment_def recover_exhausted_def recover_requeue_def Let_def
  by (intro load.audit_rules load_release load_assignments)

lemma load_pause: "effects (\<lambda>s t. load_ok s \<longrightarrow> load_ok t) (pause_for_review uf rid st n)"
  unfolding pause_for_review_def gate_insert_def Let_def
  by (intro load.run_rules load_assignments)

lemma load_stage_success: "effects (\<lambda>s t. load_ok s \<longrightarrow> load_ok t) (handle_stage_success rid st ctx)"
  unfolding handle_stage_success_def advance_or_finish_def by (intro load.run_rules load_pause)

lemma load_submit: "effects (\<lambda>s t. load_ok s \<longrightarrow> load_ok t) (submit_result k ok res e w n)"
proof -
  have "effects (\<lambda>s t. load_ok s \<longrightarrow> load_ok t) (set_worker x submit_slot)" for x
    by (intro load.eff_modify impI load_ok_set_worker slot_bounds)
  then show ?thesis
    unfolding submit_result_def Let_def
    by (intro load.dispatch_core_rules load_assignments load_stage_success)
qed

lemma create_assignment_workers:
  "workers (state_after (create_assignment ws rid stg n c tr p prio worker) s) =
    (case worker of None \<Rightarrow> workers s | Some w \<Rightarrow> upd_row wk_id (wk_id w) take_slot (workers s))"
  by (cases worker) (simp_all add: create_assignment_def)

lemma load_dispatch:
  assumes "load_ok s" and "distinct (map wk_id (workers s))"
  shows "load_ok (state_after (dispatch_stage ws rid stage n corr trace p prio) s)"
proof -
  obtain t r where tr: "dispatch_stage ws rid stage n corr trace p prio s = (t, r)" by fastforce
  from dispatch_cases [OF tr] have "load_ok t"
  proof
    assume "core_same s t \<and> (\<forall>res. r = Inr res \<longrightarrow> dr_outcome res \<notin> {Dispatched, NoWorker})"
    then show ?thesis using assms(1) by (simp add: core_same_def load_ok_def)
  next
    assume "\<exists>res. r = Inr res \<and> dispatch_creates s ws rid stage n corr trace p t res"
    then obtain s1 stg prio' worker res where
      w: "\<forall>w. worker = Some w \<longrightarrow> w \<in> set (workers s) \<and> eligible_worker s stage 50 w"
      and s1: "reserve_for_dispatch (find_run s rid) worker stg (or_provider p) s = (s1, Inr True)"
      and t: "create_assignment ws rid stg n corr trace (or_provider p) prio' worker s1 = (t, Inr res)"
      unfolding dispatch_creates_def by blast
    have ws1: "workers s1 = workers s" using core_same_reserve [OF s1] by (simp add: core_same_def)
    have wt: "workers t = (case worker of None \<Rightarrow> workers s | Some w \<Rightarrow> upd_row wk_id (wk_id w) take_slot (workers s))"
      using create_assignment_workers [of ws rid stg n corr trace "or_provider p" prio' worker s1] t ws1
      by (simp split: option.splits)
    show ?thesis
    proof (cases worker)
      case None
      with wt assms(1) show ?thesis by (simp add: load_ok_def)
    next
      case (Some w)
      with w have w': "w \<in> set (workers s)" "wk_current_load w < wk_max_concurrency w"
        by (auto simp: eligible_worker_def)
      have only: "v = w" if "v \<in> set (workers s)" "wk_id v = wk_id w" for v
        using that w'(1) assms(2) by (auto simp: distinct_map inj_on_def)
      have "load_ok (workers_update (upd_row wk_id (wk_id w) take_slot) s)"
        using assms(1)
      proof (rule load_ok_set_worker)
        fix v assume "v \<in> set (workers s)" "wk_id v = wk_id w" "0 \<le> wk_current_load v"
        with only w'(2) slot_bounds(3) [of w]
        show "0 \<le> wk_current_load (take_slot v) \<and> wk_current_load (take_slot v) \<le> wk_max_concurrency (take_slot v)"
          by auto
      qed
      with wt Some show ?thesis by (simp add: load_ok_def)
    qed
  qed
  with tr show ?thesis by simp
qed

text \<open>
  C29: no worker is ever given more than it can take, or counted below zero. If every
  worker's load is between zero and its maximum concurrency, it still is after dispatching
  a stage, submitting a result and recovering an assignment, whatever their outcome.
\<close>

theorem worker_load_stays_in_bounds:
  assumes "load_ok s" and "distinct (map wk_id (workers s))"
  shows "load_ok (state_after (dispatch_stage ws rid stage n corr trace p prio) s)
    \<and> load_ok (state_after (submit_result k ok result err wid now) s)
    \<and> load_ok (state_after (recover_assignment k reason now detail) s)"
  using load_dispatch [OF assms] effectsD [OF load_submit] effectsD [OF load_recover] assms(1) by blast

text \<open>
  Work is handed to a worker only with money set aside. When dispatching reports
  \<open>dispatched\<close> for a run that is neither over nor paused, exactly one assignment was added,
  owned by an eligible worker with a free slot, with a lease of the configured length, and
  the stage of the run holds exactly one open reservation.
\<close>

theorem dispatched_work_is_funded:
  assumes "dispatch_stage ws rid stage n corr trace p prio s = (t, Inr res)"
    and "dr_outcome res = Dispatched" and "find_run s rid = Some run" and "unique_rsv s"
  shows "\<exists>a w stg u. assignments t = assignments s @ [a] \<and> dr_assignment res = Some (asg_id a)
    \<and> content_stage_of stage = Some stg \<and> asg_stage a = stg \<and> asg_pipeline_run_id a = rid
    \<and> w \<in> set (workers s) \<and> eligible_worker s stage 50 w \<and> asg_worker_id a = Some (wk_id w)
    \<and> asg_status a = AsgDispatched
    \<and> asg_lease_expires_at a = Some (clock s + seconds (assignment_lease_seconds (get_settings s)))
    \<and> map rsv_id (open_stage_reservations t rid stg) = [u]
    \<and> \<not> terminal_status (run_status run) \<and> run_status run \<noteq> RunPaused"
proof -
  from dispatch_cases [OF assms(1)] assms(2) have "dispatch_creates s ws rid stage n corr trace p t res" by auto
  then obtain s1 stg prio' worker where
    stg: "content_stage_of stage = Some stg"
    and w: "\<forall>w. worker = Some w \<longrightarrow> w \<in> set (workers s) \<and> eligible_worker s stage 50 w"
    and free: "run_blocks_dispatch (find_run s rid) = None"
    and s1: "reserve_for_dispatch (find_run s rid) worker stg (or_provider p) s = (s1, Inr True)"
    and t: "create_assignment ws rid stg n corr trace (or_provider p) prio' worker s1 = (t, Inr res)"
    unfolding dispatch_creates_def by blast
  from t assms(2) obtain v where v: "worker = Some v"
    by (cases worker) (auto simp: create_assignment_def)
  have conf: "clock s1 = clock s" "get_settings s1 = get_settings s" "assignments s1 = assignments s"
    using effects_result [OF conf.eff_reserve_for_dispatch s1] core_same_reserve [OF s1]
    by (simp_all add: same_config_def core_same_def)
  from s1 v assms(3) find_run_id [OF assms(3)] obtain u where
    "reserve_spend rid stg (or_provider p) (default_stage_estimate_usd (get_settings s)) s = (s1, Inr (Some u))"
    by (auto simp: reserve_for_dispatch_def bindE_def split: prod.splits sum.splits)
  from reserve_opens_one [OF assms(3,4) this] have one: "map rsv_id (open_stage_reservations s1 rid stg) = [u]" .
  have "reservations t = reservations s1" using t v by (auto simp: create_assignment_def)
  then have "map rsv_id (open_stage_reservations t rid stg) = [u]" using one by (simp add: open_stage_reservations_def)
  moreover have "\<not> terminal_status (run_status run)" "run_status run \<noteq> RunPaused"
    using free assms(3) by (auto simp: run_blocks_dispatch_def split: if_splits)
  moreover obtain a where "assignments t = assignments s @ [a] \<and> dr_assignment res = Some (asg_id a)
      \<and> asg_stage a = stg \<and> asg_pipeline_run_id a = rid \<and> asg_worker_id a = Some (wk_id v)
      \<and> asg_status a = AsgDispatched
      \<and> asg_lease_expires_at a = Some (clock s + seconds (assignment_lease_seconds (get_settings s)))"
  proof -
    have "\<exists>a. assignments t = assignments s @ [a] \<and> dr_assignment res = Some (asg_id a)
      \<and> asg_stage a = stg \<and> asg_pipeline_run_id a = rid \<and> asg_worker_id a = Some (wk_id v)
      \<and> asg_status a = AsgDispatched
      \<and> asg_lease_expires_at a = Some (clock s + seconds (assignment_lease_seconds (get_settings s)))"
      using t v unfolding create_assignment_def
      by (simp add: conf) (elim conjE, hypsubst, simp add: conf)
    then show ?thesis using that by blast
  qed
  ultimately show ?thesis
    using stg w v by (intro exI [of _ a] exI [of _ v] exI [of _ stg] exI [of _ u]) simp
qed

text \<open>
  A worker cannot report on work it no longer holds. A submission by a worker that does
  not own the assignment, on an assignment that is not in flight, or after the lease has
  run out is refused and leaves the session exactly as it was.
\<close>

theorem stale_submission_changes_nothing:
  assumes "find_asg s k = Some a"
    and "asg_worker_id a \<noteq> Some wid \<or> \<not> in_flight (asg_status a)
      \<or> asg_lease_expires_at a = None
      \<or> (\<exists>d. asg_lease_expires_at a = Some d \<and> d < opt_or now (clock s))"
  shows "\<exists>e. submit_result k ok result err (Some wid) now s = (s, Inl e)
    \<and> (e = LeaseNotOwned \<or> (\<exists>c m. e = LeaseConflict c m))"
proof -
  let ?now = "opt_or now (clock s)"
  have "\<exists>e. check_submit a (Some wid) ?now = raise e \<and> (e = LeaseNotOwned \<or> (\<exists>c m. e = LeaseConflict c m))"
    using assms(2) by (cases "asg_worker_id a = Some wid"; cases "in_flight (asg_status a)")
      (auto simp: check_submit_def lease_error_defs)
  then obtain e where e: "check_submit a (Some wid) ?now = raise e" "e = LeaseNotOwned \<or> (\<exists>c m. e = LeaseConflict c m)"
    by blast
  have "submit_result k ok result err (Some wid) now s = (s, Inl e)"
    by (simp add: submit_result_def Let_def assms(1) e(1))
  with e(2) show ?thesis by blast
qed

section \<open>Samples\<close>

definition sample_worker :: worker_registration where
  "sample_worker = \<lparr>wk_id = 80, wk_workspace_id = Some 1, wk_name = ''desk'',
     wk_supported_stages = [''scripting''], wk_capabilities = None,
     wk_status = WorkerOnline, wk_max_concurrency = 2, wk_current_load = 1, wk_health_score = 100,
     wk_last_heartbeat_at = Some 0, wk_registered_at = 0, wk_instance_key = ''desk'',
     wk_worker_version = None, wk_drain = False, wk_deregistered_at = None\<rparr>"

definition desk_sample :: session where
  "desk_sample = (held_sample 1)\<lparr>workers := [sample_worker]\<rparr>"

lemma desk_sample_facts:
  "find_asg desk_sample 90 = Some (held_asg 90 1)" "find_run desk_sample 10 = Some sample_run"
  "unique_rsv desk_sample" "load_ok desk_sample" "distinct (map wk_id (workers desk_sample))"
  "clock desk_sample = 0" "get_settings desk_sample = default_settings"
  using held_sample_facts(1,4,6) [of 1]
  by (simp_all add: desk_sample_def unique_rsv_def load_ok_def sample_worker_def held_asg_def held_sample_def
      wf_sample_defs empty_session_def)

lemma default_lease_seconds: "assignment_lease_seconds default_settings = 60"
  by (simp add: default_settings_def)

theorem lease_extension_is_bounded_witness:
  "case renew_lease 90 None (Some 80) (Some 4) desk_sample of
     (t, Inr _) \<Rightarrow> lease_granted desk_sample 90 80 (held_asg 90 1) 4 60 t
   | (t, Inl e) \<Rightarrow> lease_refused desk_sample t e"
  using lease_extension_is_bounded [OF desk_sample_facts(1) disjI1 [OF refl], where lease_seconds = None and wid = 80 and now = "Some 4"]
  unfolding desk_sample_facts(6,7) opt_or_simps default_lease_seconds .

theorem dispatch_never_duplicates_witness:
  "core_same (desk_sample\<lparr>assignments := [(held_asg 90 1)\<lparr>asg_idempotency_key :=
       Some (idempotency_key 10 ''scripting'' 1)\<rparr>]\<rparr>)
     (state_after (dispatch_stage 1 10 ''scripting'' 1 40 None None None)
       (desk_sample\<lparr>assignments := [(held_asg 90 1)\<lparr>asg_idempotency_key :=
         Some (idempotency_key 10 ''scripting'' 1)\<rparr>]\<rparr>))"
  by (rule dispatch_never_duplicates [where a = "(held_asg 90 1)\<lparr>asg_idempotency_key :=
         Some (idempotency_key 10 ''scripting'' 1)\<rparr>"]) (simp_all add: held_asg_def sample_asg_def)

theorem worker_load_stays_in_bounds_witness:
  "load_ok (state_after (dispatch_stage 1 10 ''scripting'' 2 40 None None None) desk_sample)
   \<and> load_ok (state_after (submit_result 90 True None [] (Some 80) None) desk_sample)"
  using worker_load_stays_in_bounds [OF desk_sample_facts(4,5)] by blast

theorem stale_submission_changes_nothing_witness:
  "\<exists>e. submit_result 90 True None [] (Some 81) None desk_sample = (desk_sample, Inl e)"
  using stale_submission_changes_nothing [OF desk_sample_facts(1), of 81 None True None "[]"]
  by (auto simp: held_asg_def)

lemma desk_sample_dispatches:
  "\<exists>t res. dispatch_stage 1 10 ''scripting'' 2 40 None None None desk_sample = (t, Inr res)
    \<and> dr_outcome res = Dispatched"
proof -
  have "\<exists>t u. reserve_spend 10 SCRIPTING ''draft_desk'' (1/100) desk_sample = (t, Inr (Some u))"
    by (rule reserve_grants_first [OF desk_sample_facts(2,3), of _ sample_cap])
      (simp_all add: applicable_cap_def desk_sample_def held_sample_def wf_sample_def spend_sample_def
        sample_cap_def sample_run_def sample_rsv_def empty_session_def)
  then obtain s1 u where s1: "reserve_spend 10 SCRIPTING ''draft_desk'' (1/100) desk_sample = (s1, Inr (Some u))" by blast
  have "dispatch_precheck 1 10 desk_sample = (desk_sample, Inr None)"
    using desk_sample_facts(2)
    by (simp add: dispatch_precheck_def max_concurrent_for_def workspace_in_flight_def run_blocks_dispatch_def
        DEFAULT_MAX_CONCURRENT_ASSIGNMENTS_def sample_run_def)
      (simp add: desk_sample_def held_sample_def wf_sample_def spend_sample_def empty_session_def
        DEFAULT_MAX_CONCURRENT_ASSIGNMENTS_def run_blocks_dispatch_def)
  moreover have "dispatch_target 1 10 ''scripting'' 2 None None desk_sample =
      (desk_sample, Inr (0, Some sample_worker, None))"
    by (simp add: dispatch_target_def has_provider_capacity_def select_worker_def eligible_worker_def
        base_priority_for_tier_def)
      (simp add: desk_sample_def held_sample_def wf_sample_def spend_sample_def empty_session_def
        sample_worker_def eligible_worker_def unlocked_def held_asg_def sample_asg_def)
  moreover have "stage_column ''scripting'' desk_sample = (desk_sample, Inr SCRIPTING)"
    by (simp add: stage_column_def content_stage_of_def all_stages_def)
  moreover have "reserve_for_dispatch (Some sample_run) (Some sample_worker) SCRIPTING ''draft_desk'' desk_sample =
      (s1, Inr True)"
    using s1 find_run_id [OF desk_sample_facts(2)]
    by (simp add: reserve_for_dispatch_def desk_sample_facts(7) default_settings_def
        bindE_Inr [where m = "reserve_spend 10 SCRIPTING ''draft_desk'' (1/100)"])
  ultimately show ?thesis
    using desk_sample_facts(2) create_assignment_returns
    by (simp del: One_nat_def add: dispatch_stage_def or_provider_def or_str_def create_assignment_def
        bindE_Inr [where m = "dispatch_precheck 1 10"] bindE_Inr [where m = "stage_column ''scripting''"]
        bindE_Inr [where m = "dispatch_target 1 10 ''scripting'' 2 None None"]
        bindE_Inr [where m = "reserve_for_dispatch (Some sample_run) (Some sample_worker) SCRIPTING ''draft_desk''"])
qed

theorem dispatched_work_is_funded_witness:
  "\<exists>t res u. dispatch_stage 1 10 ''scripting'' 2 40 None None None desk_sample = (t, Inr res)
    \<and> map rsv_id (open_stage_reservations t 10 SCRIPTING) = [u]"
proof -
  obtain t res where tr: "dispatch_stage 1 10 ''scripting'' 2 40 None None None desk_sample = (t, Inr res)"
    "dr_outcome res = Dispatched" using desk_sample_dispatches by blast
  have "content_stage_of ''scripting'' = Some SCRIPTING" by (simp add: content_stage_of_def all_stages_def)
  with dispatched_work_is_funded [OF tr desk_sample_facts(2,3)] tr(1) show ?thesis by auto
qed

end
