(* ===== verification/Claiming.thy ===== *)
theory Claiming
  imports Dispatcher
begin

text \<open>
  Worker claims (\<open>orchestration/claiming.py\<close>): a worker takes the most urgent pending
  assignment it can run, unless the provider's concurrency budget or the workspace's spend
  cap forbids it. \<open>DISPATCHED\<close> rows held by other transactions are not visible to the
  query (\<open>SKIP LOCKED\<close>).
\<close>

section \<open>Operations\<close>

record claim_result =
  cr_assignment :: "uuid option"
  cr_outcome :: claim_outcome
  cr_reason :: string

definition saturated_provider_pair :: "session \<Rightarrow> stage_assignment \<Rightarrow> bool" where
  \<comment> \<open>the correlated SQL predicate, on one candidate row\<close>
  "saturated_provider_pair s a \<longleftrightarrow>
     (case asg_provider a of
        None \<Rightarrow> False
      | Some p \<Rightarrow> p \<noteq> [] \<and>
          list_ex (\<lambda>b. pcb_workspace_id b = asg_workspace_id a \<and> pcb_provider b = p
            \<and> pcb_max_concurrent b \<le> inflight_count s (asg_workspace_id a) p) (budgets s))"

definition claim_record ::
    "worker_registration \<Rightarrow> claim_outcome \<Rightarrow> string \<Rightarrow> stage_assignment option \<Rightarrow> uuid option \<Rightarrow> unit svc" where
  "claim_record worker outc reason a request_workspace_id =
     (case (case a of Some x \<Rightarrow> Some (asg_workspace_id x)
            | None \<Rightarrow> (case wk_workspace_id worker of Some w \<Rightarrow> Some w | None \<Rightarrow> request_workspace_id)) of
        None \<Rightarrow> ret ()
      | Some ws \<Rightarrow>
          bindE uuid4 (\<lambda>u.
          modify (claim_audits_update (\<lambda>cs. cs @ [\<lparr>sca_id = u, sca_workspace_id = ws,
            sca_assignment_id = map_option asg_id a, sca_worker_id = wk_id worker, sca_outcome = outc,
            sca_stage = map_option asg_stage a, sca_detail = reason,
            sca_correlation_id = (case a of None \<Rightarrow> None | Some x \<Rightarrow> asg_correlation_id x)\<rparr>]))))"

definition claim_refuse ::
    "worker_registration \<Rightarrow> claim_outcome \<Rightarrow> string \<Rightarrow> stage_assignment option \<Rightarrow> uuid option \<Rightarrow> claim_result svc" where
  \<comment> \<open>an audited non-grant\<close>
  "claim_refuse worker outc reason a request_workspace_id =
     bindE (claim_record worker outc reason a request_workspace_id) (\<lambda>_.
     ret \<lparr>cr_assignment = None, cr_outcome = outc, cr_reason = reason\<rparr>)"

definition held_under_token :: "session \<Rightarrow> worker_registration \<Rightarrow> uuid \<Rightarrow> stage_assignment list" where
  "held_under_token s worker token =
     filter (\<lambda>a. asg_claimed_by a = Some (wk_id worker) \<and> asg_claim_token a = Some token
       \<and> asg_status a = AsgDispatched
       \<and> (case wk_workspace_id worker of None \<Rightarrow> True | Some ws \<Rightarrow> asg_workspace_id a = ws)) (assignments s)"

definition worker_refusal :: "settings \<Rightarrow> worker_registration \<Rightarrow> datetime \<Rightarrow> (claim_outcome \<times> string) option" where
  \<comment> \<open>step 2: why this worker may not claim, or \<open>None\<close>\<close>
  "worker_refusal st w now =
     (if wk_drain w then Some (Ineligible, ''worker is draining'')
      else if wk_deregistered_at w \<noteq> None \<or> wk_status w \<noteq> WorkerOnline
        then Some (Ineligible, ''worker status is '' @ worker_status_value (wk_status w) @ '', not online'')
      else if (case wk_last_heartbeat_at w of None \<Rightarrow> True
          | Some h \<Rightarrow> of_int (worker_offline_after_seconds st) \<le> total_seconds (now - h))
        then Some (Ineligible, ''heartbeat is stale'')
      else if wk_max_concurrency w \<le> wk_current_load w then Some (Capacity, ''worker at maximum concurrency'')
      else if wk_supported_stages w = [] then Some (NoWork, ''worker supports no stages'')
      else None)"

definition base_where :: "worker_registration \<Rightarrow> stage_assignment \<Rightarrow> bool" where
  "base_where w a \<longleftrightarrow> asg_status a = AsgPending \<and> stage_value (asg_stage a) \<in> set (wk_supported_stages w)
     \<and> (case wk_workspace_id w of None \<Rightarrow> True | Some ws \<Rightarrow> asg_workspace_id a = ws)"

definition claim_candidates :: "session \<Rightarrow> worker_registration \<Rightarrow> datetime \<Rightarrow> stage_assignment list" where
  "claim_candidates s w now =
     sort_key (\<lambda>a. (- effective_priority_expr (get_settings s) now a, asg_created_at a))
       (filter (\<lambda>a. base_where w a \<and> \<not> saturated_provider_pair s a \<and> unlocked s (asg_id a)) (assignments s))"

text \<open>
  The candidate loop, with fuel; \<open>None\<close> is a loop that has not ended. Within one
  transaction the locked re-check agrees with the query, so one pass is enough.
\<close>

primrec claim_scan :: "nat \<Rightarrow> worker_registration \<Rightarrow> datetime \<Rightarrow> stage_assignment option option svc" where
  "claim_scan 0 w now = ret None"
| "claim_scan (Suc fuel) w now =
     bindE (gets (\<lambda>s. first_row (claim_candidates s w now))) (\<lambda>row.
     case row of
       None \<Rightarrow> ret (Some None)
     | Some a \<Rightarrow>
         bindE (has_provider_capacity (asg_workspace_id a) (asg_provider a)) (\<lambda>ok.
         if ok then ret (Some (Some a)) else claim_scan fuel w now))"

definition stages_column :: "string list \<Rightarrow> unit svc" where
  \<comment> \<open>binding \<open>supported_stages\<close> to the enum column\<close>
  "stages_column sts = (if list_all (\<lambda>x. content_stage_of x \<noteq> None) sts then ret () else raise LookupError)"

definition claim_spend_gate :: "stage_assignment \<Rightarrow> bool svc" where
  \<comment> \<open>step 3a: whether the claim is funded\<close>
  "claim_spend_gate a =
     bindE (gets (\<lambda>s. find_run s (asg_pipeline_run_id a))) (\<lambda>r.
     case r of
       None \<Rightarrow> ret True
     | Some run \<Rightarrow>
         bindE (gets (\<lambda>s. open_stage_reservations s (asg_pipeline_run_id a) (asg_stage a))) (\<lambda>rows.
         bindE (liftE (scalar_one_or_none rows)) (\<lambda>open_reservation.
         if open_reservation \<noteq> None then ret True
         else
           bindE (gets get_settings) (\<lambda>st.
           bindE (reserve_spend (run_id run) (asg_stage a) (or_provider (asg_provider a))
              (default_stage_estimate_usd st)) (\<lambda>reservation.
           ret (reservation \<noteq> None))))))"

definition claimed_row ::
    "worker_registration \<Rightarrow> datetime \<Rightarrow> int \<Rightarrow> uuid option \<Rightarrow> string \<Rightarrow> stage_assignment \<Rightarrow> stage_assignment" where
  "claimed_row w now lease_seconds token trace a = a\<lparr>asg_status := AsgDispatched,
     asg_worker_id := Some (wk_id w), asg_claimed_by := Some (wk_id w), asg_claimed_at := Some now,
     asg_dispatched_at := Some now, asg_lease_expires_at := Some (now + seconds lease_seconds),
     asg_lease_started_at := Some now, asg_lease_extension_count := 0,
     asg_claim_count := asg_claim_count a + 1, asg_claim_token := token, asg_trace_id := Some trace\<rparr>"

definition claim_take ::
    "worker_registration \<Rightarrow> datetime \<Rightarrow> uuid option \<Rightarrow> uuid option \<Rightarrow> stage_assignment \<Rightarrow> claim_result svc" where
  \<comment> \<open>step 4: the assignment and the worker's load change together\<close>
  "claim_take w now token request_workspace_id a =
     bindE (gets get_settings) (\<lambda>st.
     bindE (child_span (asg_trace_id a)) (\<lambda>(trace_id, span_id).
     bindE (set_asg (asg_id a) (claimed_row w now (assignment_lease_seconds st) token trace_id)) (\<lambda>_.
     bindE (set_worker (wk_id w) take_slot) (\<lambda>_.
     bindE (claim_record w Granted ''claimed'' (Some a) request_workspace_id) (\<lambda>_.
     bindE (asg_correlation a) (\<lambda>corr.
     bindE (emit STAGE_ASSIGNED (asg_workspace_id a) ''pipeline_run'' (asg_pipeline_run_id a) corr
        trace_id span_id
        [(''stage'', JStr (stage_value (asg_stage a))), (''attempt_number'', JInt (asg_attempt_number a)),
         (''worker_id'', JStr (uuid_str (wk_id w))), (''assignment_id'', JStr (uuid_str (asg_id a))),
         (''via'', JStr ''claim''), (''priority'', JInt (asg_priority a)),
         (''provider'', (case asg_provider a of None \<Rightarrow> JNull | Some p \<Rightarrow> JStr p))] ''claiming'') (\<lambda>_.
     ret \<lparr>cr_assignment = Some (asg_id a), cr_outcome = Granted, cr_reason = ''claimed''\<rparr>)))))))"

definition claim_search ::
    "worker_registration \<Rightarrow> datetime \<Rightarrow> uuid option \<Rightarrow> uuid option \<Rightarrow> claim_result option svc" where
  \<comment> \<open>steps 3 to 4, for a worker that may claim\<close>
  "claim_search w now token request_workspace_id =
     bindE (stages_column (wk_supported_stages w)) (\<lambda>_.
     bindE (claim_scan 1 w now) (\<lambda>scan.
     case scan of
       None \<Rightarrow> ret None
     | Some None \<Rightarrow>
         bindE (gets (\<lambda>s. list_ex (base_where w) (assignments s))) (\<lambda>blocked.
         bindE (if blocked then claim_refuse w Capacity ''provider budget exhausted'' None request_workspace_id
           else claim_refuse w NoWork ''no eligible assignment'' None request_workspace_id) (\<lambda>r.
         ret (Some r)))
     | Some (Some a) \<Rightarrow>
         bindE (claim_spend_gate a) (\<lambda>funded.
         bindE (if funded then claim_take w now token request_workspace_id a
           else claim_refuse w Capacity ''workspace spend cap reached'' (Some a) request_workspace_id) (\<lambda>r.
         ret (Some r)))))"

definition claim_replay :: "worker_registration \<Rightarrow> uuid option \<Rightarrow> stage_assignment option svc" where
  \<comment> \<open>step 1a: the assignment already held under this token\<close>
  "claim_replay w token =
     (case token of
        None \<Rightarrow> ret None
      | Some tok \<Rightarrow>
          bindE (gets (\<lambda>s. held_under_token s w tok)) (\<lambda>rows. liftE (scalar_one_or_none rows)))"

definition claim_assignment ::
    "uuid \<Rightarrow> datetime option \<Rightarrow> uuid option \<Rightarrow> uuid option \<Rightarrow> claim_result option svc" where
  "claim_assignment worker_id now claim_token request_workspace_id =
     bindE utcnow (\<lambda>clk.
       let now = opt_or now clk in
     bindE (gets (\<lambda>s. find_worker s worker_id)) (\<lambda>worker.
     case worker of
       None \<Rightarrow> ret (Some \<lparr>cr_assignment = None, cr_outcome = Ineligible, cr_reason = ''worker not found''\<rparr>)
     | Some w \<Rightarrow>
         bindE (claim_replay w claim_token) (\<lambda>existing.
         case existing of
           Some a \<Rightarrow>
             bindE (claim_record w Granted ''idempotent replay'' (Some a) request_workspace_id) (\<lambda>_.
             ret (Some \<lparr>cr_assignment = Some (asg_id a), cr_outcome = Granted, cr_reason = ''idempotent replay''\<rparr>))
         | None \<Rightarrow>
             bindE (gets get_settings) (\<lambda>st.
             case worker_refusal st w now of
               Some (outc, reason) \<Rightarrow>
                 bindE (claim_refuse w outc reason None request_workspace_id) (\<lambda>r. ret (Some r))
             | None \<Rightarrow> claim_search w now claim_token request_workspace_id))))"

context core_frame
begin

lemma eff_claim_record: "effects R (claim_record w oc rs a rq)"
  unfolding claim_record_def by (intro core_rules)

lemma eff_claim_refuse: "effects R (claim_refuse w oc rs a rq)"
  unfolding claim_refuse_def by (intro core_rules eff_claim_record)

lemma eff_claim_scan: "effects R (claim_scan fuel w now)"
proof (induction fuel)
  case 0
  show ?case unfolding claim_scan.simps by (rule eff_ret)
next
  case (Suc fuel)
  then show ?case unfolding claim_scan.simps by (intro audit_rules)
qed

lemma eff_stages_column: "effects R (stages_column sts)"
  unfolding stages_column_def by (intro core_rules)

lemma eff_claim_spend_gate: "effects R (claim_spend_gate a)"
  unfolding claim_spend_gate_def by (intro audit_rules)

lemma eff_claim_replay: "effects R (claim_replay w token)"
  unfolding claim_replay_def by (intro core_rules)

lemmas claim_core_rules = dispatch_core_rules eff_claim_record eff_claim_refuse eff_claim_scan
  eff_stages_column eff_claim_spend_gate eff_claim_replay

end

context engine_frame
begin

lemma eff_claim_take: "effects R (claim_take w now token rq a)"
  unfolding claim_take_def by (intro claim_core_rules frame_rules)

lemma eff_claim_search: "effects R (claim_search w now token rq)"
  unfolding claim_search_def by (intro claim_core_rules eff_claim_take)

lemma eff_claim_assignment: "effects R (claim_assignment wid now token rq)"
  unfolding claim_assignment_def Let_def by (intro claim_core_rules eff_claim_search)

lemmas claiming_rules = dispatcher_rules claim_core_rules eff_claim_assignment

end

section \<open>The query and the locked re-check agree\<close>

lemma saturated_iff:
  "saturated_provider_pair s a \<longleftrightarrow> \<not> (asg_provider a = None \<or> asg_provider a = Some [] \<or>
     \<not> (\<exists>b \<in> set (budgets s). pcb_workspace_id b = asg_workspace_id a \<and> asg_provider a = Some (pcb_provider b)
        \<and> pcb_max_concurrent b \<le> inflight_count s (asg_workspace_id a) (pcb_provider b)))"
  by (auto simp: saturated_provider_pair_def list_ex_iff split: option.splits)

lemma capacity_of_candidate:
  "unique_budgets s \<Longrightarrow>
    has_provider_capacity (asg_workspace_id a) (asg_provider a) s = (s, Inr (\<not> saturated_provider_pair s a))"
  unfolding has_provider_capacity_apply saturated_iff not_not ..

text \<open>
  The SQL predicate that keeps saturated providers out of the candidate query is the
  locked capacity check: for every row, the check on the row's workspace and provider
  answers no exactly when the predicate excludes the row, and it changes nothing.
\<close>

theorem saturation_predicate_matches_check:
  assumes "unique_budgets s"
  shows "has_provider_capacity (asg_workspace_id a) (asg_provider a) s =
    (s, Inr (\<not> saturated_provider_pair s a))"
  using assms by (rule capacity_of_candidate)

lemma candidate_first:
  assumes "first_row (claim_candidates s w now) = Some a"
  shows "a \<in> set (assignments s)" "base_where w a" "\<not> saturated_provider_pair s a" "unlocked s (asg_id a)"
  using first_row_mem [OF assms] by (auto simp: claim_candidates_def)

lemma claim_scan_one_pass:
  assumes "unique_budgets s"
  shows "claim_scan (Suc n) w now s = (s, Inr (Some (first_row (claim_candidates s w now))))"
proof (cases "first_row (claim_candidates s w now)")
  case None
  then show ?thesis by simp
next
  case (Some a)
  with candidate_first(3) [OF Some] capacity_of_candidate [OF assms, of a] show ?thesis
    by (simp add: bindE_Inr [where m = "has_provider_capacity (asg_workspace_id a) (asg_provider a)"])
qed

section \<open>What a claim does\<close>

lemma claim_refuse_returns:
  "\<exists>t. claim_refuse w oc rs a rq s = (t, Inr \<lparr>cr_assignment = None, cr_outcome = oc, cr_reason = rs\<rparr>)"
  by (simp add: claim_refuse_def claim_record_def split: option.splits)

lemma core_same_refuse: "claim_refuse w oc rs a rq s = (t, r) \<Longrightarrow> core_same s t"
  by (rule effects_result [OF core.eff_claim_refuse])

lemma refusal_not_granted: "worker_refusal st w now = Some (oc, rs) \<Longrightarrow> oc \<noteq> Granted"
  by (auto simp: worker_refusal_def split: if_splits)

definition claim_takes ::
    "session \<Rightarrow> uuid \<Rightarrow> datetime \<Rightarrow> uuid option \<Rightarrow> uuid option \<Rightarrow> session \<Rightarrow> claim_result \<Rightarrow> bool" where
  "claim_takes s wid now token rq t res \<longleftrightarrow>
     (\<exists>w a s1. find_worker s wid = Some w \<and> worker_refusal (get_settings s) w now = None
        \<and> first_row (claim_candidates s w now) = Some a
        \<and> claim_replay w token s = (s, Inr None)
        \<and> claim_spend_gate a s = (s1, Inr True) \<and> claim_take w now token rq a s1 = (t, Inr res))"

lemma claim_take_returns:
  "\<exists>t. claim_take w now token rq a s =
    (t, Inr \<lparr>cr_assignment = Some (asg_id a), cr_outcome = Granted, cr_reason = ''claimed''\<rparr>)"
  by (simp add: claim_take_def claim_record_def)

lemma claim_search_cases:
  assumes "claim_search w now token rq s = (t, r)" and "unique_budgets s"
  shows "(\<exists>e. r = Inl e \<and> core_same s t)
    \<or> (\<exists>res. r = Inr (Some res) \<and> cr_outcome res \<noteq> Granted \<and> cr_assignment res = None \<and> core_same s t)
    \<or> (\<exists>res a s1. r = Inr (Some res) \<and> first_row (claim_candidates s w now) = Some a
        \<and> claim_spend_gate a s = (s1, Inr True) \<and> claim_take w now token rq a s1 = (t, Inr res))"
proof (cases "list_all (\<lambda>x. content_stage_of x \<noteq> None) (wk_supported_stages w)")
  case False
  with assms(1) show ?thesis by (auto simp: claim_search_def stages_column_def core_same_def)
next
  case True
  note scan = bindE_Inr [where m = "claim_scan 1 w now", OF claim_scan_one_pass [OF assms(2), of 0, folded One_nat_def]]
  show ?thesis
  proof (cases "first_row (claim_candidates s w now)")
    case None
    let ?m = "if list_ex (base_where w) (assignments s)
      then claim_refuse w Capacity ''provider budget exhausted'' None rq
      else claim_refuse w NoWork ''no eligible assignment'' None rq"
    have "claim_search w now token rq s = bindE ?m (\<lambda>r. ret (Some r)) s"
      using True None by (simp add: claim_search_def stages_column_def scan del: One_nat_def)
    moreover obtain u oc rs where u: "?m s = (u, Inr \<lparr>cr_assignment = None, cr_outcome = oc, cr_reason = rs\<rparr>)"
        "oc \<noteq> Granted"
      using claim_refuse_returns [of w Capacity _ None rq s] claim_refuse_returns [of w NoWork _ None rq s]
      by (cases "list_ex (base_where w) (assignments s)") (simp, blast)+
    moreover have "core_same s u"
      using u(1) core_same_refuse by (auto split: if_splits)
    ultimately show ?thesis using assms(1) by (auto simp: bindE_Inr [where m = ?m])
  next
    case (Some a)
    have eq: "claim_search w now token rq s = bindE (claim_spend_gate a) (\<lambda>funded.
         bindE (if funded then claim_take w now token rq a
           else claim_refuse w Capacity ''workspace spend cap reached'' (Some a) rq) (\<lambda>r. ret (Some r))) s"
      using True Some by (simp add: claim_search_def stages_column_def scan del: One_nat_def)
    obtain s1 v where s1: "claim_spend_gate a s = (s1, v)" by fastforce
    have same1: "core_same s s1" by (rule effects_result [OF core.eff_claim_spend_gate s1])
    show ?thesis
    proof (cases v)
      case (Inl e)
      with s1 eq assms(1) same1 show ?thesis by (simp add: bindE_Inl [where m = "claim_spend_gate a"])
    next
      case (Inr funded)
      note gate = bindE_Inr [where m = "claim_spend_gate a", OF s1 [unfolded Inr]]
      show ?thesis
      proof (cases funded)
        case True
        obtain u res where u: "claim_take w now token rq a s1 = (u, Inr res)" using claim_take_returns by blast
        then have "claim_search w now token rq s = (u, Inr (Some res))"
          unfolding eq gate using True by (simp add: bindE_Inr [where m = "claim_take w now token rq a"])
        with assms(1) Some s1 Inr True u show ?thesis by auto
      next
        case False
        obtain u where u: "claim_refuse w Capacity ''workspace spend cap reached'' (Some a) rq s1 =
            (u, Inr \<lparr>cr_assignment = None, cr_outcome = Capacity, cr_reason = ''workspace spend cap reached''\<rparr>)"
          using claim_refuse_returns by blast
        have "core_same s u" using core_same_refuse [OF u] same1 by (simp add: core_same_def)
        moreover have "claim_search w now token rq s = (u, Inr (Some
            \<lparr>cr_assignment = None, cr_outcome = Capacity, cr_reason = ''workspace spend cap reached''\<rparr>))"
          unfolding eq gate using False u
          by (simp add: bindE_Inr [where m = "claim_refuse w Capacity ''workspace spend cap reached'' (Some a) rq"])
        ultimately show ?thesis using assms(1) by auto
      qed
    qed
  qed
qed

lemma unchanged_replay: "unchanged (claim_replay w token)"
  unfolding claim_replay_def by (intro unch.eff_rules)

lemma claim_cases:
  assumes "claim_assignment wid now token rq s = (t, r)" and "unique_budgets s"
  shows "(\<exists>e. r = Inl e \<and> core_same s t)
    \<or> (\<exists>res. r = Inr (Some res) \<and> core_same s t
        \<and> (cr_outcome res = Granted \<longrightarrow> cr_reason res = ''idempotent replay'' \<and> cr_assignment res \<noteq> None)
        \<and> (cr_outcome res \<noteq> Granted \<longrightarrow> cr_assignment res = None))
    \<or> (\<exists>res. r = Inr (Some res) \<and> claim_takes s wid (opt_or now (clock s)) token rq t res)"
proof (cases "find_worker s wid")
  case None
  with assms(1) show ?thesis by (auto simp: claim_assignment_def Let_def core_same_def)
next
  case (Some w)
  let ?now = "opt_or now (clock s)"
  define rest where "rest = (\<lambda>existing. case existing of
           Some a \<Rightarrow>
             bindE (claim_record w Granted ''idempotent replay'' (Some a) rq) (\<lambda>_.
             ret (Some \<lparr>cr_assignment = Some (asg_id a), cr_outcome = Granted, cr_reason = ''idempotent replay''\<rparr>))
         | None \<Rightarrow>
             bindE (gets get_settings) (\<lambda>st.
             case worker_refusal st w ?now of
               Some (outc, reason) \<Rightarrow>
                 bindE (claim_refuse w outc reason None rq) (\<lambda>r. ret (Some r))
             | None \<Rightarrow> claim_search w ?now token rq))"
  have "bindE (claim_replay w token) rest s = (t, r)"
    using assms(1) Some by (simp add: claim_assignment_def Let_def rest_def)
  then show ?thesis
  proof (rule bindE_unchangedE [OF unchanged_replay])
    fix existing
    assume ex: "claim_replay w token s = (s, Inr existing)" "rest existing s = (t, r)"
    show ?thesis
    proof (cases existing)
      case (Some a)
      have "core_same s t" using ex(2) Some
        by (auto simp: rest_def claim_record_def core_same_def)
      with ex(2) Some show ?thesis by (auto simp: rest_def claim_record_def)
    next
      case None
      show ?thesis
      proof (cases "worker_refusal (get_settings s) w ?now")
        case (Some p)
        obtain oc rs where p: "p = (oc, rs)" by (cases p)
        obtain u where u: "claim_refuse w oc rs None rq s =
            (u, Inr \<lparr>cr_assignment = None, cr_outcome = oc, cr_reason = rs\<rparr>)" using claim_refuse_returns by blast
        with ex(2) None Some p core_same_refuse [OF u] refusal_not_granted [OF Some [unfolded p]] show ?thesis
          by (auto simp: rest_def bindE_Inr [where m = "claim_refuse w oc rs None rq"])
      next
        case nr: None
        with ex(2) \<open>existing = None\<close> have "claim_search w ?now token rq s = (t, r)" by (simp add: rest_def)
        from claim_search_cases [OF this assms(2)] ex(1) \<open>existing = None\<close> nr \<open>find_worker s wid = Some w\<close>
        show ?thesis unfolding claim_takes_def by blast
      qed
    qed
  qed (auto simp: core_same_def)
qed

lemma claim_take_tables:
  "assignments (state_after (claim_take w now token rq a) s) = upd_row asg_id (asg_id a)
     (claimed_row w now (assignment_lease_seconds (get_settings s)) token (span_tr (asg_trace_id a) s)) (assignments s)"
  "workers (state_after (claim_take w now token rq a) s) = upd_row wk_id (wk_id w) take_slot (workers s)"
  by (simp_all add: claim_take_def claim_record_def)

lemma claimed_row_sel [simp]:
  "asg_id (claimed_row w now l token tr a) = asg_id a"
  "asg_status (claimed_row w now l token tr a) = AsgDispatched"
  "asg_worker_id (claimed_row w now l token tr a) = Some (wk_id w)"
  "asg_claimed_by (claimed_row w now l token tr a) = Some (wk_id w)"
  "asg_claim_token (claimed_row w now l token tr a) = token"
  "asg_lease_expires_at (claimed_row w now l token tr a) = Some (now + seconds l)"
  "asg_workspace_id (claimed_row w now l token tr a) = asg_workspace_id a"
  by (simp_all add: claimed_row_def)

lemma claim_takes_tables:
  assumes "claim_takes s wid now token rq t res"
  obtains w a tr where "find_worker s wid = Some w" "worker_refusal (get_settings s) w now = None"
    "first_row (claim_candidates s w now) = Some a" "claim_replay w token s = (s, Inr None)"
    "res = \<lparr>cr_assignment = Some (asg_id a), cr_outcome = Granted, cr_reason = ''claimed''\<rparr>"
    "assignments t = upd_row asg_id (asg_id a)
       (claimed_row w now (assignment_lease_seconds (get_settings s)) token tr) (assignments s)"
    "workers t = upd_row wk_id (wk_id w) take_slot (workers s)"
proof -
  from assms obtain w a s1 where
    h: "find_worker s wid = Some w" "worker_refusal (get_settings s) w now = None"
      "first_row (claim_candidates s w now) = Some a" "claim_replay w token s = (s, Inr None)"
    and s1: "claim_spend_gate a s = (s1, Inr True)" and t: "claim_take w now token rq a s1 = (t, Inr res)"
    unfolding claim_takes_def by blast
  have "core_same s s1" "same_config s s1"
    using effects_result [OF core.eff_claim_spend_gate s1] effects_result [OF conf.eff_claim_spend_gate s1]
    by blast+
  then have same: "assignments s1 = assignments s" "workers s1 = workers s" "get_settings s1 = get_settings s"
    by (simp_all add: core_same_def same_config_def)
  have "res = \<lparr>cr_assignment = Some (asg_id a), cr_outcome = Granted, cr_reason = ''claimed''\<rparr>"
    using t claim_take_returns [of w now token rq a s1] by auto
  moreover have "assignments t = upd_row asg_id (asg_id a)
       (claimed_row w now (assignment_lease_seconds (get_settings s)) token (span_tr (asg_trace_id a) s1)) (assignments s)"
    "workers t = upd_row wk_id (wk_id w) take_slot (workers s)"
    using claim_take_tables [of w now token rq a s1] t by (simp_all add: same)
  ultimately show ?thesis using that h by blast
qed

lemma sort_key_first:
  assumes "first_row (sort_key f xs) = Some a" and "x \<in> set xs"
  shows "f a \<le> f x"
proof -
  obtain ys where ys: "sort_key f xs = a # ys" using assms(1) by (cases "sort_key f xs") auto
  have "x \<in> set (a # ys)" using assms(2) arg_cong [OF ys, of set] by simp
  moreover have "sorted (map f (a # ys))" unfolding ys [symmetric] by (rule sorted_sort_key)
  ultimately show ?thesis by auto
qed

text \<open>
  C5: a claim takes the most urgent work. A fresh grant goes to a worker that is online, not
  draining, heard from recently and below its capacity; the assignment was pending, one the
  worker supports, not held by another transaction and under its provider's budget, and no
  other such assignment has a higher effective priority. Afterwards it is dispatched to
  that worker with a lease of the configured length, the worker's load counts it, and no
  other assignment has changed.
\<close>

theorem claim_takes_most_urgent:
  assumes "claim_assignment wid now token rq s = (t, Inr (Some res))"
    and "cr_outcome res = Granted" and "cr_reason res = ''claimed''" and "unique_budgets s"
  shows "\<exists>w a b. find_worker s wid = Some w \<and> worker_refusal (get_settings s) w (opt_or now (clock s)) = None
    \<and> a \<in> set (assignments s) \<and> base_where w a \<and> \<not> saturated_provider_pair s a \<and> unlocked s (asg_id a)
    \<and> list_all (\<lambda>x. base_where w x \<and> \<not> saturated_provider_pair s x \<and> unlocked s (asg_id x) \<longrightarrow>
        effective_priority_expr (get_settings s) (opt_or now (clock s)) x
          \<le> effective_priority_expr (get_settings s) (opt_or now (clock s)) a) (assignments s)
    \<and> cr_assignment res = Some (asg_id a)
    \<and> find_asg t (asg_id a) = Some b \<and> asg_status b = AsgDispatched \<and> asg_worker_id b = Some (wk_id w)
    \<and> asg_lease_expires_at b =
        Some (opt_or now (clock s) + seconds (assignment_lease_seconds (get_settings s)))
    \<and> find_worker t wid = Some (take_slot w)
    \<and> (\<forall>k. k \<noteq> asg_id a \<longrightarrow> find_asg t k = find_asg s k)"
proof -
  let ?now = "opt_or now (clock s)" and ?st = "get_settings s"
  from claim_cases [OF assms(1,4)] assms(2,3) have "claim_takes s wid ?now token rq t res" by auto
  then obtain w a tr where
    h: "find_worker s wid = Some w" "worker_refusal ?st w ?now = None"
      "first_row (claim_candidates s w ?now) = Some a"
    and res: "res = \<lparr>cr_assignment = Some (asg_id a), cr_outcome = Granted, cr_reason = ''claimed''\<rparr>"
    and t: "assignments t = upd_row asg_id (asg_id a)
        (claimed_row w ?now (assignment_lease_seconds ?st) token tr) (assignments s)"
      "workers t = upd_row wk_id (wk_id w) take_slot (workers s)"
    by (rule claim_takes_tables)
  note a = candidate_first [OF h(3)]
  have best: "effective_priority_expr ?st ?now x \<le> effective_priority_expr ?st ?now a"
    if "x \<in> set (assignments s)" "base_where w x" "\<not> saturated_provider_pair s x" "unlocked s (asg_id x)" for x
    using sort_key_first [OF h(3) [unfolded claim_candidates_def], of x] that by (auto simp: less_eq_prod_def)
  have "asg_id a \<in> asg_id ` set (assignments s)" using a(1) by blast
  then obtain c where c: "find_asg s (asg_id a) = Some c" using find_row_None by (metis option.exhaust)
  have "wk_id w = wid" using h(1) by (auto dest: find_row_SomeD)
  have "wk_id (take_slot v) = wk_id v" for v by (simp add: take_slot_def Let_def)
  then have "find_worker t wid = Some (take_slot w)"
    using h(1) \<open>wk_id w = wid\<close> by (simp add: t(2) find_row_upd_row)
  then show ?thesis
    using h a best c by (intro exI [of _ w] exI [of _ a]
        exI [of _ "claimed_row w ?now (assignment_lease_seconds ?st) token tr c"])
      (auto simp: res t(1) find_row_upd_row list_all_iff)
qed

text \<open>
  A claim that is not granted takes nothing. Every claim returns an answer or an error
  of the database, never loops; unless it freshly grants an assignment, no assignment, no
  worker and no review gate has changed, and a refusal names no assignment.
\<close>

theorem refused_claim_takes_nothing:
  assumes "claim_assignment wid now token rq s = (t, r)" and "unique_budgets s"
  shows "case r of
      Inl e \<Rightarrow> core_same s t
    | Inr None \<Rightarrow> False
    | Inr (Some res) \<Rightarrow>
        (cr_reason res = ''claimed'' \<and> cr_outcome res = Granted \<or> core_same s t)
        \<and> (cr_outcome res = Granted \<longleftrightarrow> cr_assignment res \<noteq> None)"
  using claim_cases [OF assms]
proof (elim disjE exE conjE)
  fix res assume "r = Inr (Some res)" "claim_takes s wid (opt_or now (clock s)) token rq t res"
  then show ?thesis by (auto elim: claim_takes_tables)
qed auto

text \<open>
  C28: retrying a claim with the same token is safe. After a fresh grant under a token, a
  second claim by the worker with that token returns the same assignment and takes nothing
  more, at whatever time it arrives, even when the worker has no capacity left.
\<close>

theorem claim_retry_is_idempotent:
  assumes "claim_assignment wid now (Some tok) rq s = (t, Inr (Some res))"
    and "cr_outcome res = Granted" and "cr_reason res = ''claimed''"
    and "unique_budgets s" and "distinct (map asg_id (assignments s))"
  shows "\<exists>u res'. claim_assignment wid later (Some tok) rq t = (u, Inr (Some res'))
    \<and> cr_outcome res' = Granted \<and> cr_assignment res' = cr_assignment res \<and> core_same t u"
proof -
  let ?now = "opt_or now (clock s)"
  from claim_cases [OF assms(1,4)] assms(2,3) have "claim_takes s wid ?now (Some tok) rq t res" by auto
  then obtain w a tr where
    h: "find_worker s wid = Some w" "first_row (claim_candidates s w ?now) = Some a"
      "claim_replay w (Some tok) s = (s, Inr None)"
    and res: "res = \<lparr>cr_assignment = Some (asg_id a), cr_outcome = Granted, cr_reason = ''claimed''\<rparr>"
    and t: "assignments t = upd_row asg_id (asg_id a)
        (claimed_row w ?now (assignment_lease_seconds (get_settings s)) (Some tok) tr) (assignments s)"
      "workers t = upd_row wk_id (wk_id w) take_slot (workers s)"
    by (rule claim_takes_tables)
  let ?f = "claimed_row w ?now (assignment_lease_seconds (get_settings s)) (Some tok) tr"
  note a = candidate_first [OF h(2)]
  have wid: "wk_id w = wid" using h(1) by (auto dest: find_row_SomeD)
  have slot: "wk_id (take_slot v) = wk_id v" "wk_workspace_id (take_slot v) = wk_workspace_id v" for v
    by (simp_all add: take_slot_def Let_def)
  have w': "find_worker t wid = Some (take_slot w)"
    using h(1) wid by (simp add: t(2) find_row_upd_row slot)
  have none: "held_under_token s w tok = []"
    using h(3) by (simp add: claim_replay_def scalar_one_or_none_None)
  have pin: "case wk_workspace_id w of None \<Rightarrow> True | Some ws \<Rightarrow> asg_workspace_id a = ws"
    using a(2) by (simp add: base_where_def)
  have "held_under_token t (take_slot w) tok = [?f a]"
  proof -
    let ?P = "\<lambda>x. asg_claimed_by x = Some (wk_id w) \<and> asg_claim_token x = Some tok \<and> asg_status x = AsgDispatched
       \<and> (case wk_workspace_id w of None \<Rightarrow> True | Some ws \<Rightarrow> asg_workspace_id x = ws)"
    have P: "?P (?f a)" using pin by (cases "wk_workspace_id w") simp_all
    have "filter ?P (assignments s) = []" using none by (simp add: held_under_token_def)
    then have nP: "\<not> ?P x" if "x \<in> set (assignments s)" for x using that by (auto simp: filter_empty_conv)
    have "filter ?P (upd_row asg_id (asg_id a) ?f rows) = (if a \<in> set rows then [?f a] else [])"
      if "distinct (map asg_id rows)" "\<And>x. x \<in> set rows \<Longrightarrow> \<not> ?P x"
        "\<And>x. x \<in> set rows \<Longrightarrow> asg_id x = asg_id a \<Longrightarrow> x = a" for rows
      using that
    proof (induction rows)
      case (Cons x rows)
      then have IH: "filter ?P (upd_row asg_id (asg_id a) ?f rows) = (if a \<in> set rows then [?f a] else [])" by auto
      show ?case
      proof (cases "asg_id x = asg_id a")
        case True
        then have "x = a" using Cons.prems(3) by simp
        moreover have "a \<notin> set rows" using Cons.prems(1) \<open>x = a\<close> by auto
        ultimately show ?thesis using IH P by simp
      next
        case False
        then show ?thesis using IH Cons.prems(2) [of x] by auto
      qed
    qed simp
    moreover have "x = a" if "x \<in> set (assignments s)" "asg_id x = asg_id a" for x
      using that a(1) assms(5) by (auto simp: distinct_map inj_on_def)
    ultimately have "filter ?P (assignments t) = [?f a]" using assms(5) nP a(1) by (simp add: t(1))
    then show ?thesis by (simp add: held_under_token_def slot)
  qed
  then have replay: "claim_replay (take_slot w) (Some tok) t = (t, Inr (Some (?f a)))"
    by (simp add: claim_replay_def)
  have "claim_assignment wid later (Some tok) rq t =
      bindE (claim_record (take_slot w) Granted ''idempotent replay'' (Some (?f a)) rq) (\<lambda>_.
        ret (Some \<lparr>cr_assignment = Some (asg_id a), cr_outcome = Granted, cr_reason = ''idempotent replay''\<rparr>)) t"
    using w' by (simp add: claim_assignment_def Let_def
        bindE_Inr [where m = "claim_replay (take_slot w) (Some tok)", OF replay])
  then show ?thesis by (simp add: res claim_record_def core_same_def)
qed

lemma load_claim:
  assumes "load_ok s" and "distinct (map wk_id (workers s))" and "unique_budgets s"
  shows "load_ok (state_after (claim_assignment wid now token rq) s)"
proof -
  obtain t r where tr: "claim_assignment wid now token rq s = (t, r)" by fastforce
  from claim_cases [OF tr assms(3)] have "load_ok t"
  proof (elim disjE exE conjE)
    fix res assume "claim_takes s wid (opt_or now (clock s)) token rq t res"
    then obtain w where w: "find_worker s wid = Some w"
        "worker_refusal (get_settings s) w (opt_or now (clock s)) = None"
        "workers t = upd_row wk_id (wk_id w) take_slot (workers s)"
      by (rule claim_takes_tables)
    have w': "w \<in> set (workers s)" "wk_current_load w < wk_max_concurrency w"
      using w(1,2) by (auto simp: worker_refusal_def dest: find_row_SomeD split: if_splits)
    have "load_ok (workers_update (upd_row wk_id (wk_id w) take_slot) s)"
      using assms(1)
    proof (rule load_ok_set_worker)
      fix v assume v: "v \<in> set (workers s)" "wk_id v = wk_id w" "0 \<le> wk_current_load v"
      then have "v = w" using w'(1) assms(2) by (auto simp: distinct_map inj_on_def)
      with v(3) w'(2) slot_bounds(3) [of w]
      show "0 \<le> wk_current_load (take_slot v) \<and> wk_current_load (take_slot v) \<le> wk_max_concurrency (take_slot v)"
        by simp
    qed
    with w(3) show ?thesis by (simp add: load_ok_def)
  qed (use assms(1) in \<open>auto simp: core_same_def load_ok_def\<close>)
  with tr show ?thesis by simp
qed

section \<open>Witnesses\<close>

text \<open>
  Two pending assignments of the sample run, the second with the higher priority, and a
  worker with one free slot.
\<close>

definition waiting_asg :: "uuid \<Rightarrow> int \<Rightarrow> stage_assignment" where
  "waiting_asg k p = (sample_asg k 0)\<lparr>asg_pipeline_run_id := 10, asg_priority := p\<rparr>"

lemma waiting_asg_sel:
  "asg_id (waiting_asg k p) = k" "asg_pipeline_run_id (waiting_asg k p) = 10" "asg_stage (waiting_asg k p) = SCRIPTING"
  "asg_workspace_id (waiting_asg k p) = 1" "asg_status (waiting_asg k p) = AsgPending"
  "asg_provider (waiting_asg k p) = Some ''draft_desk''" "asg_created_at (waiting_asg k p) = 0"
  "asg_priority (waiting_asg k p) = p"
  by (simp_all add: waiting_asg_def sample_asg_def)

definition queue_sample :: session where
  "queue_sample = wf_sample\<lparr>assignments := [waiting_asg 91 0, waiting_asg 92 50], workers := [sample_worker]\<rparr>"

lemma queue_sample_facts:
  "find_run queue_sample 10 = Some sample_run" "unique_rsv queue_sample" "unique_budgets queue_sample"
  "clock queue_sample = 0" "get_settings queue_sample = default_settings"
  "find_worker queue_sample 80 = Some sample_worker" "distinct (map asg_id (assignments queue_sample))"
  by (simp_all add: queue_sample_def waiting_asg_def sample_asg_def unique_rsv_def unique_budgets_def wf_sample_defs
      empty_session_def sample_run_def sample_worker_def)

lemma queue_sample_claims:
  "\<exists>t. claim_assignment 80 None (Some 5) None queue_sample =
    (t, Inr (Some \<lparr>cr_assignment = Some 92, cr_outcome = Granted, cr_reason = ''claimed''\<rparr>))"
proof -
  let ?a = "waiting_asg 92 50"
  have "claim_spend_gate ?a queue_sample = (queue_sample, Inr True)"
    using queue_sample_facts(1)
    by (simp add: claim_spend_gate_def waiting_asg_sel)
      (simp add: open_stage_reservations_def queue_sample_def wf_sample_def spend_sample_def sample_rsv_def)
  moreover have "first_row (claim_candidates queue_sample sample_worker 0) = Some ?a"
    by (simp add: claim_candidates_def queue_sample_facts)
      (simp add: queue_sample_def wf_sample_defs empty_session_def base_where_def saturated_provider_pair_def
        unlocked_def waiting_asg_sel sample_worker_def effective_priority_expr_def default_settings_def total_seconds_def)
  moreover have "claim_replay sample_worker (Some 5) queue_sample = (queue_sample, Inr None)"
    by (simp add: claim_replay_def)
      (simp add: held_under_token_def queue_sample_def waiting_asg_sel)
  moreover have "worker_refusal default_settings sample_worker 0 = None"
    by (simp add: worker_refusal_def sample_worker_def default_settings_def total_seconds_def)
  moreover have "stages_column (wk_supported_stages sample_worker) queue_sample = (queue_sample, Inr ())"
    by (simp add: stages_column_def sample_worker_def content_stage_of_def all_stages_def)
  moreover obtain t where "claim_take sample_worker 0 (Some 5) None ?a queue_sample =
      (t, Inr \<lparr>cr_assignment = Some (asg_id ?a), cr_outcome = Granted, cr_reason = ''claimed''\<rparr>)"
    using claim_take_returns by blast
  ultimately show ?thesis
    using queue_sample_facts
    by (simp del: One_nat_def add: claim_assignment_def claim_search_def waiting_asg_sel
        bindE_Inr [where m = "claim_replay sample_worker (Some 5)"]
        bindE_Inr [where m = "stages_column (wk_supported_stages sample_worker)"]
        bindE_Inr [where m = "claim_scan 1 sample_worker 0",
          OF claim_scan_one_pass [OF queue_sample_facts(3), of 0, folded One_nat_def]]
        bindE_Inr [where m = "claim_spend_gate ?a"]
        bindE_Inr [where m = "claim_take sample_worker 0 (Some 5) None ?a"])
qed

theorem saturation_predicate_matches_check_witness:
  "has_provider_capacity 1 (Some ''draft_desk'') queue_sample = (queue_sample, Inr True)"
  using saturation_predicate_matches_check [OF queue_sample_facts(3), of "waiting_asg 91 0"]
  by (simp add: waiting_asg_sel saturated_provider_pair_def)
    (simp add: queue_sample_def wf_sample_defs empty_session_def)

theorem claim_takes_most_urgent_witness:
  "\<exists>t res b. claim_assignment 80 None (Some 5) None queue_sample = (t, Inr (Some res))
    \<and> cr_assignment res = Some 92 \<and> find_asg t 92 = Some b \<and> asg_worker_id b = Some 80
    \<and> find_worker t 80 = Some (take_slot sample_worker)"
proof -
  obtain t where t: "claim_assignment 80 None (Some 5) None queue_sample =
    (t, Inr (Some \<lparr>cr_assignment = Some 92, cr_outcome = Granted, cr_reason = ''claimed''\<rparr>))"
    using queue_sample_claims by blast
  from claim_takes_most_urgent [OF this _ _ queue_sample_facts(3), unfolded claim_result.simps, OF refl refl] obtain w b and a :: stage_assignment where
    h: "find_worker queue_sample 80 = Some w" "Some 92 = Some (asg_id a)" "find_asg t (asg_id a) = Some b"
    "asg_worker_id b = Some (wk_id w)" "find_worker t 80 = Some (take_slot w)"
    by blast
  have "w = sample_worker" "asg_id a = 92" using h(1,2) by (simp_all add: queue_sample_facts)
  with h(3-5) t show ?thesis by (auto simp: sample_worker_def)
qed

theorem refused_claim_takes_nothing_witness:
  "case snd (claim_assignment 80 None (Some 5) None queue_sample) of
      Inr (Some res) \<Rightarrow> cr_outcome res = Granted \<and> cr_assignment res = Some 92
    | _ \<Rightarrow> False"
  using refused_claim_takes_nothing [OF _ queue_sample_facts(3), of 80 None "Some 5" None] queue_sample_claims
  by auto

theorem claim_retry_is_idempotent_witness:
  "\<exists>t u res. claim_assignment 80 (Some 99) (Some 5) None t = (u, Inr (Some res))
    \<and> claim_assignment 80 None (Some 5) None queue_sample = (t, Inr (Some
        \<lparr>cr_assignment = Some 92, cr_outcome = Granted, cr_reason = ''claimed''\<rparr>))
    \<and> cr_assignment res = Some 92 \<and> core_same t u"
proof -
  obtain t where t: "claim_assignment 80 None (Some 5) None queue_sample =
    (t, Inr (Some \<lparr>cr_assignment = Some 92, cr_outcome = Granted, cr_reason = ''claimed''\<rparr>))"
    using queue_sample_claims by blast
  from claim_retry_is_idempotent [OF this _ _ queue_sample_facts(3,7), of "Some 99"] t show ?thesis
    by auto
qed

end
