(* ===== verification/Scheduler.thy ===== *)
theory Scheduler
  imports Claiming
begin

text \<open>
  The scheduler (\<open>orchestration/scheduler.py\<close>): leasing due jobs fairly across
  workspaces, reaping the leases of schedulers that died, and carrying out a leased job.
\<close>

section \<open>Polling\<close>

abbreviation "DEFAULT_MAX_PER_WORKSPACE_PER_TICK \<equiv> 5 :: int"
abbreviation "LEASE_SECONDS \<equiv> 30 :: int"
abbreviation "NO_WORKER_MAX_RETRIES \<equiv> 20 :: int"
abbreviation "NO_WORKER_RETRY_BASE_SECONDS \<equiv> 5 :: int"
abbreviation "NO_WORKER_RETRY_MAX_SECONDS \<equiv> 120 :: int"
abbreviation "SPEND_HOLD_RETRY_SECONDS \<equiv> 60 :: int"

definition scheduler_owner_id :: "string \<Rightarrow> string svc" where
  "scheduler_owner_id hostname = bindE uuid4 (\<lambda>u. ret (hostname @ '':'' @ take 8 (uuid_hex u)))"

definition configured_limit :: "session \<Rightarrow> uuid \<Rightarrow> int" where
  \<comment> \<open>the dict comprehension with \<open>setdefault\<close>: a later row for the same key wins\<close>
  "configured_limit s ws =
     (case filter (\<lambda>l. wcl_workspace_id l = ws) (limits s) of
        [] \<Rightarrow> DEFAULT_MAX_PER_WORKSPACE_PER_TICK
      | rows \<Rightarrow> wcl_max_per_scheduler_tick (last rows))"

definition fairness_limits :: "uuid list \<Rightarrow> (uuid \<times> int) list svc" where
  "fairness_limits workspace_ids =
     collect_each (\<lambda>ws.
       bindE (gets (\<lambda>s. configured_limit s ws)) (\<lambda>configured.
       bindE (effective_scheduler_tick_limit ws configured) (\<lambda>n. ret (ws, n)))) workspace_ids"

type_synonym job_groups = "(uuid \<times> job_schedule list) list"

fun add_to_group :: "job_groups \<Rightarrow> job_schedule \<Rightarrow> job_groups" where
  \<comment> \<open>\<open>by_workspace[job.workspace_id].append(job)\<close> on a \<open>defaultdict(list)\<close>\<close>
  "add_to_group [] j = [(job_workspace_id j, [j])]"
| "add_to_group ((ws, js) # gs) j =
     (if ws = job_workspace_id j then (ws, js @ [j]) # gs else (ws, js) # add_to_group gs j)"

definition by_workspace :: "job_schedule list \<Rightarrow> job_groups" where
  "by_workspace js = foldl add_to_group [] js"

definition allowance :: "(uuid \<times> int) list \<Rightarrow> uuid \<times> job_schedule list \<Rightarrow> int" where
  \<comment> \<open>\<open>min(len(jobs), limits[ws])\<close>\<close>
  "allowance lims g =
     min (int (length (snd g))) (case map_of lims (fst g) of None \<Rightarrow> 0 | Some n \<Rightarrow> n)"

type_synonym rr_state = "(uuid \<Rightarrow> nat) \<times> job_schedule list"

primrec rr_pass :: "nat \<Rightarrow> (uuid \<times> int) list \<Rightarrow> job_groups \<Rightarrow> rr_state \<Rightarrow> rr_state" where
  \<comment> \<open>the \<open>for\<close> loop: one turn for every workspace\<close>
  "rr_pass batch_size lims [] st = st"
| "rr_pass batch_size lims (g # gs) st =
     (case st of (cursors, leased) \<Rightarrow>
       if batch_size \<le> length leased then st
       else if allowance lims g \<le> int (cursors (fst g)) then rr_pass batch_size lims gs st
       else rr_pass batch_size lims gs
         (cursors(fst g := Suc (cursors (fst g))), leased @ [snd g ! cursors (fst g)]))"

definition rr_more :: "(uuid \<times> int) list \<Rightarrow> job_groups \<Rightarrow> (uuid \<Rightarrow> nat) \<Rightarrow> bool" where
  "rr_more lims gs cursors \<longleftrightarrow> list_ex (\<lambda>g. int (cursors (fst g)) < allowance lims g) gs"

lemma rr_pass_grows: "length (snd st) \<le> length (snd (rr_pass n lims gs st))"
proof (induction gs arbitrary: st)
  case (Cons g gs)
  obtain cur ls where st: "st = (cur, ls)" by (cases st)
  show ?case
    using Cons [of "(cur(fst g := Suc (cur (fst g))), ls @ [snd g ! cur (fst g)])"] Cons [of st]
    by (auto simp: st)
qed simp

lemma rr_pass_progress:
  "rr_more lims gs cur \<Longrightarrow> length ls < n \<Longrightarrow> length ls < length (snd (rr_pass n lims gs (cur, ls)))"
proof (induction gs)
  case (Cons g gs)
  show ?case
    using Cons rr_pass_grows [of "(cur(fst g := Suc (cur (fst g))), ls @ [snd g ! cur (fst g)])" n lims gs]
    by (auto simp: rr_more_def)
qed (simp add: rr_more_def)

function round_robin :: "nat \<Rightarrow> (uuid \<times> int) list \<Rightarrow> job_groups \<Rightarrow> rr_state \<Rightarrow> rr_state" where
  \<comment> \<open>the \<open>while\<close> loop\<close>
  "round_robin batch_size lims gs st =
     (case st of (cursors, leased) \<Rightarrow>
       if length leased < batch_size \<and> rr_more lims gs cursors
       then round_robin batch_size lims gs (rr_pass batch_size lims gs st) else st)"
  by pat_completeness auto
termination
  by (relation "measure (\<lambda>(n, lims, gs, st). n - length (snd st))")
    (auto intro!: diff_less_mono2 rr_pass_progress)

declare round_robin.simps [simp del]

definition due_jobs :: "session \<Rightarrow> nat \<Rightarrow> job_schedule list" where
  "due_jobs s n =
     take n (sort_key (\<lambda>j. (- job_priority j, job_run_after j))
       (filter (\<lambda>j. job_status j = JobPending \<and> job_run_after j \<le> clock s \<and> unlocked s (job_id j)) (jobs s)))"

definition poll_and_lease :: "string \<Rightarrow> nat \<Rightarrow> uuid list svc" where
  "poll_and_lease hostname batch_size =
     bindE (scheduler_owner_id hostname) (\<lambda>owner.
     bindE (gets (\<lambda>s. due_jobs s (batch_size * 3))) (\<lambda>candidates.
     if candidates = [] then ret []
     else
       let groups = by_workspace candidates in
       bindE (fairness_limits (map fst groups)) (\<lambda>lims.
         let leased = map job_id (snd (round_robin batch_size lims groups (\<lambda>_. 0, []))) in
       bindE utcnow (\<lambda>now.
       bindE (for_each (\<lambda>k. set_job k (\<lambda>j. j\<lparr>job_status := JobLeased, job_lease_owner := Some owner,
          job_lease_expires_at := Some (now + seconds LEASE_SECONDS)\<rparr>)) leased) (\<lambda>_.
       ret leased)))))"

section \<open>Reaping\<close>

definition expired_jobs :: "session \<Rightarrow> nat \<Rightarrow> job_schedule list" where
  "expired_jobs s n =
     take n (filter (\<lambda>j. job_status j = JobLeased
       \<and> (case job_lease_expires_at j of None \<Rightarrow> False | Some d \<Rightarrow> d < clock s)
       \<and> unlocked s (job_id j)) (jobs s))"

definition return_job :: "job_schedule \<Rightarrow> job_schedule" where
  "return_job j = j\<lparr>job_status := JobPending, job_lease_owner := None, job_lease_expires_at := None,
     job_attempt := job_attempt j + 1\<rparr>"

definition reap_expired_job_leases :: "nat \<Rightarrow> nat svc" where
  "reap_expired_job_leases batch_size =
     bindE (gets (\<lambda>s. map job_id (expired_jobs s batch_size))) (\<lambda>expired.
     bindE (for_each (\<lambda>k. set_job k return_job) expired) (\<lambda>_.
     ret (length expired)))"

section \<open>Carrying out a job\<close>

definition abandon_job :: "uuid \<Rightarrow> unit svc" where
  \<comment> \<open>the branch at \<open>NO_WORKER_MAX_RETRIES\<close>\<close>
  "abandon_job k =
     bindE (set_job k (\<lambda>j. j\<lparr>job_status := JobCancelled\<rparr>)) (\<lambda>_.
     bindE (the_job k) (\<lambda>job.
     bindE (gets (\<lambda>s. find_run s (job_ref_id job))) (\<lambda>r.
     bindE (case r of
         None \<Rightarrow> ret ()
       | Some run \<Rightarrow>
           bindE (release_all_reservations (run_id run)) (\<lambda>_.
           bindE (stage_column (job_ref_table job)) (\<lambda>stg.
           modify (assignments_update (map (\<lambda>a.
             if asg_pipeline_run_id a = run_id run \<and> asg_stage a = stg \<and> open_status (asg_status a)
             then a\<lparr>asg_status := AsgCancelled\<rparr> else a)))))) (\<lambda>_.
     bindE (route_to_dead_letter (job_workspace_id job) ''job_schedule'' k
        (''stage_dispatch:'' @ job_ref_table job)
        (Some [(''stage'', JStr (job_ref_table job)), (''pipeline_run_id'', JStr (uuid_str (job_ref_id job)))])
        ''no eligible worker available after repeated attempts'' (job_attempt job) (job_created_at job)) (\<lambda>_.
     ret ())))))"

definition reschedule_job :: "uuid \<Rightarrow> unit svc" where
  "reschedule_job k =
     bindE (set_job k (\<lambda>j. j\<lparr>job_attempt := job_attempt j + 1\<rparr>)) (\<lambda>_.
     bindE (the_job k) (\<lambda>job.
     if NO_WORKER_MAX_RETRIES \<le> job_attempt job then abandon_job k
     else
       bindE (compute_backoff_seconds (job_attempt job) NO_WORKER_RETRY_BASE_SECONDS 2
          NO_WORKER_RETRY_MAX_SECONDS) (\<lambda>delay.
       bindE utcnow (\<lambda>now.
       set_job k (\<lambda>j. j\<lparr>job_status := JobPending, job_run_after := now + timedelta_seconds delay,
         job_lease_owner := None, job_lease_expires_at := None\<rparr>)))))"

definition after_dispatch :: "uuid \<Rightarrow> dispatch_result \<Rightarrow> unit svc" where
  \<comment> \<open>what the dispatcher's answer does to the job\<close>
  "after_dispatch k result =
     (if dr_outcome result = SpendHold then
        bindE utcnow (\<lambda>now.
        set_job k (\<lambda>j. j\<lparr>job_status := JobPending, job_run_after := now + seconds SPEND_HOLD_RETRY_SECONDS,
          job_lease_owner := None, job_lease_expires_at := None\<rparr>))
      else if dr_outcome result = Skipped then
        set_job k (\<lambda>j. j\<lparr>job_status := JobCancelled, job_lease_owner := None, job_lease_expires_at := None\<rparr>)
      else if dr_outcome result \<in> {Dispatched, Idempotent} then set_job k (\<lambda>j. j\<lparr>job_status := JobDone\<rparr>)
      else if dr_outcome result = NoWorker \<and> dr_assignment result \<noteq> None then
        set_job k (\<lambda>j. j\<lparr>job_status := JobDone\<rparr>)
      else if dr_outcome result \<in> {NoWorker, Backpressure} \<or> dr_assignment result = None then reschedule_job k
      else set_job k (\<lambda>j. j\<lparr>job_status := JobDone\<rparr>))"

definition process_leased_job :: "uuid \<Rightarrow> unit svc" where
  "process_leased_job k =
     bindE (the_job k) (\<lambda>job.
     case job_job_type job of
       JobRecurring \<Rightarrow> raise NotImplementedError
     | JobCompensation \<Rightarrow>
         bindE (run_compensation_stage (job_ref_id job) (job_ref_table job)) (\<lambda>_.
         set_job k (\<lambda>j. j\<lparr>job_status := JobDone\<rparr>))
     | JobStageTimeout \<Rightarrow>
         bindE (case content_stage_of (job_ref_table job) of
             None \<Rightarrow> ret ()
           | Some stg \<Rightarrow> handle_stage_timeout (job_ref_id job) stg) (\<lambda>_.
         set_job k (\<lambda>j. j\<lparr>job_status := JobDone\<rparr>))
     | JobReviewTimeout \<Rightarrow>
         bindE (handle_review_timeout (job_ref_id job)) (\<lambda>_.
         set_job k (\<lambda>j. j\<lparr>job_status := JobDone\<rparr>))
     | _ \<Rightarrow>
         bindE (case job_correlation_id job of Some c \<Rightarrow> ret c | None \<Rightarrow> uuid4) (\<lambda>corr.
         bindE (dispatch_stage (job_workspace_id job) (job_ref_id job) (job_ref_table job)
            (job_attempt job + 1) corr (job_trace_id job) None None) (\<lambda>result.
         after_dispatch k result)))"

context engine_frame
begin

lemma eff_fairness_limits: "effects R (fairness_limits ws)"
  unfolding fairness_limits_def effective_scheduler_tick_limit_def by (intro frame_rules)

lemma eff_poll_and_lease: "effects R (poll_and_lease h n)"
  unfolding poll_and_lease_def scheduler_owner_id_def Let_def
  by (intro frame_rules eff_fairness_limits)

lemma eff_reap_expired_job_leases: "effects R (reap_expired_job_leases n)"
  unfolding reap_expired_job_leases_def by (intro frame_rules)

lemma eff_reschedule_job: "effects R (reschedule_job k)"
  unfolding reschedule_job_def abandon_job_def compute_backoff_seconds_def
  by (intro claiming_rules)

lemma eff_process_leased_job: "effects R (process_leased_job k)"
  unfolding process_leased_job_def after_dispatch_def run_compensation_stage_def
  by (intro eff_bind eff_the_row) (auto split: job_type.splits intro!: claiming_rules eff_reschedule_job)

lemmas scheduler_rules = claiming_rules eff_poll_and_lease eff_reap_expired_job_leases eff_process_leased_job

end

section \<open>The round robin is fair\<close>

abbreviation of_workspace :: "uuid \<Rightarrow> job_schedule list \<Rightarrow> job_schedule list" where
  "of_workspace ws js \<equiv> filter (\<lambda>j. job_workspace_id j = ws) js"

definition groups_of :: "job_schedule list \<Rightarrow> job_groups \<Rightarrow> bool" where
  "groups_of js gs \<longleftrightarrow> distinct (map fst gs) \<and> (\<forall>g \<in> set gs. snd g = of_workspace (fst g) js)
     \<and> job_workspace_id ` set js = fst ` set gs"

lemma add_to_group_keys: "fst ` set (add_to_group gs j) = insert (job_workspace_id j) (fst ` set gs)"
  by (induction gs j rule: add_to_group.induct) auto

lemma add_to_group_distinct: "distinct (map fst gs) \<Longrightarrow> distinct (map fst (add_to_group gs j))"
  by (induction gs j rule: add_to_group.induct) (simp_all add: add_to_group_keys, blast)

lemma add_to_group_rows:
  assumes "distinct (map fst gs)" and "g \<in> set (add_to_group gs j)"
  shows "if fst g = job_workspace_id j
    then (\<exists>h \<in> set gs. fst h = fst g \<and> snd g = snd h @ [j]) \<or> fst g \<notin> fst ` set gs \<and> snd g = [j]
    else g \<in> set gs"
  using assms
proof (induction gs j rule: add_to_group.induct)
  case (2 ws js gs j)
  then show ?case by (cases "ws = job_workspace_id j"; cases "g = (ws, js)") (auto split: if_splits; force)+
qed simp

lemma groups_of_add:
  assumes "groups_of js gs"
  shows "groups_of (js @ [j]) (add_to_group gs j)"
proof -
  have "snd g = of_workspace (fst g) (js @ [j])" if g: "g \<in> set (add_to_group gs j)" for g
  proof (cases "fst g = job_workspace_id j")
    case True
    have "of_workspace (fst g) js = []" if "fst g \<notin> fst ` set gs"
      using that assms unfolding groups_of_def filter_empty_conv by (metis image_eqI)
    with add_to_group_rows [OF _ g] assms True show ?thesis by (auto simp: groups_of_def)
  next
    case False
    with add_to_group_rows [OF _ g] assms show ?thesis by (auto simp: groups_of_def)
  qed
  with assms add_to_group_keys [of gs j] add_to_group_distinct [of gs j] show ?thesis by (auto simp: groups_of_def)
qed

lemma groups_of_by_workspace: "groups_of js (by_workspace js)"
proof (induction js rule: rev_induct)
  case Nil
  show ?case by (simp add: groups_of_def by_workspace_def)
next
  case (snoc j js)
  then show ?case using groups_of_add [OF snoc, of j] by (simp add: by_workspace_def)
qed

definition rr_inv :: "(uuid \<times> int) list \<Rightarrow> job_groups \<Rightarrow> nat \<Rightarrow> rr_state \<Rightarrow> bool" where
  "rr_inv lims gs n st \<longleftrightarrow> length (snd st) \<le> n
     \<and> (\<forall>g \<in> set gs. fst st (fst g) \<le> nat (allowance lims g)
          \<and> of_workspace (fst g) (snd st) = take (fst st (fst g)) (snd g))
     \<and> (\<forall>j \<in> set (snd st). job_workspace_id j \<in> fst ` set gs)"

lemma rr_turn_inv:
  assumes gs: "groups_of js gs" and g: "g \<in> set gs" and inv: "rr_inv lims gs n (cur, ls)"
    and room: "length ls < n" "int (cur (fst g)) < allowance lims g"
  shows "rr_inv lims gs n (cur(fst g := Suc (cur (fst g))), ls @ [snd g ! cur (fst g)])"
proof -
  let ?j = "snd g ! cur (fst g)"
  have len: "cur (fst g) < length (snd g)" using room(2) by (simp add: allowance_def)
  have "?j \<in> set (snd g)" using len by simp
  then have ws: "job_workspace_id ?j = fst g" using gs g by (auto simp: groups_of_def)
  have same: "h = g" if "h \<in> set gs" "fst h = fst g" for h
    using that g gs by (auto simp: groups_of_def distinct_map inj_on_def)
  have "(cur(fst g := Suc (cur (fst g)))) (fst h) \<le> nat (allowance lims h)
      \<and> of_workspace (fst h) (ls @ [?j]) = take ((cur(fst g := Suc (cur (fst g)))) (fst h)) (snd h)"
    if h: "h \<in> set gs" for h
  proof (cases "h = g")
    case True
    then show ?thesis using inv h room(2) len ws by (auto simp: rr_inv_def take_Suc_conv_app_nth)
  next
    case False
    then have "fst h \<noteq> fst g" using same [OF h] by blast
    then show ?thesis using inv h ws by (auto simp: rr_inv_def)
  qed
  then show ?thesis using inv room(1) g ws by (auto simp: rr_inv_def)
qed

lemma rr_pass_inv:
  assumes "groups_of js gs" and "set hs \<subseteq> set gs" and "rr_inv lims gs n st"
  shows "rr_inv lims gs n (rr_pass n lims hs st)"
  using assms(2,3)
proof (induction hs arbitrary: st)
  case (Cons h hs)
  obtain cur ls where st: "st = (cur, ls)" by (cases st)
  show ?case
  proof (cases "length ls < n \<and> int (cur (fst h)) < allowance lims h")
    case True
    with Cons.prems rr_turn_inv [OF assms(1), of h lims n cur ls]
    have "rr_inv lims gs n (cur(fst h := Suc (cur (fst h))), ls @ [snd h ! cur (fst h)])" by (simp add: st)
    with True Cons show ?thesis by (simp add: st)
  next
    case False
    with Cons show ?thesis by (auto simp: st)
  qed
qed simp

lemma rr_pass_level:
  assumes "distinct (map fst hs)" and "\<forall>h \<in> set hs. cur (fst h) = min r (nat (allowance lims h))"
    and "rr_pass n lims hs (cur, ls) = (cur', ls')"
  shows "(\<forall>ws. ws \<notin> fst ` set hs \<longrightarrow> cur' ws = cur ws)
    \<and> (\<forall>h \<in> set hs. cur' (fst h) = min r (nat (allowance lims h))
         \<or> cur' (fst h) = min (Suc r) (nat (allowance lims h)))
    \<and> (length ls' < n \<longrightarrow> (\<forall>h \<in> set hs. cur' (fst h) = min (Suc r) (nat (allowance lims h))))"
  using assms
proof (induction hs arbitrary: cur ls)
  case (Cons h hs)
  consider "n \<le> length ls" | "length ls < n" "allowance lims h \<le> int (cur (fst h))"
    | "length ls < n" "int (cur (fst h)) < allowance lims h" by linarith
  then show ?case
  proof cases
    case 1
    with Cons.prems show ?thesis by auto
  next
    case 2
    have eq: "rr_pass n lims hs (cur, ls) = (cur', ls')" using 2 Cons.prems(3) by simp
    have IH: "(\<forall>ws. ws \<notin> fst ` set hs \<longrightarrow> cur' ws = cur ws)
      \<and> (\<forall>h \<in> set hs. cur' (fst h) = min r (nat (allowance lims h))
           \<or> cur' (fst h) = min (Suc r) (nat (allowance lims h)))
      \<and> (length ls' < n \<longrightarrow> (\<forall>h \<in> set hs. cur' (fst h) = min (Suc r) (nat (allowance lims h))))"
      using Cons.prems(1,2) eq by (intro Cons.IH [of cur ls]) simp_all
    moreover have "cur (fst h) = min (Suc r) (nat (allowance lims h))" "fst h \<notin> fst ` set hs"
      using 2 Cons.prems by auto
    ultimately show ?thesis using Cons.prems(2) by (auto simp del: min_def)
  next
    case 3
    let ?cur = "cur(fst h := Suc (cur (fst h)))"
    have new: "fst h \<notin> fst ` set hs" using Cons.prems(1) by auto
    have eq: "rr_pass n lims hs (?cur, ls @ [snd h ! cur (fst h)]) = (cur', ls')" using 3 Cons.prems(3) by simp
    have keep: "\<forall>h \<in> set hs. ?cur (fst h) = min r (nat (allowance lims h))"
      using Cons.prems(2) new by (auto simp: image_iff)
    have IH: "(\<forall>ws. ws \<notin> fst ` set hs \<longrightarrow> cur' ws = ?cur ws)
      \<and> (\<forall>h \<in> set hs. cur' (fst h) = min r (nat (allowance lims h))
           \<or> cur' (fst h) = min (Suc r) (nat (allowance lims h)))
      \<and> (length ls' < n \<longrightarrow> (\<forall>h \<in> set hs. cur' (fst h) = min (Suc r) (nat (allowance lims h))))"
      using Cons.prems(1) by (intro Cons.IH [OF _ keep eq]) simp
    moreover have "?cur (fst h) = min (Suc r) (nat (allowance lims h))" using 3 Cons.prems(2) by auto
    ultimately show ?thesis using new by auto
  qed
qed simp

definition rr_level :: "(uuid \<times> int) list \<Rightarrow> job_groups \<Rightarrow> nat \<Rightarrow> rr_state \<Rightarrow> bool" where
  \<comment> \<open>the workspaces are at most one turn apart; exactly level while the batch has room\<close>
  "rr_level lims gs n st \<longleftrightarrow>
     (\<exists>r. \<forall>g \<in> set gs. fst st (fst g) = min r (nat (allowance lims g))
          \<or> fst st (fst g) = min (Suc r) (nat (allowance lims g)))
     \<and> (length (snd st) < n \<longrightarrow> (\<exists>r. \<forall>g \<in> set gs. fst st (fst g) = min r (nat (allowance lims g))))"

lemma round_robin_result:
  assumes "groups_of js gs" and "rr_inv lims gs n st" and "rr_level lims gs n st"
  shows "rr_inv lims gs n (round_robin n lims gs st) \<and> rr_level lims gs n (round_robin n lims gs st)
    \<and> (length (snd (round_robin n lims gs st)) < n \<longrightarrow> \<not> rr_more lims gs (fst (round_robin n lims gs st)))"
  using assms
proof (induction n lims gs st rule: round_robin.induct)
  case (1 n lims gs st)
  obtain cur ls where st: "st = (cur, ls)" by (cases st)
  show ?case
  proof (cases "length ls < n \<and> rr_more lims gs cur")
    case True
    obtain cur' ls' where p: "rr_pass n lims gs (cur, ls) = (cur', ls')" by fastforce
    have inv: "rr_inv lims gs n (cur', ls')"
      using rr_pass_inv [OF "1.prems"(1) subset_refl "1.prems"(2)] by (simp add: st p)
    from "1.prems"(3) True obtain r where "\<forall>g \<in> set gs. cur (fst g) = min r (nat (allowance lims g))"
      by (auto simp: rr_level_def st)
    from rr_pass_level [OF _ this p] "1.prems"(1) have "rr_level lims gs n (cur', ls')"
      unfolding rr_level_def groups_of_def by (intro conjI exI [of _ r] impI exI [of _ "Suc r"]) auto
    with True inv p "1.prems"(1) "1.IH" [of cur ls] show ?thesis
      by (simp add: st round_robin.simps [of n lims gs "(cur, ls)"])
  next
    case False
    with "1.prems" show ?thesis by (auto simp: st round_robin.simps [of n lims gs "(cur, ls)"])
  qed
qed

definition tick_limit :: "session \<Rightarrow> uuid \<Rightarrow> int" where
  "tick_limit s ws = (if recorded_state s ws = BpThrottled then max 1 (configured_limit s ws div 2)
     else configured_limit s ws)"

lemma fairness_limits_apply:
  assumes "unique_pressure s"
  shows "fairness_limits wss s = (s, Inr (map (\<lambda>ws. (ws, tick_limit s ws)) wss))"
proof -
  have "scalar_one_or_none (map bp_state (filter (\<lambda>r. bp_workspace_id r = ws) (bp_states s))) =
      Inr (map_option bp_state (find_row bp_workspace_id ws (bp_states s)))" for ws
    using assms by (simp add: filter_find_row unique_pressure_def split: option.splits)
  then show ?thesis
    by (induction wss) (auto simp: fairness_limits_def effective_scheduler_tick_limit_def tick_limit_def
        recorded_state_def bindE_def split: option.splits)
qed

definition share :: "session \<Rightarrow> nat \<Rightarrow> uuid \<Rightarrow> nat" where
  \<comment> \<open>how many jobs of a workspace one tick may lease\<close>
  "share s n ws = min (length (of_workspace ws (due_jobs s (n * 3)))) (nat (tick_limit s ws))"

lemma nat_min_int: "nat (min (int a) b) = min a (nat b)"
  by linarith

lemma map_of_limits: "map_of (map (\<lambda>ws. (ws, f ws)) wss) ws = (if ws \<in> set wss then Some (f ws) else None)"
  by (induction wss) auto

lemma distinct_by_class:
  "(\<And>c. distinct (filter (\<lambda>x. f x = c) xs)) \<Longrightarrow> distinct xs"
proof (induction xs)
  case (Cons x xs)
  have "distinct (filter (\<lambda>y. f y = c) xs)" for c using Cons.prems [of c] by (auto split: if_splits)
  moreover have "x \<notin> set xs" using Cons.prems [of "f x"] by auto
  ultimately show ?case using Cons.IH by simp
qed simp

lemma write_jobs:
  assumes "distinct ks" and "\<And>j. job_id (f j) = job_id j"
  shows "for_each (\<lambda>k. set_job k f) ks s =
    (jobs_update (map (\<lambda>j. if job_id j \<in> set ks then f j else j)) s, Inr ())"
  using assms(1)
proof (induction ks arbitrary: s)
  case Nil
  then show ?case by simp
next
  case (Cons k ks)
  then have "k \<notin> set ks" by simp
  then have "map (\<lambda>j. if job_id j \<in> set ks then f j else j) \<circ> upd_row job_id k f =
      map (\<lambda>j. if job_id j \<in> set (k # ks) then f j else j)"
    by (auto simp: fun_eq_iff upd_row_def assms(2))
  with Cons show ?case by (simp only: for_each.simps bindE_modify job_tbl.put_put distinct.simps)
qed

definition leased_row :: "session \<Rightarrow> string \<Rightarrow> job_schedule \<Rightarrow> job_schedule" where
  "leased_row s owner j = j\<lparr>job_status := JobLeased, job_lease_owner := Some owner,
     job_lease_expires_at := Some (clock s + seconds LEASE_SECONDS)\<rparr>"

definition fair_tick :: "session \<Rightarrow> nat \<Rightarrow> job_schedule list \<Rightarrow> bool" where
  "fair_tick s n leased \<longleftrightarrow> length leased \<le> n \<and> distinct leased
     \<and> (\<forall>ws. of_workspace ws leased =
          take (length (of_workspace ws leased)) (of_workspace ws (due_jobs s (n * 3)))
        \<and> length (of_workspace ws leased) \<le> share s n ws
        \<and> (length leased < n \<longrightarrow> length (of_workspace ws leased) = share s n ws))
     \<and> (\<forall>ws other. length (of_workspace ws leased) \<le> Suc (length (of_workspace other leased))
          \<or> length (of_workspace other leased) = share s n other)"

lemma due_jobs_distinct: "distinct (map job_id (jobs s)) \<Longrightarrow> distinct (map job_id (due_jobs s n))"
  unfolding due_jobs_def distinct_map
  by (auto intro!: distinct_take elim!: inj_on_subset dest!: in_set_takeD)

lemma fair_round_robin:
  assumes gs: "groups_of (due_jobs s (n * 3)) gs" and d: "distinct (map job_id (jobs s))"
    and rr: "round_robin n (map (\<lambda>ws. (ws, tick_limit s ws)) (map fst gs)) gs (\<lambda>_. 0, []) = (cur, leased)"
  shows "fair_tick s n leased"
proof -
  let ?cs = "due_jobs s (n * 3)" and ?lims = "map (\<lambda>ws. (ws, tick_limit s ws)) (map fst gs)"
  have start: "rr_inv ?lims gs n (\<lambda>_. 0, [])" "rr_level ?lims gs n (\<lambda>_. 0, [])"
    by (auto simp: rr_inv_def rr_level_def intro!: exI [of _ 0])
  note result = round_robin_result [OF gs start, unfolded rr fst_conv snd_conv]
  note inv = conjunct1 [OF result] and level = conjunct1 [OF conjunct2 [OF result]]
    and ended = conjunct2 [OF conjunct2 [OF result]]
  have share: "nat (allowance ?lims g) = share s n (fst g)" if "g \<in> set gs" for g
  proof -
    have "map_of ?lims (fst g) = Some (tick_limit s (fst g))" using that unfolding map_of_limits by simp
    then show ?thesis using that gs by (auto simp: allowance_def share_def groups_of_def nat_min_int)
  qed
  have rows: "of_workspace (fst g) leased = take (cur (fst g)) (of_workspace (fst g) ?cs)"
      "cur (fst g) \<le> share s n (fst g)" if "g \<in> set gs" for g
    using that inv gs unfolding share [OF that, symmetric] by (simp_all add: rr_inv_def groups_of_def)
  have len: "length (of_workspace (fst g) leased) = cur (fst g)" if "g \<in> set gs" for g
    using rows [OF that] by (simp add: share_def)
  have none: "of_workspace ws leased = []" "share s n ws = 0" if "ws \<notin> fst ` set gs" for ws
  proof -
    have "ws \<notin> job_workspace_id ` set ?cs" "\<forall>j \<in> set leased. job_workspace_id j \<in> fst ` set gs"
      using that gs inv by (simp_all add: groups_of_def rr_inv_def)
    then have "of_workspace ws ?cs = []" "of_workspace ws leased = []"
      using that by (auto simp: filter_empty_conv)
    then show "of_workspace ws leased = []" "share s n ws = 0" by (simp_all add: share_def)
  qed
  have "distinct (of_workspace ws leased)" for ws
  proof (cases "ws \<in> fst ` set gs")
    case True
    then show ?thesis using rows(1) due_jobs_distinct [OF d, of "n * 3"] by (auto simp: distinct_map)
  qed (simp add: none)
  then have "distinct leased" by (rule distinct_by_class)
  moreover have "length leased \<le> n" using inv by (simp add: rr_inv_def)
  moreover have "of_workspace ws leased = take (length (of_workspace ws leased)) (of_workspace ws ?cs)
      \<and> length (of_workspace ws leased) \<le> share s n ws
      \<and> (length leased < n \<longrightarrow> length (of_workspace ws leased) = share s n ws)" for ws
  proof (cases "ws \<in> fst ` set gs")
    case True
    then obtain g where g: "g \<in> set gs" "ws = fst g" by blast
    have "cur (fst g) = share s n (fst g)" if "length leased < n"
    proof -
      have "\<not> int (cur (fst g)) < allowance ?lims g"
        using ended that g(1) unfolding rr_more_def list_ex_iff by blast
      then show ?thesis using rows(2) [OF g(1)] share [OF g(1)] by linarith
    qed
    then show ?thesis unfolding g(2) len [OF g(1)] using rows [OF g(1)] by blast
  qed (simp add: none)
  moreover have "length (of_workspace ws leased) \<le> Suc (length (of_workspace other leased))
      \<or> length (of_workspace other leased) = share s n other" for ws other
  proof (cases "ws \<in> fst ` set gs \<and> other \<in> fst ` set gs")
    case True
    then obtain g h where g: "g \<in> set gs" "ws = fst g" and h: "h \<in> set gs" "other = fst h" by blast
    from level obtain r where r0: "\<forall>g \<in> set gs. cur (fst g) = min r (nat (allowance ?lims g))
        \<or> cur (fst g) = min (Suc r) (nat (allowance ?lims g))"
      unfolding rr_level_def fst_conv by blast
    have r: "cur (fst g) = min r (share s n (fst g)) \<or> cur (fst g) = min (Suc r) (share s n (fst g))"
      if "g \<in> set gs" for g using r0 that unfolding share [OF that, symmetric] by blast
    show ?thesis using r [OF g(1)] r [OF h(1)] len [OF g(1)] len [OF h(1)] by (auto simp: g(2) h(2))
  next
    case False
    then show ?thesis using none [of ws] none [of other] by auto
  qed
  ultimately show ?thesis unfolding fair_tick_def by blast
qed


section \<open>Jobs of a workspace at its concurrency limit\<close>

definition at_limit :: "session \<Rightarrow> uuid \<Rightarrow> bool" where
  \<comment> \<open>as many assignments in flight as the workspace may have\<close>
  "at_limit s ws \<longleftrightarrow> (case find_row wcl_workspace_id ws (limits s) of
      None \<Rightarrow> DEFAULT_MAX_CONCURRENT_ASSIGNMENTS | Some l \<Rightarrow> wcl_max_concurrent_assignments l)
    \<le> workspace_in_flight s ws"

definition dispatch_job :: "job_schedule \<Rightarrow> bool" where
  "dispatch_job j \<longleftrightarrow> job_job_type j = JobStage \<or> job_job_type j = JobRetry"

lemma dispatch_at_limit:
  assumes "unique_pressure s" and "at_limit s ws"
  shows "dispatch_stage ws rid stage n corr trace p prio s = (s, Inr (dispatch_res Backpressure None))"
proof -
  have "scalar_one_or_none (filter (\<lambda>l. wcl_workspace_id l = ws) (limits s)) =
      Inr (find_row wcl_workspace_id ws (limits s))"
    using assms(1) by (intro scalar_find_row) (simp add: unique_pressure_def)
  then have "dispatch_precheck ws rid s = (s, Inr (Some Backpressure))"
    using assms(2) by (simp add: dispatch_precheck_def max_concurrent_for_def at_limit_def split: option.splits)
  then show ?thesis
    by (simp add: dispatch_stage_def bindE_Inr [where m = "dispatch_precheck ws rid"])
qed

lemma process_at_limit:
  assumes "find_job s k = Some j" and "dispatch_job j" and "unique_pressure s" and "at_limit s (job_workspace_id j)"
  shows "\<exists>n. process_leased_job k s = reschedule_job k (s\<lparr>next_uuid := n\<rparr>)"
proof -
  have "dispatch_stage (job_workspace_id j) (job_ref_id j) (job_ref_table j) (job_attempt j + 1) c (job_trace_id j) None None
      (s\<lparr>next_uuid := n\<rparr>) = (s\<lparr>next_uuid := n\<rparr>, Inr (dispatch_res Backpressure None))" for c n
    using assms(3,4) by (intro dispatch_at_limit)
      (simp_all add: unique_pressure_def at_limit_def workspace_in_flight_def)
  then have dis: "bindE (dispatch_stage (job_workspace_id j) (job_ref_id j) (job_ref_table j) (job_attempt j + 1) c
      (job_trace_id j) None None) (after_dispatch k) (s\<lparr>next_uuid := n\<rparr>) = reschedule_job k (s\<lparr>next_uuid := n\<rparr>)" for c n
    by (simp add: bindE_Inr [where m = "dispatch_stage (job_workspace_id j) (job_ref_id j) (job_ref_table j)
        (job_attempt j + 1) c (job_trace_id j) None None" for c] after_dispatch_def)
  show ?thesis
  proof (cases "job_correlation_id j")
    case None
    with assms(1,2) dis [of "next_uuid s" "Suc (next_uuid s)"] show ?thesis
      by (auto simp: process_leased_job_def dispatch_job_def)
  next
    case (Some c)
    with assms(1,2) dis [of c "next_uuid s"] show ?thesis
      by (auto simp: process_leased_job_def dispatch_job_def intro!: exI [of _ "next_uuid s"])
  qed
qed

text \<open>
  A job of a workspace at its concurrency limit waits and loses an attempt. While the
  attempt count stays below the bound, processing the job creates no assignment and no dead
  letter; the job goes back to pending without a lease, due between now and two minutes from
  now, with its attempt count, from which the stage's attempt number is computed, one higher.
\<close>

theorem backpressure_burns_an_attempt:
  assumes "find_job s k = Some j" and "dispatch_job j" and "unique_pressure s" and "rng_ok s"
    and "at_limit s (job_workspace_id j)" and "job_attempt j + 1 < NO_WORKER_MAX_RETRIES"
  shows "\<exists>t j'. process_leased_job k s = (t, Inr ()) \<and> assignments t = assignments s
    \<and> dead_letters t = dead_letters s \<and> find_job t k = Some j'
    \<and> job_status j' = JobPending \<and> job_attempt j' = job_attempt j + 1 \<and> job_lease_owner j' = None
    \<and> clock s \<le> job_run_after j' \<and> job_run_after j' \<le> clock s + seconds NO_WORKER_RETRY_MAX_SECONDS"
proof -
  obtain n where n: "process_leased_job k s = reschedule_job k (s\<lparr>next_uuid := n\<rparr>)"
    using process_at_limit [OF assms(1,2,3,5)] by blast
  define hi where "hi = backoff_capped (job_attempt j + 1) NO_WORKER_RETRY_BASE_SECONDS 2 NO_WORKER_RETRY_MAX_SECONDS"
  have hi: "0 \<le> hi" "hi \<le> of_int NO_WORKER_RETRY_MAX_SECONDS"
    unfolding hi_def by (rule backoff_capped_bounds; simp)+
  let ?x = "hi * rng s (draws s)"
  have "0 \<le> ?x" "?x \<le> of_int NO_WORKER_RETRY_MAX_SECONDS"
    using random_scaled_bounds [OF assms(4) hi(1), of "draws s"] hi(2) by simp_all
  note bounds = timedelta_seconds_bounds [OF this]
  show ?thesis
    using assms(1,6) bounds unfolding n
    by (simp add: reschedule_job_def compute_backoff_seconds_def find_row_upd_row hi_def [symmetric])
qed

lemma cancelled_not_open:
  "list_all (\<lambda>a. asg_pipeline_run_id a = rid \<and> asg_stage a = stg \<longrightarrow> \<not> open_status (asg_status a))
    (map (\<lambda>a. if asg_pipeline_run_id a = rid \<and> asg_stage a = stg \<and> open_status (asg_status a)
      then a\<lparr>asg_status := AsgCancelled\<rparr> else a) rows)"
  by (induction rows) simp_all

lemma open_after_release:
  "reservations t = release_rows (\<lambda>r. rsv_pipeline_run_id r = Some rid) rows \<Longrightarrow> open_reservations t rid = []"
  by (auto simp: open_reservations_def release_rows_def filter_empty_conv)

lemma statuses_released:
  assumes "released_from s t"
  shows "map_option run_status (find_run t k) = map_option run_status (find_run s k)"
proof -
  have "map (\<lambda>r. r\<lparr>run_trace_id := None\<rparr>) (runs t) = map (\<lambda>r. r\<lparr>run_trace_id := None\<rparr>) (runs s)"
    using assms by (simp add: released_from_def)
  then have "find_row run_id k (map (\<lambda>r. r\<lparr>run_trace_id := None\<rparr>) (runs t)) =
      find_row run_id k (map (\<lambda>r. r\<lparr>run_trace_id := None\<rparr>) (runs s))" by simp
  moreover have "find_row run_id k (map (\<lambda>r. r\<lparr>run_trace_id := None\<rparr>) rs) =
      map_option (\<lambda>r. r\<lparr>run_trace_id := None\<rparr>) (find_row run_id k rs)" for rs :: "pipeline_run list"
    by (induction rs) auto
  ultimately have "map_option run_status (map_option (\<lambda>r. r\<lparr>run_trace_id := None\<rparr>) (find_run t k)) =
      map_option run_status (map_option (\<lambda>r. r\<lparr>run_trace_id := None\<rparr>) (find_run s k))" by simp
  then show ?thesis by (simp add: option.map_comp comp_def)
qed

text \<open>
  A job that finds its workspace at the limit for the twentieth time is given up, and its
  run is left behind. The job is cancelled and recorded as a dead letter that blames missing
  workers; the stage's open assignments are cancelled and every reservation of the run is
  released. The status of the run is what it was, and no job is left to move it.
\<close>

theorem abandoned_job_leaves_run_behind:
  assumes "find_job s k = Some j" and "dispatch_job j" and "unique_pressure s" and "unique_rsv s"
    and "at_limit s (job_workspace_id j)" and "NO_WORKER_MAX_RETRIES \<le> job_attempt j + 1"
    and "find_run s (job_ref_id j) = Some run" and "content_stage_of (job_ref_table j) = Some stg"
  shows "\<exists>t d. process_leased_job k s = (t, Inr ())
    \<and> map_option job_status (find_job t k) = Some JobCancelled \<and> map job_id (jobs t) = map job_id (jobs s)
    \<and> dead_letters t = dead_letters s @ [d] \<and> dlq_related_id d = k
    \<and> dlq_failure_reason d = ''no eligible worker available after repeated attempts''
    \<and> list_all (\<lambda>a. asg_pipeline_run_id a = run_id run \<and> asg_stage a = stg \<longrightarrow> \<not> open_status (asg_status a))
        (assignments t)
    \<and> open_reservations t (run_id run) = []
    \<and> map_option run_status (find_run t (run_id run)) = Some (run_status run)"
proof -
  obtain n where n: "process_leased_job k s = reschedule_job k (s\<lparr>next_uuid := n\<rparr>)"
    using process_at_limit [OF assms(1,2,3,5)] by blast
  define s1 where "s1 = jobs_update (upd_row job_id k (\<lambda>j. j\<lparr>job_status := JobCancelled\<rparr>))
    (jobs_update (upd_row job_id k (\<lambda>j. j\<lparr>job_attempt := job_attempt j + 1\<rparr>)) (s\<lparr>next_uuid := n\<rparr>))"
  define j1 where "j1 = j\<lparr>job_attempt := job_attempt j + 1, job_status := JobCancelled\<rparr>"
  have rid: "run_id run = job_ref_id j" using assms(7) by (auto dest: find_row_SomeD)
  have run1: "find_run s1 (run_id run) = Some run" using assms(7) by (simp add: s1_def rid)
  have job1: "find_job s1 k = Some j1" using assms(1) by (simp add: s1_def j1_def find_row_upd_row)
  have "unique_rsv s1" using assms(4) by (simp add: unique_rsv_def s1_def)
  from release_all_apply [OF run1 this] obtain u where
    u: "release_all_reservations (run_id run) s1 = (u, Inr ())" "released_from s1 u"
      "reservations u = release_rows (\<lambda>r. rsv_pipeline_run_id r = Some (run_id run)) (reservations s1)" by blast
  have jobs: "jobs u = jobs s1" "dead_letters u = dead_letters s" "assignments u = assignments s"
    using u(2) by (simp_all add: released_from_def s1_def)
  have eq: "process_leased_job k s = bindE (bindE (release_all_reservations (run_id run)) (\<lambda>_.
      bindE (stage_column (job_ref_table j)) (\<lambda>stg. modify (assignments_update (map (\<lambda>a.
        if asg_pipeline_run_id a = run_id run \<and> asg_stage a = stg \<and> open_status (asg_status a)
        then a\<lparr>asg_status := AsgCancelled\<rparr> else a)))))) (\<lambda>_.
      bindE (route_to_dead_letter (job_workspace_id j) ''job_schedule'' k (''stage_dispatch:'' @ job_ref_table j)
        (Some [(''stage'', JStr (job_ref_table j)), (''pipeline_run_id'', JStr (uuid_str (job_ref_id j)))])
        ''no eligible worker available after repeated attempts'' (job_attempt j + 1) (job_created_at j)) (\<lambda>_. ret ())) s1"
    using assms(1,6,7) unfolding n reschedule_job_def abandon_job_def s1_def
    by (simp add: find_row_upd_row del: bindE_assoc)
  have col: "stage_column (job_ref_table j) u = (u, Inr stg)" using assms(8) by (simp add: stage_column_def)
  define u1 where "u1 = assignments_update (map (\<lambda>a.
      if asg_pipeline_run_id a = run_id run \<and> asg_stage a = stg \<and> open_status (asg_status a)
      then a\<lparr>asg_status := AsgCancelled\<rparr> else a)) u"
  define d where "d = dlq_entry (job_workspace_id j) ''job_schedule'' k (''stage_dispatch:'' @ job_ref_table j)
      (Some [(''stage'', JStr (job_ref_table j)), (''pipeline_run_id'', JStr (uuid_str (job_ref_id j)))])
      ''no eligible worker available after repeated attempts'' (job_attempt j + 1) (job_created_at j) u1"
  have res: "process_leased_job k s =
      (u1\<lparr>next_uuid := Suc (next_uuid u1), dead_letters := dead_letters u1 @ [d]\<rparr>, Inr ())"
    unfolding eq d_def u1_def
    by (simp add: bindE_Inr [where m = "release_all_reservations (run_id run)", OF u(1)]
        bindE_Inr [where m = "stage_column (job_ref_table j)", OF col])
  let ?t = "u1\<lparr>next_uuid := Suc (next_uuid u1), dead_letters := dead_letters u1 @ [d]\<rparr>"
  have keep: "jobs ?t = jobs s1" "dead_letters ?t = dead_letters s @ [d]" "runs ?t = runs u"
      "reservations ?t = reservations u" "assignments ?t = assignments u1"
    by (simp_all add: u1_def jobs)
  show ?thesis
  proof (intro exI [of _ ?t] exI [of _ d] conjI)
    show "map_option job_status (find_job ?t k) = Some JobCancelled" unfolding keep job1 by (simp add: j1_def)
    show "map job_id (jobs ?t) = map job_id (jobs s)" unfolding keep by (simp add: s1_def map_key_upd_row)
    show "list_all (\<lambda>a. asg_pipeline_run_id a = run_id run \<and> asg_stage a = stg \<longrightarrow> \<not> open_status (asg_status a))
        (assignments ?t)" unfolding keep u1_def jobs by (simp add: jobs cancelled_not_open)
    show "open_reservations ?t (run_id run) = []"
      using open_after_release [OF u(3)] unfolding open_reservations_def keep .
    show "map_option run_status (find_run ?t (run_id run)) = Some (run_status run)"
      using statuses_released [OF u(2), of "run_id run"] unfolding keep run1 by simp
  qed (simp_all add: res keep, simp_all add: d_def dlq_entry_def)
qed

section \<open>Witnesses\<close>

definition due_job :: "uuid \<Rightarrow> uuid \<Rightarrow> job_schedule" where
  "due_job k ws = \<lparr>job_id = k, job_workspace_id = ws, job_job_type = JobStage, job_ref_table = ''scripting'',
     job_ref_id = 10, job_run_after = 0, job_status = JobPending, job_lease_owner = None,
     job_lease_expires_at = None, job_attempt = 0, job_priority = 0, job_correlation_id = Some 40,
     job_trace_id = None, job_created_at = 0\<rparr>"

definition tick_sample :: session where
  \<comment> \<open>a backlog of three jobs in one workspace and one job in another\<close>
  "tick_sample = empty_session\<lparr>jobs := [due_job 201 1, due_job 202 1, due_job 203 1, due_job 204 2]\<rparr>"


definition full_sample :: "int \<Rightarrow> session" where
  \<comment> \<open>a workspace that may have no assignment in flight, and its job after \<open>n\<close> attempts\<close>
  "full_sample n = spend_sample\<lparr>jobs := [(due_job 201 1)\<lparr>job_attempt := n\<rparr>],
     limits := [\<lparr>wcl_workspace_id = 1, wcl_max_concurrent_assignments = 0, wcl_max_per_scheduler_tick = 5,
       wcl_queue_soft_limit = 50, wcl_queue_hard_limit = 200\<rparr>]\<rparr>"

lemma full_sample_facts:
  "find_job (full_sample n) 201 = Some ((due_job 201 1)\<lparr>job_attempt := n\<rparr>)"
  "dispatch_job ((due_job 201 1)\<lparr>job_attempt := n\<rparr>)" "unique_pressure (full_sample n)" "rng_ok (full_sample n)"
  "unique_rsv (full_sample n)" "at_limit (full_sample n) (job_workspace_id ((due_job 201 1)\<lparr>job_attempt := n\<rparr>))"
  "find_run (full_sample n) (job_ref_id ((due_job 201 1)\<lparr>job_attempt := n\<rparr>)) = Some sample_run"
  "content_stage_of (job_ref_table ((due_job 201 1)\<lparr>job_attempt := n\<rparr>)) = Some SCRIPTING"
  "clock (full_sample n) = 0"
  by (simp_all add: full_sample_def due_job_def dispatch_job_def unique_pressure_def rng_ok_def unique_rsv_def at_limit_def
      workspace_in_flight_def spend_sample_def empty_session_def sample_run_def content_stage_of_def all_stages_def)

theorem backpressure_burns_an_attempt_witness:
  "\<exists>t j'. process_leased_job 201 (full_sample 2) = (t, Inr ()) \<and> assignments t = assignments (full_sample 2)
    \<and> find_job t 201 = Some j' \<and> job_attempt j' = 3 \<and> job_status j' = JobPending"
  using backpressure_burns_an_attempt [OF full_sample_facts(1-4,6), of 2] by auto

theorem abandoned_job_leaves_run_behind_witness:
  "\<exists>t d. process_leased_job 201 (full_sample 19) = (t, Inr ()) \<and> dead_letters t = dead_letters (full_sample 19) @ [d]
    \<and> map_option run_status (find_run t 10) = Some (run_status sample_run)"
proof -
  have "run_id sample_run = 10" by (simp add: sample_run_def)
  with abandoned_job_leaves_run_behind [OF full_sample_facts(1-3,5,6) _ full_sample_facts(7,8), of 19]
  show ?thesis by auto
qed

end
