(* ===== verification/Relay.thy ===== *)
theory Relay
  imports Scheduler "HOL-Library.AList"
begin

text \<open>
  The outbox relay (\<open>orchestration/relay.py\<close>) and the consumers it serves
  (\<open>orchestration/consumers.py\<close>). Handlers are arguments of the delivery operations, as
  they are values of the registry in the code. An exception that aborts the database
  transaction is passed on by \<open>deliver_to\<close>: the session then refuses every further
  statement, so the tick ends with an error and is rolled back in any case. The lemmas show
  when a redelivered event is harmless and two ways in which an event is lost.
\<close>

section \<open>Operations\<close>

type_synonym handler = "outbox_event \<Rightarrow> unit svc"
type_synonym registry = "(string \<times> (string \<times> handler) list) list"

definition register_consumer :: "string \<Rightarrow> string \<Rightarrow> handler \<Rightarrow> registry \<Rightarrow> registry" where
  \<comment> \<open>\<open>_REGISTRY.setdefault(consumer_name, {})[event_type] = handler\<close>\<close>
  "register_consumer consumer_name event_type h reg =
     AList.update consumer_name
       (AList.update event_type h (case map_of reg consumer_name of None \<Rightarrow> [] | Some hs \<Rightarrow> hs)) reg"

abbreviation find_event :: "session \<Rightarrow> uuid \<Rightarrow> outbox_event option" where
  "find_event s k \<equiv> find_row ev_event_id k (outbox s)"

abbreviation the_event :: "uuid \<Rightarrow> outbox_event svc" where
  "the_event k \<equiv> the_row ''outbox_events'' (\<lambda>s. find_event s k)"

abbreviation set_event :: "uuid \<Rightarrow> (outbox_event \<Rightarrow> outbox_event) \<Rightarrow> unit svc" where
  "set_event k f \<equiv> modify (outbox_update (upd_row ev_event_id k f))"

definition get_or_create_consumer :: "string \<Rightarrow> event_consumer svc" where
  "get_or_create_consumer name =
     bindE (gets (\<lambda>s. filter (\<lambda>c. con_name c = name) (consumers s))) (\<lambda>rows.
     bindE (liftE (scalar_one_or_none rows)) (\<lambda>consumer.
     case consumer of
       Some c \<Rightarrow> ret c
     | None \<Rightarrow>
         bindE uuid4 (\<lambda>u.
           let c = \<lparr>con_id = u, con_name = name, con_max_delivery_attempts = 10\<rparr> in
         bindE (modify (consumers_update (\<lambda>cs. cs @ [c]))) (\<lambda>_. ret c))))"

definition partition_of :: "uuid \<Rightarrow> string \<Rightarrow> string \<Rightarrow> consumer_checkpoint \<Rightarrow> bool" where
  "partition_of consumer_id aggregate_type partition_key ck \<longleftrightarrow>
     ck_consumer_id ck = consumer_id \<and> ck_aggregate_type ck = aggregate_type \<and> ck_partition_key ck = partition_key"

definition get_or_create_checkpoint :: "uuid \<Rightarrow> string \<Rightarrow> string \<Rightarrow> consumer_checkpoint svc" where
  "get_or_create_checkpoint consumer_id aggregate_type partition_key =
     bindE (gets (\<lambda>s. filter (partition_of consumer_id aggregate_type partition_key) (checkpoints s))) (\<lambda>rows.
     bindE (liftE (scalar_one_or_none rows)) (\<lambda>checkpoint.
     case checkpoint of
       Some ck \<Rightarrow> ret ck
     | None \<Rightarrow>
         bindE uuid4 (\<lambda>u.
           let ck = \<lparr>ck_id = u, ck_consumer_id = consumer_id, ck_aggregate_type = aggregate_type,
             ck_partition_key = partition_key, ck_last_sequence = 0\<rparr> in
         bindE (modify (checkpoints_update (\<lambda>cs. cs @ [ck]))) (\<lambda>_. ret ck))))"

fun aborts_transaction :: "py_error \<Rightarrow> bool" where
  "aborts_transaction (IntegrityError m) = True"
| "aborts_transaction e = False"

fun error_text :: "py_error \<Rightarrow> string" where
  \<comment> \<open>\<open>str(exc)\<close>; the model's errors carry the fixed part of their messages\<close>
  "error_text (ValueError m) = m"
| "error_text (KeyError m) = m"
| "error_text (RuntimeError m) = m"
| "error_text e = []"

definition deliver_failed :: "uuid \<Rightarrow> string \<Rightarrow> event_consumer \<Rightarrow> py_error \<Rightarrow> bool svc" where
  \<comment> \<open>the \<open>except\<close> block; the result says whether a retry is due\<close>
  "deliver_failed k consumer_name consumer exc =
     bindE (set_event k (\<lambda>e. e\<lparr>ev_delivery_attempts := ev_delivery_attempts e + 1\<rparr>)) (\<lambda>_.
     bindE (the_event k) (\<lambda>event.
     if con_max_delivery_attempts consumer \<le> ev_delivery_attempts event then
       bindE (set_event k (\<lambda>e. e\<lparr>ev_status := EvPoison\<rparr>)) (\<lambda>_.
       bindE (route_to_dead_letter (ev_workspace_id event) ''outbox_events'' k
          (''event_consumer:'' @ consumer_name) (Some (ev_payload event)) (error_text exc)
          (ev_delivery_attempts event) (ev_occurred_at event)) (\<lambda>_.
       ret False))
     else ret True))"

definition deliver_to :: "uuid \<Rightarrow> string \<times> (string \<times> handler) list \<Rightarrow> bool \<Rightarrow> bool svc" where
  \<comment> \<open>the body of the loop over the registry; the flag is \<open>any_pending\<close>\<close>
  "deliver_to k entry any_pending =
     bindE (the_event k) (\<lambda>event.
     case map_of (snd entry) (ev_event_type event) of
       None \<Rightarrow> ret any_pending
     | Some h \<Rightarrow>
         bindE (get_or_create_consumer (fst entry)) (\<lambda>consumer.
         bindE (get_or_create_checkpoint (con_id consumer) (ev_aggregate_type event)
            (uuid_str (ev_aggregate_id event))) (\<lambda>checkpoint.
         if ev_sequence event \<le> ck_last_sequence checkpoint then ret any_pending
         else
           try_except
             (bindE (h event) (\<lambda>_.
              bindE (modify (checkpoints_update (upd_row ck_id (ck_id checkpoint)
                 (\<lambda>ck. ck\<lparr>ck_last_sequence := ev_sequence event\<rparr>)))) (\<lambda>_.
              ret any_pending)))
             (\<lambda>exc. if aborts_transaction exc then raise exc
              else bindE (deliver_failed k (fst entry) consumer exc) (\<lambda>retry.
                   ret (any_pending \<or> retry))))))"

primrec deliver_all :: "uuid \<Rightarrow> registry \<Rightarrow> bool \<Rightarrow> bool svc" where
  "deliver_all k [] any_pending = ret any_pending"
| "deliver_all k (entry # reg) any_pending = bindE (deliver_to k entry any_pending) (deliver_all k reg)"

definition dispatch_one :: "registry \<Rightarrow> uuid \<Rightarrow> unit svc" where
  "dispatch_one reg k =
     bindE (deliver_all k reg False) (\<lambda>any_pending.
     bindE (the_event k) (\<lambda>event.
     whenE (ev_status event \<noteq> EvPoison \<and> \<not> any_pending)
       (set_event k (\<lambda>e. e\<lparr>ev_status := EvDispatched\<rparr>))))"

definition pending_events :: "session \<Rightarrow> nat \<Rightarrow> outbox_event list" where
  "pending_events s n = take n (sort_key ev_occurred_at
     (filter (\<lambda>e. ev_status e = EvPending \<and> unlocked s (ev_event_id e)) (outbox s)))"

definition poll_and_dispatch :: "registry \<Rightarrow> nat \<Rightarrow> nat svc" where
  "poll_and_dispatch reg batch_size =
     bindE (gets (\<lambda>s. map ev_event_id (pending_events s batch_size))) (\<lambda>events.
     bindE (for_each (dispatch_one reg) events) (\<lambda>_.
     ret (length events)))"

section \<open>The controller's consumers\<close>

definition payload_gate :: "outbox_event \<Rightarrow> py_error + uuid" where
  \<comment> \<open>\<open>uuid.UUID(event.payload["review_gate_id"])\<close>\<close>
  "payload_gate event =
     (case map_of (ev_payload event) ''review_gate_id'' of
        None \<Rightarrow> Inl (KeyError ''review_gate_id'')
      | Some (JStr x) \<Rightarrow> uuid_of_str x
      | Some JNull \<Rightarrow> Inl TypeError
      | Some _ \<Rightarrow> Inl AttributeError)"

definition on_review :: "bool \<Rightarrow> handler" where
  \<comment> \<open>\<open>_on_review_approved\<close> and \<open>_on_review_rejected\<close>\<close>
  "on_review approved event =
     bindE (liftE (payload_gate event)) (\<lambda>gid.
     bindE (gets (\<lambda>s. find_gate s gid)) (\<lambda>gate.
     case gate of None \<Rightarrow> ret () | Some g \<Rightarrow> resume_from_review (gate_id g) approved))"

definition register_all :: "registry \<Rightarrow> registry" where
  "register_all reg =
     register_consumer ''pipeline-controller'' REVIEW_REJECTED (on_review False)
       (register_consumer ''pipeline-controller'' REVIEW_APPROVED (on_review True) reg)"

lemma register_all_empty:
  "register_all [] = [(''pipeline-controller'',
     [(REVIEW_APPROVED, on_review True), (REVIEW_REJECTED, on_review False)])]"
  by (simp add: register_all_def register_consumer_def)

section \<open>What the relay may do\<close>

text \<open>
  Delivery rewrites the status and the attempt count of events, which the emitting
  operations never do; a relation that ignores those two columns as well includes it,
  provided it includes what the handlers do. A handler runs while the event it was called
  for stands in the log, so resuming a run has to be within the relation only when the log
  has a verdict on its gate.
\<close>

definition in_log :: "session \<Rightarrow> outbox_event \<Rightarrow> bool" where
  "in_log s ev \<longleftrightarrow> ev_ident ev \<in> ev_ident ` set (outbox s)"

definition verdict_logged :: "session \<Rightarrow> uuid \<Rightarrow> bool \<Rightarrow> bool" where
  "verdict_logged s gid approved \<longleftrightarrow> (\<exists>ev \<in> set (outbox s). payload_gate ev = Inr gid
     \<and> ev_event_type ev = (if approved then REVIEW_APPROVED else REVIEW_REJECTED))"

definition handles_within :: "(session \<Rightarrow> session \<Rightarrow> bool) \<Rightarrow> string \<Rightarrow> handler \<Rightarrow> bool" where
  "handles_within R et h \<longleftrightarrow> (\<forall>s ev. in_log s ev \<and> ev_event_type ev = et \<longrightarrow> R s (state_after (h ev) s))"

lemma in_log_extends: "in_log s ev \<Longrightarrow> log_extends s t \<Longrightarrow> in_log t ev"
  unfolding in_log_def log_extends_def by (metis UnCI image_set set_append)

lemma in_log_verdict:
  assumes "in_log s ev" and "payload_gate ev = Inr gid"
    and "ev_event_type ev = (if approved then REVIEW_APPROVED else REVIEW_REJECTED)"
  shows "verdict_logged s gid approved"
proof -
  from assms(1) obtain e where "e \<in> set (outbox s)" "ev_ident e = ev_ident ev" by (auto simp: in_log_def)
  with assms(2,3) show ?thesis by (auto simp: verdict_logged_def ev_ident_def payload_gate_def intro!: bexI [of _ e])
qed

context engine_frame
begin

lemma eff_get_or_create_consumer: "effects R (get_or_create_consumer n)"
  unfolding get_or_create_consumer_def Let_def by (intro frame_rules)

lemma eff_get_or_create_checkpoint: "effects R (get_or_create_checkpoint c a p)"
  unfolding get_or_create_checkpoint_def Let_def by (intro frame_rules)

end

locale relay_frame = engine_frame R for R :: "session \<Rightarrow> session \<Rightarrow> bool" +
  assumes eff_mark: "(\<And>e. ev_ident (f e) = ev_ident e) \<Longrightarrow> R s (outbox_update (upd_row ev_event_id k f) s)"
    and eff_resume: "verdict_logged s gid approved \<Longrightarrow> R s (state_after (resume_from_review gid approved) s)"
begin

lemma eff_set_event: "(\<And>e. ev_ident (f e) = ev_ident e) \<Longrightarrow> effects R (set_event k f)"
  by (rule eff_modify) (rule eff_mark)

lemma eff_deliver_failed: "effects R (deliver_failed k n c e)"
  unfolding deliver_failed_def by (intro scheduler_rules eff_set_event) (simp_all add: ev_ident_def)

lemma eff_deliver_to:
  assumes "\<And>et h. (et, h) \<in> set (snd entry) \<Longrightarrow> handles_within R et h"
  shows "effects R (deliver_to k entry p)"
  unfolding effects_def deliver_to_def
proof (intro allI eff_at_then [OF eff_the_row])
  fix s t event
  assume "the_event k s = (t, Inr event)"
  then have log: "in_log t event" by (auto simp: the_row_apply in_log_def dest!: find_row_SomeD split: option.splits)
  show "R t (state_after (case map_of (snd entry) (ev_event_type event) of None \<Rightarrow> ret p
     | Some h \<Rightarrow> bindE (get_or_create_consumer (fst entry)) (\<lambda>c.
         bindE (get_or_create_checkpoint (con_id c) (ev_aggregate_type event) (uuid_str (ev_aggregate_id event))) (\<lambda>ck.
         if ev_sequence event \<le> ck_last_sequence ck then ret p
         else try_except (bindE (h event) (\<lambda>_.
              bindE (modify (checkpoints_update (upd_row ck_id (ck_id ck) (\<lambda>ck. ck\<lparr>ck_last_sequence := ev_sequence event\<rparr>)))) (\<lambda>_.
              ret p)))
             (\<lambda>exc. if aborts_transaction exc then raise exc
              else bindE (deliver_failed k (fst entry) c exc) (\<lambda>retry. ret (p \<or> retry)))))) t)"
  proof (cases "map_of (snd entry) (ev_event_type event)")
    case None
    then show ?thesis by (simp add: eff_refl)
  next
    case (Some h)
    then have h: "in_log u event \<Longrightarrow> R u (state_after (h event) u)" for u
      using assms [OF map_of_SomeD] by (simp add: handles_within_def)
    show ?thesis unfolding Some option.case
    proof (intro eff_at_then [OF eff_get_or_create_consumer] eff_at_then [OF eff_get_or_create_checkpoint])
      fix u c v ck
      assume "get_or_create_consumer (fst entry) t = (u, Inr c)"
        and "get_or_create_checkpoint (con_id c) (ev_aggregate_type event) (uuid_str (ev_aggregate_id event)) u = (v, Inr ck)"
      then have "log_extends t u" "log_extends u v"
        using effects_result [OF logx.eff_get_or_create_consumer] effects_result [OF logx.eff_get_or_create_checkpoint] by blast+
      with log have "in_log v event" using in_log_extends by blast
      then show "R v (state_after (if ev_sequence event \<le> ck_last_sequence ck then ret p
         else try_except (bindE (h event) (\<lambda>_.
              bindE (modify (checkpoints_update (upd_row ck_id (ck_id ck) (\<lambda>ck. ck\<lparr>ck_last_sequence := ev_sequence event\<rparr>)))) (\<lambda>_.
              ret p)))
             (\<lambda>exc. if aborts_transaction exc then raise exc
              else bindE (deliver_failed k (fst entry) c exc) (\<lambda>retry. ret (p \<or> retry)))) v)"
        using effectsD [OF eff_ret]
        by (cases "ev_sequence event \<le> ck_last_sequence ck", simp, simp only: if_False)
          (intro eff_at_try eff_at_bind h frame_rules eff_deliver_failed)
    qed
  qed
qed

lemma eff_deliver_all:
  assumes "\<And>n hs et h. (n, hs) \<in> set reg \<Longrightarrow> (et, h) \<in> set hs \<Longrightarrow> handles_within R et h"
  shows "effects R (deliver_all k reg p)"
  using assms
proof (induction reg arbitrary: p)
  case Nil
  show ?case unfolding deliver_all.simps by (rule eff_ret)
next
  case (Cons entry reg)
  have "effects R (deliver_to k entry p)"
    using Cons.prems [of "fst entry" "snd entry"] by (intro eff_deliver_to) auto
  moreover have "effects R (deliver_all k reg q)" for q
  proof (rule Cons.IH)
    fix n hs et h assume "(n, hs) \<in> set reg" "(et, h) \<in> set hs"
    then show "handles_within R et h" by (intro Cons.prems [of n hs et h]) simp_all
  qed
  ultimately show ?case unfolding deliver_all.simps by (rule eff_bind)
qed

lemma eff_dispatch_one:
  assumes "\<And>n hs et h. (n, hs) \<in> set reg \<Longrightarrow> (et, h) \<in> set hs \<Longrightarrow> handles_within R et h"
  shows "effects R (dispatch_one reg k)"
  unfolding dispatch_one_def
  by (intro frame_rules eff_set_event eff_deliver_all assms) (simp_all add: ev_ident_def)

lemma eff_poll_and_dispatch:
  assumes "\<And>n hs et h. (n, hs) \<in> set reg \<Longrightarrow> (et, h) \<in> set hs \<Longrightarrow> handles_within R et h"
  shows "effects R (poll_and_dispatch reg n)"
  unfolding poll_and_dispatch_def
  by (intro frame_rules eff_dispatch_one) (rule assms)

lemma on_review_within: "handles_within R (if approved then REVIEW_APPROVED else REVIEW_REJECTED) (on_review approved)"
  unfolding handles_within_def
proof (intro allI impI, elim conjE)
  fix s ev
  assume log: "in_log s ev" and et: "ev_event_type ev = (if approved then REVIEW_APPROVED else REVIEW_REJECTED)"
  show "R s (state_after (on_review approved ev) s)"
  proof (cases "payload_gate ev")
    case (Inr gid)
    from eff_resume [OF in_log_verdict [OF log Inr et]] show ?thesis
      by (auto simp: on_review_def Inr eff_refl dest: find_row_SomeD split: option.split)
  qed (simp add: on_review_def eff_refl)
qed

lemma eff_relay_tick: "effects R (poll_and_dispatch (register_all []) n)"
  using on_review_within [of True] on_review_within [of False]
  by (intro eff_poll_and_dispatch) (auto simp: register_all_empty)

end

lemma mark_keeps:
  assumes "\<And>e. ev_ident (f e) = ev_ident e"
  shows "map ev_ident (upd_row ev_event_id k f es) = map ev_ident es"
  using assms by (induction es) auto

lemma numbered_of_ident:
  assumes "map ev_ident (outbox t) = map ev_ident (outbox s)"
  shows "numbered t = numbered s"
proof -
  let ?agg = "\<lambda>(a, b, aty, ai, sq, p). (aty, ai)" and ?seq = "\<lambda>(a, b, aty, ai, sq, p). sq"
  have "map ev_sequence (agg_events u aty ai) = map ?seq (filter (\<lambda>i. ?agg i = (aty, ai)) (map ev_ident (outbox u)))" for u aty ai
    by (simp add: agg_events_def filter_map comp_def ev_ident_def)
  then have eq: "map ev_sequence (agg_events t aty ai) = map ev_sequence (agg_events s aty ai)" for aty ai
    using assms by simp
  have "length (agg_events t aty ai) = length (agg_events s aty ai)" for aty ai
    using arg_cong [OF eq, of length] by simp
  with eq show ?thesis unfolding numbered_def by simp
qed

interpretation numb: relay_frame "\<lambda>s t. numbered s \<longrightarrow> numbered t"
proof unfold_locales
  fix f :: "outbox_event \<Rightarrow> outbox_event" and s :: session and k
  assume "\<And>e. ev_ident (f e) = ev_ident e"
  then have "map ev_ident (outbox (outbox_update (upd_row ev_event_id k f) s)) = map ev_ident (outbox s)"
    by (simp add: mark_keeps)
  then show "numbered s \<longrightarrow> numbered (outbox_update (upd_row ev_event_id k f) s)"
    using numbered_of_ident by blast
qed (rule effectsD [OF numb.rows_resume])

interpretation logx: relay_frame log_extends
  by unfold_locales (simp add: log_extends_def mark_keeps, rule effectsD [OF logx.rows_resume])

interpretation conf: relay_frame same_config
  by unfold_locales (simp add: same_config_def, rule effectsD [OF conf.rows_resume])

section \<open>Redelivery\<close>

definition ready_for :: "session \<Rightarrow> string \<Rightarrow> outbox_event \<Rightarrow> event_consumer \<Rightarrow> consumer_checkpoint \<Rightarrow> bool" where
  \<comment> \<open>the consumer and its checkpoint for the event's aggregate exist\<close>
  "ready_for s name ev c ck \<longleftrightarrow> filter (\<lambda>c. con_name c = name) (consumers s) = [c]
     \<and> filter (partition_of (con_id c) (ev_aggregate_type ev) (uuid_str (ev_aggregate_id ev))) (checkpoints s) = [ck]"

definition caught_up :: "session \<Rightarrow> string \<times> (string \<times> handler) list \<Rightarrow> outbox_event \<Rightarrow> bool" where
  "caught_up s entry ev \<longleftrightarrow> (\<exists>c ck. ready_for s (fst entry) ev c ck \<and> ev_sequence ev \<le> ck_last_sequence ck)"

lemma deliver_unhandled:
  "find_event s k = Some ev \<Longrightarrow> map_of (snd entry) (ev_event_type ev) = None \<Longrightarrow> deliver_to k entry p s = (s, Inr p)"
  by (simp add: deliver_to_def)

lemma deliver_ready:
  assumes "find_event s k = Some ev" and "map_of (snd entry) (ev_event_type ev) = Some h"
    and "ready_for s (fst entry) ev c ck"
  shows "deliver_to k entry p s = (if ev_sequence ev \<le> ck_last_sequence ck then (s, Inr p)
    else case h ev s of
      (t, Inr _) \<Rightarrow> (checkpoints_update (upd_row ck_id (ck_id ck) (\<lambda>x. x\<lparr>ck_last_sequence := ev_sequence ev\<rparr>)) t, Inr p)
    | (t, Inl e) \<Rightarrow> if aborts_transaction e then (t, Inl e)
        else bindE (deliver_failed k (fst entry) c e) (\<lambda>retry. ret (p \<or> retry)) t)"
proof -
  have con: "get_or_create_consumer (fst entry) s = (s, Inr c)"
    using assms(3) by (simp add: ready_for_def get_or_create_consumer_def)
  have chk: "get_or_create_checkpoint (con_id c) (ev_aggregate_type ev) (uuid_str (ev_aggregate_id ev)) s = (s, Inr ck)"
    using assms(3) by (simp add: ready_for_def get_or_create_checkpoint_def)
  show ?thesis
    using assms(1,2)
    by (cases "h ev s") (auto simp: deliver_to_def bindE_Inr [where m = "get_or_create_consumer (fst entry)", OF con]
        bindE_Inr [where m = "get_or_create_checkpoint (con_id c) (ev_aggregate_type ev) (uuid_str (ev_aggregate_id ev))", OF chk]
        try_except_def bindE_Inr [where m = "h ev"] bindE_Inl [where m = "h ev"] split: sum.splits)
qed

lemma deliver_all_caught_up:
  assumes "find_event s k = Some ev"
    and "\<forall>entry \<in> set reg. map_of (snd entry) (ev_event_type ev) \<noteq> None \<longrightarrow> caught_up s entry ev"
  shows "deliver_all k reg p s = (s, Inr p)"
  using assms(2)
proof (induction reg)
  case Nil
  show ?case by simp
next
  case (Cons entry reg)
  have "deliver_to k entry p s = (s, Inr p)"
  proof (cases "map_of (snd entry) (ev_event_type ev)")
    case None
    with assms(1) show ?thesis by (rule deliver_unhandled)
  next
    case (Some h)
    with Cons.prems have "caught_up s entry ev" by simp
    then obtain c ck where ck: "ready_for s (fst entry) ev c ck" "ev_sequence ev \<le> ck_last_sequence ck"
      unfolding caught_up_def by blast
    with deliver_ready [OF assms(1) Some ck(1), of p] show ?thesis by simp
  qed
  with Cons show ?case by (simp add: bindE_Inr [where m = "deliver_to k entry p"])
qed

lemma dispatch_caught_up:
  assumes "find_event s k = Some ev"
    and "\<forall>entry \<in> set reg. map_of (snd entry) (ev_event_type ev) \<noteq> None \<longrightarrow> caught_up s entry ev"
  shows "dispatch_one reg k s =
    (if ev_status ev = EvPoison then s
     else outbox_update (upd_row ev_event_id k (\<lambda>e. e\<lparr>ev_status := EvDispatched\<rparr>)) s, Inr ())"
  using assms(1)
  by (simp add: dispatch_one_def bindE_Inr [where m = "deliver_all k reg False", OF deliver_all_caught_up [OF assms]] whenE_def)

text \<open>
  Redelivering an event that every consumer of its type has passed runs no handler: the
  only change is that the event is marked dispatched, unless it is poisoned.
\<close>

theorem redelivery_runs_no_handler:
  assumes "find_event s k = Some ev"
    and "\<forall>entry \<in> set reg. map_of (snd entry) (ev_event_type ev) \<noteq> None \<longrightarrow> caught_up s entry ev"
  shows "dispatch_one reg k s =
    (if ev_status ev = EvPoison then s
     else outbox_update (upd_row ev_event_id k (\<lambda>e. e\<lparr>ev_status := EvDispatched\<rparr>)) s, Inr ())"
  using assms by (rule dispatch_caught_up)

section \<open>Lost events\<close>

lemma dispatch_fails_once:
  assumes "find_event s k = Some ev" and "map_of hs (ev_event_type ev) = Some h"
    and "ready_for s name ev c ck" and "ck_last_sequence ck < ev_sequence ev"
    and "h ev s = (t, Inl e)" and "\<not> aborts_transaction e" and "find_event t k = Some ev"
    and "ev_delivery_attempts ev + 1 < con_max_delivery_attempts c"
  shows "dispatch_one [(name, hs)] k s =
    (outbox_update (upd_row ev_event_id k (\<lambda>x. x\<lparr>ev_delivery_attempts := ev_delivery_attempts x + 1\<rparr>)) t, Inr ())"
proof -
  have to: "deliver_to k (name, hs) False s =
    (outbox_update (upd_row ev_event_id k (\<lambda>x. x\<lparr>ev_delivery_attempts := ev_delivery_attempts x + 1\<rparr>)) t, Inr True)"
    using assms(4-8) deliver_ready [OF assms(1), of "(name, hs)" h c ck False] assms(2,3)
    by (simp add: deliver_failed_def find_row_upd_row)
  from assms(7) show ?thesis
    by (simp add: dispatch_one_def bindE_Inr [where m = "deliver_to k (name, hs) False", OF to] find_row_upd_row)
qed

lemma dispatch_succeeds:
  assumes "find_event s k = Some ev" and "map_of hs (ev_event_type ev) = Some h"
    and "ready_for s name ev c ck" and "ck_last_sequence ck < ev_sequence ev"
    and "h ev s = (t, Inr ())" and "find_event t k = Some ev" and "ev_status ev = EvPending"
  shows "dispatch_one [(name, hs)] k s =
    (outbox_update (upd_row ev_event_id k (\<lambda>x. x\<lparr>ev_status := EvDispatched\<rparr>))
      (checkpoints_update (upd_row ck_id (ck_id ck) (\<lambda>x. x\<lparr>ck_last_sequence := ev_sequence ev\<rparr>)) t), Inr ())"
proof -
  have to: "deliver_to k (name, hs) False s =
    (checkpoints_update (upd_row ck_id (ck_id ck) (\<lambda>x. x\<lparr>ck_last_sequence := ev_sequence ev\<rparr>)) t, Inr False)"
    using assms(4,5) deliver_ready [OF assms(1), of "(name, hs)" h c ck False] assms(2,3) by simp
  from assms(6,7) show ?thesis
    by (simp add: dispatch_one_def bindE_Inr [where m = "deliver_to k (name, hs) False", OF to] whenE_def)
qed

lemma filter_upd_row_single:
  assumes "filter P rows = [r]" and "\<And>x. P (f x) = P x"
  shows "filter P (upd_row key (key r) f rows) = [f r]"
proof -
  have "filter P (upd_row key (key r) f rows) = map (\<lambda>x. if key x = key r then f x else x) (filter P rows)"
    using assms(2) by (induction rows) auto
  with assms(1) show ?thesis by simp
qed

text \<open>
  A failed event is dropped once a later event of its aggregate has been delivered. The
  first delivery fails and leaves the event pending for another attempt; the later event
  moves the consumer's checkpoint past it; the next delivery then skips the handler and marks
  the failed event dispatched, although no handler has ever accepted it.
\<close>

theorem overtaken_event_is_dropped:
  assumes "find_event s k1 = Some e1" and "find_event s k2 = Some e2" and "k1 \<noteq> k2"
    and "ev_aggregate_type e2 = ev_aggregate_type e1" and "ev_aggregate_id e2 = ev_aggregate_id e1"
    and "ev_sequence e1 < ev_sequence e2" and "ev_status e1 = EvPending" and "ev_status e2 = EvPending"
    and "map_of hs (ev_event_type e1) = Some h1" and "map_of hs (ev_event_type e2) = Some h2"
    and "ready_for s name e1 c ck" and "ck_last_sequence ck < ev_sequence e1"
    and "h1 e1 s = (s, Inl e)" and "\<not> aborts_transaction e"
    and "h2 e2 (outbox_update (upd_row ev_event_id k1 (\<lambda>x. x\<lparr>ev_delivery_attempts := ev_delivery_attempts x + 1\<rparr>)) s) =
      (outbox_update (upd_row ev_event_id k1 (\<lambda>x. x\<lparr>ev_delivery_attempts := ev_delivery_attempts x + 1\<rparr>)) s, Inr ())"
    and "ev_delivery_attempts e1 + 1 < con_max_delivery_attempts c"
  shows "\<exists>s1 s2 s3. dispatch_one [(name, hs)] k1 s = (s1, Inr ())
    \<and> map_option ev_status (find_event s1 k1) = Some EvPending
    \<and> dispatch_one [(name, hs)] k2 s1 = (s2, Inr ())
    \<and> dispatch_one [(name, hs)] k1 s2 = (s3, Inr ())
    \<and> map_option ev_status (find_event s3 k1) = Some EvDispatched"
proof -
  define s1 where "s1 = outbox_update (upd_row ev_event_id k1
    (\<lambda>x. x\<lparr>ev_delivery_attempts := ev_delivery_attempts x + 1\<rparr>)) s"
  define ck' where "ck' = ck\<lparr>ck_last_sequence := ev_sequence e2\<rparr>"
  define e1' where "e1' = e1\<lparr>ev_delivery_attempts := ev_delivery_attempts e1 + 1\<rparr>"
  define s2 where "s2 = outbox_update (upd_row ev_event_id k2 (\<lambda>x. x\<lparr>ev_status := EvDispatched\<rparr>))
      (checkpoints_update (upd_row ck_id (ck_id ck) (\<lambda>x. x\<lparr>ck_last_sequence := ev_sequence e2\<rparr>)) s1)"
  have first: "dispatch_one [(name, hs)] k1 s = (s1, Inr ())"
    unfolding s1_def by (rule dispatch_fails_once [OF assms(1,9,11-14) assms(1,16)])
  have ev1: "find_event s1 k1 = Some e1'" "find_event s1 k2 = Some e2"
    using assms(1-3) by (simp_all add: s1_def e1'_def find_row_upd_row)
  have ready2: "ready_for s1 name e2 c ck" using assms(4,5,11) by (simp add: ready_for_def s1_def)
  have second: "dispatch_one [(name, hs)] k2 s1 = (s2, Inr ())"
    unfolding s2_def
    by (rule dispatch_succeeds [OF ev1(2) assms(10) ready2 _ assms(15) [folded s1_def] ev1(2) assms(8)]) (use assms(6,12) in simp)
  have ev2: "find_event s2 k1 = Some e1'" using ev1(1) assms(3) by (simp add: s2_def find_row_upd_row)
  have "filter (partition_of (con_id c) (ev_aggregate_type e1) (uuid_str (ev_aggregate_id e1))) (checkpoints s2) = [ck']"
    using assms(11) unfolding ready_for_def s2_def s1_def ck'_def
    by (simp add: filter_upd_row_single partition_of_def)
  then have "ready_for s2 name e1' c ck'"
    using assms(11) by (simp add: ready_for_def e1'_def s2_def s1_def)
  then have "caught_up s2 (name, hs) e1'"
    using assms(6) unfolding caught_up_def
    by (intro exI [of _ c] exI [of _ ck']) (simp add: ck'_def e1'_def)
  then have third: "dispatch_one [(name, hs)] k1 s2 =
      (outbox_update (upd_row ev_event_id k1 (\<lambda>e. e\<lparr>ev_status := EvDispatched\<rparr>)) s2, Inr ())"
    using dispatch_caught_up [OF ev2, of "[(name, hs)]"] assms(7) by (simp add: e1'_def)
  have "map_option ev_status (find_event (outbox_update (upd_row ev_event_id k1 (\<lambda>e. e\<lparr>ev_status := EvDispatched\<rparr>)) s2) k1)
      = Some EvDispatched" using ev2 by (simp add: find_row_upd_row)
  moreover have "map_option ev_status (find_event s1 k1) = Some EvPending"
    using ev1(1) assms(7) by (simp add: e1'_def)
  ultimately show ?thesis using first second third by blast
qed

definition dead_end :: "session \<Rightarrow> pipeline_run \<Rightarrow> content_stage \<Rightarrow> bool" where
  \<comment> \<open>the stage is not terminal and has no transition for an approval\<close>
  "dead_end s run st \<longleftrightarrow> (\<exists>def w. run_definition_id run = Some def \<and> candidate_transitions s def st OnReviewApproved = []
     \<and> stage_of s def st = Some w \<and> \<not> wst_is_terminal w)"

lemma approval_at_dead_end:
  assumes "find_gate s gid = Some gate" and "gate_status gate = GateAwaiting"
    and "find_run s (gate_pipeline_run_id gate) = Some run" and "unique_stages s" and "dead_end s run (gate_stage gate)"
  shows "resume_from_review gid True s =
    (runs_update (upd_row run_id (gate_pipeline_run_id gate) (\<lambda>r. r\<lparr>run_status := RunRunning, run_pause_reason := None\<rparr>))
       (gates_update (upd_row gate_id gid (\<lambda>g. g\<lparr>gate_status := GateApproved, gate_decided_at := Some (clock s)\<rparr>)) s),
     Inl (ValueError ''no matching transition''))"
proof -
  from assms(5) obtain def w where d: "run_definition_id run = Some def"
    "candidate_transitions s def (gate_stage gate) OnReviewApproved = []" "stage_of s def (gate_stage gate) = Some w"
    "\<not> wst_is_terminal w" unfolding dead_end_def by blast
  let ?s = "runs_update (upd_row run_id (gate_pipeline_run_id gate) (\<lambda>r. r\<lparr>run_status := RunRunning, run_pause_reason := None\<rparr>))
       (gates_update (upd_row gate_id gid (\<lambda>g. g\<lparr>gate_status := GateApproved, gate_decided_at := Some (clock s)\<rparr>)) s)"
  have "unique_stages ?s" "candidate_transitions ?s def (gate_stage gate) OnReviewApproved = []"
      "stage_of ?s def (gate_stage gate) = Some w"
    using assms(4) d by (simp_all add: unique_stages_def candidate_transitions_def stage_of_def)
  with assms(3) d(1,4) show ?thesis
    by (simp add: resume_approved_apply [OF assms(1-3)] advance_or_finish_def find_row_upd_row definition_id_def
        find_transition_def)
qed


section \<open>Witnesses\<close>

definition relay_consumer :: event_consumer where
  "relay_consumer = \<lparr>con_id = 500, con_name = ''pipeline-controller'', con_max_delivery_attempts = 10\<rparr>"

definition relay_checkpoint :: consumer_checkpoint where
  "relay_checkpoint = \<lparr>ck_id = 501, ck_consumer_id = 500, ck_aggregate_type = ''pipeline_run'',
     ck_partition_key = uuid_str 10, ck_last_sequence = 0\<rparr>"

definition review_event :: "uuid \<Rightarrow> int \<Rightarrow> json_obj \<Rightarrow> outbox_event" where
  "review_event k n payload = \<lparr>ev_event_id = k, ev_workspace_id = 1, ev_event_type = REVIEW_APPROVED, ev_event_version = 1,
     ev_aggregate_type = ''pipeline_run'', ev_aggregate_id = 10, ev_correlation_id = 2, ev_causation_id = None,
     ev_trace_id = None, ev_span_id = None, ev_sequence = n, ev_payload = payload, ev_status = EvPending,
     ev_delivery_attempts = 0, ev_occurred_at = 0, ev_produced_by = ''review_hook''\<rparr>"

definition relay_sample :: "session" where
  "relay_sample = empty_session\<lparr>consumers := [relay_consumer], checkpoints := [relay_checkpoint],
     outbox := [review_event 601 1 [], review_event 602 2 [(''review_gate_id'', JStr (uuid_str 70))]]\<rparr>"

theorem redelivery_runs_no_handler_witness:
  "dispatch_one (register_all []) 601 (relay_sample\<lparr>checkpoints := [relay_checkpoint\<lparr>ck_last_sequence := 1\<rparr>]\<rparr>) =
    (outbox_update (upd_row ev_event_id 601 (\<lambda>e. e\<lparr>ev_status := EvDispatched\<rparr>))
      (relay_sample\<lparr>checkpoints := [relay_checkpoint\<lparr>ck_last_sequence := 1\<rparr>]\<rparr>), Inr ())"
proof -
  let ?s = "relay_sample\<lparr>checkpoints := [relay_checkpoint\<lparr>ck_last_sequence := 1\<rparr>]\<rparr>"
  have "find_event ?s 601 = Some (review_event 601 1 [])" by (simp add: relay_sample_def review_event_def)
  moreover have "caught_up ?s (''pipeline-controller'', hs) (review_event 601 1 [])" for hs
    unfolding caught_up_def by (intro exI [of _ relay_consumer] exI [of _ "relay_checkpoint\<lparr>ck_last_sequence := 1\<rparr>"])
      (simp add: ready_for_def relay_sample_def relay_consumer_def relay_checkpoint_def review_event_def partition_of_def)
  ultimately show ?thesis
    using redelivery_runs_no_handler [where s = ?s and k = 601 and ev = "review_event 601 1 []" and reg = "register_all []"]
    by (simp add: register_all_empty review_event_def)
qed

theorem overtaken_event_is_dropped_witness:
  "\<exists>s1 s2 s3. dispatch_one (register_all []) 601 relay_sample = (s1, Inr ())
    \<and> dispatch_one (register_all []) 602 s1 = (s2, Inr ()) \<and> dispatch_one (register_all []) 601 s2 = (s3, Inr ())
    \<and> map_option ev_status (find_event s3 601) = Some EvDispatched"
proof -
  let ?p = "[(''review_gate_id'', JStr (uuid_str 70))]" and ?hs = "[(REVIEW_APPROVED, on_review True), (REVIEW_REJECTED, on_review False)]"
  have ev: "find_event relay_sample 601 = Some (review_event 601 1 [])" "find_event relay_sample 602 = Some (review_event 602 2 ?p)"
    by (simp_all add: relay_sample_def review_event_def)
  have ready: "ready_for relay_sample ''pipeline-controller'' (review_event 601 1 []) relay_consumer relay_checkpoint"
    by (simp add: ready_for_def relay_sample_def relay_consumer_def relay_checkpoint_def review_event_def partition_of_def)
  have "payload_gate (review_event 602 2 ?p) = Inr 70"
    by (simp add: payload_gate_def review_event_def uuid_of_str_uuid_str)
  moreover have "gates relay_sample = []" by (simp add: relay_sample_def empty_session_def)
  ultimately have "on_review True (review_event 602 2 ?p) (outbox_update f relay_sample) = (outbox_update f relay_sample, Inr ())" for f
    by (simp add: on_review_def)
  moreover have "on_review True (review_event 601 1 []) relay_sample = (relay_sample, Inl (KeyError ''review_gate_id''))"
    by (simp add: on_review_def payload_gate_def review_event_def)
  ultimately show ?thesis
    using overtaken_event_is_dropped [OF ev _ _ _ _ _ _ _ _ ready, of ?hs "on_review True" "on_review True" "KeyError ''review_gate_id''"]
    by (simp add: register_all_empty review_event_def relay_checkpoint_def relay_consumer_def) blast
qed

definition stranded_sample :: session where
  \<comment> \<open>a gate awaiting a decision on a stage without a transition for approval\<close>
  "stranded_sample = (gate_sample RunPaused)\<lparr>wf_transitions := [], consumers := [relay_consumer],
     checkpoints := [relay_checkpoint], outbox := [review_event 602 2 [(''review_gate_id'', JStr (uuid_str 70))]]\<rparr>"


end
