(* ===== verification/Fleet.thy ===== *)
theory Fleet
  imports Relay
begin

text \<open>
  The worker fleet: liveness and the server-driven offline sweep (\<open>services/workers.py\<close>)
  and the provider effect keys (\<open>orchestration/provider_effects.py\<close>), which keep a
  recovered assignment from firing its provider call a second time. The lemmas show when
  the sweep and the reported liveness agree, and that an assignment reserves its effect at
  most once whatever attempts it takes and whatever the engine does in between.
\<close>

section \<open>Liveness\<close>

definition LIVENESS_HEALTHY :: string where "LIVENESS_HEALTHY = ''healthy''"
definition LIVENESS_SUSPECT :: string where "LIVENESS_SUSPECT = ''suspect''"
definition LIVENESS_DEAD :: string where "LIVENESS_DEAD = ''dead''"

lemmas liveness_defs = LIVENESS_HEALTHY_def LIVENESS_SUSPECT_def LIVENESS_DEAD_def

definition compute_liveness :: "datetime option \<Rightarrow> datetime \<Rightarrow> int \<Rightarrow> int \<Rightarrow> string" where
  "compute_liveness last_heartbeat_at now suspect_after_seconds offline_after_seconds =
     (case last_heartbeat_at of
        None \<Rightarrow> LIVENESS_DEAD
      | Some t \<Rightarrow>
          let age = total_seconds (now - t) in
          if age < of_int suspect_after_seconds then LIVENESS_HEALTHY
          else if age < of_int offline_after_seconds then LIVENESS_SUSPECT
          else LIVENESS_DEAD)"

definition stale_worker :: "datetime \<Rightarrow> int \<Rightarrow> worker_registration \<Rightarrow> bool" where
  \<comment> \<open>the \<open>where\<close> clause of the sweep\<close>
  "stale_worker now offline_after_seconds w \<longleftrightarrow>
     wk_deregistered_at w = None \<and> wk_status w \<noteq> WorkerOffline \<and>
     (case wk_last_heartbeat_at w of None \<Rightarrow> True
      | Some t \<Rightarrow> t < now - seconds offline_after_seconds)"

definition select_stale_worker_ids :: "int \<Rightarrow> datetime option \<Rightarrow> uuid list svc" where
  "select_stale_worker_ids offline_after_seconds now =
     bindE utcnow (\<lambda>clk.
     gets (\<lambda>s. map wk_id (filter
       (\<lambda>w. stale_worker (opt_or now clk) offline_after_seconds w \<and> unlocked s (wk_id w)) (workers s))))"

definition go_offline :: "worker_registration \<Rightarrow> worker_registration" where
  "go_offline w = w\<lparr>wk_status := WorkerOffline, wk_current_load := 0\<rparr>"

definition mark_stale_workers_offline :: "int \<Rightarrow> datetime option \<Rightarrow> uuid list svc" where
  "mark_stale_workers_offline offline_after_seconds now =
     bindE utcnow (\<lambda>clk.
     bindE (select_stale_worker_ids offline_after_seconds (Some (opt_or now clk))) (\<lambda>stale_ids.
     if stale_ids = [] then ret []
     else
       bindE (modify (workers_update
         (map (\<lambda>w. if wk_id w \<in> set stale_ids then go_offline w else w)))) (\<lambda>_.
       ret stale_ids)))"

section \<open>Provider effect keys\<close>

record effect_key_result =
  ekr_effect_key :: string
  ekr_created :: bool

definition default_effect_key :: "uuid \<Rightarrow> int \<Rightarrow> string" where
  \<comment> \<open>the attempt number is deliberately not part of the key\<close>
  "default_effect_key assignment_id attempt_number = uuid_str assignment_id"

definition key_taken :: "session \<Rightarrow> uuid \<Rightarrow> string \<Rightarrow> bool" where
  \<comment> \<open>the unique constraint \<open>uq_provider_effect_keys_ws_key\<close>\<close>
  "key_taken s workspace_id key \<longleftrightarrow>
     list_ex (\<lambda>k. pek_workspace_id k = workspace_id \<and> pek_effect_key k = key) (effect_keys s)"

definition insert_effect_key :: "uuid \<Rightarrow> uuid \<Rightarrow> int \<Rightarrow> string \<Rightarrow> string \<Rightarrow> unit svc" where
  "insert_effect_key workspace_id assignment_id attempt_number effect_kind key =
     bindE uuid4 (\<lambda>u.
     bindE (gets (\<lambda>s. key_taken s workspace_id key)) (\<lambda>taken.
     if taken then raise (IntegrityError ''uq_provider_effect_keys_ws_key'')
     else modify (effect_keys_update (\<lambda>ks. ks @ [\<lparr>pek_id = u, pek_workspace_id = workspace_id,
       pek_assignment_id = assignment_id, pek_attempt_number = attempt_number,
       pek_effect_key = key, pek_effect_kind = effect_kind\<rparr>]))))"

definition ensure_provider_effect_key ::
  "uuid \<Rightarrow> uuid \<Rightarrow> int \<Rightarrow> string \<Rightarrow> string option \<Rightarrow> effect_key_result svc" where
  "ensure_provider_effect_key workspace_id assignment_id attempt_number effect_kind effect_key =
     (let key = or_str effect_key (default_effect_key assignment_id attempt_number) in
      try_except
        (bindE (savepoint (insert_effect_key workspace_id assignment_id attempt_number effect_kind key)) (\<lambda>_.
         ret \<lparr>ekr_effect_key = key, ekr_created = True\<rparr>))
        (\<lambda>exc. case exc of
           IntegrityError _ \<Rightarrow> ret \<lparr>ekr_effect_key = key, ekr_created = False\<rparr>
         | _ \<Rightarrow> raise exc))"

definition stage_execute :: string where
  \<comment> \<open>the default of the parameter \<open>effect_kind\<close>\<close>
  "stage_execute = ''stage_execute''"

section \<open>What the fleet operations may do\<close>

locale fleet_frame = relay_frame R for R :: "session \<Rightarrow> session \<Rightarrow> bool" +
  assumes eff_new_key: "R s (effect_keys_update (\<lambda>ks. ks @ [k]) s)"
begin

lemma eff_insert_effect_key: "effects R (insert_effect_key ws aid n kind key)"
  unfolding insert_effect_key_def by (intro frame_rules eff_modify eff_new_key)

lemma eff_ensure_provider_effect_key: "effects R (ensure_provider_effect_key ws aid n kind key)"
  unfolding ensure_provider_effect_key_def Let_def
  by (intro frame_rules eff_insert_effect_key) (auto split: py_error.split intro: frame_rules)

lemma eff_mark_stale_workers_offline: "effects R (mark_stale_workers_offline n now)"
  unfolding mark_stale_workers_offline_def select_stale_worker_ids_def by (intro frame_rules)

lemmas fleet_rules = scheduler_rules eff_ensure_provider_effect_key eff_mark_stale_workers_offline

end

text \<open>
  A relation that ignores every table the engine writes includes all of its operations;
  relations that say something about gates or decisions have to give the laws of
  \<open>engine_frame\<close> and \<open>relay_frame\<close> instead.
\<close>

locale row_frame = table_frame R for R :: "session \<Rightarrow> session \<Rightarrow> bool" +
  assumes row_mark: "(\<And>e. ev_ident (f e) = ev_ident e) \<Longrightarrow> R s (outbox_update (upd_row ev_event_id k f) s)"
    and row_new_key: "R s (effect_keys_update (\<lambda>ks. ks @ [ek]) s)"
begin

lemma fleet: "fleet_frame R"
  by (intro fleet_frame.intro relay_frame.intro relay_frame_axioms.intro fleet_frame_axioms.intro reviews
      row_mark row_new_key effectsD [OF rows_resume])

end

interpretation numb: fleet_frame "\<lambda>s t. numbered s \<longrightarrow> numbered t"
  by unfold_locales (auto intro: numbered_cong [THEN iffD2])

interpretation logx: fleet_frame log_extends
  by unfold_locales (auto simp: log_extends_def)

interpretation conf: fleet_frame same_config
  by unfold_locales (simp add: same_config_def)

text \<open>Effect keys are only ever added: no operation of the engine removes or rewrites one.\<close>

definition keys_grow :: "session \<Rightarrow> session \<Rightarrow> bool" where
  "keys_grow s t \<longleftrightarrow> (\<exists>ks. effect_keys t = effect_keys s @ ks)"

interpretation keyg: row_frame keys_grow
proof unfold_locales
  show "keys_grow s u" if "keys_grow s t" "keys_grow t u" for s t u
    using that by (auto simp: keys_grow_def)
qed (auto simp: keys_grow_def)

interpretation keyg: fleet_frame keys_grow
  by (rule keyg.fleet)

text \<open>Identifiers are drawn in order, so one that has been drawn is never drawn again.\<close>

definition ids_grow :: "session \<Rightarrow> session \<Rightarrow> bool" where
  "ids_grow s t \<longleftrightarrow> next_uuid s \<le> next_uuid t"

interpretation idsg: row_frame ids_grow
  by unfold_locales (auto simp: ids_grow_def)

interpretation idsg: fleet_frame ids_grow
  by (rule idsg.fleet)

section \<open>One effect per assignment\<close>

definition effect_key_of :: "uuid \<Rightarrow> string option \<Rightarrow> string" where
  "effect_key_of aid ek = or_str ek (uuid_str aid)"

definition new_effect_key :: "uuid \<Rightarrow> uuid \<Rightarrow> int \<Rightarrow> string \<Rightarrow> string \<Rightarrow> session \<Rightarrow> session" where
  "new_effect_key ws aid n kind key s = s\<lparr>next_uuid := Suc (next_uuid s),
     effect_keys := effect_keys s @ [\<lparr>pek_id = next_uuid s, pek_workspace_id = ws, pek_assignment_id = aid,
       pek_attempt_number = n, pek_effect_key = key, pek_effect_kind = kind\<rparr>]\<rparr>"

lemma insert_effect_key_apply:
  "insert_effect_key ws aid n kind key s =
    (if key_taken s ws key then (s\<lparr>next_uuid := Suc (next_uuid s)\<rparr>, Inl (IntegrityError ''uq_provider_effect_keys_ws_key''))
     else (new_effect_key ws aid n kind key s, Inr ()))"
  by (simp add: insert_effect_key_def key_taken_def new_effect_key_def)

lemma ensure_effect_key_apply:
  "ensure_provider_effect_key ws aid n kind ek s =
    (if key_taken s ws (effect_key_of aid ek) then (s, Inr \<lparr>ekr_effect_key = effect_key_of aid ek, ekr_created = False\<rparr>)
     else (new_effect_key ws aid n kind (effect_key_of aid ek) s, Inr \<lparr>ekr_effect_key = effect_key_of aid ek, ekr_created = True\<rparr>))"
  by (simp add: ensure_provider_effect_key_def default_effect_key_def effect_key_of_def [symmetric] Let_def
      try_except_def savepoint_def bindE_def insert_effect_key_apply)

lemma key_taken_grow: "keys_grow s t \<Longrightarrow> key_taken s ws key \<Longrightarrow> key_taken t ws key"
  by (auto simp: keys_grow_def key_taken_def list_ex_iff)

lemma key_taken_new: "key_taken (new_effect_key ws aid n kind key s) ws key"
  by (simp add: key_taken_def new_effect_key_def)

lemma ensure_takes_key:
  "ensure_provider_effect_key ws aid n kind ek s = (t, r) \<Longrightarrow> key_taken t ws (effect_key_of aid ek)"
  using key_taken_new by (auto simp: ensure_effect_key_apply split: if_splits)

text \<open>
  Once an attempt of an assignment has reserved the assignment's effect, a later attempt
  (whatever its number and kind) is told that the effect exists and changes nothing, in every
  session the engine can have reached in between.
\<close>

theorem effect_is_reserved_once:
  assumes "ensure_provider_effect_key ws aid n kind None s = (t, Inr r)"
    and "keys_grow t u"
  shows "ensure_provider_effect_key ws aid m kind' None u =
    (u, Inr \<lparr>ekr_effect_key = ekr_effect_key r, ekr_created = False\<rparr>)"
proof -
  have "key_taken u ws (effect_key_of aid None)"
    using assms key_taken_grow ensure_takes_key by blast
  moreover have "ekr_effect_key r = effect_key_of aid None"
    using assms(1) by (auto simp: ensure_effect_key_apply split: if_splits)
  ultimately show ?thesis by (simp add: ensure_effect_key_apply)
qed

theorem effect_is_reserved_once_witness:
  "\<exists>t r u. ensure_provider_effect_key 1 50 1 stage_execute None empty_session = (t, Inr r) \<and> ekr_created r
    \<and> mark_stale_workers_offline 90 None t = (u, Inr [])
    \<and> ensure_provider_effect_key 1 50 2 stage_execute None u =
        (u, Inr \<lparr>ekr_effect_key = ekr_effect_key r, ekr_created = False\<rparr>)"
proof -
  define key where "key = effect_key_of 50 None"
  define t where "t = new_effect_key 1 50 1 stage_execute key empty_session"
  have first: "ensure_provider_effect_key 1 50 1 stage_execute None empty_session =
      (t, Inr \<lparr>ekr_effect_key = key, ekr_created = True\<rparr>)"
    by (simp add: ensure_effect_key_apply key_taken_def empty_session_def t_def key_def)
  have sweep: "mark_stale_workers_offline 90 None t = (t, Inr [])"
    by (simp add: mark_stale_workers_offline_def select_stale_worker_ids_def t_def new_effect_key_def empty_session_def)
  have "keys_grow t t" by (simp add: keys_grow_def)
  from effect_is_reserved_once [OF first this, where m = 2] first sweep show ?thesis by fastforce
qed

section \<open>The sweep and the reported liveness\<close>

lemma age_before: "total_seconds (now - t) < of_int n \<longleftrightarrow> now - seconds n < t"
proof -
  have "total_seconds (now - t) < of_int n \<longleftrightarrow> (of_int (now - t) :: rat) < of_int (n * 1000000)"
    by (simp add: total_seconds_def field_simps)
  also have "\<dots> \<longleftrightarrow> now - t < n * 1000000" by (simp only: of_int_less_iff)
  finally show ?thesis by (auto simp: seconds_def)
qed

lemma liveness_dead_iff:
  assumes "su \<le> off"
  shows "compute_liveness lh now su off = LIVENESS_DEAD \<longleftrightarrow>
    (case lh of None \<Rightarrow> True | Some t \<Rightarrow> t \<le> now - seconds off)"
proof (cases lh)
  case (Some t)
  have "now - seconds off \<le> now - seconds su" using assms by (simp add: seconds_def)
  with Some show ?thesis
    by (auto simp: compute_liveness_def age_before Let_def liveness_defs)
qed (simp add: compute_liveness_def)

definition stale_ids :: "session \<Rightarrow> int \<Rightarrow> uuid list" where
  "stale_ids s off = map wk_id (filter (\<lambda>w. stale_worker (clock s) off w \<and> unlocked s (wk_id w)) (workers s))"

definition swept :: "uuid list \<Rightarrow> worker_registration \<Rightarrow> worker_registration" where
  "swept ids w = (if wk_id w \<in> set ids then go_offline w else w)"

lemma swept_none [simp]: "swept [] = id"
  by (rule ext) (simp add: swept_def)

lemma wk_id_swept [simp]: "wk_id (swept ids w) = wk_id w"
  by (simp add: swept_def go_offline_def)

lemma mark_stale_apply:
  "mark_stale_workers_offline off None s = (workers_update (map (swept (stale_ids s off))) s, Inr (stale_ids s off))"
proof -
  have "select_stale_worker_ids off (Some (clock s)) s = (s, Inr (stale_ids s off))"
    by (simp add: select_stale_worker_ids_def stale_ids_def)
  then have "mark_stale_workers_offline off None s = (if stale_ids s off = [] then (s, Inr [])
      else (workers_update (map (swept (stale_ids s off))) s, Inr (stale_ids s off)))"
    by (simp add: mark_stale_workers_offline_def bindE_Inr [where m = "select_stale_worker_ids off (Some (clock s))"]
        swept_def [abs_def])
  then show ?thesis by simp
qed

lemma stale_ids_iff:
  assumes "distinct (map wk_id (workers s))" and "w \<in> set (workers s)"
  shows "wk_id w \<in> set (stale_ids s off) \<longleftrightarrow> stale_worker (clock s) off w \<and> unlocked s (wk_id w)"
proof
  assume "wk_id w \<in> set (stale_ids s off)"
  then obtain v where v: "v \<in> set (workers s)" "wk_id v = wk_id w" "stale_worker (clock s) off v" "unlocked s (wk_id v)"
    unfolding stale_ids_def by auto
  with assms have "v = w" by (meson distinct_map inj_onD)
  with v show "stale_worker (clock s) off w \<and> unlocked s (wk_id w)" by simp
qed (use assms(2) in \<open>simp add: stale_ids_def\<close>)

text \<open>
  The sweep takes offline exactly the registered workers that were online and whose
  reported liveness is dead (a heartbeat exactly at the threshold aside, which the sweep
  still spares), skipping rows that another transaction holds; it zeroes their load and
  leaves every other worker as it was.
\<close>

theorem offline_sweep_matches_liveness:
  assumes "su \<le> off" and "distinct (map wk_id (workers s))" and "w \<in> set (workers s)"
    and "mark_stale_workers_offline off None s = (t, Inr ids)"
  shows "(wk_id w \<in> set ids \<longleftrightarrow> wk_deregistered_at w = None \<and> wk_status w \<noteq> WorkerOffline
      \<and> compute_liveness (wk_last_heartbeat_at w) (clock s) su off = LIVENESS_DEAD
      \<and> wk_last_heartbeat_at w \<noteq> Some (clock s - seconds off) \<and> unlocked s (wk_id w))
    \<and> find_worker t (wk_id w) = Some (if wk_id w \<in> set ids then go_offline w else w)"
proof (intro conjI)
  have ids: "ids = stale_ids s off" and t: "t = workers_update (map (swept ids)) s"
    using assms(4) by (auto simp: mark_stale_apply)
  show "wk_id w \<in> set ids \<longleftrightarrow> wk_deregistered_at w = None \<and> wk_status w \<noteq> WorkerOffline
      \<and> compute_liveness (wk_last_heartbeat_at w) (clock s) su off = LIVENESS_DEAD
      \<and> wk_last_heartbeat_at w \<noteq> Some (clock s - seconds off) \<and> unlocked s (wk_id w)"
    unfolding ids stale_ids_iff [OF assms(2,3)] liveness_dead_iff [OF assms(1)] stale_worker_def
    by (cases "wk_last_heartbeat_at w") auto
  have "swept ids w \<in> set (workers t)" using assms(3) by (simp add: t)
  moreover have "distinct (map wk_id (workers t))" using assms(2) by (simp add: t comp_def)
  ultimately have "find_worker t (wk_id (swept ids w)) = Some (swept ids w)" by (intro find_row_mem)
  then show "find_worker t (wk_id w) = Some (if wk_id w \<in> set ids then go_offline w else w)"
    by (simp add: swept_def [symmetric])
qed

definition silent_sample :: session where
  \<comment> \<open>a worker whose last heartbeat is two minutes old\<close>
  "silent_sample = empty_session\<lparr>clock := seconds 120, workers := [sample_worker]\<rparr>"

theorem offline_sweep_matches_liveness_witness:
  "\<exists>t. mark_stale_workers_offline 90 None silent_sample = (t, Inr [80])
    \<and> find_worker t 80 = Some (go_offline sample_worker)"
proof -
  let ?s = silent_sample
  have ids: "stale_ids ?s 90 = [80]"
    by (simp add: silent_sample_def stale_ids_def sample_worker_def stale_worker_def seconds_def unlocked_def empty_session_def)
  have run: "mark_stale_workers_offline 90 None ?s = (workers_update (map (swept [80])) ?s, Inr [80])"
    using ids by (simp add: mark_stale_apply)
  have "distinct (map wk_id (workers ?s))" "sample_worker \<in> set (workers ?s)"
    by (simp_all add: silent_sample_def)
  from offline_sweep_matches_liveness [where su = 30, OF _ this run, THEN conjunct2] run show ?thesis
    by (simp add: sample_worker_def)
qed

end
