(* ===== verification/Review.thy ===== *)
theory Review
  imports Fleet
begin

text \<open>
  What review gates promise across the whole engine. A gate is closed by a verdict only when
  the log has a reviewer's verdict on it, and every verdict in the log stands for a decision
  row; a run never waits at two gates. Both are relations that say something about gates, so
  they are given the laws of the engine's frames operation by operation; every component
  above the controller then respects them.
\<close>

section \<open>Verdicts and the decisions behind them\<close>

abbreviation verdict_event :: "bool \<Rightarrow> string" where
  "verdict_event approved \<equiv> (if approved then REVIEW_APPROVED else REVIEW_REJECTED)"

abbreviation verdict_status :: "bool \<Rightarrow> review_gate_status" where
  "verdict_status approved \<equiv> (if approved then GateApproved else GateRejected)"

abbreviation verdict_decision :: "bool \<Rightarrow> review_decision_value" where
  "verdict_decision approved \<equiv> (if approved then DecApproved else DecRejected)"

definition decision_behind :: "session \<Rightarrow> json_obj \<Rightarrow> bool \<Rightarrow> bool" where
  "decision_behind s payload approved \<longleftrightarrow> (\<exists>d \<in> set (decisions s). rd_decision d = verdict_decision approved
     \<and> map_of payload ''decision_id'' = Some (JStr (uuid_str (rd_id d))))"

definition decided_by_people :: "session \<Rightarrow> bool" where
  "decided_by_people s \<longleftrightarrow> (\<forall>ok.
     (\<forall>g \<in> set (gates s). gate_status g = verdict_status ok \<longrightarrow> verdict_logged s (gate_id g) ok) \<and>
     (\<forall>ev \<in> set (outbox s). ev_event_type ev = verdict_event ok \<longrightarrow> decision_behind s (ev_payload ev) ok))"

abbreviation people_kept :: "session \<Rightarrow> session \<Rightarrow> bool" where
  "people_kept \<equiv> \<lambda>s t. decided_by_people s \<longrightarrow> decided_by_people t"

lemma verdict_logged_extends: "verdict_logged s gid ok \<Longrightarrow> log_extends s t \<Longrightarrow> verdict_logged t gid ok"
  unfolding verdict_logged_def using in_log_verdict in_log_extends [of s _ t]
  by (metis image_eqI in_log_def verdict_logged_def)

lemma people_keptI:
  assumes old: "decided_by_people s" and log: "log_extends s t" and decs: "set (decisions s) \<subseteq> set (decisions t)"
    and gates: "\<And>g ok. g \<in> set (gates t) \<Longrightarrow> gate_status g = verdict_status ok \<Longrightarrow>
      (\<exists>h \<in> set (gates s). gate_id h = gate_id g \<and> gate_status h = gate_status g) \<or> verdict_logged t (gate_id g) ok"
    and evs: "\<And>ev ok. ev \<in> set (outbox t) \<Longrightarrow> ev_event_type ev = verdict_event ok \<Longrightarrow>
      in_log s ev \<or> decision_behind t (ev_payload ev) ok"
  shows "decided_by_people t"
  unfolding decided_by_people_def
proof (intro allI conjI ballI impI)
  fix ok g
  assume "g \<in> set (gates t)" "gate_status g = verdict_status ok"
  with gates old show "verdict_logged t (gate_id g) ok"
    unfolding decided_by_people_def by (metis log verdict_logged_extends)
next
  fix ok ev
  assume ev: "ev \<in> set (outbox t)" "ev_event_type ev = verdict_event ok"
  show "decision_behind t (ev_payload ev) ok"
  proof (cases "in_log s ev")
    case True
    then obtain e where "e \<in> set (outbox s)" "ev_event_type e = ev_event_type ev" "ev_payload e = ev_payload ev"
      by (auto simp: in_log_def ev_ident_def)
    with old ev(2) have "decision_behind s (ev_payload ev) ok" unfolding decided_by_people_def by metis
    with decs show ?thesis by (auto simp: decision_behind_def)
  qed (use evs ev in blast)
qed

lemma people_cong:
  assumes "gates t = gates s" and "decisions t = decisions s" and "map ev_ident (outbox t) = map ev_ident (outbox s)"
  shows "people_kept s t"
proof
  assume "decided_by_people s"
  then show "decided_by_people t"
  proof (rule people_keptI)
    show "in_log s ev \<or> decision_behind t (ev_payload ev) ok" if "ev \<in> set (outbox t)" for ev ok
      using that arg_cong [OF assms(3), of set] by (auto simp: in_log_def)
  qed (use assms in \<open>auto simp: log_extends_def\<close>)
qed

lemma people_engine_event:
  assumes "engine_event (ev_event_type ev)"
  shows "people_kept s (s\<lparr>next_uuid := n, outbox := outbox s @ [ev]\<rparr>)"
proof
  assume "decided_by_people s"
  then show "decided_by_people (s\<lparr>next_uuid := n, outbox := outbox s @ [ev]\<rparr>)"
  proof (rule people_keptI)
    show "in_log s e \<or> decision_behind (s\<lparr>next_uuid := n, outbox := outbox s @ [ev]\<rparr>) (ev_payload e) ok"
      if "e \<in> set (outbox (s\<lparr>next_uuid := n, outbox := outbox s @ [ev]\<rparr>))" "ev_event_type e = verdict_event ok" for e ok
      using that assms by (cases ok) (auto simp: in_log_def engine_event_def)
  qed (auto simp: log_extends_def)
qed

interpretation ppl: core_frame people_kept
  by unfold_locales (simp, blast, rule people_cong, simp_all add: people_engine_event, (rule people_cong, simp_all)+)

section \<open>The operations on gates\<close>

lemma ppl_gates:
  assumes "\<And>g ok. g \<in> set (f (gates s)) \<Longrightarrow> gate_status g = verdict_status ok \<Longrightarrow>
    (\<exists>h \<in> set (gates s). gate_id h = gate_id g \<and> gate_status h = gate_status g) \<or> verdict_logged s (gate_id g) ok"
  shows "people_kept s (gates_update f s)"
proof
  assume "decided_by_people s"
  then show "decided_by_people (gates_update f s)"
    by (rule people_keptI) (use assms in \<open>auto simp: log_extends_def in_log_def verdict_logged_def\<close>)
qed

lemma ppl_pause: "effects people_kept (pause_for_review uf rid st n)"
  unfolding pause_for_review_def gate_insert_def Let_def
  by (intro ppl.run_rules ppl.eff_modify ppl_gates) auto

lemma ppl_advance: "effects people_kept (advance_or_finish uf rid st tg ctx)"
  unfolding advance_or_finish_def by (intro ppl.run_rules ppl_pause)

lemma ppl_set_gate:
  assumes "\<And>g. gate_id (f g) = gate_id g"
    and "\<And>g ok. gate_status (f g) = verdict_status ok \<Longrightarrow> gate_status g = gate_status (f g)"
  shows "effects people_kept (set_gate gid f)"
proof (intro ppl.eff_modify ppl_gates disjI1)
  fix s g ok assume "g \<in> set (upd_row gate_id gid f (gates s))" "gate_status g = verdict_status ok"
  then obtain h where "h \<in> set (gates s)" "g = h \<or> g = f h"
    by (auto simp: upd_row_def split: if_splits)
  with assms \<open>gate_status g = verdict_status ok\<close> show "\<exists>h\<in>set (gates s). gate_id h = gate_id g \<and> gate_status h = gate_status g"
    by metis
qed

lemma ppl_timeout: "effects people_kept (handle_review_timeout gid)"
  unfolding handle_review_timeout_def Let_def
  by (intro ppl.run_rules ppl_set_gate) (auto split: if_splits)

lemma submit_decision_state:
  "state_after (submit_review_decision gid rv ok nt) s = s
   \<or> (\<exists>ev d. let t = state_after (submit_review_decision gid rv ok nt) s in
      gates t = upd_row gate_id gid (\<lambda>g. g\<lparr>gate_decided_by := Some rv\<rparr>) (gates s)
      \<and> outbox t = outbox s @ [ev] \<and> decisions t = decisions s @ [d]
      \<and> ev_event_type ev = verdict_event ok \<and> rd_decision d = verdict_decision ok \<and> rd_reviewer_id d = rv
      \<and> ev_payload ev = [(''review_gate_id'', JStr (uuid_str gid)), (''decision_id'', JStr (uuid_str (rd_id d)))])"
  unfolding submit_review_decision_def
  by (auto simp: Let_def bindE_the_row emit_apply split: option.split)

lemma ppl_submit: "effects people_kept (submit_review_decision gid rv ok nt)"
  unfolding effects_def
proof (intro allI impI)
  fix s assume old: "decided_by_people s"
  let ?t = "state_after (submit_review_decision gid rv ok nt) s"
  consider "?t = s" | ev d where "gates ?t = upd_row gate_id gid (\<lambda>g. g\<lparr>gate_decided_by := Some rv\<rparr>) (gates s)"
      "outbox ?t = outbox s @ [ev]" "decisions ?t = decisions s @ [d]"
      "ev_event_type ev = verdict_event ok" "rd_decision d = verdict_decision ok"
      "map_of (ev_payload ev) ''decision_id'' = Some (JStr (uuid_str (rd_id d)))"
    using submit_decision_state [of gid rv ok nt s] unfolding Let_def by force
  then show "decided_by_people ?t"
  proof cases
    case (2 ev d)
    show ?thesis
    proof (rule people_keptI [OF old])
      show "in_log s e \<or> decision_behind ?t (ev_payload e) ok'"
        if "e \<in> set (outbox ?t)" "ev_event_type e = verdict_event ok'" for e ok'
        using that 2 by (auto simp: in_log_def decision_behind_def split: if_splits)
      show "(\<exists>h \<in> set (gates s). gate_id h = gate_id g \<and> gate_status h = gate_status g) \<or> verdict_logged ?t (gate_id g) ok'"
        if "g \<in> set (gates ?t)" for g ok' using that by (auto simp: 2(1) upd_row_def)
    qed (auto simp: 2 log_extends_def)
  qed (simp add: old)
qed

lemma ppl_decide:
  assumes "verdict_logged s gid ok"
  shows "people_kept s (gates_update (upd_row gate_id gid (\<lambda>g. g\<lparr>gate_status := verdict_status ok, gate_decided_at := d\<rparr>)) s)"
proof (rule ppl_gates)
  fix g ok'
  assume "g \<in> set (upd_row gate_id gid (\<lambda>g. g\<lparr>gate_status := verdict_status ok, gate_decided_at := d\<rparr>) (gates s))"
    and "gate_status g = verdict_status ok'"
  then show "(\<exists>h \<in> set (gates s). gate_id h = gate_id g \<and> gate_status h = gate_status g) \<or> verdict_logged s (gate_id g) ok'"
    using assms by (auto simp: upd_row_def split: if_splits)
qed

lemma ppl_resume:
  assumes "verdict_logged s gid ok"
  shows "people_kept s (state_after (resume_from_review gid ok) s)"
proof -
  have key: "people_kept s (state_after (bindE (set_gate gid (\<lambda>g. g\<lparr>gate_status := verdict_status ok, gate_decided_at := d\<rparr>)) f) s)"
    if "\<And>x. effects people_kept (f x)" for d and f :: "unit \<Rightarrow> unit svc"
    using ppl_decide [OF assms, of d] by (intro ppl.eff_at_bind that) simp
  show ?thesis
  proof (cases "\<exists>gate run. find_gate s gid = Some gate \<and> gate_status gate = GateAwaiting
      \<and> find_run s (gate_pipeline_run_id gate) = Some run")
    case True
    then obtain gate run where "find_gate s gid = Some gate" "gate_status gate = GateAwaiting"
      "find_run s (gate_pipeline_run_id gate) = Some run" by blast
    then show ?thesis unfolding resume_from_review_def
      by (simp only: bindE_the_row bindE_gets bindE_utcnow Let_def option.case if_False simp_thms)
        (intro key ppl.run_rules ppl_advance)
  next
    case False
    then have "state_after (resume_from_review gid ok) s = s"
      by (auto simp: resume_from_review_def bindE_the_row Let_def split: option.split)
    then show ?thesis by simp
  qed
qed

section \<open>Both invariants under the whole engine\<close>

interpretation ppl: fleet_frame people_kept
proof unfold_locales
  show "effects people_kept (pause_for_review uf rid st n)" for uf rid st n by (rule ppl_pause)
  show "effects people_kept (handle_review_timeout gid)" for gid by (rule ppl_timeout)
  show "people_kept s (state_after (resume_from_review gid approved) s)" if "verdict_logged s gid approved" for s gid approved
    using that by (rule ppl_resume)
qed (rule people_cong; simp add: mark_keeps)+

abbreviation gates_kept :: "session \<Rightarrow> session \<Rightarrow> bool" where
  "gates_kept \<equiv> \<lambda>s t. gates_single s \<longrightarrow> gates_single t"

interpretation gate: fleet_frame gates_kept
proof unfold_locales
  show "effects gates_kept (pause_for_review uf rid st n)" for uf rid st n by (rule gate_pause)
  show "effects gates_kept (handle_review_timeout gid)" for gid by (rule gate_timeout)
  show "gates_kept s (state_after (resume_from_review gid approved) s)" for s gid approved
    by (rule effectsD [OF gate_resume])
qed (rule impI, rule gates_single_cong [THEN iffD2]; simp)+

section \<open>An approval takes effect\<close>

interpretation app: table_frame "\<lambda>s t. \<exists>es. outbox t = outbox s @ es"
  by unfold_locales auto

lemma emit_ev_place:
  "ev_event_id (emit_ev et ws aty ai co tr sp pl pr s) = next_uuid s"
  "ev_sequence (emit_ev et ws aty ai co tr sp pl pr s) = coalesce_max (map ev_sequence (agg_events s aty ai)) + 1"
  by (simp_all add: emit_ev_def)

lemma cor_span_next_uuid: "n \<le> next_uuid s \<Longrightarrow> n \<le> next_uuid (cor_st run (span_st tr s))"
  using effectsD [OF idsg.eff_correlation_id, of "span_st tr s" run] span_st_next_uuid [of s tr]
  by (simp add: cor_st_def ids_grow_def)

lemma submit_decision_apply:
  assumes "find_gate s gid = Some gate" and "gate_status gate = GateAwaiting"
    and "find_run s (gate_pipeline_run_id gate) = Some run"
  shows "\<exists>t ev d. submit_review_decision gid rv ok nt s = (t, Inr ev)
    \<and> gates t = upd_row gate_id gid (\<lambda>g. g\<lparr>gate_decided_by := Some rv\<rparr>) (gates s)
    \<and> outbox t = outbox s @ [ev] \<and> runs t = runs s \<and> jobs t = jobs s \<and> consumers t = consumers s
    \<and> checkpoints t = checkpoints s \<and> decisions t = decisions s @ [d] \<and> rd_decision d = verdict_decision ok
    \<and> rd_reviewer_id d = rv
    \<and> wf_stages t = wf_stages s \<and> wf_transitions t = wf_transitions s \<and> locked t = locked s \<and> get_settings t = get_settings s
    \<and> next_uuid s \<le> ev_event_id ev \<and> ev_event_type ev = verdict_event ok \<and> ev_status ev = EvPending
    \<and> ev_aggregate_type ev = ''pipeline_run'' \<and> ev_aggregate_id ev = gate_pipeline_run_id gate
    \<and> ev_sequence ev = coalesce_max (map ev_sequence (agg_events s ''pipeline_run'' (gate_pipeline_run_id gate))) + 1
    \<and> ev_payload ev = [(''review_gate_id'', JStr (uuid_str gid)), (''decision_id'', JStr (uuid_str (rd_id d)))]"
  unfolding submit_review_decision_def
  by (simp add: Let_def bindE_the_row assms emit_apply emit_ev_place agg_events_def cor_span_next_uuid)

text \<open>
  What the relay needs to deliver a verdict on \<open>rid\<close>: the controller's consumer and its
  checkpoint for the run exist, the checkpoint is not ahead of the run's events, and the
  identifiers in the log have been drawn before.
\<close>

definition deliverable :: "session \<Rightarrow> uuid \<Rightarrow> bool" where
  "deliverable s rid \<longleftrightarrow> (\<exists>c ck. filter (\<lambda>c. con_name c = ''pipeline-controller'') (consumers s) = [c]
     \<and> filter (partition_of (con_id c) ''pipeline_run'' (uuid_str rid)) (checkpoints s) = [ck]
     \<and> ck_last_sequence ck \<le> coalesce_max (map ev_sequence (agg_events s ''pipeline_run'' rid)))
     \<and> list_all (\<lambda>e. ev_event_id e < next_uuid s) (outbox s)"

lemma next_edge_same:
  "next_edge s run st tg ctx tr w \<Longrightarrow> wf_stages t = wf_stages s \<Longrightarrow> wf_transitions t = wf_transitions s \<Longrightarrow>
    next_edge t run st tg ctx tr w"
  by (erule next_edge_cong) simp_all

lemma verdict_delivered:
  assumes gate: "find_gate s gid = Some gate" "gate_status gate = GateAwaiting" "gid < 2 ^ 128"
    and run: "find_run s (gate_pipeline_run_id gate) = Some run"
    and del: "deliverable s (gate_pipeline_run_id gate)"
    and resume: "\<And>t. gates t = upd_row gate_id gid (\<lambda>g. g\<lparr>gate_decided_by := Some rv\<rparr>) (gates s) \<Longrightarrow> runs t = runs s \<Longrightarrow>
      wf_stages t = wf_stages s \<Longrightarrow> wf_transitions t = wf_transitions s \<Longrightarrow> \<exists>u. resume_from_review gid ok t = (u, Inr ()) \<and> P t u"
  shows "\<exists>t ev d u (ck :: consumer_checkpoint). submit_review_decision gid rv ok nt s = (t, Inr ev)
    \<and> dispatch_one (register_all []) (ev_event_id ev) t =
      (outbox_update (upd_row ev_event_id (ev_event_id ev) (\<lambda>x. x\<lparr>ev_status := EvDispatched\<rparr>))
        (checkpoints_update (upd_row ck_id (ck_id ck) (\<lambda>x. x\<lparr>ck_last_sequence := ev_sequence ev\<rparr>)) u), Inr ())
    \<and> resume_from_review gid ok t = (u, Inr ()) \<and> P t u \<and> find_event u (ev_event_id ev) = Some ev
    \<and> outbox t = outbox s @ [ev] \<and> ev_status ev = EvPending \<and> locked t = locked s \<and> get_settings t = get_settings s
    \<and> decisions t = decisions s @ [d] \<and> rd_decision d = verdict_decision ok \<and> rd_reviewer_id d = rv"
proof -
  let ?rid = "gate_pipeline_run_id gate"
  obtain t ev d where t: "submit_review_decision gid rv ok nt s = (t, Inr ev)"
      "gates t = upd_row gate_id gid (\<lambda>g. g\<lparr>gate_decided_by := Some rv\<rparr>) (gates s)" "outbox t = outbox s @ [ev]"
      "runs t = runs s" "consumers t = consumers s" "checkpoints t = checkpoints s"
      "wf_stages t = wf_stages s" "wf_transitions t = wf_transitions s"
      "next_uuid s \<le> ev_event_id ev" "ev_event_type ev = verdict_event ok" "ev_status ev = EvPending"
      "ev_aggregate_type ev = ''pipeline_run''" "ev_aggregate_id ev = ?rid"
      "ev_sequence ev = coalesce_max (map ev_sequence (agg_events s ''pipeline_run'' ?rid)) + 1"
      "map_of (ev_payload ev) ''review_gate_id'' = Some (JStr (uuid_str gid))" "locked t = locked s" "get_settings t = get_settings s"
    and d: "decisions t = decisions s @ [d]" "rd_decision d = verdict_decision ok" "rd_reviewer_id d = rv"
    using submit_decision_apply [OF gate(1,2) run, of rv ok nt] by auto
  let ?k = "ev_event_id ev"
  from del obtain c ck where ck: "ready_for t ''pipeline-controller'' ev c ck" "ck_last_sequence ck < ev_sequence ev"
    unfolding deliverable_def ready_for_def by (auto simp: t)
  have ev: "find_event t ?k = Some ev"
  proof -
    have "ev_event_id e \<noteq> ?k" if "e \<in> set (outbox s)" for e
      using del that t(9) by (auto simp: deliverable_def list_all_iff)
    then have "find_event s ?k = None" unfolding find_row_None by (metis imageE)
    then show ?thesis by (simp add: t(3) find_row_append)
  qed
  have gate_t: "find_gate t gid = Some (gate\<lparr>gate_decided_by := Some rv\<rparr>)"
    using gate(1) by (simp add: t(2) find_row_upd_row)
  from resume [OF t(2,4,7,8)] obtain u where u: "resume_from_review gid ok t = (u, Inr ())" "P t u" by blast
  obtain es where "outbox u = outbox t @ es" using effects_result [OF app.rows_resume u(1)] by blast
  then have "find_event u ?k = Some ev" using ev by (simp add: find_row_append)
  moreover have "on_review ok ev t = (u, Inr ())"
    using gate_t u(1) gate(3) by (auto simp: on_review_def payload_gate_def t(15) uuid_of_str_uuid_str dest: find_row_SomeD)
  ultimately have disp: "dispatch_one (register_all []) ?k t =
    (outbox_update (upd_row ev_event_id ?k (\<lambda>x. x\<lparr>ev_status := EvDispatched\<rparr>))
      (checkpoints_update (upd_row ck_id (ck_id ck) (\<lambda>x. x\<lparr>ck_last_sequence := ev_sequence ev\<rparr>)) u), Inr ())"
    unfolding register_all_empty using ck t(10,11) ev by (intro dispatch_succeeds [where h = "on_review ok"]) (simp_all split: if_splits)
  show ?thesis
    by (rule exI [of _ t], rule exI [of _ ev], rule exI [of _ d], rule exI [of _ u], rule exI [of _ ck], intro conjI)
      (fact t(1) disp u \<open>find_event u ?k = Some ev\<close> t(3,11,16,17) d)+
qed

lemma approval_delivered:
  assumes gate: "find_gate s gid = Some gate" "gate_status gate = GateAwaiting" "gid < 2 ^ 128"
    and run: "find_run s (gate_pipeline_run_id gate) = Some run"
    and wf: "unique_stages s" "next_edge s run (gate_stage gate) OnReviewApproved [] tr w"
      "\<not> wst_is_terminal w" "\<not> wst_is_review_gate w"
    and del: "deliverable s (gate_pipeline_run_id gate)"
  shows "\<exists>t ev u run'. submit_review_decision gid rv True nt s = (t, Inr ev)
    \<and> dispatch_one (register_all []) (ev_event_id ev) t = (u, Inr ())
    \<and> map_option gate_status (find_gate u gid) = Some GateApproved
    \<and> find_run u (gate_pipeline_run_id gate) = Some run' \<and> run_status run' = RunRunning
    \<and> run_current_stage run' = wt_to_stage tr
    \<and> map_option ev_status (find_event u (ev_event_id ev)) = Some EvDispatched
    \<and> outbox t = outbox s @ [ev] \<and> ev_status ev = EvPending \<and> locked t = locked s \<and> get_settings t = get_settings s"
proof -
  let ?rid = "gate_pipeline_run_id gate"
  have "\<exists>u. resume_from_review gid True t = (u, Inr ()) \<and> map_option gate_status (find_gate u gid) = Some GateApproved
      \<and> (\<exists>run'. find_run u ?rid = Some run' \<and> run_status run' = RunRunning \<and> run_current_stage run' = wt_to_stage tr)"
    if t: "gates t = upd_row gate_id gid (\<lambda>g. g\<lparr>gate_decided_by := Some rv\<rparr>) (gates s)" "runs t = runs s"
      "wf_stages t = wf_stages s" "wf_transitions t = wf_transitions s" for t
  proof -
    have "find_gate t gid = Some (gate\<lparr>gate_decided_by := Some rv\<rparr>)" using gate(1) by (simp add: t find_row_upd_row)
    moreover have "unique_stages t" "next_edge t run (gate_stage gate) OnReviewApproved [] tr w"
      using wf(1) next_edge_same [OF wf(2) t(3,4)] by (simp_all add: unique_stages_def t(3))
    ultimately show ?thesis
      using approval_advances [where s = t and gid = gid and gate = "gate\<lparr>gate_decided_by := Some rv\<rparr>" and run = run and tr = tr and w = w] gate(2) run wf(3,4) by (auto simp: t(2))
  qed
  note deliver = verdict_delivered [OF gate run del, of rv True "\<lambda>t u. map_option gate_status (find_gate u gid) = Some GateApproved
      \<and> (\<exists>run'. find_run u ?rid = Some run' \<and> run_status run' = RunRunning \<and> run_current_stage run' = wt_to_stage tr)", OF this]
  show ?thesis using deliver [of nt] by (fastforce simp: find_row_upd_row)
qed


definition verdict_sample :: session where
  \<comment> \<open>a run paused at its gate, and the controller's consumer at the start of the run's events\<close>
  "verdict_sample = (gate_sample RunPaused)\<lparr>
     consumers := [\<lparr>con_id = 60, con_name = ''pipeline-controller'', con_max_delivery_attempts = 10\<rparr>],
     checkpoints := [\<lparr>ck_id = 61, ck_consumer_id = 60, ck_aggregate_type = ''pipeline_run'',
       ck_partition_key = uuid_str 10, ck_last_sequence = 0\<rparr>]\<rparr>"

lemma verdict_sample_facts:
  "find_gate verdict_sample 70 = Some sample_gate" "gate_status sample_gate = GateAwaiting" "(70 :: nat) < 2 ^ 128"
  "find_run verdict_sample (gate_pipeline_run_id sample_gate) = Some (sample_run\<lparr>run_status := RunPaused\<rparr>)"
  "unique_stages verdict_sample"
  "next_edge verdict_sample (sample_run\<lparr>run_status := RunPaused\<rparr>) (gate_stage sample_gate) OnReviewApproved []
     (sample_edge REVIEW VISUALS OnReviewApproved) (sample_stage VISUALS 2 False)"
  "\<not> wst_is_terminal (sample_stage VISUALS 2 False)" "\<not> wst_is_review_gate (sample_stage VISUALS 2 False)"
  "deliverable verdict_sample (gate_pipeline_run_id sample_gate)"
proof -
  show "find_gate verdict_sample 70 = Some sample_gate"
    "find_run verdict_sample (gate_pipeline_run_id sample_gate) = Some (sample_run\<lparr>run_status := RunPaused\<rparr>)"
    "unique_stages verdict_sample"
    using gate_sample_facts(1,2,4) [of RunPaused] by (simp_all add: verdict_sample_def unique_stages_def sample_gate_def)
  show "next_edge verdict_sample (sample_run\<lparr>run_status := RunPaused\<rparr>) (gate_stage sample_gate) OnReviewApproved []
     (sample_edge REVIEW VISUALS OnReviewApproved) (sample_stage VISUALS 2 False)"
    by (rule next_edge_same) (use gate_sample_facts(5) [of RunPaused] in \<open>simp_all add: verdict_sample_def sample_gate_def\<close>)
  show "deliverable verdict_sample (gate_pipeline_run_id sample_gate)"
    by (simp add: deliverable_def verdict_sample_def partition_of_def sample_gate_def agg_events_def wf_sample_defs
        empty_session_def coalesce_max_def)
qed (simp_all add: sample_gate_def sample_stage_def)


end
