(* ===== verification/Text.thy ===== *)
theory Text
  imports PyLib
begin

text \<open>
  Python's string methods that normalise text: \<open>split()\<close> at white space, \<open>strip()\<close> and
  \<open>join\<close>. Strings are ASCII.
\<close>

definition is_space :: "char \<Rightarrow> bool" where
  "is_space c \<longleftrightarrow> of_char c \<in> ({9, 10, 11, 12, 13, 28, 29, 30, 31, 32} :: nat set)"

function py_split :: "string \<Rightarrow> string list" where
  "py_split s = (let r = dropWhile is_space s in
     if r = [] then [] else takeWhile (\<lambda>c. \<not> is_space c) r # py_split (dropWhile (\<lambda>c. \<not> is_space c) r))"
  by pat_completeness auto

lemma word_shorter:
  assumes "r = dropWhile is_space s" and "r \<noteq> []"
  shows "length (dropWhile (\<lambda>c. \<not> is_space c) r) < length s"
proof -
  from assms obtain c cs where c: "r = c # cs" "\<not> is_space c"
    by (metis hd_dropWhile list.collapse)
  have "length (dropWhile (\<lambda>c. \<not> is_space c) r) \<le> length cs" using c by (simp add: length_dropWhile_le)
  also have "\<dots> < length r" by (simp add: c)
  also have "\<dots> \<le> length s" by (simp add: assms(1) length_dropWhile_le)
  finally show ?thesis .
qed

termination py_split
  by (relation "measure length") (simp_all add: word_shorter)

declare py_split.simps [simp del]

definition py_strip :: "string \<Rightarrow> string" where
  "py_strip s = rev (dropWhile is_space (rev (dropWhile is_space s)))"

fun join :: "string \<Rightarrow> string list \<Rightarrow> string" where
  "join sep [] = []"
| "join sep [x] = x"
| "join sep (x # y # zs) = x @ sep @ join sep (y # zs)"

section \<open>Words\<close>

definition is_word :: "string \<Rightarrow> bool" where
  "is_word w \<longleftrightarrow> w \<noteq> [] \<and> list_all (\<lambda>c. \<not> is_space c) w"

lemma py_split_blank: "dropWhile is_space s = [] \<Longrightarrow> py_split s = []"
  by (subst py_split.simps) simp

lemma py_split_next:
  "dropWhile is_space s = r \<Longrightarrow> r \<noteq> [] \<Longrightarrow>
    py_split s = takeWhile (\<lambda>c. \<not> is_space c) r # py_split (dropWhile (\<lambda>c. \<not> is_space c) r)"
  by (subst py_split.simps) simp

lemma py_split_words: "w \<in> set (py_split s) \<Longrightarrow> is_word w"
proof (induction s rule: py_split.induct)
  case (1 s)
  let ?r = "dropWhile is_space s"
  show ?case
  proof (cases "?r = []")
    case True
    with 1(2) show ?thesis by (simp add: py_split_blank)
  next
    case False
    then obtain c cs where c: "?r = c # cs" "\<not> is_space c" by (metis hd_dropWhile list.collapse)
    then have "is_word (takeWhile (\<lambda>c. \<not> is_space c) ?r)" by (auto simp: is_word_def list_all_iff dest: set_takeWhileD)
    with 1(1) [OF refl False] 1(2) show ?thesis by (auto simp: py_split_next [OF refl False])
  qed
qed

lemma takeWhile_word: "list_all (\<lambda>c. \<not> is_space c) w \<Longrightarrow> takeWhile (\<lambda>c. \<not> is_space c) (w @ CHR '' '' # t) = w"
  "list_all (\<lambda>c. \<not> is_space c) w \<Longrightarrow> dropWhile (\<lambda>c. \<not> is_space c) (w @ CHR '' '' # t) = CHR '' '' # t"
  by (induction w) (auto simp: is_space_def)

lemma py_split_join: "list_all is_word ws \<Longrightarrow> py_split (join '' '' ws) = ws"
proof (induction ws)
  case Nil
  show ?case by (simp add: py_split.simps)
next
  case (Cons w ws)
  from Cons.prems have ww: "is_word w" and ws: "list_all is_word ws" by simp_all
  from ww have w: "w \<noteq> []" "list_all (\<lambda>c. \<not> is_space c) w" by (simp_all add: is_word_def)
  then have hd: "dropWhile is_space (w @ t) = w @ t" for t by (cases w) auto
  show ?case
  proof (cases ws)
    case Nil
    have ends: "takeWhile (\<lambda>c. \<not> is_space c) w = w" "dropWhile (\<lambda>c. \<not> is_space c) w = []"
      using w(2) by (simp_all add: takeWhile_eq_all_conv dropWhile_eq_Nil_conv list_all_iff)
    from hd [of "[]"] have "py_split w = [w]"
      unfolding append_Nil2 by (simp only: py_split_next [OF _ w(1)] ends) (simp add: py_split_blank)
    then show ?thesis by (simp add: Nil)
  next
    case (Cons v vs)
    have "py_split (CHR '' '' # t) = py_split t" for t
      by (subst (1 2) py_split.simps) (simp add: is_space_def)
    then show ?thesis
      using hd [of "CHR '' '' # join '' '' ws"] w takeWhile_word [OF w(2)] Cons.IH [OF ws]
      by (simp add: py_split_next Cons)
  qed
qed

text \<open>Collapsing white space twice is collapsing it once, and a string is its words for that.\<close>

definition collapse :: "string \<Rightarrow> string" where
  "collapse s = join '' '' (py_split s)"

lemma collapse_idem: "collapse (collapse s) = collapse s"
  using py_split_words by (simp add: collapse_def py_split_join list_all_iff)

end
