(* ===== verification/Desk.thy ===== *)
theory Desk
  imports Review Text
begin

text \<open>
  The content desk (\<open>services/content_desk.py\<close> and \<open>services/draft_desk.py\<close>): drafting a
  script, creating a content job that lands in the review gate, listing the gates, deciding
  and editing. The desk sits on the engine: it calls the controller and delivers the verdict
  event itself through the relay. Author columns are left out of the rows.
\<close>

section \<open>Drafting a script\<close>

record draft_desk_output =
  dd_script_hook :: string
  dd_script_body :: string
  dd_script_cta :: string
  dd_provider :: string
  dd_estimated_cost_usd :: string

definition newline :: string where
  "newline = [CHR 0x0A]"

definition generate_script_draft :: "string \<Rightarrow> int option \<Rightarrow> py_error + draft_desk_output" where
  "generate_script_draft topic target_length_seconds =
     (let cleaned = collapse (py_strip topic) in
      if cleaned = [] then Inl (ValueError ''topic is required for Draft Desk generation'')
      else
        let length_note = (case target_length_seconds of
              Some n \<Rightarrow> ''Aim for about '' @ int_str n @ '' seconds.''
            | None \<Rightarrow> ''Keep the piece concise and skimmable.'');
            hook = ''What if '' @ cleaned @ '' is the lever your audience has been missing?'';
            body = hook @ newline @ newline
              @ ''Today we unpack '' @ cleaned @ ''. '' @ length_note @ newline @ newline
              @ ''1) Why '' @ cleaned @ '' matters now'' @ newline
              @ ''2) The mistake most teams make'' @ newline
              @ ''3) A practical next step you can take today'' @ newline @ newline
              @ ''Close with a clear takeaway your viewer can repeat.'';
            cta = ''If this helped, save it and try one change around '' @ cleaned @ '' this week.''
        in Inr \<lparr>dd_script_hook = hook, dd_script_body = body, dd_script_cta = cta,
             dd_provider = ''draft_desk'', dd_estimated_cost_usd = ''0.01''\<rparr>)"

definition EXECUTABLE_STAGES :: "string list" where
  "EXECUTABLE_STAGES = [''scripting'', ''idea'']"

record stage_context =
  ctx_stage :: "string option"
  ctx_topic :: "string option"
  ctx_target_length_seconds :: "int option"

definition execute_stage :: "stage_context \<Rightarrow> bool \<times> json_obj option \<times> string" where
  "execute_stage context =
     (let stage = lower (py_strip (case ctx_stage context of None \<Rightarrow> [] | Some s \<Rightarrow> s));
          topic = py_strip (case ctx_topic context of None \<Rightarrow> [] | Some t \<Rightarrow> t)
      in if stage \<in> set EXECUTABLE_STAGES then
           if topic = [] then (False, None, ''draft_desk requires topic in assignment context'')
           else case generate_script_draft topic (ctx_target_length_seconds context) of
             Inl e \<Rightarrow> (False, None, error_text e)
           | Inr draft \<Rightarrow> (True, Some [(''provider'', JStr (dd_provider draft)),
                 (''script_hook'', JStr (dd_script_hook draft)), (''script_body'', JStr (dd_script_body draft)),
                 (''script_cta'', JStr (dd_script_cta draft)),
                 (''estimated_cost_usd'', JStr (dd_estimated_cost_usd draft)),
                 (''topic'', JStr (collapse topic))], [])
         else if stage = ''review'' then (False, None, ''review stage is human-gated; workers must not execute it'')
         else (False, None, ''unsupported draft_desk stage '' @ [CHR 0x27]
           @ (if stage = [] then ''unknown'' else stage) @ [CHR 0x27]))"

section \<open>The workflow of the desk\<close>

definition DESK_WORKFLOW_NAME :: string where "DESK_WORKFLOW_NAME = ''agency_content_desk''"
definition DESK_WORKFLOW_VERSION :: int where "DESK_WORKFLOW_VERSION = 1"
definition DRAFT_DESK_PROVIDER :: string where "DRAFT_DESK_PROVIDER = ''draft_desk''"

definition desk_stage :: "uuid \<Rightarrow> uuid \<Rightarrow> content_stage \<Rightarrow> int \<Rightarrow> int \<Rightarrow> int \<Rightarrow> bool \<Rightarrow> bool \<Rightarrow> workflow_stage" where
  \<comment> \<open>\<open>WorkflowStage(...)\<close> with the column defaults\<close>
  "desk_stage u def key ordinal max_attempts timeout gate terminal = \<lparr>wst_id = u, wst_definition_id = def,
     wst_stage_key = key, wst_ordinal = ordinal, wst_max_attempts = max_attempts, wst_backoff_base_seconds = 5,
     wst_backoff_multiplier = 2, wst_backoff_max_seconds = 300, wst_timeout_seconds = timeout,
     wst_is_review_gate = gate, wst_is_terminal = terminal, wst_compensation_stage_key = None\<rparr>"

definition desk_edge :: "uuid \<Rightarrow> uuid \<Rightarrow> content_stage \<Rightarrow> content_stage \<Rightarrow> workflow_transition_trigger \<Rightarrow> workflow_transition" where
  "desk_edge u def a b trigger = \<lparr>wt_id = u, wt_definition_id = def, wt_from_stage = a, wt_to_stage = b,
     wt_trigger = trigger, wt_condition = None, wt_priority = 100\<rparr>"

definition desk_stages :: "uuid \<Rightarrow> uuid \<Rightarrow> workflow_stage list" where
  "desk_stages u def =
     [desk_stage u def SCRIPTING 1 1 600 False False,
      desk_stage (u + 1) def REVIEW 2 3 (DEFAULT_REVIEW_TIMEOUT_HOURS * 3600) True False,
      desk_stage (u + 2) def PUBLISHED 3 3 60 False True]"

definition desk_edges :: "uuid \<Rightarrow> uuid \<Rightarrow> workflow_transition list" where
  "desk_edges u def =
     [desk_edge u def SCRIPTING REVIEW OnSuccess, desk_edge (u + 1) def REVIEW PUBLISHED OnReviewApproved]"

definition ensure_desk_workflow :: "uuid \<Rightarrow> uuid svc" where
  "ensure_desk_workflow workspace_id =
     bindE (gets (\<lambda>s. filter (\<lambda>d. wd_workspace_id d = workspace_id \<and> wd_name d = DESK_WORKFLOW_NAME
        \<and> wd_version d = DESK_WORKFLOW_VERSION) (definitions s))) (\<lambda>rows.
     bindE (liftE (scalar_one_or_none rows)) (\<lambda>existing.
     case existing of
       Some d \<Rightarrow>
         bindE (whenE (\<not> wd_is_active d)
           (modify (definitions_update (upd_row wd_id (wd_id d) (\<lambda>d. d\<lparr>wd_is_active := True\<rparr>))))) (\<lambda>_.
         ret (wd_id d))
     | None \<Rightarrow>
         bindE uuid4 (\<lambda>def.
         bindE (modify (definitions_update (\<lambda>ds. ds @ [\<lparr>wd_id = def, wd_workspace_id = workspace_id,
            wd_name = DESK_WORKFLOW_NAME, wd_version = DESK_WORKFLOW_VERSION, wd_is_active = True\<rparr>]))) (\<lambda>_.
         bindE uuid4 (\<lambda>u. bindE uuid4 (\<lambda>_. bindE uuid4 (\<lambda>_.
         bindE (modify (wf_stages_update (\<lambda>ws. ws @ desk_stages u def))) (\<lambda>_.
         bindE uuid4 (\<lambda>v. bindE uuid4 (\<lambda>_.
         bindE (modify (wf_transitions_update (\<lambda>ts. ts @ desk_edges v def))) (\<lambda>_.
         ret def)))))))))))"

section \<open>Creating a content job\<close>

record content_job_result =
  cj_content_item_id :: uuid
  cj_pipeline_run_id :: uuid
  cj_review_gate_id :: uuid
  cj_topic :: string
  cj_current_stage :: string
  cj_run_status :: string
  cj_gate_status :: string

fun gate_status_value :: "review_gate_status \<Rightarrow> string" where
  "gate_status_value GateAwaiting = ''awaiting''"
| "gate_status_value GateApproved = ''approved''"
| "gate_status_value GateRejected = ''rejected''"
| "gate_status_value GateTimedOut = ''timed_out''"
| "gate_status_value GateEscalated = ''escalated''"

record job_request =
  jr_topic :: string
  jr_script_body :: string
  jr_script_hook :: "string option"
  jr_script_cta :: "string option"
  jr_target_length_seconds :: "int option"
  jr_idempotency_key :: "string option"

abbreviation find_item :: "session \<Rightarrow> uuid \<Rightarrow> content_item option" where
  "find_item s k \<equiv> find_row ci_id k (items s)"

abbreviation find_version :: "session \<Rightarrow> uuid \<Rightarrow> content_version option" where
  "find_version s k \<equiv> find_row cv_id k (versions s)"

abbreviation set_item :: "uuid \<Rightarrow> (content_item \<Rightarrow> content_item) \<Rightarrow> unit svc" where
  "set_item k f \<equiv> modify (items_update (upd_row ci_id k f))"

definition keyed_runs :: "session \<Rightarrow> uuid \<Rightarrow> string \<Rightarrow> pipeline_run list" where
  "keyed_runs s ws key = filter (\<lambda>r. run_workspace_id r = ws \<and> run_idempotency_key r = Some key) (runs s)"

definition existing_job :: "uuid \<Rightarrow> string \<Rightarrow> content_job_result option svc" where
  \<comment> \<open>the job an idempotency key already stands for\<close>
  "existing_job workspace_id key =
     bindE (gets (\<lambda>s. keyed_runs s workspace_id key)) (\<lambda>rows.
     bindE (liftE (scalar_one_or_none rows)) (\<lambda>existing_run.
     case existing_run of
       None \<Rightarrow> ret None
     | Some run \<Rightarrow>
         bindE (gets (\<lambda>s. filter (\<lambda>g. gate_pipeline_run_id g = run_id run) (gates s))) (\<lambda>gs.
         bindE (liftE (scalar_one_or_none gs)) (\<lambda>gate.
         bindE (gets (\<lambda>s. find_item s (run_content_item_id run))) (\<lambda>item.
         case (gate, item) of
           (Some g, Some i) \<Rightarrow> ret (Some \<lparr>cj_content_item_id = ci_id i, cj_pipeline_run_id = run_id run,
             cj_review_gate_id = gate_id g, cj_topic = ci_topic i,
             cj_current_stage = stage_value (run_current_stage run),
             cj_run_status = run_status_value (run_status run), cj_gate_status = gate_status_value (gate_status g)\<rparr>)
         | _ \<Rightarrow> raise (ValueError ''idempotent content job is missing review gate or content item''))))))"

definition str_or :: "string option \<Rightarrow> string \<Rightarrow> string" where
  \<comment> \<open>\<open>x or y\<close> of strings: an empty string is false\<close>
  "str_or x y = (case x of None \<Rightarrow> y | Some a \<Rightarrow> if a = [] then y else a)"

record draft_text =
  dt_hook :: "string option"
  dt_body :: string
  dt_cta :: "string option"
  dt_generated_by :: string
  dt_prompt_used :: string

definition draft_for :: "job_request \<Rightarrow> py_error + draft_text" where
  "draft_for req =
     (let body = py_strip (jr_script_body req) in
      if body \<noteq> [] then Inr \<lparr>dt_hook = jr_script_hook req, dt_body = body, dt_cta = jr_script_cta req,
        dt_generated_by = ''human_draft'', dt_prompt_used = ''review_desk_manual_draft''\<rparr>
      else case generate_script_draft (jr_topic req) (jr_target_length_seconds req) of
        Inl e \<Rightarrow> Inl e
      | Inr g \<Rightarrow> Inr \<lparr>dt_hook = Some (str_or (jr_script_hook req) (dd_script_hook g)), dt_body = dd_script_body g,
          dt_cta = Some (str_or (jr_script_cta req) (dd_script_cta g)), dt_generated_by = dd_provider g,
          dt_prompt_used = ''draft_desk_v1''\<rparr>)"

definition add_version :: "uuid \<Rightarrow> uuid \<Rightarrow> string option \<Rightarrow> string option \<Rightarrow> string option \<Rightarrow> string option \<Rightarrow> string \<Rightarrow> uuid svc" where
  \<comment> \<open>\<open>session.add(ContentVersion(...))\<close>\<close>
  "add_version workspace_id item_id hook body cta prompt generated_by =
     bindE uuid4 (\<lambda>u.
     bindE (modify (versions_update (\<lambda>vs. vs @ [\<lparr>cv_id = u, cv_workspace_id = workspace_id,
        cv_content_item_id = item_id, cv_script_hook = hook, cv_script_body = body, cv_script_cta = cta,
        cv_prompt_used = prompt, cv_generated_by = Some generated_by\<rparr>]))) (\<lambda>_.
     ret u))"

definition insert_run :: "uuid \<Rightarrow> uuid \<Rightarrow> string option \<Rightarrow> uuid svc" where
  \<comment> \<open>\<open>session.add(PipelineRun(...))\<close> and the flush, which enforces the unique index on the key\<close>
  "insert_run workspace_id item_id key =
     bindE uuid4 (\<lambda>u.
     bindE (gets (\<lambda>s. case key of None \<Rightarrow> False | Some k \<Rightarrow> keyed_runs s workspace_id k \<noteq> [])) (\<lambda>taken.
     if taken then raise (IntegrityError ''uq_pipeline_runs_workspace_idem'')
     else
       bindE (modify (runs_update (\<lambda>rs. rs @ [\<lparr>run_id = u, run_workspace_id = workspace_id,
          run_content_item_id = item_id, run_idempotency_key = key, run_current_stage = SCRIPTING,
          run_status = RunRunning, run_started_at = None, run_completed_at = None, run_pause_reason = None,
          run_definition_id = None, run_correlation_id = None, run_trace_id = None\<rparr>]))) (\<lambda>_.
       ret u)))"

definition add_draft :: "uuid \<Rightarrow> job_request \<Rightarrow> draft_text \<Rightarrow> (uuid \<times> uuid \<times> uuid) svc" where
  \<comment> \<open>the rows of a new job: the item, its version and its run\<close>
  "add_draft workspace_id req draft =
     bindE uuid4 (\<lambda>item_id.
     bindE (modify (items_update (\<lambda>is. is @ [\<lparr>ci_id = item_id, ci_workspace_id = workspace_id,
        ci_topic = jr_topic req, ci_target_length_seconds = jr_target_length_seconds req,
        ci_current_stage = SCRIPTING, ci_current_version_id = None, ci_current_pipeline_run_id = None\<rparr>]))) (\<lambda>_.
     bindE (add_version workspace_id item_id (dt_hook draft) (Some (dt_body draft)) (dt_cta draft)
        (Some (dt_prompt_used draft)) (dt_generated_by draft)) (\<lambda>version_id.
     bindE (set_item item_id (\<lambda>i. i\<lparr>ci_current_version_id := Some version_id\<rparr>)) (\<lambda>_.
     bindE (insert_run workspace_id item_id (jr_idempotency_key req)) (\<lambda>rid.
     bindE (set_item item_id (\<lambda>i. i\<lparr>ci_current_pipeline_run_id := Some rid\<rparr>)) (\<lambda>_.
     ret (item_id, version_id, rid)))))))"

definition orphan_job :: "uuid \<Rightarrow> job_schedule \<Rightarrow> bool" where
  "orphan_job rid j \<longleftrightarrow> job_ref_id j = rid \<and> job_job_type j \<in> {JobStage, JobRetry}
     \<and> job_ref_table j = stage_value SCRIPTING \<and> job_status j \<in> {JobPending, JobLeased}"

definition cancel_orphan_jobs :: "uuid \<Rightarrow> unit svc" where
  "cancel_orphan_jobs rid = modify (jobs_update (map (\<lambda>j. if orphan_job rid j
     then j\<lparr>job_status := JobCancelled, job_lease_owner := None, job_lease_expires_at := None\<rparr> else j)))"

definition enter_review :: "uuid \<Rightarrow> uuid \<Rightarrow> uuid \<Rightarrow> unit svc" where
  \<comment> \<open>the scripting stage, done at once: budget, advance into the gate, commit\<close>
  "enter_review rid version_id def =
     bindE (start_run rid def) (\<lambda>_.
     bindE (gets (\<lambda>s. default_stage_estimate_usd (get_settings s))) (\<lambda>estimate.
     bindE (reserve_spend rid SCRIPTING DRAFT_DESK_PROVIDER estimate) (\<lambda>reservation.
     case reservation of
       None \<Rightarrow> raise SpendBudgetExceededError
     | Some rsv \<Rightarrow>
         bindE (handle_stage_success rid SCRIPTING (Some [(''draft_version_id'', JStr (uuid_str version_id)),
            (''estimated_cost_usd'', JNum estimate), (''provider'', JStr DRAFT_DESK_PROVIDER)])) (\<lambda>_.
         commit_spend rid rsv estimate))))"

definition finish_job :: "job_request \<Rightarrow> uuid \<Rightarrow> uuid \<Rightarrow> content_job_result svc" where
  \<comment> \<open>the stage job is cancelled and the gate must be there\<close>
  "finish_job req item_id rid =
     bindE (cancel_orphan_jobs rid) (\<lambda>_.
     bindE (gets (\<lambda>s. filter (\<lambda>g. gate_pipeline_run_id g = rid) (gates s))) (\<lambda>gs.
     bindE (liftE (scalar_one_or_none gs)) (\<lambda>gate.
     case gate of
       None \<Rightarrow> raise (RuntimeError ''content job failed to enter Human Review Gate'')
     | Some g \<Rightarrow>
         if gate_status g \<noteq> GateAwaiting
         then raise (RuntimeError ''content job failed to enter Human Review Gate'')
         else
           bindE (set_item item_id (\<lambda>i. i\<lparr>ci_current_stage := REVIEW\<rparr>)) (\<lambda>_.
           bindE (the_run rid) (\<lambda>run.
           ret \<lparr>cj_content_item_id = item_id, cj_pipeline_run_id = rid, cj_review_gate_id = gate_id g,
             cj_topic = jr_topic req, cj_current_stage = stage_value REVIEW,
             cj_run_status = run_status_value (run_status run),
             cj_gate_status = gate_status_value GateAwaiting\<rparr>)))))"

definition create_content_job :: "uuid \<Rightarrow> job_request \<Rightarrow> content_job_result svc" where
  "create_content_job workspace_id req =
     bindE (case jr_idempotency_key req of None \<Rightarrow> ret None | Some key \<Rightarrow> existing_job workspace_id key) (\<lambda>existing.
     case existing of
       Some job \<Rightarrow> ret job
     | None \<Rightarrow>
         bindE (ensure_desk_workflow workspace_id) (\<lambda>def.
         bindE (liftE (draft_for req)) (\<lambda>draft.
         bindE (add_draft workspace_id req draft) (\<lambda>(item_id, version_id, rid).
         bindE (enter_review rid version_id def) (\<lambda>_.
         finish_job req item_id rid)))))"

section \<open>The review queue\<close>

record gate_row =
  gr_id :: uuid
  gr_workspace_id :: uuid
  gr_pipeline_run_id :: uuid
  gr_content_item_id :: uuid
  gr_content_version_id :: "uuid option"
  gr_topic :: string
  gr_stage :: string
  gr_status :: string
  gr_requested_at :: datetime
  gr_timeout_at :: "datetime option"
  gr_decided_at :: "datetime option"
  gr_decided_by :: "uuid option"
  gr_script_hook :: "string option"
  gr_script_body :: "string option"
  gr_script_cta :: "string option"
  gr_run_status :: string

definition to_gate_row :: "review_gate \<Rightarrow> pipeline_run \<Rightarrow> content_item \<Rightarrow> content_version option \<Rightarrow> gate_row" where
  \<comment> \<open>\<open>_gate_row\<close>\<close>
  "to_gate_row gate run item version = \<lparr>gr_id = gate_id gate, gr_workspace_id = gate_workspace_id gate,
     gr_pipeline_run_id = gate_pipeline_run_id gate, gr_content_item_id = ci_id item,
     gr_content_version_id = gate_content_version_id gate, gr_topic = ci_topic item,
     gr_stage = stage_value (gate_stage gate), gr_status = gate_status_value (gate_status gate),
     gr_requested_at = gate_requested_at gate, gr_timeout_at = gate_timeout_at gate,
     gr_decided_at = gate_decided_at gate, gr_decided_by = gate_decided_by gate,
     gr_script_hook = Option.bind version cv_script_hook, gr_script_body = Option.bind version cv_script_body,
     gr_script_cta = Option.bind version cv_script_cta, gr_run_status = run_status_value (run_status run)\<rparr>"

definition joined_row :: "session \<Rightarrow> review_gate \<Rightarrow> gate_row option" where
  \<comment> \<open>a gate joined with its run and its item, and with the item's current version if it has one\<close>
  "joined_row s gate =
     Option.bind (find_run s (gate_pipeline_run_id gate)) (\<lambda>run.
     Option.bind (find_item s (run_content_item_id run)) (\<lambda>item.
     Some (to_gate_row gate run item (Option.bind (ci_current_version_id item) (find_version s)))))"

definition gate_status_of :: "string \<Rightarrow> review_gate_status option" where
  \<comment> \<open>\<open>ReviewGateStatus(value)\<close>\<close>
  "gate_status_of v = List.find (\<lambda>st. gate_status_value st = v)
     [GateAwaiting, GateApproved, GateRejected, GateTimedOut, GateEscalated]"

definition list_review_gates :: "uuid \<Rightarrow> string option \<Rightarrow> nat option \<Rightarrow> gate_row list svc" where
  "list_review_gates workspace_id status_filter limit =
     bindE (case status_filter of
        None \<Rightarrow> ret None
      | Some v \<Rightarrow> (case gate_status_of v of
          None \<Rightarrow> raise (ValueError ''not a valid ReviewGateStatus'')
        | Some st \<Rightarrow> ret (Some st))) (\<lambda>wanted.
     gets (\<lambda>s.
       let rows = sort_key (\<lambda>g. - gate_requested_at g) (filter (\<lambda>g. gate_workspace_id g = workspace_id
             \<and> (case wanted of None \<Rightarrow> True | Some st \<Rightarrow> gate_status g = st)) (gates s));
           joined = map the (filter (\<lambda>r. r \<noteq> None) (map (joined_row s) rows))
       in case limit of None \<Rightarrow> joined | Some n \<Rightarrow> take n joined))"

definition get_review_gate :: "uuid \<Rightarrow> uuid \<Rightarrow> gate_row option svc" where
  "get_review_gate workspace_id gid =
     gets (\<lambda>s. case find_gate s gid of
       None \<Rightarrow> None
     | Some gate \<Rightarrow> if gate_workspace_id gate \<noteq> workspace_id then None else joined_row s gate)"

section \<open>Deciding and editing\<close>

definition open_gate :: "uuid \<Rightarrow> uuid \<Rightarrow> review_gate svc" where
  \<comment> \<open>the gate of the workspace, locked, which must be awaiting\<close>
  "open_gate workspace_id gid =
     bindE (gets (\<lambda>s. find_gate s gid)) (\<lambda>g.
     case g of
       None \<Rightarrow> raise ReviewGateNotFoundError
     | Some gate \<Rightarrow>
         if gate_workspace_id gate \<noteq> workspace_id then raise ReviewGateNotFoundError
         else if gate_status gate \<noteq> GateAwaiting then raise (ValueError ''review gate is not awaiting a decision'')
         else ret gate)"

definition stale_content :: py_error where
  "stale_content = ValueError ''review gate content has changed since it was loaded; refresh and try again''"

definition decide_review_gate ::
    "uuid \<Rightarrow> uuid \<Rightarrow> uuid \<Rightarrow> bool \<Rightarrow> uuid option \<Rightarrow> string option \<Rightarrow> gate_row svc" where
  "decide_review_gate workspace_id gid reviewer_id approved expected_content_version_id notes =
     bindE (open_gate workspace_id gid) (\<lambda>gate.
     if approved \<and> gate_content_version_id gate = None
     then raise (ValueError ''review gate has no content version on record; it cannot be approved'')
     else if expected_content_version_id \<noteq> None \<and> expected_content_version_id \<noteq> gate_content_version_id gate
     then raise stale_content
     else
       bindE (submit_review_decision gid reviewer_id approved notes) (\<lambda>event.
       bindE (dispatch_one (register_all []) (ev_event_id event)) (\<lambda>_.
       bindE (the_gate gid) (\<lambda>gate.
       if gate_status gate = GateAwaiting then raise ReviewGateDeliveryError
       else
         bindE (get_review_gate workspace_id gid) (\<lambda>detail.
         case detail of
           None \<Rightarrow> raise (RuntimeError ''review gate disappeared after decision'')
         | Some d \<Rightarrow> ret d)))))"

definition opt_else :: "'a option \<Rightarrow> 'a option \<Rightarrow> 'a option" where
  \<comment> \<open>\<open>x if x is not None else y\<close>\<close>
  "opt_else x y = (if x \<noteq> None then x else y)"

definition edit_review_gate_content ::
    "uuid \<Rightarrow> uuid \<Rightarrow> uuid \<Rightarrow> string option \<Rightarrow> string option \<Rightarrow> string option \<Rightarrow> gate_row svc" where
  "edit_review_gate_content workspace_id gid expected_content_version_id hook body cta =
     bindE (open_gate workspace_id gid) (\<lambda>gate.
     if Some expected_content_version_id \<noteq> gate_content_version_id gate then raise stale_content
     else
       bindE (gets (\<lambda>s. find_run s (gate_pipeline_run_id gate))) (\<lambda>r.
       case r of
         None \<Rightarrow> raise (ValueError ''review_gate missing pipeline run / content item'')
       | Some run \<Rightarrow>
           bindE (gets (\<lambda>s. find_item s (run_content_item_id run))) (\<lambda>i.
           case i of
             None \<Rightarrow> raise (ValueError ''review_gate missing content item'')
           | Some item \<Rightarrow>
               bindE (gets (\<lambda>s. Option.bind (ci_current_version_id item) (find_version s))) (\<lambda>current.
               bindE (add_version workspace_id (ci_id item)
                  (opt_else hook (Option.bind current cv_script_hook))
                  (opt_else body (Option.bind current cv_script_body))
                  (opt_else cta (Option.bind current cv_script_cta)) None ''human_edit'') (\<lambda>version_id.
               bindE (set_item (ci_id item) (\<lambda>i. i\<lparr>ci_current_version_id := Some version_id\<rparr>)) (\<lambda>_.
               bindE (set_gate gid (\<lambda>g. g\<lparr>gate_content_version_id := Some version_id\<rparr>)) (\<lambda>_.
               bindE (get_review_gate workspace_id gid) (\<lambda>detail.
               case detail of
                 None \<Rightarrow> raise (RuntimeError ''review gate disappeared after edit'')
               | Some d \<Rightarrow> ret d))))))))"

section \<open>A new job enters review\<close>

text \<open>
  The hypotheses under which creation is followed: identifiers are fresh, the constraints on
  reservations and stages hold, and a desk workflow the workspace already has is the one
  \<open>ensure_desk_workflow\<close> provisions.
\<close>

definition desk_provisioned :: "session \<Rightarrow> uuid \<Rightarrow> bool" where
  "desk_provisioned s def \<longleftrightarrow> (\<exists>u v. filter (\<lambda>w. wst_definition_id w = def) (wf_stages s) = desk_stages u def
     \<and> filter (\<lambda>w. wt_definition_id w = def) (wf_transitions s) = desk_edges v def)"

definition is_desk :: "uuid \<Rightarrow> workflow_definition \<Rightarrow> bool" where
  "is_desk ws d \<longleftrightarrow> wd_workspace_id d = ws \<and> wd_name d = DESK_WORKFLOW_NAME \<and> wd_version d = DESK_WORKFLOW_VERSION"

definition below_supply :: "session \<Rightarrow> bool" where
  \<comment> \<open>every identifier in the tables the desk inserts into was drawn before\<close>
  "below_supply s \<longleftrightarrow> (\<forall>r \<in> set (runs s). run_id r < next_uuid s) \<and> (\<forall>i \<in> set (items s). ci_id i < next_uuid s)
     \<and> (\<forall>v \<in> set (versions s). cv_id v < next_uuid s) \<and> (\<forall>g \<in> set (gates s). gate_pipeline_run_id g < next_uuid s)
     \<and> (\<forall>r \<in> set (reservations s). rsv_id r < next_uuid s \<and> pred_option (\<lambda>k. k < next_uuid s) (rsv_pipeline_run_id r))
     \<and> (\<forall>j \<in> set (jobs s). job_ref_id j < next_uuid s) \<and> (\<forall>w \<in> set (wf_stages s). wst_definition_id w < next_uuid s)
     \<and> (\<forall>e \<in> set (wf_transitions s). wt_definition_id e < next_uuid s)"

definition desk_ready :: "session \<Rightarrow> uuid \<Rightarrow> bool" where
  "desk_ready s ws \<longleftrightarrow> below_supply s \<and> unique_rsv s \<and> unique_stages s \<and> length (filter (is_desk ws) (definitions s)) \<le> 1
     \<and> (\<forall>d \<in> set (definitions s). is_desk ws d \<longrightarrow> desk_provisioned s (wd_id d))"

lemma below_supplyD:
  assumes "below_supply s"
  shows "r \<in> set (runs s) \<Longrightarrow> run_id r < next_uuid s" "i \<in> set (items s) \<Longrightarrow> ci_id i < next_uuid s"
    "v \<in> set (versions s) \<Longrightarrow> cv_id v < next_uuid s" "x \<in> set (reservations s) \<Longrightarrow> rsv_id x < next_uuid s"
    "g \<in> set (gates s) \<Longrightarrow> gate_pipeline_run_id g < next_uuid s" "j \<in> set (jobs s) \<Longrightarrow> job_ref_id j < next_uuid s"
    "w \<in> set (wf_stages s) \<Longrightarrow> wst_definition_id w < next_uuid s"
    "e \<in> set (wf_transitions s) \<Longrightarrow> wt_definition_id e < next_uuid s"
    "x \<in> set (reservations s) \<Longrightarrow> rsv_pipeline_run_id x = Some k \<Longrightarrow> k < next_uuid s"
  using assms unfolding below_supply_def by fastforce+

lemma below_supply_more:
  assumes "below_supply s" and "next_uuid s \<le> n" and "\<forall>w \<in> set ws. wst_definition_id w < n" and "\<forall>e \<in> set ts. wt_definition_id e < n"
  shows "below_supply (s\<lparr>next_uuid := n, definitions := ds, wf_stages := wf_stages s @ ws, wf_transitions := wf_transitions s @ ts\<rparr>)"
proof -
  have lt: "x < next_uuid s \<Longrightarrow> x < n" for x using assms(2) by simp
  have "pred_option (\<lambda>k. k < n) (rsv_pipeline_run_id r)" if "r \<in> set (reservations s)" for r
    using below_supplyD(9) [OF assms(1) that] lt by (cases "rsv_pipeline_run_id r") auto
  then show ?thesis
    using below_supplyD [OF assms(1), THEN lt] assms(3,4) unfolding below_supply_def by auto
qed

lemma desk_stage_sel [simp]:
  "wst_definition_id (desk_stage u def key n a to g te) = def" "wst_stage_key (desk_stage u def key n a to g te) = key"
  "wst_ordinal (desk_stage u def key n a to g te) = n" "wst_is_review_gate (desk_stage u def key n a to g te) = g"
  "wst_is_terminal (desk_stage u def key n a to g te) = te"
  by (simp_all add: desk_stage_def)

lemma desk_edge_sel [simp]:
  "wt_definition_id (desk_edge u def a b tg) = def" "wt_from_stage (desk_edge u def a b tg) = a"
  "wt_to_stage (desk_edge u def a b tg) = b" "wt_trigger (desk_edge u def a b tg) = tg"
  "wt_condition (desk_edge u def a b tg) = None"
  by (simp_all add: desk_edge_def)

definition beside_workflow :: "session \<Rightarrow> session \<Rightarrow> bool" where
  \<comment> \<open>the sessions differ at most in the workflow tables and the identifier supply\<close>
  "beside_workflow s t \<longleftrightarrow> (\<exists>n ds ws ts. next_uuid s \<le> n
     \<and> t = s\<lparr>next_uuid := n, definitions := ds, wf_stages := wf_stages s @ ws, wf_transitions := wf_transitions s @ ts\<rparr>)"

lemma find_filter: "List.find P (filter Q xs) = List.find (\<lambda>x. Q x \<and> P x) xs"
  by (induction xs) auto

lemma stage_of_provisioned:
  assumes "desk_provisioned s def"
  obtains u v where "stage_of s def REVIEW = Some (desk_stage (u + 1) def REVIEW 2 3 (DEFAULT_REVIEW_TIMEOUT_HOURS * 3600) True False)"
    "stage_of s def PUBLISHED = Some (desk_stage (u + 2) def PUBLISHED 3 3 60 False True)"
    "sort_key wst_ordinal (filter (\<lambda>w. wst_definition_id w = def) (wf_stages s)) = desk_stages u def"
    "candidate_transitions s def SCRIPTING OnSuccess = [desk_edge v def SCRIPTING REVIEW OnSuccess]"
    "candidate_transitions s def REVIEW OnReviewApproved = [desk_edge (v + 1) def REVIEW PUBLISHED OnReviewApproved]"
proof -
  from assms obtain u v where f: "filter (\<lambda>w. wst_definition_id w = def) (wf_stages s) = desk_stages u def"
      "filter (\<lambda>w. wt_definition_id w = def) (wf_transitions s) = desk_edges v def"
    unfolding desk_provisioned_def by blast
  have st: "stage_of s def key = List.find (\<lambda>w. wst_stage_key w = key) (desk_stages u def)" for key
    unfolding f(1) [symmetric] by (simp add: stage_of_def find_filter)
  have tr: "candidate_transitions s def a tg =
      sort_key wt_priority (filter (\<lambda>w. wt_from_stage w = a \<and> wt_trigger w = tg) (desk_edges v def))" for a tg
    unfolding f(2) [symmetric] by (simp add: candidate_transitions_def)
  show thesis by (rule that [of u v]) (simp_all add: st tr f(1), simp_all add: desk_stages_def desk_edges_def)
qed

lemma provisioned_cong:
  "wf_stages t = wf_stages s \<Longrightarrow> wf_transitions t = wf_transitions s \<Longrightarrow> desk_provisioned t def = desk_provisioned s def"
  by (simp add: desk_provisioned_def)

lemma beside_refl: "beside_workflow s s" "beside_workflow s (definitions_update f s)"
  unfolding beside_workflow_def
  by (intro exI [of _ "next_uuid s"] exI [of _ "definitions s"] exI [of _ "[]"], simp)
    (intro exI [of _ "next_uuid s"] exI [of _ "f (definitions s)"] exI [of _ "[]"], cases s, simp)

lemma ensure_desk:
  assumes "desk_ready s ws"
  shows "\<exists>t def. ensure_desk_workflow ws s = (t, Inr def) \<and> beside_workflow s t \<and> desk_provisioned t def
    \<and> unique_stages t \<and> below_supply t"
proof -
  let ?rows = "filter (is_desk ws) (definitions s)"
  have sel: "filter (\<lambda>d. wd_workspace_id d = ws \<and> wd_name d = DESK_WORKFLOW_NAME \<and> wd_version d = DESK_WORKFLOW_VERSION) = filter (is_desk ws)"
    by (simp add: is_desk_def [abs_def])
  consider d where "?rows = [d]" | "?rows = []"
    using assms by (cases ?rows) (auto simp: desk_ready_def)
  then show ?thesis
  proof cases
    case 1
    then have "d \<in> set ?rows" by simp
    then have "desk_provisioned s (wd_id d)" using assms by (auto simp: desk_ready_def)
    moreover have "unique_stages s" "below_supply s" using assms by (simp_all add: desk_ready_def)
    ultimately show ?thesis using beside_refl
      by (cases "wd_is_active d") (simp_all add: ensure_desk_workflow_def sel 1 scalar_one_or_none_def provisioned_cong unique_stages_def desk_provisioned_def below_supply_def)
  next
    case 2
    let ?def = "next_uuid s"
    have below: "below_supply s" and uniq: "unique_stages s" using assms by (simp_all add: desk_ready_def)
    from below have none: "filter (\<lambda>w. wst_definition_id w = ?def) (wf_stages s) = []"
        "filter (\<lambda>w. wt_definition_id w = ?def) (wf_transitions s) = []"
      unfolding filter_empty_conv using below_supplyD(7,8) [OF below] by fastforce+
    let ?t = "s\<lparr>next_uuid := Suc (Suc (Suc (Suc (Suc (Suc (next_uuid s)))))), definitions := definitions s @ [\<lparr>wd_id = ?def, wd_workspace_id = ws,
        wd_name = DESK_WORKFLOW_NAME, wd_version = DESK_WORKFLOW_VERSION, wd_is_active = True\<rparr>],
        wf_stages := wf_stages s @ desk_stages (?def + 1) ?def, wf_transitions := wf_transitions s @ desk_edges (?def + 4) ?def\<rparr>"
    have run: "ensure_desk_workflow ws s = (?t, Inr ?def)"
      by (simp add: ensure_desk_workflow_def sel 2 scalar_one_or_none_def) (cases s, simp add: eval_nat_numeral)
    have "desk_provisioned ?t ?def" unfolding desk_provisioned_def
      by (intro exI [of _ "?def + 1"] exI [of _ "?def + 4"]) (simp add: none, simp add: desk_stages_def desk_edges_def)
    moreover have "unique_stages ?t"
    proof -
      have "?def \<notin> wst_definition_id ` set (wf_stages s)" using none(1) by (auto simp: filter_empty_conv)
      with uniq show ?thesis by (auto simp: unique_stages_def desk_stages_def image_iff)
    qed
    moreover have "below_supply ?t"
      by (rule below_supply_more [OF below]) (simp_all add: desk_stages_def desk_edges_def)
    moreover have "beside_workflow s ?t" unfolding beside_workflow_def by (intro exI) (rule conjI [OF _ refl], simp)
    ultimately show ?thesis using run by blast
  qed
qed


text \<open>The rows of a new job, with the identifiers drawn from \<open>k\<close> on.\<close>

definition new_item :: "uuid \<Rightarrow> job_request \<Rightarrow> uuid \<Rightarrow> content_item" where
  "new_item ws req k = \<lparr>ci_id = k, ci_workspace_id = ws, ci_topic = jr_topic req,
     ci_target_length_seconds = jr_target_length_seconds req, ci_current_stage = SCRIPTING,
     ci_current_version_id = Some (Suc k), ci_current_pipeline_run_id = Some (Suc (Suc k))\<rparr>"

definition new_version :: "uuid \<Rightarrow> draft_text \<Rightarrow> uuid \<Rightarrow> content_version" where
  "new_version ws draft k = \<lparr>cv_id = Suc k, cv_workspace_id = ws, cv_content_item_id = k,
     cv_script_hook = dt_hook draft, cv_script_body = Some (dt_body draft), cv_script_cta = dt_cta draft,
     cv_prompt_used = Some (dt_prompt_used draft), cv_generated_by = Some (dt_generated_by draft)\<rparr>"

definition new_run :: "uuid \<Rightarrow> string option \<Rightarrow> uuid \<Rightarrow> pipeline_run" where
  "new_run ws key k = \<lparr>run_id = Suc (Suc k), run_workspace_id = ws, run_content_item_id = k,
     run_idempotency_key = key, run_current_stage = SCRIPTING, run_status = RunRunning,
     run_started_at = None, run_completed_at = None, run_pause_reason = None, run_definition_id = None,
     run_correlation_id = None, run_trace_id = None\<rparr>"

lemma add_draft_apply:
  assumes "below_supply s" and "\<And>key. jr_idempotency_key req = Some key \<Longrightarrow> keyed_runs s ws key = []"
  shows "add_draft ws req draft s =
    (let k = next_uuid s in (s\<lparr>next_uuid := Suc (Suc (Suc k)), items := items s @ [new_item ws req k],
       versions := versions s @ [new_version ws draft k], runs := runs s @ [new_run ws (jr_idempotency_key req) k]\<rparr>,
     Inr (k, Suc k, Suc (Suc k))))"
proof -
  have "upd_row ci_id (next_uuid s) f (items s) = items s" for f
    using below_supplyD(2) [OF assms(1)] by (intro upd_row_absent) fastforce
  moreover have "(case jr_idempotency_key req of None \<Rightarrow> False | Some k \<Rightarrow> keyed_runs t ws k \<noteq> []) = False"
    if "runs t = runs s" for t
    using assms(2) that by (auto simp: keyed_runs_def split: option.split)
  ultimately show ?thesis
    unfolding add_draft_def add_version_def insert_run_def
    by (simp add: Let_def new_item_def new_version_def new_run_def)
qed

definition desk_same :: "session \<Rightarrow> session \<Rightarrow> bool" where
  "desk_same s t \<longleftrightarrow> items t = items s \<and> versions t = versions s \<and> caps t = caps s \<and> clock t = clock s
     \<and> get_settings t = get_settings s \<and> wf_stages t = wf_stages s \<and> wf_transitions t = wf_transitions s"

definition run_kept :: "pipeline_run \<Rightarrow> pipeline_run \<Rightarrow> bool" where
  "run_kept run run' \<longleftrightarrow> run_workspace_id run' = run_workspace_id run \<and> run_content_item_id run' = run_content_item_id run"

lemma start_run_apply:
  assumes "find_run s rid = Some run"
    and "sort_key wst_ordinal (filter (\<lambda>w. wst_definition_id w = def) (wf_stages s)) = desk_stages u def"
  shows "\<exists>t run' job. start_run rid def s = (t, Inr ()) \<and> find_run t rid = Some run' \<and> run_kept run run'
    \<and> run_definition_id run' = Some def \<and> run_status run' = run_status run \<and> desk_same s t
    \<and> jobs t = jobs s @ [job] \<and> job_ref_id job = rid \<and> job_ref_table job = stage_value SCRIPTING \<and> job_job_type job = JobStage
    \<and> job_status job = JobPending \<and> gates t = gates s \<and> reservations t = reservations s \<and> spend_logs t = spend_logs s
    \<and> run_idents t = run_idents s"
  using assms
  by (simp add: start_run_def find_row_upd_row first_row_def desk_stages_def enqueue_stage_def Let_def
      desk_same_def run_kept_def run_idents_def run_idents_upd run_ident_def)

lemma check_caps_cong:
  assumes "reservations t = reservations s" and "spend_logs t = spend_logs s" and "clock t = clock s" and "ws = ws'"
  shows "check_caps t ws p est cap = check_caps s ws' p est cap"
proof -
  have "spend_committed_plus_reserved t ws q d = spend_committed_plus_reserved s ws q d" for q d
    using assms(2,1) by (rule spend_usage_cong)
  then show ?thesis by (simp only: check_caps_def assms(3,4))
qed

lemma reserve_new_run:
  assumes "find_run s rid = Some run" and "unique_rsv s" and "\<forall>r \<in> set (reservations s). rsv_id r < next_uuid s"
    and "\<forall>r \<in> set (reservations s). rsv_pipeline_run_id r \<noteq> Some rid"
    and "applicable_cap (caps s) (run_workspace_id run) p = Inr cap"
  shows "if check_caps s (run_workspace_id run) p est cap = None
    then \<exists>t u run' r. reserve_spend rid stage p est s = (t, Inr (Some u)) \<and> find_run t rid = Some run'
      \<and> run_kept run run' \<and> run_definition_id run' = run_definition_id run \<and> run_status run' = run_status run
      \<and> desk_same s t \<and> jobs t = jobs s \<and> gates t = gates s \<and> run_idents t = run_idents s
      \<and> find_rsv t u = Some r \<and> rsv_status r = Reserved \<and> rsv_estimated_cost_usd r = numeric4 est
    else \<exists>t. reserve_spend rid stage p est s = (t, Inr None)"
proof -
  from assms(1,2) obtain s0 run0 where
    s0: "released_from s s0" "find_run s0 rid = Some run0" "run0\<lparr>run_trace_id := None\<rparr> = run\<lparr>run_trace_id := None\<rparr>"
      "reservations s0 = release_rows (\<lambda>r. rsv_pipeline_run_id r = Some rid \<and> rsv_stage r = Some stage) (reservations s)"
    and eq: "reserve_spend rid stage p est s = reserve_outcome rid run run0 stage p est (caps s) s0"
    by (rule reserve_spend_released)
  have run0: "run_workspace_id run0 = run_workspace_id run" "run_content_item_id run0 = run_content_item_id run"
      "run_definition_id run0 = run_definition_id run" "run_status run0 = run_status run"
    using s0(3) by (cases run0, cases run, simp)+
  have rsv: "reservations s0 = reservations s"
    unfolding s0(4) release_rows_def using assms(4) by (auto intro: map_idI)
  have caps: "check_caps s0 ws p est cap = check_caps s ws p est cap" for ws
    using s0(1) rsv by (intro check_caps_cong) (simp_all add: released_from_def)
  have new: "find_rsv s (next_uuid s0) = None"
    using assms(3) s0(1) unfolding find_row_None released_from_def by fastforce
  show ?thesis
  proof (cases "check_caps s (run_workspace_id run) p est cap")
    case None
    let ?t = "reserved_st rid run0 stage p est s0"
    have "reserve_spend rid stage p est s = (?t, Inr (Some (next_uuid s0)))"
      by (simp add: eq reserve_outcome_def assms(5) caps None)
    moreover have "\<exists>run'. find_run ?t rid = Some run' \<and> run_kept run run' \<and> run_definition_id run' = run_definition_id run
        \<and> run_status run' = run_status run"
      using s0(2) by (simp add: reserved_st_def run0 run_kept_def)
    moreover have "desk_same s ?t" "jobs ?t = jobs s" "gates ?t = gates s"
      using s0(1) by (simp_all add: desk_same_def reserved_st_def released_from_def)
    moreover have "run_idents ?t = run_idents s"
      using run_idents_released [OF s0(1)] by (simp add: reserved_st_def run_idents_def)
    moreover have "find_rsv ?t (next_uuid s0) = Some (granted_rsv run0 stage p est s0)"
      using new by (simp add: rsv find_row_append)
    ultimately show ?thesis using None by fastforce
  next
    case (Some x)
    then show ?thesis by (cases x) (simp add: eq reserve_outcome_def assms(5) caps)
  qed
qed

lemma commit_new_run:
  assumes "find_run s rid = Some run" and "find_rsv s k = Some r" and "rsv_status r = Reserved" and "0 \<le> est"
  shows "\<exists>t run'. commit_spend rid k est s = (t, Inr ()) \<and> find_run t rid = Some run' \<and> run_status run' = run_status run
    \<and> run_pause_reason run' = run_pause_reason run \<and> items t = items s \<and> versions t = versions s
    \<and> gates t = gates s \<and> jobs t = jobs s \<and> run_idents t = run_idents s"
  using assms by (simp add: commit_spend_def Let_def emit_for_run_apply run_idents_def)

lemma enter_review_apply:
  assumes run: "find_run s rid = Some run" "run_status run = RunRunning"
    and wf: "unique_stages s" "desk_provisioned s def"
    and rsv: "unique_rsv s" "\<forall>r \<in> set (reservations s). rsv_id r < next_uuid s" "\<forall>r \<in> set (reservations s). rsv_pipeline_run_id r \<noteq> Some rid"
    and gates: "\<forall>g \<in> set (gates s). gate_pipeline_run_id g \<noteq> rid"
    and it: "find_item s (run_content_item_id run) = Some it"
    and cap: "applicable_cap (caps s) (run_workspace_id run) DRAFT_DESK_PROVIDER = Inr cap"
    and est: "default_stage_estimate_usd (get_settings s) = est" "0 \<le> est"
  shows "if check_caps s (run_workspace_id run) DRAFT_DESK_PROVIDER est cap = None
    then \<exists>t run' gate j1 j2. enter_review rid ver def s = (t, Inr ()) \<and> find_run t rid = Some run' \<and> run_status run' = RunPaused
      \<and> run_pause_reason run' = Some ''review_gate'' \<and> items t = items s \<and> versions t = versions s
      \<and> gates t = gates s @ [gate] \<and> gate_pipeline_run_id gate = rid \<and> gate_status gate = GateAwaiting
      \<and> gate_stage gate = REVIEW \<and> gate_content_version_id gate = ci_current_version_id it
      \<and> jobs t = jobs s @ [j1, j2] \<and> orphan_job rid j1 \<and> job_job_type j2 = JobReviewTimeout \<and> run_idents t = run_idents s
    else \<exists>t. enter_review rid ver def s = (t, Inl SpendBudgetExceededError)"
proof -
  from wf(2) obtain u v where wf_s: "stage_of s def REVIEW = Some (desk_stage (u + 1) def REVIEW 2 3 (DEFAULT_REVIEW_TIMEOUT_HOURS * 3600) True False)"
      "sort_key wst_ordinal (filter (\<lambda>w. wst_definition_id w = def) (wf_stages s)) = desk_stages u def"
      "candidate_transitions s def SCRIPTING OnSuccess = [desk_edge v def SCRIPTING REVIEW OnSuccess]"
    by (rule stage_of_provisioned)
  obtain t1 run1 j1 where t1: "start_run rid def s = (t1, Inr ())" "find_run t1 rid = Some run1" "run_kept run run1"
      "run_definition_id run1 = Some def" "run_status run1 = RunRunning" "desk_same s t1" "jobs t1 = jobs s @ [j1]" "orphan_job rid j1"
      "gates t1 = gates s" "reservations t1 = reservations s" "spend_logs t1 = spend_logs s"
      "run_idents t1 = run_idents s"
    using start_run_apply [OF run(1) wf_s(2)] run(2) by (auto simp: orphan_job_def)
  have grow: "next_uuid s \<le> next_uuid t1"
    using effects_result [OF idsg.eff_start_run t1(1)] by (simp add: ids_grow_def)
  have same: "run_workspace_id run1 = run_workspace_id run" "caps t1 = caps s" "clock t1 = clock s"
    using t1(3,6) by (simp_all add: run_kept_def desk_same_def)
  have check: "check_caps t1 (run_workspace_id run1) DRAFT_DESK_PROVIDER est cap = check_caps s (run_workspace_id run) DRAFT_DESK_PROVIDER est cap"
    by (rule check_caps_cong) (simp_all add: same t1)
  let ?ctx = "[(''draft_version_id'', JStr (uuid_str ver)), (''estimated_cost_usd'', JNum est), (''provider'', JStr DRAFT_DESK_PROVIDER)]"
  have eq: "enter_review rid ver def s = bindE (reserve_spend rid SCRIPTING DRAFT_DESK_PROVIDER est) (\<lambda>reservation.
     case reservation of None \<Rightarrow> raise SpendBudgetExceededError
     | Some rsv \<Rightarrow> bindE (handle_stage_success rid SCRIPTING (Some ?ctx)) (\<lambda>_. commit_spend rid rsv est)) t1"
    using t1(6) est(1) unfolding enter_review_def bindE_Inr [where m = "start_run rid def", OF t1(1)]
    by (simp add: desk_same_def)
  have rsv1: "unique_rsv t1" "\<forall>r \<in> set (reservations t1). rsv_id r < next_uuid t1" "\<forall>r \<in> set (reservations t1). rsv_pipeline_run_id r \<noteq> Some rid"
      "applicable_cap (caps t1) (run_workspace_id run1) DRAFT_DESK_PROVIDER = Inr cap"
    using rsv cap grow by (fastforce simp: unique_rsv_def t1(10) same)+
  note reserve = reserve_new_run [OF t1(2) rsv1, of est SCRIPTING, unfolded check]
  show ?thesis
  proof (cases "check_caps s (run_workspace_id run) DRAFT_DESK_PROVIDER est cap = None")
    case False
    with reserve obtain t where "reserve_spend rid SCRIPTING DRAFT_DESK_PROVIDER est t1 = (t, Inr None)" by auto
    with False show ?thesis
      unfolding eq by (simp add: bindE_Inr [where m = "reserve_spend rid SCRIPTING DRAFT_DESK_PROVIDER est"])
  next
    case True
    with reserve obtain t2 k run2 r where t2: "reserve_spend rid SCRIPTING DRAFT_DESK_PROVIDER est t1 = (t2, Inr (Some k))"
        "find_run t2 rid = Some run2" "run_kept run1 run2" "run_definition_id run2 = Some def" "run_status run2 = RunRunning"
        "desk_same t1 t2" "jobs t2 = jobs t1" "gates t2 = gates t1" "find_rsv t2 k = Some r" "rsv_status r = Reserved"
        "run_idents t2 = run_idents t1"
      by (auto simp: t1(4,5))
    have wf2: "wf_stages t2 = wf_stages s" "wf_transitions t2 = wf_transitions s" and items2: "items t2 = items s" "versions t2 = versions s"
      using t1(6) t2(6) by (simp_all add: desk_same_def)
    have "next_edge t2 run2 SCRIPTING OnSuccess ?ctx (desk_edge v def SCRIPTING REVIEW OnSuccess)
        (desk_stage (u + 1) def REVIEW 2 3 (DEFAULT_REVIEW_TIMEOUT_HOURS * 3600) True False)"
      using wf_s(1,3) by (simp add: next_edge_def t2(4) candidate_transitions_def stage_of_def wf2 evaluate_condition_def bind_sum_def)
    moreover have "unique_stages t2" using wf(1) by (simp add: unique_stages_def wf2)
    moreover have "awaiting_gates t2 rid = []" using gates by (auto simp: awaiting_gates_def t2(8) t1(9) filter_empty_conv)
    moreover have "find_row ci_id (run_content_item_id run2) (items t2) = Some it"
      using it t1(3) t2(3) by (simp add: run_kept_def items2)
    ultimately obtain t3 run3 gate j2 where t3: "handle_stage_success rid SCRIPTING (Some ?ctx) t2 = (t3, Inr ())"
        "find_run t3 rid = Some run3" "run_status run3 = RunPaused" "run_pause_reason run3 = Some ''review_gate''"
        "gates t3 = gates t2 @ [gate]" "gate_pipeline_run_id gate = rid" "gate_status gate = GateAwaiting" "gate_stage gate = REVIEW"
        "gate_content_version_id gate = ci_current_version_id it" "jobs t3 = jobs t2 @ [j2]" "job_job_type j2 = JobReviewTimeout"
        "items t3 = items t2" "versions t3 = versions t2" "reservations t3 = reservations t2"
        "run_idents t3 = run_idents t2"
      using success_opens_gate [OF t2(2), of SCRIPTING ?ctx] t2(5) by fastforce
    have "find_rsv t3 k = Some r" using t2(9) by (simp add: t3(14))
    from commit_new_run [OF t3(2) this t2(10) est(2)] obtain t4 run4 where t4: "commit_spend rid k est t3 = (t4, Inr ())"
        "find_run t4 rid = Some run4" "run_status run4 = RunPaused" "run_pause_reason run4 = Some ''review_gate''"
        "items t4 = items t3" "versions t4 = versions t3" "gates t4 = gates t3" "jobs t4 = jobs t3"
        "run_idents t4 = run_idents t3"
      by (auto simp: t3(3,4))
    have "enter_review rid ver def s = (t4, Inr ())"
      unfolding eq bindE_Inr [where m = "reserve_spend rid SCRIPTING DRAFT_DESK_PROVIDER est", OF t2(1)] option.case
        bindE_Inr [where m = "handle_stage_success rid SCRIPTING (Some ?ctx)", OF t3(1)] by (rule t4(1))
    moreover have "jobs t4 = jobs s @ [j1, j2]" "gates t4 = gates s @ [gate]" "items t4 = items s" "versions t4 = versions s"
        "run_idents t4 = run_idents s"
      by (simp_all add: t4 t3 t2 t1 items2)
    ultimately show ?thesis using True t4(2-4) t3(6-9,11) t1(8) by auto
  qed
qed

definition drafted :: "uuid \<Rightarrow> job_request \<Rightarrow> draft_text \<Rightarrow> session \<Rightarrow> session" where
  "drafted ws req draft s = (let k = next_uuid s in s\<lparr>next_uuid := Suc (Suc (Suc k)), items := items s @ [new_item ws req k],
     versions := versions s @ [new_version ws draft k], runs := runs s @ [new_run ws (jr_idempotency_key req) k]\<rparr>)"

lemma drafted_sel:
  assumes "below_supply s"
  shows "find_run (drafted ws req draft s) (Suc (Suc (next_uuid s))) = Some (new_run ws (jr_idempotency_key req) (next_uuid s))"
    "find_item (drafted ws req draft s) (next_uuid s) = Some (new_item ws req (next_uuid s))"
    "find_version (drafted ws req draft s) (Suc (next_uuid s)) = Some (new_version ws draft (next_uuid s))"
proof -
  have "find_run s (Suc (Suc (next_uuid s))) = None" "find_item s (next_uuid s) = None" "find_version s (Suc (next_uuid s)) = None"
    using below_supplyD(1-3) [OF assms] unfolding find_row_None by fastforce+
  then show "find_run (drafted ws req draft s) (Suc (Suc (next_uuid s))) = Some (new_run ws (jr_idempotency_key req) (next_uuid s))"
    "find_item (drafted ws req draft s) (next_uuid s) = Some (new_item ws req (next_uuid s))"
    "find_version (drafted ws req draft s) (Suc (next_uuid s)) = Some (new_version ws draft (next_uuid s))"
    by (simp_all add: drafted_def Let_def find_row_append new_run_def new_item_def new_version_def)
qed

lemma orphans_cancelled:
  assumes "\<forall>j \<in> set js. job_ref_id j \<noteq> rid" and "orphan_job rid j1" and "job_job_type j2 = JobReviewTimeout"
    and "j \<in> set (map (\<lambda>j. if orphan_job rid j then j\<lparr>job_status := JobCancelled, job_lease_owner := None,
      job_lease_expires_at := None\<rparr> else j) (js @ [j1, j2]))"
    and "job_ref_id j = rid" and "job_job_type j \<in> {JobStage, JobRetry}"
  shows "job_status j = JobCancelled"
  using assms by (auto split: if_splits)

lemma finish_job_apply:
  assumes "filter (\<lambda>g. gate_pipeline_run_id g = rid) (gates t) = [gate]" and "gate_status gate = GateAwaiting"
    and "find_run t rid = Some run" and "find_item t k = Some item"
  shows "\<exists>u job. finish_job req k rid t = (u, Inr job) \<and> cj_content_item_id job = k \<and> cj_pipeline_run_id job = rid
    \<and> cj_review_gate_id job = gate_id gate \<and> gates u = gates t \<and> versions u = versions t \<and> runs u = runs t
    \<and> find_item u k = Some (item\<lparr>ci_current_stage := REVIEW\<rparr>)
    \<and> jobs u = map (\<lambda>j. if orphan_job rid j then j\<lparr>job_status := JobCancelled, job_lease_owner := None,
        job_lease_expires_at := None\<rparr> else j) (jobs t)"
  using assms by (simp add: finish_job_def cancel_orphan_jobs_def scalar_one_or_none_def find_row_upd_row)

lemma create_until_review:
  assumes "desk_ready s ws" and "draft_for req = Inr draft"
    and "\<And>key. jr_idempotency_key req = Some key \<Longrightarrow> keyed_runs s ws key = []"
  obtains s1 def k where "k = next_uuid s1" "beside_workflow s s1" "desk_provisioned s1 def" "unique_stages s1" "below_supply s1"
    "create_content_job ws req s = bindE (enter_review (Suc (Suc k)) (Suc k) def) (\<lambda>_. finish_job req k (Suc (Suc k))) (drafted ws req draft s1)"
proof -
  obtain s1 def where s1: "ensure_desk_workflow ws s = (s1, Inr def)" "beside_workflow s s1" "desk_provisioned s1 def"
      "unique_stages s1" "below_supply s1" using ensure_desk [OF assms(1)] by blast
  define k where "k = next_uuid s1"
  have "runs s1 = runs s" using s1(2) by (auto simp: beside_workflow_def)
  then have draft: "add_draft ws req draft s1 = (drafted ws req draft s1, Inr (k, Suc k, Suc (Suc k)))"
    using add_draft_apply [OF s1(5), of req ws draft] assms(3) by (simp add: Let_def drafted_def k_def keyed_runs_def)
  have "existing_job ws key s = (s, Inr None)" if "jr_idempotency_key req = Some key" for key
    using assms(3) [OF that] by (simp add: existing_job_def scalar_one_or_none_def)
  then have new: "(case jr_idempotency_key req of None \<Rightarrow> ret None | Some key \<Rightarrow> existing_job ws key) s = (s, Inr None)"
    by (simp split: option.split)
  have "create_content_job ws req s = bindE (enter_review (Suc (Suc k)) (Suc k) def) (\<lambda>_. finish_job req k (Suc (Suc k))) (drafted ws req draft s1)"
    unfolding create_content_job_def bindE_Inr [where m = "case jr_idempotency_key req of None \<Rightarrow> ret None | Some key \<Rightarrow> existing_job ws key", OF new]
      option.case bindE_Inr [where m = "ensure_desk_workflow ws", OF s1(1)] assms(2) bindE_liftE sum.case
      bindE_Inr [where m = "add_draft ws req draft", OF draft] prod.case ..
  with that [OF k_def s1(2-5)] show thesis by blast
qed

lemma drafted_enters:
  assumes "k = next_uuid s1" and "beside_workflow s s1" and "desk_provisioned s1 def" and "unique_stages s1" and "below_supply s1"
    and "unique_rsv s" and "applicable_cap (caps s) ws DRAFT_DESK_PROVIDER = Inr cap"
    and "default_stage_estimate_usd (get_settings s) = est" and "0 \<le> est"
  shows "if check_caps s ws DRAFT_DESK_PROVIDER est cap = None
    then \<exists>t run' gate j1 j2. enter_review (Suc (Suc k)) (Suc k) def (drafted ws req draft s1) = (t, Inr ())
      \<and> find_run t (Suc (Suc k)) = Some run' \<and> run_status run' = RunPaused
      \<and> run_pause_reason run' = Some ''review_gate'' \<and> items t = items (drafted ws req draft s1) \<and> versions t = versions (drafted ws req draft s1)
      \<and> gates t = gates (drafted ws req draft s1) @ [gate] \<and> gate_pipeline_run_id gate = Suc (Suc k) \<and> gate_status gate = GateAwaiting
      \<and> gate_stage gate = REVIEW \<and> gate_content_version_id gate = ci_current_version_id (new_item ws req k)
      \<and> jobs t = jobs (drafted ws req draft s1) @ [j1, j2] \<and> orphan_job (Suc (Suc k)) j1 \<and> job_job_type j2 = JobReviewTimeout
      \<and> run_idents t = run_idents (drafted ws req draft s1)
    else \<exists>t. enter_review (Suc (Suc k)) (Suc k) def (drafted ws req draft s1) = (t, Inl SpendBudgetExceededError)"
proof -
  let ?rid = "Suc (Suc k)" and ?s2 = "drafted ws req draft s1"
  have same: "reservations s1 = reservations s" "spend_logs s1 = spend_logs s" "caps s1 = caps s"
      "get_settings s1 = get_settings s" "clock s1 = clock s"
    using assms(2) by (auto simp: beside_workflow_def)
  note sel = drafted_sel [OF assms(5), of ws req draft, folded assms(1)]
  have tables: "wf_stages ?s2 = wf_stages s1" "wf_transitions ?s2 = wf_transitions s1" "reservations ?s2 = reservations s"
      "gates ?s2 = gates s1" "caps ?s2 = caps s" "get_settings ?s2 = get_settings s" "jobs ?s2 = jobs s1" "spend_logs ?s2 = spend_logs s"
      "clock ?s2 = clock s" "next_uuid ?s2 = Suc ?rid"
    by (simp_all add: drafted_def Let_def same assms(1))
  have "unique_stages ?s2" "desk_provisioned ?s2 def" "unique_rsv ?s2"
    using assms(3,4,6) by (simp_all add: unique_stages_def desk_provisioned_def tables unique_rsv_def)
  moreover have "\<forall>r \<in> set (reservations ?s2). rsv_id r < next_uuid ?s2" "\<forall>r \<in> set (reservations ?s2). rsv_pipeline_run_id r \<noteq> Some ?rid"
      "\<forall>g \<in> set (gates ?s2). gate_pipeline_run_id g \<noteq> ?rid"
    using below_supplyD(4,5,9) [OF assms(5), folded assms(1)] by (fastforce simp: tables same)+
  moreover have "run_status (new_run ws (jr_idempotency_key req) k) = RunRunning" "run_workspace_id (new_run ws (jr_idempotency_key req) k) = ws"
      "run_content_item_id (new_run ws (jr_idempotency_key req) k) = k" by (simp_all add: new_run_def)
  moreover have "check_caps ?s2 ws DRAFT_DESK_PROVIDER est cap = check_caps s ws DRAFT_DESK_PROVIDER est cap"
    by (rule check_caps_cong) (simp_all add: tables)
  ultimately show ?thesis
    using enter_review_apply [OF sel(1), of def "new_item ws req k" cap est "Suc k"] sel(2) assms(7-9) by (simp add: tables)
qed

text \<open>Which runs a key stands for depends only on what identifies the runs.\<close>

definition keyed_idents :: "uuid \<Rightarrow> string \<Rightarrow> (uuid \<times> uuid \<times> uuid \<times> string option) list \<Rightarrow> (uuid \<times> uuid \<times> uuid \<times> string option) list" where
  "keyed_idents ws key ids = filter (\<lambda>(_, w, _, k). w = ws \<and> k = Some key) ids"

lemma keyed_runs_idents: "map run_ident (keyed_runs s ws key) = keyed_idents ws key (run_idents s)"
  by (simp add: keyed_runs_def keyed_idents_def run_idents_def filter_map comp_def run_ident_def)

lemma drafted_idents:
  "run_idents (drafted ws req draft s) = run_idents s
     @ [(Suc (Suc (next_uuid s)), ws, next_uuid s, jr_idempotency_key req)]"
  by (simp add: run_idents_def drafted_def Let_def run_ident_def new_run_def)

lemma keyed_idents_new: "keyed_runs s ws key = [] \<Longrightarrow>
    keyed_idents ws key (run_idents s @ [(r, ws, i, Some key)]) = [(r, ws, i, Some key)]"
  using keyed_runs_idents [of s ws key] by (simp add: keyed_idents_def)

lemma new_job_created:
  assumes "desk_ready s ws" and "draft_for req = Inr draft"
    and "\<And>key. jr_idempotency_key req = Some key \<Longrightarrow> keyed_runs s ws key = []"
    and "applicable_cap (caps s) ws DRAFT_DESK_PROVIDER = Inr cap"
    and "default_stage_estimate_usd (get_settings s) = est" and "0 \<le> est"
  shows "if check_caps s ws DRAFT_DESK_PROVIDER est cap = None
    then \<exists>t job gate item version run. create_content_job ws req s = (t, Inr job)
      \<and> filter (\<lambda>g. gate_pipeline_run_id g = cj_pipeline_run_id job) (gates t) = [gate] \<and> gate_id gate = cj_review_gate_id job
      \<and> gate_status gate = GateAwaiting \<and> gate_content_version_id gate = Some (cv_id version)
      \<and> find_item t (cj_content_item_id job) = Some item \<and> ci_current_version_id item = Some (cv_id version)
      \<and> find_version t (cv_id version) = Some version \<and> cv_script_body version = Some (dt_body draft)
      \<and> find_run t (cj_pipeline_run_id job) = Some run \<and> run_status run = RunPaused \<and> run_pause_reason run = Some ''review_gate''
      \<and> (\<forall>j \<in> set (jobs t). job_ref_id j = cj_pipeline_run_id job \<and> job_job_type j \<in> {JobStage, JobRetry}
           \<longrightarrow> job_status j = JobCancelled)
      \<and> (\<forall>key. jr_idempotency_key req = Some key \<longrightarrow>
           map run_ident (keyed_runs t ws key) = [(cj_pipeline_run_id job, ws, cj_content_item_id job, Some key)])
    else \<exists>t. create_content_job ws req s = (t, Inl SpendBudgetExceededError)"
proof -
  obtain s1 def k where s1: "k = next_uuid s1" "beside_workflow s s1" "desk_provisioned s1 def" "unique_stages s1" "below_supply s1"
    and eq: "create_content_job ws req s = bindE (enter_review (Suc (Suc k)) (Suc k) def) (\<lambda>_. finish_job req k (Suc (Suc k))) (drafted ws req draft s1)"
    using create_until_review [OF assms(1-3)] .
  note sel = drafted_sel [OF s1(5), of ws req draft, folded s1(1)]
  have "unique_rsv s" using assms(1) by (simp add: desk_ready_def)
  have tables: "gates (drafted ws req draft s1) = gates s1" "jobs (drafted ws req draft s1) = jobs s1"
    by (simp_all add: drafted_def Let_def)
  note enter = drafted_enters [OF s1 \<open>unique_rsv s\<close> assms(4-6), of req draft]
  show ?thesis
  proof (cases "check_caps s ws DRAFT_DESK_PROVIDER est cap = None")
    case False
    with enter obtain t where "enter_review (Suc (Suc k)) (Suc k) def (drafted ws req draft s1) = (t, Inl SpendBudgetExceededError)" by auto
    with False show ?thesis unfolding eq by (simp add: bindE_Inl [where m = "enter_review (Suc (Suc k)) (Suc k) def"])
  next
    case True
    with enter obtain t run gate j1 j2 where t: "enter_review (Suc (Suc k)) (Suc k) def (drafted ws req draft s1) = (t, Inr ())" "find_run t (Suc (Suc k)) = Some run"
        "run_status run = RunPaused" "run_pause_reason run = Some ''review_gate''" "items t = items (drafted ws req draft s1)" "versions t = versions (drafted ws req draft s1)"
        "gates t = gates s1 @ [gate]" "gate_pipeline_run_id gate = (Suc (Suc k))" "gate_status gate = GateAwaiting"
        "gate_content_version_id gate = ci_current_version_id (new_item ws req k)" "jobs t = jobs s1 @ [j1, j2]" "orphan_job (Suc (Suc k)) j1"
        "job_job_type j2 = JobReviewTimeout"
        "run_idents t = run_idents (drafted ws req draft s1)"
      by (auto simp: tables)
    have one: "filter (\<lambda>g. gate_pipeline_run_id g = (Suc (Suc k))) (gates t) = [gate]"
      using below_supplyD(5) [OF s1(5), folded s1(1)] t(8) by (fastforce simp: t(7) filter_empty_conv)
    have "find_item t k = Some (new_item ws req k)" using sel(2) by (simp add: t(5))
    from finish_job_apply [OF one t(9,2) this] obtain u job where
      u: "finish_job req k (Suc (Suc k)) t = (u, Inr job)" "cj_content_item_id job = k" "cj_pipeline_run_id job = (Suc (Suc k))"
        "cj_review_gate_id job = gate_id gate" "gates u = gates t" "versions u = versions t" "runs u = runs t"
        "find_item u k = Some ((new_item ws req k)\<lparr>ci_current_stage := REVIEW\<rparr>)"
        "jobs u = map (\<lambda>j. if orphan_job (Suc (Suc k)) j then j\<lparr>job_status := JobCancelled, job_lease_owner := None,
          job_lease_expires_at := None\<rparr> else j) (jobs t)" by blast
    have "create_content_job ws req s = (u, Inr job)"
      unfolding eq bindE_Inr [where m = "enter_review (Suc (Suc k)) (Suc k) def", OF t(1)] by (rule u(1))
    moreover have "find_version u (Suc k) = Some (new_version ws draft k)" using sel(3) by (simp add: u(6) t(6))
    moreover have "\<forall>j \<in> set (jobs u). job_ref_id j = (Suc (Suc k)) \<and> job_job_type j \<in> {JobStage, JobRetry} \<longrightarrow> job_status j = JobCancelled"
    proof (intro ballI impI, elim conjE)
      fix j assume j: "j \<in> set (jobs u)" "job_ref_id j = (Suc (Suc k))" "job_job_type j \<in> {JobStage, JobRetry}"
      have "\<forall>j \<in> set (jobs s1). job_ref_id j \<noteq> (Suc (Suc k))" using below_supplyD(6) [OF s1(5), folded s1(1)] by fastforce
      from orphans_cancelled [OF this t(12,13) j(1) [unfolded u(9) t(11)] j(2,3)] show "job_status j = JobCancelled" .
    qed
    moreover have "map run_ident (keyed_runs u ws key) = [((Suc (Suc k)), ws, k, Some key)]" if "jr_idempotency_key req = Some key" for key
    proof -
      have "keyed_runs s1 ws key = []" using assms(3) [OF that] s1(2) by (auto simp: beside_workflow_def keyed_runs_def)
      then show ?thesis using that t(14)
        by (simp add: keyed_runs_idents run_idents_cong [OF u(7)] drafted_idents s1(1) keyed_idents_new)
    qed
    ultimately show ?thesis
      using True one t(2-4,9,10) u(2-5,7,8)
      by (simp, intro exI [of _ gate] exI [of _ "(new_item ws req k)\<lparr>ci_current_stage := REVIEW\<rparr>"] exI [of _ "new_version ws draft k"])
        (simp add: new_item_def new_version_def)
  qed
qed


section \<open>Creating a job again\<close>

lemma existing_job_found:
  assumes "map run_ident (keyed_runs t ws key) = [(rid, ws, i, Some key)]"
    and "filter (\<lambda>g. gate_pipeline_run_id g = rid) (gates t) = [gate]" and "find_item t i = Some item"
  shows "\<exists>job. existing_job ws key t = (t, Inr (Some job)) \<and> cj_content_item_id job = i \<and> cj_pipeline_run_id job = rid
    \<and> cj_review_gate_id job = gate_id gate"
proof -
  from assms(1) obtain run where "keyed_runs t ws key = [run]" "run_id run = rid" "run_content_item_id run = i"
    by (auto simp: run_ident_def)
  with assms(2,3) show ?thesis by (auto simp: existing_job_def scalar_one_or_none_def dest: find_row_SomeD)
qed

text \<open>
  Creating a job is idempotent in its key. Once a request has created a job, a request
  with the same key, whatever else it says, is answered with the same item, run and gate and
  changes nothing.
\<close>

theorem job_creation_is_idempotent:
  assumes "desk_ready s ws" and "draft_for req = Inr draft" and "jr_idempotency_key req = Some key" and "keyed_runs s ws key = []"
    and "applicable_cap (caps s) ws DRAFT_DESK_PROVIDER = Inr cap"
    and "default_stage_estimate_usd (get_settings s) = est" and "0 \<le> est" and "check_caps s ws DRAFT_DESK_PROVIDER est cap = None"
    and "jr_idempotency_key req' = Some key"
  shows "\<exists>t job job'. create_content_job ws req s = (t, Inr job) \<and> create_content_job ws req' t = (t, Inr job')
    \<and> cj_content_item_id job' = cj_content_item_id job \<and> cj_pipeline_run_id job' = cj_pipeline_run_id job
    \<and> cj_review_gate_id job' = cj_review_gate_id job"
proof -
  have "keyed_runs s ws k = []" if "jr_idempotency_key req = Some k" for k using assms(3,4) that by simp
  from new_job_created [OF assms(1,2) this assms(5-7)] assms(3,8) obtain t job gate item where
    t: "create_content_job ws req s = (t, Inr job)" "filter (\<lambda>g. gate_pipeline_run_id g = cj_pipeline_run_id job) (gates t) = [gate]"
      "gate_id gate = cj_review_gate_id job" "find_item t (cj_content_item_id job) = Some item"
      "map run_ident (keyed_runs t ws key) = [(cj_pipeline_run_id job, ws, cj_content_item_id job, Some key)]" by auto
  from existing_job_found [OF t(5,2,4)] obtain job' where
    "existing_job ws key t = (t, Inr (Some job'))" "cj_content_item_id job' = cj_content_item_id job"
    "cj_pipeline_run_id job' = cj_pipeline_run_id job" "cj_review_gate_id job' = cj_review_gate_id job" by (auto simp: t(3))
  with t(1) assms(9) show ?thesis
    by (auto simp: create_content_job_def bindE_Inr [where m = "existing_job ws key"])
qed

section \<open>Editing under review\<close>

lemma open_gate_Inr:
  "open_gate ws gid s = (t, Inr gate) \<longleftrightarrow> t = s \<and> find_gate s gid = Some gate \<and> gate_workspace_id gate = ws \<and> gate_status gate = GateAwaiting"
  by (auto simp: open_gate_def split: option.split)

definition edited_version :: "session \<Rightarrow> content_item \<Rightarrow> uuid \<Rightarrow> string option \<Rightarrow> string option \<Rightarrow> string option \<Rightarrow> content_version" where
  \<comment> \<open>the version an edit writes: the new texts, and the current ones where none was given\<close>
  "edited_version s item ws hook body cta = (let current = Option.bind (ci_current_version_id item) (find_version s) in
     \<lparr>cv_id = next_uuid s, cv_workspace_id = ws, cv_content_item_id = ci_id item,
      cv_script_hook = opt_else hook (Option.bind current cv_script_hook),
      cv_script_body = opt_else body (Option.bind current cv_script_body),
      cv_script_cta = opt_else cta (Option.bind current cv_script_cta), cv_prompt_used = None, cv_generated_by = Some ''human_edit''\<rparr>)"

definition edited :: "session \<Rightarrow> uuid \<Rightarrow> content_item \<Rightarrow> uuid \<Rightarrow> string option \<Rightarrow> string option \<Rightarrow> string option \<Rightarrow> session" where
  "edited s gid item ws hook body cta = gates_update (upd_row gate_id gid (\<lambda>g. g\<lparr>gate_content_version_id := Some (next_uuid s)\<rparr>))
     (items_update (upd_row ci_id (ci_id item) (\<lambda>i. i\<lparr>ci_current_version_id := Some (next_uuid s)\<rparr>))
     (versions_update (\<lambda>vs. vs @ [edited_version s item ws hook body cta]) (s\<lparr>next_uuid := Suc (next_uuid s)\<rparr>)))"

lemma edit_apply:
  assumes "find_gate s gid = Some gate" and "gate_workspace_id gate = ws" and "gate_status gate = GateAwaiting"
    and "gate_content_version_id gate = Some v" and "find_run s (gate_pipeline_run_id gate) = Some run"
    and "find_item s (run_content_item_id run) = Some item"
  shows "\<exists>row. edit_review_gate_content ws gid v hook body cta s = (edited s gid item ws hook body cta, Inr row)"
proof -
  have "ci_id item = run_content_item_id run" using assms(6) by (auto dest: find_row_SomeD)
  with assms show ?thesis
    by (simp add: edit_review_gate_content_def open_gate_def add_version_def get_review_gate_def joined_row_def edited_def
        edited_version_def Let_def find_row_upd_row)
qed

lemma edit_success:
  assumes "edit_review_gate_content ws gid v hook body cta s = (t, Inr row)"
  obtains gate run item where "find_gate s gid = Some gate" "gate_workspace_id gate = ws" "gate_status gate = GateAwaiting"
    "gate_content_version_id gate = Some v" "find_run s (gate_pipeline_run_id gate) = Some run"
    "find_item s (run_content_item_id run) = Some item" "t = edited s gid item ws hook body cta"
proof -
  from assms obtain gate where g: "open_gate ws gid s = (s, Inr gate)"
    unfolding edit_review_gate_content_def by (auto elim!: bindE_eq_InrD simp: open_gate_Inr)
  then have gate: "find_gate s gid = Some gate" "gate_workspace_id gate = ws" "gate_status gate = GateAwaiting"
    by (simp_all add: open_gate_Inr)
  note run = assms [unfolded edit_review_gate_content_def bindE_Inr [where m = "open_gate ws gid", OF g]]
  have v: "gate_content_version_id gate = Some v" using run by (auto split: if_splits)
  with run obtain r item where r: "find_run s (gate_pipeline_run_id gate) = Some r" "find_item s (run_content_item_id r) = Some item"
    by (auto split: option.splits)
  from edit_apply [OF gate v r, of hook body cta] assms have "t = edited s gid item ws hook body cta" by auto
  with that gate v r show thesis by blast
qed

text \<open>
  Nobody overwrites or approves a text they have not seen. After an edit by somebody who
  had loaded version \<open>v\<close>, the gate and the item are at the new version; a second edit and a
  decision by somebody who still has \<open>v\<close> on the screen are refused and change nothing.
\<close>

theorem stale_reader_is_refused:
  assumes "edit_review_gate_content ws gid v hook body cta s = (t, Inr row)" and "v < next_uuid s"
  shows "edit_review_gate_content ws gid v hook' body' cta' t = (t, Inl stale_content)
    \<and> decide_review_gate ws gid reviewer approved (Some v) notes t = (t, Inl stale_content)
    \<and> (\<exists>gate run item. find_gate t gid = Some gate \<and> gate_content_version_id gate = Some (next_uuid s)
        \<and> find_run t (gate_pipeline_run_id gate) = Some run \<and> find_item t (run_content_item_id run) = Some item
        \<and> ci_current_version_id item = Some (next_uuid s) \<and> (\<forall>k w. find_version s k = Some w \<longrightarrow> find_version t k = Some w))"
proof -
  from assms(1) obtain gate run item where
    g: "find_gate s gid = Some gate" "gate_workspace_id gate = ws" "gate_status gate = GateAwaiting"
      "gate_content_version_id gate = Some v" "find_run s (gate_pipeline_run_id gate) = Some run"
      "find_item s (run_content_item_id run) = Some item" and t: "t = edited s gid item ws hook body cta"
    by (rule edit_success)
  have item: "ci_id item = run_content_item_id run" using g(6) by (auto dest: find_row_SomeD)
  have gt: "find_gate t gid = Some (gate\<lparr>gate_content_version_id := Some (next_uuid s)\<rparr>)"
    using g(1) by (simp add: t edited_def find_row_upd_row)
  then have "open_gate ws gid t = (t, Inr (gate\<lparr>gate_content_version_id := Some (next_uuid s)\<rparr>))"
    using g(2,3) by (simp add: open_gate_Inr)
  moreover have "v \<noteq> next_uuid s" using assms(2) by simp
  ultimately have "edit_review_gate_content ws gid v hook' body' cta' t = (t, Inl stale_content)"
    "decide_review_gate ws gid reviewer approved (Some v) notes t = (t, Inl stale_content)"
    by (simp_all add: edit_review_gate_content_def decide_review_gate_def bindE_Inr [where m = "open_gate ws gid"])
  moreover have "find_run t (gate_pipeline_run_id gate) = Some run" using g(5) by (simp add: t edited_def)
  moreover have "find_item t (run_content_item_id run) = Some (item\<lparr>ci_current_version_id := Some (next_uuid s)\<rparr>)"
    using g(6) item by (simp add: t edited_def find_row_upd_row)
  moreover have "\<forall>k w. find_version s k = Some w \<longrightarrow> find_version t k = Some w"
    by (simp add: t edited_def find_row_append)
  ultimately show ?thesis using gt by auto
qed

end
