(* ===== verification/Decisions.thy ===== *)
theory Decisions
  imports Desk
begin

text \<open>
  What the desk's operations do to the session, and what a decision is worth. The desk
  respects every relation the engine respects, provided the relation allows new workflow
  rows and edits of open gates. A gate that is closed keeps its status and its version for good,
  whatever happens afterwards.
\<close>

section \<open>What the desk may do\<close>

context fleet_frame
begin

lemma eff_deliver_verdict: "effects R (dispatch_one (register_all []) k)"
  using on_review_within [of True] on_review_within [of False]
  by (intro eff_dispatch_one) (auto simp: register_all_empty)

end

locale author_frame = fleet_frame R for R :: "session \<Rightarrow> session \<Rightarrow> bool" +
  assumes eff_definitions: "R s (definitions_update fd s)"
    and eff_stages: "R s (wf_stages_update (\<lambda>ws. ws @ new_stages) s)"
    and eff_transitions: "R s (wf_transitions_update (\<lambda>ts. ts @ new_edges) s)"
    and eff_edit: "effects R (edit_review_gate_content ws gid v hook body cta)"
begin

lemma eff_ensure_desk_workflow: "effects R (ensure_desk_workflow ws)"
  unfolding ensure_desk_workflow_def
  by (intro fleet_rules eff_definitions [THEN eff_modify] eff_stages [THEN eff_modify] eff_transitions [THEN eff_modify])

lemma eff_existing_job: "effects R (existing_job ws key)"
  unfolding existing_job_def by (intro fleet_rules)

lemma eff_add_draft: "effects R (add_draft ws req draft)"
  unfolding add_draft_def add_version_def insert_run_def by (intro fleet_rules)

lemma eff_enter_review: "effects R (enter_review rid ver def)"
  unfolding enter_review_def by (intro fleet_rules)

lemma eff_finish_job: "effects R (finish_job req k rid)"
  unfolding finish_job_def cancel_orphan_jobs_def by (intro fleet_rules)

lemma eff_create_content_job: "effects R (create_content_job ws req)"
  unfolding create_content_job_def
  by (intro fleet_rules eff_existing_job eff_ensure_desk_workflow eff_add_draft eff_enter_review eff_finish_job)

end

text \<open>A relation that also allows a verdict includes the decisions.\<close>

locale desk_frame = author_frame R for R :: "session \<Rightarrow> session \<Rightarrow> bool" +
  assumes eff_submit_review_decision: "effects R (submit_review_decision gid rv ok nt)"
begin

lemma eff_decide_review_gate: "effects R (decide_review_gate ws gid rv ok v nt)"
  unfolding decide_review_gate_def open_gate_def get_review_gate_def
  by (intro fleet_rules eff_submit_review_decision eff_deliver_verdict)

end

text \<open>A relation that looks at no gate, decision or workflow row includes the desk's operations.\<close>

locale open_frame = row_frame R for R :: "session \<Rightarrow> session \<Rightarrow> bool" +
  assumes row_definitions: "R s (definitions_update fd s)"
    and row_stages: "R s (wf_stages_update (\<lambda>ws. ws @ new_stages) s)"
    and row_transitions: "R s (wf_transitions_update (\<lambda>ts. ts @ new_edges) s)"
begin

lemma rows_edit: "effects R (edit_review_gate_content ws gid v hook body cta)"
  unfolding edit_review_gate_content_def open_gate_def add_version_def get_review_gate_def by (intro table_rules)

lemma desk: "desk_frame R"
  by (intro desk_frame.intro desk_frame_axioms.intro author_frame.intro author_frame_axioms.intro fleet rows_submit
      row_definitions row_stages row_transitions rows_edit)

end

section \<open>A closed gate stays closed\<close>

definition closed_last :: "session \<Rightarrow> session \<Rightarrow> bool" where
  "closed_last s t \<longleftrightarrow> (\<forall>gid g. find_gate s gid = Some g \<and> gate_status g \<noteq> GateAwaiting \<longrightarrow>
     (\<exists>g'. find_gate t gid = Some g' \<and> gate_status g' = gate_status g \<and> gate_content_version_id g' = gate_content_version_id g
       \<and> gate_workspace_id g' = gate_workspace_id g))"

lemma closed_lastI:
  "(\<And>gid g. find_gate s gid = Some g \<Longrightarrow> gate_status g \<noteq> GateAwaiting \<Longrightarrow>
     \<exists>g'. find_gate t gid = Some g' \<and> gate_status g' = gate_status g \<and> gate_content_version_id g' = gate_content_version_id g
       \<and> gate_workspace_id g' = gate_workspace_id g)
   \<Longrightarrow> closed_last s t"
  by (simp add: closed_last_def)

lemma closed_last_cong: "gates t = gates s \<Longrightarrow> closed_last s t"
  by (simp add: closed_last_def)

lemma closed_last_trans: "closed_last s t \<Longrightarrow> closed_last t u \<Longrightarrow> closed_last s u"
  unfolding closed_last_def by metis

interpretation apl: core_frame closed_last
  by unfold_locales (simp add: closed_last_cong, erule (1) closed_last_trans, simp_all add: closed_last_cong)

lemma apl_append: "closed_last s (gates_update (\<lambda>gs. gs @ xs) s)"
  by (rule closed_lastI) (simp add: find_row_append)

lemma apl_undecided:
  assumes "\<And>g. gate_id (f g) = gate_id g" and "\<And>g. find_gate s gid = Some g \<Longrightarrow> gate_status g = GateAwaiting"
  shows "closed_last s (gates_update (upd_row gate_id gid f) s)"
  using assms by (intro closed_lastI) (auto simp: find_row_upd_row)

lemma apl_pause: "effects closed_last (pause_for_review uf rid st n)"
  unfolding pause_for_review_def gate_insert_def Let_def
  by (intro apl.run_rules apl.eff_modify apl_append)

lemma apl_advance: "effects closed_last (advance_or_finish uf rid st tg ctx)"
  unfolding advance_or_finish_def by (intro apl.run_rules apl_pause)

lemma apl_set_gate_then:
  assumes "\<And>g. gate_id (f g) = gate_id g" and "\<And>g. find_gate s gid = Some g \<Longrightarrow> gate_status g = GateAwaiting"
    and "\<And>x. effects closed_last (h x)"
  shows "closed_last s (state_after (bindE (set_gate gid f) h) s)"
  by (rule apl.eff_at_bind) (use assms(3) apl_undecided [OF assms(1,2)] in simp_all)

lemma apl_submit: "effects closed_last (submit_review_decision gid rv ok nt)"
  unfolding effects_def
proof
  fix s
  show "closed_last s (state_after (submit_review_decision gid rv ok nt) s)"
    using submit_decision_state [of gid rv ok nt s]
  proof
    assume "\<exists>ev d. let t = state_after (submit_review_decision gid rv ok nt) s in
      gates t = upd_row gate_id gid (\<lambda>g. g\<lparr>gate_decided_by := Some rv\<rparr>) (gates s) \<and> outbox t = outbox s @ [ev] \<and> decisions t = decisions s @ [d]
      \<and> ev_event_type ev = verdict_event ok \<and> rd_decision d = verdict_decision ok \<and> rd_reviewer_id d = rv
      \<and> ev_payload ev = [(''review_gate_id'', JStr (uuid_str gid)), (''decision_id'', JStr (uuid_str (rd_id d)))]"
    then show ?thesis by (auto simp: Let_def closed_last_def find_row_upd_row)
  qed (simp add: closed_last_cong)
qed

lemma apl_resume: "effects closed_last (resume_from_review gid ok)"
  unfolding effects_def
proof
  fix s
  show "closed_last s (state_after (resume_from_review gid ok) s)"
  proof (cases "\<exists>gate run. find_gate s gid = Some gate \<and> gate_status gate = GateAwaiting \<and> find_run s (gate_pipeline_run_id gate) = Some run")
    case True
    then obtain gate run where "find_gate s gid = Some gate" "gate_status gate = GateAwaiting"
      "find_run s (gate_pipeline_run_id gate) = Some run" by blast
    then show ?thesis unfolding resume_from_review_def
      by (simp only: bindE_the_row bindE_gets bindE_utcnow Let_def option.case if_False simp_thms)
        (rule apl_set_gate_then, simp, simp, intro apl.run_rules apl_advance)
  next
    case False
    then have "state_after (resume_from_review gid ok) s = s"
      by (auto simp: resume_from_review_def bindE_the_row Let_def split: option.split)
    then show ?thesis by (simp add: closed_last_cong)
  qed
qed

lemma apl_timeout: "effects closed_last (handle_review_timeout gid)"
  unfolding effects_def
proof
  fix s
  show "closed_last s (state_after (handle_review_timeout gid) s)"
  proof (cases "\<exists>gate. find_gate s gid = Some gate \<and> gate_status gate = GateAwaiting")
    case True
    then obtain gate where g: "find_gate s gid = Some gate" "gate_status gate = GateAwaiting" by blast
    let ?tr = "case find_run s (gate_pipeline_run_id gate) of None \<Rightarrow> None | Some run \<Rightarrow> run_trace_id run"
    have "closed_last (span_st ?tr s) (state_after (handle_review_timeout gid) s)"
      unfolding handle_review_timeout_def
      by (simp only: bindE_gets g option.case bindE_span prod.case simp_thms if_False Let_def
          bindE_utcnow if_distrib [where f = "\<lambda>m. m _"] if_distrib [where f = fst] split: if_split)
        (intro conjI impI apl_set_gate_then apl.run_rules; (auto simp: g; fail)?)
    moreover have "closed_last s (span_st ?tr s)" by (simp add: closed_last_cong)
    ultimately show ?thesis by (rule closed_last_trans [rotated])
  next
    case False
    then have "state_after (handle_review_timeout gid) s = s"
      by (auto simp: handle_review_timeout_def split: option.split)
    then show ?thesis by (simp add: closed_last_cong)
  qed
qed

interpretation apl: fleet_frame closed_last
proof unfold_locales
  show "effects closed_last (pause_for_review uf rid st n)" for uf rid st n by (rule apl_pause)
  show "effects closed_last (handle_review_timeout gid)" for gid by (rule apl_timeout)
  show "closed_last s (state_after (resume_from_review gid ok) s)" for s gid ok by (rule effectsD [OF apl_resume])
qed (simp_all add: closed_last_cong)

lemma edit_state:
  "state_after (edit_review_gate_content ws gid v hook body cta) s = s
   \<or> (\<exists>gate item. find_gate s gid = Some gate \<and> gate_status gate = GateAwaiting
        \<and> state_after (edit_review_gate_content ws gid v hook body cta) s = edited s gid item ws hook body cta)"
proof (cases "\<exists>gate run item. find_gate s gid = Some gate \<and> gate_workspace_id gate = ws \<and> gate_status gate = GateAwaiting
    \<and> gate_content_version_id gate = Some v \<and> find_run s (gate_pipeline_run_id gate) = Some run \<and> find_item s (run_content_item_id run) = Some item")
  case True
  then obtain gate run item where g: "find_gate s gid = Some gate" "gate_workspace_id gate = ws" "gate_status gate = GateAwaiting"
    "gate_content_version_id gate = Some v" "find_run s (gate_pipeline_run_id gate) = Some run" "find_item s (run_content_item_id run) = Some item"
    by blast
  from edit_apply [OF g, of hook body cta] g(1,3) show ?thesis by fastforce
next
  case False
  then show ?thesis
    by (auto simp: edit_review_gate_content_def open_gate_def split: option.split)
qed

lemma apl_edit: "effects closed_last (edit_review_gate_content ws gid v hook body cta)"
  unfolding effects_def
proof
  fix s
  show "closed_last s (state_after (edit_review_gate_content ws gid v hook body cta) s)"
    using edit_state [of ws gid v hook body cta s]
    by (auto simp: closed_last_def edited_def find_row_upd_row)
qed

interpretation apl: desk_frame closed_last
proof unfold_locales
  show "effects closed_last (edit_review_gate_content ws gid v hook body cta)" for ws gid v hook body cta
    by (rule apl_edit)
qed (simp_all add: closed_last_cong apl_submit)

section \<open>What a decision is about\<close>

text \<open>No operation of the engine changes the version a gate is pinned to; only an edit does.\<close>

definition versions_pinned :: "session \<Rightarrow> session \<Rightarrow> bool" where
  "versions_pinned s t \<longleftrightarrow> (\<forall>gid g. find_gate s gid = Some g \<longrightarrow> (\<exists>g'. find_gate t gid = Some g'
     \<and> gate_content_version_id g' = gate_content_version_id g \<and> gate_workspace_id g' = gate_workspace_id g
     \<and> gate_pipeline_run_id g' = gate_pipeline_run_id g))"

lemma versions_pinned_cong: "gates t = gates s \<Longrightarrow> versions_pinned s t"
  by (simp add: versions_pinned_def)

lemma versions_pinned_trans: "versions_pinned s t \<Longrightarrow> versions_pinned t u \<Longrightarrow> versions_pinned s u"
  unfolding versions_pinned_def by metis

interpretation pin: core_frame versions_pinned
  by unfold_locales (simp add: versions_pinned_cong, erule (1) versions_pinned_trans, simp_all add: versions_pinned_cong)

lemma pin_append: "versions_pinned s (gates_update (\<lambda>gs. gs @ xs) s)"
  by (simp add: versions_pinned_def find_row_append)

lemma pin_set_gate:
  assumes "\<And>g. gate_id (f g) = gate_id g \<and> gate_content_version_id (f g) = gate_content_version_id g
    \<and> gate_workspace_id (f g) = gate_workspace_id g \<and> gate_pipeline_run_id (f g) = gate_pipeline_run_id g"
  shows "effects versions_pinned (set_gate gid f)"
  by (rule pin.eff_modify) (use assms in \<open>simp add: versions_pinned_def find_row_upd_row\<close>)

lemma pin_decisions: "effects versions_pinned (modify (decisions_update f))"
  by (rule pin.eff_modify) (simp add: versions_pinned_cong)

lemma pin_emit: "effects versions_pinned (emit et ws aty ai co tr sp pl pr)"
  unfolding effects_def by (simp add: emit_apply versions_pinned_cong)

lemma pin_pause: "effects versions_pinned (pause_for_review uf rid st n)"
  unfolding pause_for_review_def gate_insert_def Let_def
  by (intro pin.run_rules pin.eff_modify pin_append)

lemma pin_advance: "effects versions_pinned (advance_or_finish uf rid st tg ctx)"
  unfolding advance_or_finish_def by (intro pin.run_rules pin_pause)

lemma pin_resume: "effects versions_pinned (resume_from_review gid ok)"
  unfolding resume_from_review_def Let_def by (intro pin.run_rules pin_set_gate pin_advance; simp)

lemma pin_submit: "effects versions_pinned (submit_review_decision gid rv ok nt)"
  unfolding submit_review_decision_def by (intro pin_emit pin_decisions pin.run_rules pin_set_gate) simp_all

interpretation pin: fleet_frame versions_pinned
proof unfold_locales
  show "effects versions_pinned (pause_for_review uf rid st n)" for uf rid st n by (rule pin_pause)
  show "effects versions_pinned (handle_review_timeout gid)" for gid
    unfolding handle_review_timeout_def Let_def by (intro pin.run_rules pin_set_gate) simp_all
  show "versions_pinned s (state_after (resume_from_review gid ok) s)" for s gid ok by (rule effectsD [OF pin_resume])
qed (simp_all add: versions_pinned_cong)

text \<open>Decision rows are only ever added.\<close>

definition decisions_grow :: "session \<Rightarrow> session \<Rightarrow> bool" where
  "decisions_grow s t \<longleftrightarrow> set (decisions s) \<subseteq> set (decisions t)"

lemma decisions_grow_cong: "decisions t = decisions s \<Longrightarrow> decisions_grow s t"
  by (simp add: decisions_grow_def)

interpretation decg: core_frame decisions_grow
  by unfold_locales (auto simp: decisions_grow_def)

lemma decg_gates: "effects decisions_grow (modify (gates_update f))"
  by (rule decg.eff_modify) (simp add: decisions_grow_cong)

lemma decg_new: "effects decisions_grow (modify (decisions_update (\<lambda>ds. ds @ new)))"
  by (rule decg.eff_modify) (auto simp: decisions_grow_def)

lemma decg_emit: "effects decisions_grow (emit et ws aty ai co tr sp pl pr)"
  unfolding effects_def by (simp add: emit_apply decisions_grow_cong)

lemma decg_pause: "effects decisions_grow (pause_for_review uf rid st n)"
  unfolding pause_for_review_def gate_insert_def Let_def by (intro decg.run_rules decg_gates)

lemma decg_advance: "effects decisions_grow (advance_or_finish uf rid st tg ctx)"
  unfolding advance_or_finish_def by (intro decg.run_rules decg_pause)

interpretation decg: fleet_frame decisions_grow
proof unfold_locales
  show "effects decisions_grow (pause_for_review uf rid st n)" for uf rid st n by (rule decg_pause)
  show "effects decisions_grow (handle_review_timeout gid)" for gid
    unfolding handle_review_timeout_def Let_def by (intro decg.run_rules decg_gates)
  show "decisions_grow s (state_after (resume_from_review gid ok) s)" for s gid ok
    unfolding resume_from_review_def Let_def
    by (rule effectsD) (intro decg.run_rules decg_gates decg_advance)
qed (simp_all add: decisions_grow_cong)

lemma decg_submit: "effects decisions_grow (submit_review_decision gid rv ok nt)"
  unfolding submit_review_decision_def by (intro decg_emit decg_new decg.run_rules decg_gates)

lemma decg_edit: "effects decisions_grow (edit_review_gate_content ws gid v hook body cta)"
  unfolding edit_review_gate_content_def open_gate_def add_version_def get_review_gate_def
  by (intro decg.run_rules decg_gates)

interpretation decg: desk_frame decisions_grow
proof unfold_locales
  show "effects decisions_grow (edit_review_gate_content ws gid v hook body cta)" for ws gid v hook body cta
    by (rule decg_edit)
qed (simp_all add: decisions_grow_cong decg_submit)

lemma decide_open:
  assumes "decide_review_gate ws gid rv ok expected notes s = (t, Inr row)"
  obtains gate ev t1 t2 gate' where "find_gate s gid = Some gate" "gate_workspace_id gate = ws" "gate_status gate = GateAwaiting"
    "ok \<longrightarrow> gate_content_version_id gate \<noteq> None" "expected = None \<or> expected = gate_content_version_id gate"
    "submit_review_decision gid rv ok notes s = (t1, Inr ev)" "dispatch_one (register_all []) (ev_event_id ev) t1 = (t, Inr ())"
    "find_gate t gid = Some gate'" "gate_status gate' \<noteq> GateAwaiting" "get_review_gate ws gid t = (t, Inr (Some row))"
proof -
  from assms obtain gate where g: "open_gate ws gid s = (s, Inr gate)"
    unfolding decide_review_gate_def by (auto elim!: bindE_eq_InrD simp: open_gate_Inr)
  note run = assms [unfolded decide_review_gate_def bindE_Inr [where m = "open_gate ws gid", OF g]]
  have ok: "\<not> (ok \<and> gate_content_version_id gate = None)" "\<not> (expected \<noteq> None \<and> expected \<noteq> gate_content_version_id gate)"
    using run by (auto split: if_splits)
  from run [unfolded if_not_P [OF ok(1)] if_not_P [OF ok(2)]]
  obtain ev t1 t2 t3 gate' where h: "submit_review_decision gid rv ok notes s = (t1, Inr ev)"
      "dispatch_one (register_all []) (ev_event_id ev) t1 = (t2, Inr ())" "the_gate gid t2 = (t3, Inr gate')"
      "(if gate_status gate' = GateAwaiting then raise ReviewGateDeliveryError
       else bindE (get_review_gate ws gid) (\<lambda>detail. case detail of
           None \<Rightarrow> raise (RuntimeError ''review gate disappeared after decision'') | Some d \<Rightarrow> ret d)) t3 = (t, Inr row)"
    by (elim bindE_eq_InrD) simp
  then have "find_gate t2 gid = Some gate'" "gate_status gate' \<noteq> GateAwaiting"
      "get_review_gate ws gid t2 = (t2, Inr (Some row))" "t2 = t"
    by (auto simp: get_review_gate_def the_row_apply split: option.splits if_splits)
  with that g ok h(1,2) show thesis by (auto simp: open_gate_Inr)
qed

lemma gate_row_status: "get_review_gate ws gid t = (t, Inr (Some row)) \<Longrightarrow> find_gate t gid = Some g \<Longrightarrow> gr_status row = gate_status_value (gate_status g)"
  by (auto simp: get_review_gate_def joined_row_def to_gate_row_def bind_eq_Some_conv split: if_splits)

lemma gate_status_value_inj: "gate_status_value a = gate_status_value b \<longleftrightarrow> a = b"
  by (cases a; cases b; simp)

lemma decision_pinned:
  assumes "decide_review_gate ws gid rv ok expected notes s = (t, Inr row)"
  shows "\<exists>gate gate' d. find_gate s gid = Some gate \<and> gate_workspace_id gate = ws \<and> gate_status gate = GateAwaiting
    \<and> (expected = None \<or> expected = gate_content_version_id gate) \<and> (ok \<longrightarrow> gate_content_version_id gate \<noteq> None)
    \<and> find_gate t gid = Some gate' \<and> gate_status gate' \<noteq> GateAwaiting
    \<and> gate_content_version_id gate' = gate_content_version_id gate \<and> gate_workspace_id gate' = gate_workspace_id gate
    \<and> gr_status row = gate_status_value (gate_status gate')
    \<and> d \<in> set (decisions t) \<and> rd_reviewer_id d = rv \<and> rd_decision d = verdict_decision ok"
proof -
  from assms obtain gate ev t1 gate' where
    g: "find_gate s gid = Some gate" "gate_workspace_id gate = ws" "gate_status gate = GateAwaiting"
      "ok \<longrightarrow> gate_content_version_id gate \<noteq> None" "expected = None \<or> expected = gate_content_version_id gate"
    and h: "submit_review_decision gid rv ok notes s = (t1, Inr ev)" "dispatch_one (register_all []) (ev_event_id ev) t1 = (t, Inr ())"
    and g': "find_gate t gid = Some gate'" "gate_status gate' \<noteq> GateAwaiting" and row: "get_review_gate ws gid t = (t, Inr (Some row))"
    by (rule decide_open)
  have "versions_pinned s t"
    using versions_pinned_trans [OF effects_result [OF pin_submit h(1)] effects_result [OF pin.eff_deliver_verdict h(2)]] .
  then have "gate_content_version_id gate' = gate_content_version_id gate \<and> gate_workspace_id gate' = gate_workspace_id gate"
    using g(1) g'(1) unfolding versions_pinned_def by (metis option.inject)
  moreover have "\<exists>d \<in> set (decisions t1). rd_reviewer_id d = rv \<and> rd_decision d = verdict_decision ok"
    using h(1) by (auto simp: submit_review_decision_def emit_apply split: option.splits if_splits)
  moreover have "set (decisions t1) \<subseteq> set (decisions t)"
    using effects_result [OF decg.eff_deliver_verdict h(2)] by (simp add: decisions_grow_def)
  ultimately show ?thesis using g g' gate_row_status [OF row g'(1)] by blast
qed


section \<open>Approving a desk job\<close>

lemma succeed_run_apply:
  assumes "find_run s rid = Some run"
  shows "\<exists>t. succeed_run rid st tr sp s = (t, Inr ()) \<and> gates t = gates s \<and> items t = items s \<and> jobs t = jobs s
    \<and> find_run t rid = Some (run\<lparr>run_status := RunSucceeded, run_completed_at := Some (clock s), run_current_stage := st\<rparr>)"
  using assms by (simp add: succeed_run_def emit_run_apply find_row_upd_row)

lemma approval_finishes:
  assumes "find_gate s gid = Some gate" and "gate_status gate = GateAwaiting"
    and "find_run s (gate_pipeline_run_id gate) = Some run"
    and "unique_stages s" and "next_edge s run (gate_stage gate) OnReviewApproved [] tr w" and "wst_is_terminal w"
  shows "\<exists>t run'. resume_from_review gid True s = (t, Inr ()) \<and> map_option gate_status (find_gate t gid) = Some GateApproved
    \<and> find_run t (gate_pipeline_run_id gate) = Some run' \<and> run_status run' = RunSucceeded \<and> run_current_stage run' = wt_to_stage tr
    \<and> run_content_item_id run' = run_content_item_id run \<and> run_workspace_id run' = run_workspace_id run
    \<and> items t = items s \<and> jobs t = jobs s"
proof -
  let ?rid = "gate_pipeline_run_id gate"
  let ?s1 = "runs_update (upd_row run_id ?rid (\<lambda>r. r\<lparr>run_status := RunRunning, run_pause_reason := None\<rparr>))
        (gates_update (upd_row gate_id gid
          (\<lambda>g. g\<lparr>gate_status := GateApproved, gate_decided_at := Some (clock s)\<rparr>)) s)"
  obtain run1 where run1: "find_run ?s1 ?rid = Some run1" "run_definition_id run1 = run_definition_id run"
      "run_content_item_id run1 = run_content_item_id run"
    using assms(3) by (simp add: find_row_upd_row)
  have uniq: "unique_stages ?s1" using assms(4) by (simp add: unique_stages_def)
  have edge: "next_edge ?s1 run1 (gate_stage gate) OnReviewApproved [] tr w"
    by (rule next_edge_cong [OF assms(5)]) (simp_all add: run1(2))
  let ?s2 = "runs_update (upd_row run_id ?rid (\<lambda>r. r\<lparr>run_current_stage := wt_to_stage tr\<rparr>)) (rs_st ?rid ?s1)"
  have eq: "resume_from_review gid True s = succeed_run ?rid (wt_to_stage tr) (rs_tr ?rid ?s1) (rs_sp ?rid ?s1) ?s2"
    unfolding resume_approved_apply [OF assms(1-3)] advance_takes_edge [OF run1(1) uniq edge] by (simp add: assms(6))
  obtain run2 where run2: "find_run ?s2 ?rid = Some run2" "run_content_item_id run2 = run_content_item_id run"
      "run_workspace_id run2 = run_workspace_id run"
    using assms(3) by (simp add: find_row_upd_row)
  from succeed_run_apply [OF run2(1)] obtain t where
    t: "resume_from_review gid True s = (t, Inr ())" "gates t = gates ?s2" "items t = items ?s2" "jobs t = jobs ?s2"
      "find_run t ?rid = Some (run2\<lparr>run_status := RunSucceeded, run_completed_at := Some (clock ?s2), run_current_stage := wt_to_stage tr\<rparr>)"
    unfolding eq by blast
  then show ?thesis using assms(1) run2(2,3) by (simp add: find_row_upd_row)
qed

lemma desk_approval:
  assumes "find_gate s gid = Some gate" and "gate_status gate = GateAwaiting" and "gid < 2 ^ 128" and "gate_stage gate = REVIEW"
    and "find_run s (gate_pipeline_run_id gate) = Some run" and "run_definition_id run = Some def"
    and "unique_stages s" and "desk_provisioned s def" and "deliverable s (gate_pipeline_run_id gate)"
    and "find_item s (run_content_item_id run) = Some item" and "gate_content_version_id gate = Some v"
  shows "\<exists>t row run'. decide_review_gate (gate_workspace_id gate) gid rv True (Some v) notes s = (t, Inr row)
    \<and> gr_status row = ''approved'' \<and> gr_run_status row = ''succeeded''
    \<and> map_option gate_status (find_gate t gid) = Some GateApproved
    \<and> find_run t (gate_pipeline_run_id gate) = Some run' \<and> run_status run' = RunSucceeded \<and> run_current_stage run' = PUBLISHED
    \<and> run_content_item_id run' = run_content_item_id run \<and> run_workspace_id run' = run_workspace_id run
    \<and> find_item t (run_content_item_id run) = Some item \<and> map_option gate_pipeline_run_id (find_gate t gid) = Some (gate_pipeline_run_id gate)"
proof -
  let ?rid = "gate_pipeline_run_id gate"
  from assms(8) obtain u w where wf: "stage_of s def PUBLISHED = Some (desk_stage (u + 2) def PUBLISHED 3 3 60 False True)"
      "candidate_transitions s def REVIEW OnReviewApproved = [desk_edge (w + 1) def REVIEW PUBLISHED OnReviewApproved]"
    by (rule stage_of_provisioned)
  have edge: "next_edge s run REVIEW OnReviewApproved [] (desk_edge (w + 1) def REVIEW PUBLISHED OnReviewApproved)
      (desk_stage (u + 2) def PUBLISHED 3 3 60 False True)"
    using wf assms(6) by (simp add: next_edge_def evaluate_condition_def bind_sum_def)
  define P where "P = (\<lambda>(t :: session) (y :: session). map_option gate_status (find_gate y gid) = Some GateApproved \<and> (\<exists>run'. find_run y ?rid = Some run'
      \<and> run_status run' = RunSucceeded \<and> run_current_stage run' = PUBLISHED \<and> run_content_item_id run' = run_content_item_id run
      \<and> run_workspace_id run' = run_workspace_id run) \<and> items y = items t)"
  have resume: "\<exists>y. resume_from_review gid True t = (y, Inr ()) \<and> P t y"
    if t: "gates t = upd_row gate_id gid (\<lambda>g. g\<lparr>gate_decided_by := Some rv\<rparr>) (gates s)" "runs t = runs s"
      "wf_stages t = wf_stages s" "wf_transitions t = wf_transitions s" for t
  proof -
    have "find_gate t gid = Some (gate\<lparr>gate_decided_by := Some rv\<rparr>)" using assms(1) by (simp add: t find_row_upd_row)
    moreover have "unique_stages t" using assms(7) by (simp add: unique_stages_def t(3))
    ultimately show ?thesis
      using approval_finishes [where s = t and gid = gid and gate = "gate\<lparr>gate_decided_by := Some rv\<rparr>" and run = run]
        next_edge_same [OF edge t(3,4)] assms(2,4,5) by (fastforce simp: P_def t(2))
  qed
  obtain t ev y and ck :: consumer_checkpoint where h: "submit_review_decision gid rv True notes s = (t, Inr ev)"
      "dispatch_one (register_all []) (ev_event_id ev) t =
      (outbox_update (upd_row ev_event_id (ev_event_id ev) (\<lambda>x. x\<lparr>ev_status := EvDispatched\<rparr>))
        (checkpoints_update (upd_row ck_id (ck_id ck) (\<lambda>x. x\<lparr>ck_last_sequence := ev_sequence ev\<rparr>)) y), Inr ())" (is "_ = (?z, _)")
      "resume_from_review gid True t = (y, Inr ())" "P t y"
    using verdict_delivered [where rv = rv and ok = True and P = P and nt = "notes", OF assms(1-3,5,9), OF resume] by fastforce
  have "versions_pinned s y"
    using versions_pinned_trans [OF effects_result [OF pin_submit h(1)]] effectsD [OF pin_resume, of t gid True] h(3) by simp
  then obtain gate' where gate': "find_gate y gid = Some gate'" "gate_status gate' = GateApproved"
      "gate_workspace_id gate' = gate_workspace_id gate" "gate_pipeline_run_id gate' = ?rid"
    using h(4) assms(1) unfolding versions_pinned_def P_def by force
  obtain run' where run': "find_run y ?rid = Some run'" "run_status run' = RunSucceeded" "run_current_stage run' = PUBLISHED"
      "run_content_item_id run' = run_content_item_id run" "run_workspace_id run' = run_workspace_id run" and "items y = items t"
    using h(4) unfolding P_def by blast
  moreover have "items t = items s" using h(1) by (auto simp: submit_review_decision_def emit_apply split: option.splits if_splits)
  ultimately have item: "find_item y (run_content_item_id run) = Some item" using assms(10) by simp
  have "decide_review_gate (gate_workspace_id gate) gid rv True (Some v) notes s = (?z, Inr (to_gate_row gate' run' item
      (Option.bind (ci_current_version_id item) (find_version ?z))))"
    using assms(1,2,11) gate' run' item
    by (simp add: decide_review_gate_def open_gate_def bindE_Inr [where m = "submit_review_decision gid rv True notes", OF h(1)]
        bindE_Inr [where m = "dispatch_one (register_all []) (ev_event_id ev)", OF h(2)] get_review_gate_def joined_row_def)
  with gate' run' item show ?thesis by (simp add: to_gate_row_def)
qed

text \<open>
  An approval at the desk publishes. When a desk job waits at its gate and the verdict can
  be delivered, approving the version under review succeeds: the gate is approved, the run has
  succeeded at the published stage, and the caller is told so.
\<close>

theorem desk_approval_completes_the_run:
  assumes "find_gate s gid = Some gate" and "gate_status gate = GateAwaiting" and "gid < 2 ^ 128" and "gate_stage gate = REVIEW"
    and "find_run s (gate_pipeline_run_id gate) = Some run" and "run_definition_id run = Some def"
    and "unique_stages s" and "desk_provisioned s def" and "deliverable s (gate_pipeline_run_id gate)"
    and "find_item s (run_content_item_id run) = Some item" and "gate_content_version_id gate = Some v"
  shows "\<exists>t row run'. decide_review_gate (gate_workspace_id gate) gid rv True (Some v) notes s = (t, Inr row)
    \<and> gr_status row = ''approved'' \<and> gr_run_status row = ''succeeded''
    \<and> map_option gate_status (find_gate t gid) = Some GateApproved
    \<and> find_run t (gate_pipeline_run_id gate) = Some run' \<and> run_status run' = RunSucceeded \<and> run_current_stage run' = PUBLISHED"
  using desk_approval [OF assms, of rv "notes"] by blast

section \<open>Examples\<close>

definition desk_empty :: session where
  "desk_empty = empty_session\<lparr>caps := [sample_cap]\<rparr>"

definition sample_request :: "string \<Rightarrow> job_request" where
  "sample_request body = \<lparr>jr_topic = ''tea'', jr_script_body = body, jr_script_hook = None, jr_script_cta = None,
     jr_target_length_seconds = None, jr_idempotency_key = Some ''k1''\<rparr>"

lemma desk_empty_facts:
  "desk_ready desk_empty 1" "jr_idempotency_key (sample_request b) = Some ''k1''" "keyed_runs desk_empty 1 ''k1'' = []"
  "applicable_cap (caps desk_empty) 1 DRAFT_DESK_PROVIDER = Inr (Some sample_cap)"
  "default_stage_estimate_usd (get_settings desk_empty) = 1/100" "(0 :: usd) \<le> 1/100"
  "check_caps desk_empty 1 DRAFT_DESK_PROVIDER (1/100) (Some sample_cap) = None"
  by (simp_all add: desk_empty_def empty_session_def default_settings_def desk_ready_def below_supply_def unique_rsv_def
      unique_stages_def keyed_runs_def applicable_cap_def scalar_one_or_none_def sample_cap_def check_caps_def
      spend_committed_plus_reserved_def sample_request_def DRAFT_DESK_PROVIDER_def)

lemma sample_draft: "\<exists>draft. draft_for (sample_request ''b'') = Inr draft \<and> dt_body draft = ''b''"
proof -
  have "py_strip ''b'' = ''b''" by code_simp
  then show ?thesis by (simp add: draft_for_def sample_request_def)
qed


theorem job_creation_is_idempotent_witness:
  "\<exists>t job job'. create_content_job 1 (sample_request ''b'') desk_empty = (t, Inr job)
    \<and> create_content_job 1 (sample_request ''other'') t = (t, Inr job') \<and> cj_review_gate_id job' = cj_review_gate_id job"
proof -
  obtain draft where "draft_for (sample_request ''b'') = Inr draft" using sample_draft by blast
  from job_creation_is_idempotent [OF desk_empty_facts(1) this desk_empty_facts(2-7,2), of "''other''"] show ?thesis by auto
qed

lemma edit_sample: "\<exists>t row. edit_review_gate_content 1 70 21 (Some ''new'') None None (gate_sample RunPaused) = (t, Inr row)"
  using edit_apply [where s = "gate_sample RunPaused" and gid = 70 and gate = sample_gate and ws = 1 and v = 21
    and run = "sample_run\<lparr>run_status := RunPaused\<rparr>" and item = sample_item and hook = "Some ''new''" and body = None and cta = None]
  by (simp add: wf_sample_defs sample_run_def del: One_nat_def) blast

theorem stale_reader_is_refused_witness:
  "\<exists>t. edit_review_gate_content 1 70 21 (Some ''mine'') None None t = (t, Inl stale_content)
    \<and> decide_review_gate 1 70 5 True (Some 21) None t = (t, Inl stale_content)
    \<and> map_option gate_content_version_id (find_gate t 70) = Some (Some 1000)"
proof -
  have "next_uuid (gate_sample RunPaused) = 1000" by (simp add: wf_sample_defs empty_session_def)
  moreover obtain t row where "edit_review_gate_content 1 70 21 (Some ''new'') None None (gate_sample RunPaused) = (t, Inr row)"
    using edit_sample by blast
  ultimately show ?thesis
    using stale_reader_is_refused [of 1 70 21 "Some ''new''" None None "gate_sample RunPaused" t row "Some ''mine''" None None 5 True None]
    by (intro exI [of _ t]) auto
qed

definition desk_gate_sample :: session where
  "desk_gate_sample = verdict_sample\<lparr>wf_stages := desk_stages 300 30, wf_transitions := desk_edges 400 30\<rparr>"

lemma desk_gate_facts:
  "find_gate desk_gate_sample 70 = Some sample_gate" "gate_status sample_gate = GateAwaiting" "(70 :: nat) < 2 ^ 128"
  "gate_stage sample_gate = REVIEW"
  "find_run desk_gate_sample (gate_pipeline_run_id sample_gate) = Some (sample_run\<lparr>run_status := RunPaused\<rparr>)"
  "run_definition_id (sample_run\<lparr>run_status := RunPaused\<rparr>) = Some 30" "unique_stages desk_gate_sample"
  "desk_provisioned desk_gate_sample 30" "deliverable desk_gate_sample (gate_pipeline_run_id sample_gate)"
  "find_item desk_gate_sample (run_content_item_id (sample_run\<lparr>run_status := RunPaused\<rparr>)) = Some sample_item"
  "gate_content_version_id sample_gate = Some 21"
proof -
  show "find_gate desk_gate_sample 70 = Some sample_gate"
    "find_run desk_gate_sample (gate_pipeline_run_id sample_gate) = Some (sample_run\<lparr>run_status := RunPaused\<rparr>)"
    using verdict_sample_facts(1,4) by (simp_all add: desk_gate_sample_def)
  show "unique_stages desk_gate_sample" by (simp add: unique_stages_def desk_gate_sample_def desk_stages_def)
  show "desk_provisioned desk_gate_sample 30" unfolding desk_provisioned_def
    by (intro exI [of _ 300] exI [of _ 400]) (simp add: desk_gate_sample_def desk_stages_def desk_edges_def)
  show "deliverable desk_gate_sample (gate_pipeline_run_id sample_gate)"
    using verdict_sample_facts(9) by (simp add: deliverable_def desk_gate_sample_def agg_events_def)
qed (simp_all add: desk_gate_sample_def verdict_sample_def wf_sample_defs sample_run_def)

theorem desk_approval_completes_the_run_witness:
  "\<exists>t row. decide_review_gate 1 70 5 True (Some 21) None desk_gate_sample = (t, Inr row) \<and> gr_status row = ''approved''
    \<and> gr_run_status row = ''succeeded''"
  using desk_approval_completes_the_run [OF desk_gate_facts, of 5 None] by (auto simp: sample_gate_def)


end
