(* ===== verification/Billing.thy ===== *)
theory Billing
  imports Text Schema
begin

text \<open>
  Subscriptions (\<open>services/billing.py\<close>, \<open>models/billing.py\<close>, \<open>routes/billing.py\<close>,
  \<open>routes/webhooks.py\<close>). Stripe itself is the parameter \<open>stripe_api\<close>: creating a customer,
  creating a checkout session and verifying the signature of a webhook. Its events are records with
  the fields the code reads, at their documented types. The main result is that the entitlement
  of a workspace depends on which events were delivered and not on the order or the number of
  deliveries.
\<close>

section \<open>Rows and events\<close>

record billing_row =
  wb_workspace_id :: uuid
  wb_stripe_customer_id :: "string option"
  wb_stripe_subscription_id :: "string option"
  wb_plan :: string
  wb_status :: string
  wb_current_period_end :: "datetime option"
  wb_cancel_at_period_end :: bool

datatype stripe_ref =
    RefId string                  \<comment> \<open>a plain identifier\<close>
  | RefObject "string option"     \<comment> \<open>an expanded object and its \<open>id\<close>\<close>

record stripe_object =
  so_id :: "string option"
  so_status :: "string option"
  so_customer :: "stripe_ref option"
  so_subscription :: "stripe_ref option"
  so_current_period_end :: "int option"
  so_cancel_at_period_end :: "bool option"
  so_metadata_workspace_id :: "string option"
  so_client_reference_id :: "string option"

record stripe_event =
  se_id :: "string option"
  se_type :: "string option"
  se_created :: "int option"
  se_object :: stripe_object

record billing_webhook_event =
  bwe_id :: uuid
  bwe_stripe_event_id :: string
  bwe_event_type :: string
  bwe_workspace_id :: "uuid option"
  bwe_payload :: stripe_event

record billing_db =
  bl_settings :: settings
  bl_workspaces :: "uuid list"
  workspace_billing :: "billing_row list"
  billing_webhook_events :: "billing_webhook_event list"
  bl_next_uuid :: uuid

type_synonym 'a bl = "(billing_db, 'a) py"

datatype construct_failure = SignatureVerificationError | OtherFailure string

record stripe_api =
  customer_create :: "string option \<Rightarrow> string \<Rightarrow> string \<Rightarrow> string + string"
    \<comment> \<open>e-mail, workspace id in the metadata, idempotency key; error text or customer id\<close>
  checkout_create :: "string option \<Rightarrow> string \<Rightarrow> string \<Rightarrow> string \<Rightarrow> string \<Rightarrow> string + string option \<times> string"
    \<comment> \<open>customer, price, success and cancel address, workspace id; error text, or address and session id\<close>
  construct_event :: "string \<Rightarrow> string \<Rightarrow> string \<Rightarrow> construct_failure + stripe_event"

definition find_billing :: "billing_db \<Rightarrow> uuid \<Rightarrow> billing_row option" where
  "find_billing s ws = find_row wb_workspace_id ws (workspace_billing s)"

definition set_billing :: "uuid \<Rightarrow> (billing_row \<Rightarrow> billing_row) \<Rightarrow> unit bl" where
  "set_billing ws f = modify (workspace_billing_update (upd_row wb_workspace_id ws f))"

definition unique_column :: "('r \<Rightarrow> 'a option) \<Rightarrow> 'r list \<Rightarrow> bool" where
  \<comment> \<open>a \<open>UNIQUE\<close> column, which admits any number of nulls\<close>
  "unique_column col rows \<longleftrightarrow> distinct (List.map_filter col rows)"

definition flush_billing :: "unit bl" where
  \<comment> \<open>the unique columns of the table are checked when the pending changes are written\<close>
  "flush_billing = bindE (gets workspace_billing) (\<lambda>rows.
     if \<not> unique_column wb_stripe_customer_id rows then raise (IntegrityError ''workspace_billing_stripe_customer_id_key'')
     else if \<not> unique_column wb_stripe_subscription_id rows then raise (IntegrityError ''workspace_billing_stripe_subscription_id_key'')
     else ret ())"

definition truthy :: "string option \<Rightarrow> string option" where
  \<comment> \<open>\<open>x or None\<close>: an absent and an empty string are both false\<close>
  "truthy x = (case x of None \<Rightarrow> None | Some s \<Rightarrow> if s = [] then None else Some s)"

section \<open>Entitlement\<close>

definition ACTIVE_STATUSES :: "string list" where "ACTIVE_STATUSES = [''active'', ''trialing'']"
definition PRO_PLAN :: string where "PRO_PLAN = ''pro''"

definition missing_settings :: "settings \<Rightarrow> string list" where
  "missing_settings st = map fst (filter (\<lambda>(_, v). truthy v = None)
     [(''STRIPE_SECRET_KEY'', stripe_secret_key st), (''STRIPE_WEBHOOK_SECRET'', stripe_webhook_secret st),
      (''STRIPE_PRICE_ID_PRO'', stripe_price_id_pro st), (''STRIPE_CHECKOUT_SUCCESS_URL'', stripe_checkout_success_url st),
      (''STRIPE_CHECKOUT_CANCEL_URL'', stripe_checkout_cancel_url st)])"

definition require_billing_config :: "settings \<Rightarrow> py_error + unit" where
  "require_billing_config st =
     (if \<not> billing_enabled st then Inl (BillingError ''billing_disabled'' ''billing is not enabled'')
      else if missing_settings st \<noteq> []
      then Inl (BillingError ''billing_misconfigured''
        (''billing enabled but missing required settings: '' @ join '', '' (missing_settings st)))
      else Inr ())"

definition ensure_workspace_billing :: "uuid \<Rightarrow> billing_row bl" where
  "ensure_workspace_billing workspace_id =
     bindE (gets (\<lambda>s. find_billing s workspace_id)) (\<lambda>row.
     case row of
       Some r \<Rightarrow> ret r
     | None \<Rightarrow>
         let r = \<lparr>wb_workspace_id = workspace_id, wb_stripe_customer_id = None, wb_stripe_subscription_id = None,
               wb_plan = ''none'', wb_status = ''inactive'', wb_current_period_end = None, wb_cancel_at_period_end = False\<rparr>
         in bindE (gets bl_workspaces) (\<lambda>wss.
            if workspace_id \<notin> set wss then raise (IntegrityError ''workspace_billing_workspace_id_fkey'')
            else bindE (modify (workspace_billing_update (\<lambda>rows. rows @ [r]))) (\<lambda>_. ret r)))"

definition is_entitled :: "billing_row option \<Rightarrow> bool \<Rightarrow> bool" where
  "is_entitled row enabled \<longleftrightarrow> \<not> enabled \<or>
     (case row of None \<Rightarrow> False | Some r \<Rightarrow> wb_plan r = PRO_PLAN \<and> wb_status r \<in> set ACTIVE_STATUSES)"

record entitlement =
  ent_workspace_id :: uuid
  ent_plan :: string
  ent_status :: string
  ent_entitled :: bool
  ent_billing_enabled :: bool
  ent_stripe_customer_id :: "string option"
  ent_stripe_subscription_id :: "string option"
  ent_current_period_end :: "datetime option"
  ent_cancel_at_period_end :: bool

definition get_entitlement :: "uuid \<Rightarrow> entitlement bl" where
  "get_entitlement workspace_id =
     bindE (gets (\<lambda>s. billing_enabled (bl_settings s))) (\<lambda>enabled.
     bindE (ensure_workspace_billing workspace_id) (\<lambda>row.
     ret \<lparr>ent_workspace_id = workspace_id, ent_plan = wb_plan row, ent_status = wb_status row,
       ent_entitled = is_entitled (Some row) enabled, ent_billing_enabled = enabled,
       ent_stripe_customer_id = wb_stripe_customer_id row, ent_stripe_subscription_id = wb_stripe_subscription_id row,
       ent_current_period_end = wb_current_period_end row, ent_cancel_at_period_end = wb_cancel_at_period_end row\<rparr>))"

definition require_entitlement_for_workspace :: "uuid \<Rightarrow> unit bl" where
  "require_entitlement_for_workspace workspace_id =
     bindE (gets (\<lambda>s. billing_enabled (bl_settings s))) (\<lambda>enabled.
     if \<not> enabled then ret ()
     else bindE (gets (\<lambda>s. find_billing s workspace_id)) (\<lambda>row.
       if \<not> is_entitled row True
       then raise (BillingError ''not_entitled'' ''workspace requires an active Pro subscription to create content jobs'')
       else ret ()))"

section \<open>Checkout\<close>

record checkout_result =
  cr_checkout_url :: string
  cr_session_id :: string
  cr_workspace_id :: uuid

definition ensure_customer :: "stripe_api \<Rightarrow> uuid \<Rightarrow> string option \<Rightarrow> billing_row \<Rightarrow> string option bl" where
  "ensure_customer stripe workspace_id customer_email billing =
     (case truthy (wb_stripe_customer_id billing) of
        Some c \<Rightarrow> ret (Some c)
      | None \<Rightarrow>
          (case customer_create stripe (truthy customer_email) (uuid_str workspace_id)
                 (''workspace-customer-'' @ uuid_str workspace_id) of
             Inl msg \<Rightarrow> raise (BillingError ''stripe_unavailable'' (''Stripe customer creation failed: '' @ msg))
           | Inr c \<Rightarrow>
               bindE (set_billing workspace_id (\<lambda>r. r\<lparr>wb_stripe_customer_id := Some c\<rparr>)) (\<lambda>_.
               bindE flush_billing (\<lambda>_. ret (Some c)))))"

definition create_checkout_session :: "stripe_api \<Rightarrow> uuid \<Rightarrow> string option \<Rightarrow> checkout_result bl" where
  "create_checkout_session stripe workspace_id customer_email =
     bindE (gets bl_settings) (\<lambda>st.
     bindE (liftE (require_billing_config st)) (\<lambda>_.
     case (stripe_price_id_pro st, stripe_checkout_success_url st, stripe_checkout_cancel_url st) of
       (Some price_id, Some success_url, Some cancel_url) \<Rightarrow>
         bindE (ensure_workspace_billing workspace_id) (\<lambda>billing.
         if is_entitled (Some billing) True
         then raise (BillingError ''already_entitled'' ''workspace already has an active Pro plan'')
         else bindE (ensure_customer stripe workspace_id customer_email billing) (\<lambda>customer.
           case checkout_create stripe customer price_id success_url cancel_url (uuid_str workspace_id) of
             Inl msg \<Rightarrow> raise (BillingError ''stripe_unavailable'' (''Stripe checkout session creation failed: '' @ msg))
           | Inr (url, session_id) \<Rightarrow>
               (case truthy url of
                  None \<Rightarrow> raise (BillingError ''checkout_failed'' ''Stripe Checkout session missing url'')
                | Some u \<Rightarrow> ret \<lparr>cr_checkout_url = u, cr_session_id = session_id, cr_workspace_id = workspace_id\<rparr>)))
     | _ \<Rightarrow> raise (BillingError ''billing_misconfigured'' ''billing enabled but Stripe price or redirect URLs are unset'')))"

section \<open>Webhooks\<close>

definition subscription_events :: "string list" where
  "subscription_events = [''customer.subscription.created'', ''customer.subscription.updated'', ''customer.subscription.deleted'']"

definition period_end_from_subscription :: "stripe_object \<Rightarrow> py_error + datetime option" where
  \<comment> \<open>\<open>datetime.fromtimestamp\<close> covers the years 1 to 9999\<close>
  "period_end_from_subscription sub =
     (case so_current_period_end sub of
        None \<Rightarrow> Inr None
      | Some raw \<Rightarrow>
          if -62135596800 \<le> raw \<and> raw \<le> 253402300799 then Inr (Some (raw * 1000000))
          else Inl (ValueError ''year is out of range''))"

definition applied_created :: "billing_webhook_event list \<Rightarrow> uuid \<Rightarrow> string \<Rightarrow> int list" where
  "applied_created rows workspace_id exclude_event_id =
     List.map_filter (\<lambda>e. se_created (bwe_payload e))
       (filter (\<lambda>e. bwe_workspace_id e = Some workspace_id \<and> bwe_stripe_event_id e \<noteq> exclude_event_id
          \<and> bwe_event_type e \<in> set (subscription_events @ [''invoice.payment_failed''])) rows)"

definition latest_applied_event_created :: "uuid \<Rightarrow> string \<Rightarrow> int option bl" where
  "latest_applied_event_created workspace_id exclude_event_id =
     gets (\<lambda>s. let created = applied_created (billing_webhook_events s) workspace_id exclude_event_id
       in if created = [] then None else Some (Max (set created)))"

definition subscription_status :: "stripe_object \<Rightarrow> string" where
  "subscription_status sub = (case truthy (so_status sub) of None \<Rightarrow> ''inactive'' | Some x \<Rightarrow> x)"

definition plan_for :: "string \<Rightarrow> string \<Rightarrow> string" where
  "plan_for status plan =
     (if status \<in> set ACTIVE_STATUSES then PRO_PLAN
      else if status = ''canceled'' then ''none''
      else if status \<in> set [''past_due'', ''unpaid'', ''incomplete''] then PRO_PLAN
      else plan)"

definition mirror :: "stripe_object \<Rightarrow> billing_row \<Rightarrow> billing_row" where
  "mirror sub r = r\<lparr>
     wb_stripe_subscription_id := (case truthy (so_id sub) of Some i \<Rightarrow> Some i | None \<Rightarrow> wb_stripe_subscription_id r),
     wb_stripe_customer_id := (case so_customer sub of
         Some (RefId c) \<Rightarrow> Some c
       | Some (RefObject c) \<Rightarrow> (case truthy c of Some i \<Rightarrow> Some i | None \<Rightarrow> wb_stripe_customer_id r)
       | None \<Rightarrow> wb_stripe_customer_id r),
     wb_status := subscription_status sub, wb_plan := plan_for (subscription_status sub) (wb_plan r)\<rparr>"

definition outdated :: "int option \<Rightarrow> int option \<Rightarrow> string \<Rightarrow> bool" where
  "outdated event_created latest status =
     (case (event_created, latest) of
        (Some c, Some l) \<Rightarrow> c < l \<or> c = l \<and> status \<in> set ACTIVE_STATUSES
      | _ \<Rightarrow> False)"

definition apply_subscription :: "uuid \<Rightarrow> stripe_object \<Rightarrow> string \<Rightarrow> int option \<Rightarrow> unit bl" where
  "apply_subscription workspace_id sub event_id event_created =
     bindE (ensure_workspace_billing workspace_id) (\<lambda>_.
     bindE (case event_created of None \<Rightarrow> ret None | Some _ \<Rightarrow> latest_applied_event_created workspace_id event_id) (\<lambda>latest.
     if outdated event_created latest (subscription_status sub) then ret ()
     else
       bindE (set_billing workspace_id (mirror sub)) (\<lambda>_.
       bindE (liftE (period_end_from_subscription sub)) (\<lambda>period_end.
       bindE (set_billing workspace_id (\<lambda>r. r\<lparr>wb_current_period_end := period_end,
         wb_cancel_at_period_end := (so_cancel_at_period_end sub = Some True)\<rparr>)) (\<lambda>_.
       flush_billing)))))"

definition workspace_id_from_metadata :: "stripe_object \<Rightarrow> uuid option" where
  "workspace_id_from_metadata obj =
     (case (case truthy (so_metadata_workspace_id obj) of Some w \<Rightarrow> Some w | None \<Rightarrow> truthy (so_client_reference_id obj)) of
        None \<Rightarrow> None
      | Some raw \<Rightarrow> (case uuid_of_str raw of Inl _ \<Rightarrow> None | Inr u \<Rightarrow> Some u))"

definition insert_receipt :: "string \<Rightarrow> string \<Rightarrow> uuid option \<Rightarrow> stripe_event \<Rightarrow> unit bl" where
  "insert_receipt event_id event_type workspace_id event =
     bindE (gets (\<lambda>s. s)) (\<lambda>s.
     if event_id \<in> bwe_stripe_event_id ` set (billing_webhook_events s)
     then raise (IntegrityError ''billing_webhook_events_stripe_event_id_key'')
     else if \<not> (case workspace_id of None \<Rightarrow> True | Some w \<Rightarrow> w \<in> set (bl_workspaces s))
     then raise (IntegrityError ''billing_webhook_events_workspace_id_fkey'')
     else modify (\<lambda>s. s\<lparr>bl_next_uuid := Suc (bl_next_uuid s), billing_webhook_events := billing_webhook_events s @
       [\<lparr>bwe_id = bl_next_uuid s, bwe_stripe_event_id = event_id, bwe_event_type = event_type,
         bwe_workspace_id = workspace_id, bwe_payload = event\<rparr>]\<rparr>))"

definition by_subscription :: "billing_db \<Rightarrow> string \<Rightarrow> billing_row list" where
  "by_subscription s sub_id = filter (\<lambda>r. wb_stripe_subscription_id r = Some sub_id) (workspace_billing s)"

definition by_customer :: "billing_db \<Rightarrow> string \<Rightarrow> billing_row list" where
  "by_customer s cust = filter (\<lambda>r. wb_stripe_customer_id r = Some cust) (workspace_billing s)"

definition link_checkout :: "uuid option \<Rightarrow> stripe_object \<Rightarrow> uuid option bl" where
  "link_checkout workspace_id obj =
     (case workspace_id of
        None \<Rightarrow> raise (BillingError ''missing_workspace'' ''checkout session missing workspace_id'')
      | Some ws \<Rightarrow>
          bindE (ensure_workspace_billing ws) (\<lambda>_.
          bindE (set_billing ws (\<lambda>r. r\<lparr>
            wb_stripe_customer_id := (case so_customer obj of Some (RefId c) \<Rightarrow> Some c | _ \<Rightarrow> wb_stripe_customer_id r),
            wb_stripe_subscription_id := (case so_subscription obj of Some (RefId i) \<Rightarrow> Some i | _ \<Rightarrow> wb_stripe_subscription_id r)\<rparr>)) (\<lambda>_.
          bindE flush_billing (\<lambda>_. ret workspace_id))))"

definition subscription_workspace :: "uuid option \<Rightarrow> stripe_object \<Rightarrow> uuid bl" where
  "subscription_workspace workspace_id obj =
     (case workspace_id of
        Some ws \<Rightarrow> ret ws
      | None \<Rightarrow>
          bindE (case so_id obj of
              Some sub_id \<Rightarrow> bindE (gets (\<lambda>s. by_subscription s sub_id)) (\<lambda>rows. liftE (scalar_one_or_none rows))
            | None \<Rightarrow> ret None) (\<lambda>row.
          bindE (case (row, so_customer obj) of
              (None, Some (RefId cust)) \<Rightarrow> bindE (gets (\<lambda>s. by_customer s cust)) (\<lambda>rows. liftE (scalar_one_or_none rows))
            | _ \<Rightarrow> ret row) (\<lambda>row.
          case row of
            None \<Rightarrow> raise (BillingError ''unknown_subscription'' ''subscription event could not be mapped to a workspace'')
          | Some r \<Rightarrow> ret (wb_workspace_id r))))"

definition payment_failed :: "uuid option \<Rightarrow> stripe_event \<Rightarrow> string \<Rightarrow> uuid option bl" where
  "payment_failed workspace_id event event_id =
     (case so_subscription (se_object event) of
        Some (RefId sub) \<Rightarrow>
          bindE (gets (\<lambda>s. by_subscription s sub)) (\<lambda>rows.
          bindE (liftE (scalar_one_or_none rows)) (\<lambda>found.
          case found of
            None \<Rightarrow> ret workspace_id
          | Some r \<Rightarrow>
              let ws = wb_workspace_id r in
              bindE (ensure_workspace_billing ws) (\<lambda>_.
              bindE (case se_created event of None \<Rightarrow> ret None | Some _ \<Rightarrow> latest_applied_event_created ws event_id) (\<lambda>latest.
              bindE (if case (se_created event, latest) of (Some c, Some l) \<Rightarrow> c < l | _ \<Rightarrow> False then ret ()
                 else set_billing ws (\<lambda>r. r\<lparr>wb_status := ''past_due''\<rparr>)) (\<lambda>_.
              bindE flush_billing (\<lambda>_. ret (Some ws)))))))
      | _ \<Rightarrow> ret workspace_id)"

definition apply_event :: "string \<Rightarrow> string \<Rightarrow> uuid option \<Rightarrow> stripe_event \<Rightarrow> uuid option bl" where
  "apply_event event_id event_type workspace_id event =
     (if event_type = ''checkout.session.completed'' then link_checkout workspace_id (se_object event)
      else if event_type \<in> set subscription_events then
        bindE (subscription_workspace workspace_id (se_object event)) (\<lambda>ws.
        bindE (apply_subscription ws (se_object event) event_id (se_created event)) (\<lambda>_. ret (Some ws)))
      else if event_type = ''invoice.payment_failed'' then payment_failed workspace_id event event_id
      else ret workspace_id)"

definition stamp_receipt :: "string \<Rightarrow> uuid option \<Rightarrow> unit bl" where
  "stamp_receipt event_id workspace_id =
     (case workspace_id of
        None \<Rightarrow> ret ()
      | Some ws \<Rightarrow> modify (billing_webhook_events_update (upd_row bwe_stripe_event_id event_id
          (\<lambda>e. if bwe_workspace_id e = None then e\<lparr>bwe_workspace_id := Some ws\<rparr> else e))))"

record webhook_result =
  wr_status :: string
  wr_event_id :: string
  wr_event_type :: string
  wr_workspace_id :: "uuid option"

definition process_stripe_event :: "stripe_event \<Rightarrow> webhook_result bl" where
  "process_stripe_event event =
     (case (truthy (se_id event), truthy (se_type event)) of
        (Some event_id, Some event_type) \<Rightarrow>
          let duplicate = \<lparr>wr_status = ''duplicate'', wr_event_id = event_id, wr_event_type = event_type, wr_workspace_id = None\<rparr>
          in bindE (gets (\<lambda>s. find_row bwe_stripe_event_id event_id (billing_webhook_events s))) (\<lambda>existing.
          if existing \<noteq> None then ret duplicate
          else
            let metadata_ws = workspace_id_from_metadata (se_object event) in
            try_except
              (bindE (savepoint
                (bindE (insert_receipt event_id event_type metadata_ws event) (\<lambda>_.
                 bindE (apply_event event_id event_type metadata_ws event) (\<lambda>workspace_id.
                 bindE (stamp_receipt event_id workspace_id) (\<lambda>_. ret workspace_id))))) (\<lambda>workspace_id.
               ret \<lparr>wr_status = ''processed'', wr_event_id = event_id, wr_event_type = event_type, wr_workspace_id = workspace_id\<rparr>))
              (\<lambda>e. case e of IntegrityError _ \<Rightarrow> ret duplicate | _ \<Rightarrow> raise e))
      | _ \<Rightarrow> raise (BillingError ''invalid_event'' ''Stripe event missing id or type''))"

definition construct_stripe_event :: "stripe_api \<Rightarrow> string \<Rightarrow> string \<Rightarrow> settings \<Rightarrow> py_error + stripe_event" where
  "construct_stripe_event stripe payload sig_header st =
     (case require_billing_config st of
        Inl e \<Rightarrow> Inl e
      | Inr _ \<Rightarrow>
          (case stripe_webhook_secret st of
             None \<Rightarrow> Inl (BillingError ''billing_misconfigured'' ''billing enabled but STRIPE_WEBHOOK_SECRET is unset'')
           | Some secret \<Rightarrow>
               (case construct_event stripe payload sig_header secret of
                  Inl SignatureVerificationError \<Rightarrow> Inl (BillingError ''invalid_signature'' ''invalid Stripe webhook signature'')
                | Inl (OtherFailure msg) \<Rightarrow> Inl (BillingError ''invalid_payload'' (''invalid Stripe webhook payload: '' @ msg))
                | Inr event \<Rightarrow> Inr event)))"

section \<open>Routes\<close>

definition get_billing :: "uuid \<Rightarrow> entitlement bl" where
  \<comment> \<open>the row is created and committed on a session of its own\<close>
  "get_billing workspace_id =
     bindE (savepoint (ensure_workspace_billing workspace_id)) (\<lambda>_. savepoint (get_entitlement workspace_id))"

definition checkout_http_error :: "py_error \<Rightarrow> py_error" where
  "checkout_http_error e =
     (case e of
        BillingError code msg \<Rightarrow>
          HTTPException (if code \<in> set [''billing_misconfigured'', ''stripe_unavailable''] then 503
            else if code = ''already_entitled'' then 409 else 400) msg
      | _ \<Rightarrow> e)"

definition create_checkout :: "stripe_api \<Rightarrow> uuid \<Rightarrow> string option \<Rightarrow> string option \<Rightarrow> checkout_result bl" where
  "create_checkout stripe workspace_id payload_email user_email =
     bindE (gets (\<lambda>s. billing_enabled (bl_settings s))) (\<lambda>enabled.
     if \<not> enabled then raise (HTTPException 503 ''billing is not enabled'')
     else try_except
       (savepoint (create_checkout_session stripe workspace_id
          (case truthy payload_email of Some m \<Rightarrow> Some m | None \<Rightarrow> user_email)))
       (\<lambda>e. raise (checkout_http_error e)))"

definition webhook_http_error :: "py_error \<Rightarrow> py_error" where
  "webhook_http_error e =
     (case e of
        BillingError code msg \<Rightarrow>
          HTTPException (if code \<in> set [''invalid_signature'', ''invalid_payload'', ''invalid_event''] then 400 else 422) msg
      | _ \<Rightarrow> e)"

definition stripe_webhook :: "stripe_api \<Rightarrow> string \<Rightarrow> string option \<Rightarrow> webhook_result bl" where
  "stripe_webhook stripe payload stripe_signature =
     bindE (gets bl_settings) (\<lambda>st.
     if \<not> billing_enabled st then raise (HTTPException 503 ''billing is not enabled'')
     else case truthy stripe_signature of
       None \<Rightarrow> raise (HTTPException 400 ''missing Stripe-Signature header'')
     | Some sig \<Rightarrow>
         try_except
           (bindE (liftE (construct_stripe_event stripe payload sig st)) (\<lambda>event. savepoint (process_stripe_event event)))
           (\<lambda>e. raise (webhook_http_error e)))"

section \<open>Deliveries\<close>

definition payment_failed_event :: "stripe_event \<Rightarrow> bool" where
  "payment_failed_event e \<longleftrightarrow> se_type e = Some ''invoice.payment_failed''"

definition subscription_event :: "stripe_event \<Rightarrow> bool" where
  "subscription_event e \<longleftrightarrow> (case se_type e of None \<Rightarrow> False | Some ty \<Rightarrow> ty \<in> set subscription_events)"

text \<open>What an event says about the subscription: a payment failure never entitles.\<close>

definition entitling :: "stripe_event \<Rightarrow> bool" where
  "entitling e \<longleftrightarrow> subscription_event e \<and> subscription_status (se_object e) \<in> set ACTIVE_STATUSES"

text \<open>A workspace linked to a subscription and a customer of its own.\<close>

definition linked :: "billing_db \<Rightarrow> uuid \<Rightarrow> string \<Rightarrow> string \<Rightarrow> bool" where
  "linked s ws sub cust \<longleftrightarrow> ws \<in> set (bl_workspaces s) \<and> distinct (map wb_workspace_id (workspace_billing s))
     \<and> unique_column wb_stripe_customer_id (workspace_billing s) \<and> unique_column wb_stripe_subscription_id (workspace_billing s)
     \<and> (case find_billing s ws of None \<Rightarrow> False
        | Some r \<Rightarrow> wb_stripe_subscription_id r = Some sub \<and> wb_stripe_customer_id r = Some cust)"

text \<open>
  An event about that subscription, dated as Stripe dates all its events, with or without
  the workspace in its metadata.
\<close>

definition concerns :: "uuid \<Rightarrow> string \<Rightarrow> string \<Rightarrow> stripe_event \<Rightarrow> bool" where
  "concerns ws sub cust e \<longleftrightarrow> truthy (se_id e) \<noteq> None \<and> se_created e \<noteq> None
     \<and> (workspace_id_from_metadata (se_object e) = None \<or> workspace_id_from_metadata (se_object e) = Some ws)
     \<and> (subscription_event e \<and> so_id (se_object e) = Some sub
          \<and> (so_customer (se_object e) = None \<or> so_customer (se_object e) = Some (RefId cust))
          \<and> \<not> isl (period_end_from_subscription (se_object e))
        \<or> payment_failed_event e \<and> so_subscription (se_object e) = Some (RefId sub))"

text \<open>
  What the events together say: the newest one decides, and among several of the same
  second a downgrade decides.
\<close>

definition newest_entitles :: "stripe_event list \<Rightarrow> bool" where
  "newest_entitles es \<longleftrightarrow> (\<forall>e \<in> set es. entitling e \<or> (\<exists>e' \<in> set es. the (se_created e) < the (se_created e')))"

definition deliver :: "stripe_event list \<Rightarrow> webhook_result list bl" where
  "deliver es = collect_each process_stripe_event es"

subsection \<open>One delivery\<close>

lemma map_filter_Cons: "List.map_filter f (x # xs) = (case f x of None \<Rightarrow> List.map_filter f xs | Some y \<Rightarrow> y # List.map_filter f xs)"
  by (simp add: List.map_filter_def split: option.split)

lemma map_filter_Nil: "List.map_filter f [] = []"
  by (simp add: List.map_filter_def)

lemma map_filter_append: "List.map_filter f (xs @ ys) = List.map_filter f xs @ List.map_filter f ys"
  by (induction xs) (simp_all add: map_filter_Cons map_filter_Nil split: option.split)

lemma in_map_filter: "y \<in> set (List.map_filter f xs) \<longleftrightarrow> (\<exists>x \<in> set xs. f x = Some y)"
  by (induction xs) (auto simp: map_filter_Cons map_filter_Nil split: option.splits)

lemma unique_column_filter:
  assumes "unique_column col rows" and "r \<in> set rows" and "col r = Some x"
  shows "filter (\<lambda>r. col r = Some x) rows = [r]"
  using assms
proof (induction rows)
  case (Cons q rows)
  show ?case
  proof (cases "col q = Some x")
    case True
    with Cons.prems(1) have "\<forall>r \<in> set rows. col r \<noteq> Some x"
      by (auto simp: unique_column_def map_filter_Cons in_map_filter)
    with True Cons.prems(2,3) show ?thesis by (auto simp: filter_empty_conv)
  next
    case False
    with Cons have "unique_column col rows" by (auto simp: unique_column_def map_filter_Cons split: option.splits)
    with False Cons show ?thesis by auto
  qed
qed simp

lemma unique_column_cong: "map col rows = map col rows' \<Longrightarrow> unique_column col rows = unique_column col rows'"
  unfolding unique_column_def
proof -
  assume "map col rows = map col rows'"
  moreover have "List.map_filter col rows = List.map_filter (\<lambda>x. x) (map col rows)" for rows
    by (induction rows) (simp_all add: map_filter_Cons map_filter_Nil split: option.split)
  ultimately show "distinct (List.map_filter col rows) = distinct (List.map_filter col rows')" by metis
qed

definition change :: "stripe_event \<Rightarrow> billing_row \<Rightarrow> billing_row" where
  "change e r = (if subscription_event e
     then (mirror (se_object e) r)\<lparr>wb_current_period_end := projr (period_end_from_subscription (se_object e)),
       wb_cancel_at_period_end := (so_cancel_at_period_end (se_object e) = Some True)\<rparr>
     else r\<lparr>wb_status := ''past_due''\<rparr>)"

definition receipt :: "billing_db \<Rightarrow> uuid option \<Rightarrow> stripe_event \<Rightarrow> billing_webhook_event" where
  "receipt s ws e = \<lparr>bwe_id = bl_next_uuid s, bwe_stripe_event_id = the (se_id e), bwe_event_type = the (se_type e),
     bwe_workspace_id = ws, bwe_payload = e\<rparr>"

definition superseded :: "billing_db \<Rightarrow> uuid \<Rightarrow> stripe_event \<Rightarrow> bool" where
  "superseded s ws e \<longleftrightarrow> (\<exists>c \<in> set (applied_created (billing_webhook_events s) ws (the (se_id e))).
     the (se_created e) < c \<or> entitling e \<and> the (se_created e) = c)"

definition received :: "billing_db \<Rightarrow> uuid \<Rightarrow> stripe_event \<Rightarrow> billing_db" where
  "received s ws e = s\<lparr>bl_next_uuid := Suc (bl_next_uuid s),
     workspace_billing := (if superseded s ws e then workspace_billing s
       else upd_row wb_workspace_id ws (change e) (workspace_billing s)),
     billing_webhook_events := billing_webhook_events s @ [receipt s (Some ws) e]\<rparr>"

lemma one_kind: "subscription_event e \<Longrightarrow> \<not> payment_failed_event e"
  by (auto simp: subscription_event_def payment_failed_event_def subscription_events_def split: option.splits)

lemma change_keeps_link:
  assumes "concerns ws sub cust e"
  shows "wb_workspace_id (change e r) = wb_workspace_id r"
    and "wb_stripe_subscription_id r = Some sub \<Longrightarrow> wb_stripe_subscription_id (change e r) = Some sub"
    and "wb_stripe_customer_id r = Some cust \<Longrightarrow> wb_stripe_customer_id (change e r) = Some cust"
  using assms one_kind by (auto simp: change_def mirror_def concerns_def truthy_def)

lemma change_entitlement: "concerns ws sub cust e \<Longrightarrow> is_entitled (Some (change e r)) True = entitling e"
  by (auto simp: change_def mirror_def is_entitled_def entitling_def plan_for_def concerns_def payment_failed_event_def
      subscription_event_def subscription_events_def ACTIVE_STATUSES_def)

lemma linked_row:
  assumes "linked s ws sub cust"
  obtains r where "find_billing s ws = Some r" "r \<in> set (workspace_billing s)" "wb_workspace_id r = ws"
    "wb_stripe_subscription_id r = Some sub" "wb_stripe_customer_id r = Some cust"
    "\<And>q. q \<in> set (workspace_billing s) \<Longrightarrow> wb_workspace_id q = ws \<Longrightarrow> q = r" "by_subscription s sub = [r]"
proof -
  from assms obtain r where r: "find_billing s ws = Some r" "wb_stripe_subscription_id r = Some sub" "wb_stripe_customer_id r = Some cust"
    and d: "distinct (map wb_workspace_id (workspace_billing s))" and u: "unique_column wb_stripe_subscription_id (workspace_billing s)"
    by (auto simp: linked_def split: option.splits)
  from r(1) have m: "r \<in> set (workspace_billing s)" "wb_workspace_id r = ws" by (auto simp: find_billing_def dest: find_row_SomeD)
  have "q = r" if "q \<in> set (workspace_billing s)" "wb_workspace_id q = ws" for q
    using find_row_mem [OF d that(1)] that(2) r(1) by (simp add: find_billing_def)
  moreover have "by_subscription s sub = [r]" unfolding by_subscription_def by (rule unique_column_filter [OF u m(1) r(2)])
  ultimately show thesis by (rule that [OF r(1) m r(2,3)])
qed

lemma linked_change:
  assumes "linked s ws sub cust" and "concerns ws sub cust e"
    and t: "workspace_billing t = upd_row wb_workspace_id ws (change e) (workspace_billing s)" "bl_workspaces t = bl_workspaces s"
  shows "linked t ws sub cust" and "find_billing t ws = map_option (change e) (find_billing s ws)"
proof -
  note keep = change_keeps_link [OF assms(2)]
  show find: "find_billing t ws = map_option (change e) (find_billing s ws)"
    by (simp add: find_billing_def t find_row_upd_row keep)
  from linked_row [OF assms(1)] obtain r where r: "find_billing s ws = Some r"
    "wb_stripe_subscription_id r = Some sub" "wb_stripe_customer_id r = Some cust"
    "\<And>q. q \<in> set (workspace_billing s) \<Longrightarrow> wb_workspace_id q = ws \<Longrightarrow> q = r" by blast
  have "map wb_stripe_customer_id (workspace_billing t) = map wb_stripe_customer_id (workspace_billing s)"
    "map wb_stripe_subscription_id (workspace_billing t) = map wb_stripe_subscription_id (workspace_billing s)"
    using r keep by (auto simp: t upd_row_def)
  from this [THEN unique_column_cong] show "linked t ws sub cust"
    using assms(1) r find keep by (auto simp: linked_def t(2)) (simp add: t(1) map_key_upd_row)
qed

lemma latest_applied:
  assumes "se_created e = Some c"
  shows "\<exists>latest. latest_applied_event_created ws (the (se_id e)) s = (s, Inr latest)
    \<and> ((case (se_created e, latest) of (Some c, Some l) \<Rightarrow> c < l | _ \<Rightarrow> False) \<longleftrightarrow>
         (\<exists>l \<in> set (applied_created (billing_webhook_events s) ws (the (se_id e))). c < l))
    \<and> (outdated (se_created e) latest st \<longleftrightarrow>
         (\<exists>l \<in> set (applied_created (billing_webhook_events s) ws (the (se_id e))). c < l \<or> st \<in> set ACTIVE_STATUSES \<and> c = l))"
proof -
  define ls where "ls = applied_created (billing_webhook_events s) ws (the (se_id e))"
  show ?thesis
  proof (cases "ls = []")
    case True
    then show ?thesis using assms unfolding ls_def [symmetric]
      by (auto simp: latest_applied_event_created_def ls_def [symmetric] outdated_def)
  next
    case False
    then have m: "Max (set ls) \<in> set ls" "\<And>l. l \<in> set ls \<Longrightarrow> l \<le> Max (set ls)" by auto
    have "c < Max (set ls) \<longleftrightarrow> (\<exists>l \<in> set ls. c < l)" using False by (simp add: Max_gr_iff)
    moreover have "c = Max (set ls)" if "c \<in> set ls" "\<forall>x \<in> set ls. \<not> c < x"
      using bspec [OF that(2) m(1)] m(2) [OF that(1)] by (rule antisym [OF _ leI, rotated])
    then have "c < Max (set ls) \<or> c = Max (set ls) \<and> A \<longleftrightarrow> (\<exists>l \<in> set ls. c < l \<or> A \<and> c = l)" for A
      using m(1) by (auto simp: False Max_gr_iff)
    ultimately show ?thesis using False assms unfolding ls_def [symmetric]
      by (auto simp: latest_applied_event_created_def ls_def [symmetric] outdated_def)
  qed
qed

lemma flush_linked: "linked s ws sub cust \<Longrightarrow> flush_billing s = (s, Inr ())"
  by (simp add: flush_billing_def linked_def)

lemma apply_event_concerning:
  assumes "linked s ws sub cust" and "concerns ws sub cust e"
  shows "apply_event (the (se_id e)) (the (se_type e)) (workspace_id_from_metadata (se_object e)) e s
    = (s\<lparr>workspace_billing := (if superseded s ws e then workspace_billing s
         else upd_row wb_workspace_id ws (change e) (workspace_billing s))\<rparr>, Inr (Some ws))"
proof -
  define rows where "rows = workspace_billing s"
  define t where "t = s\<lparr>workspace_billing := upd_row wb_workspace_id ws (change e) rows\<rparr>"
  from linked_row [OF assms(1)] obtain r where r: "find_billing s ws = Some r" "wb_workspace_id r = ws" "by_subscription s sub = [r]" by metis
  have linked_t: "linked t ws sub cust" by (rule linked_change(1) [OF assms]) (simp_all add: t_def rows_def)
  have ensure: "ensure_workspace_billing ws s = (s, Inr r)" by (simp add: ensure_workspace_billing_def r)
  obtain c where c: "se_created e = Some c" using assms(2) by (auto simp: concerns_def)
  obtain latest where latest: "latest_applied_event_created ws (the (se_id e)) s = (s, Inr latest)"
    "(case (se_created e, latest) of (Some c, Some l) \<Rightarrow> c < l | _ \<Rightarrow> False) \<longleftrightarrow>
       (\<exists>l \<in> set (applied_created (billing_webhook_events s) ws (the (se_id e))). c < l)"
    "outdated (se_created e) latest (subscription_status (se_object e)) \<longleftrightarrow>
       (\<exists>l \<in> set (applied_created (billing_webhook_events s) ws (the (se_id e))). c < l
         \<or> subscription_status (se_object e) \<in> set ACTIVE_STATUSES \<and> c = l)"
    using latest_applied [OF c, of ws s "subscription_status (se_object e)"] by blast
  show ?thesis
  proof (cases "subscription_event e")
    case True
    then obtain ty where ty: "se_type e = Some ty" "ty \<in> set subscription_events" by (auto simp: subscription_event_def split: option.splits)
    then have branch: "ty \<noteq> ''checkout.session.completed''" by (auto simp: subscription_events_def)
    have ob: "so_id (se_object e) = Some sub" and pe: "\<not> isl (period_end_from_subscription (se_object e))"
      using True assms(2) by (auto simp: concerns_def payment_failed_event_def subscription_event_def subscription_events_def)
    have mapped: "subscription_workspace (workspace_id_from_metadata (se_object e)) (se_object e) s = (s, Inr ws)"
      using assms(2) r ob by (auto simp: subscription_workspace_def concerns_def)
    have out: "outdated (se_created e) latest (subscription_status (se_object e)) = superseded s ws e"
      using True latest(3) by (simp add: superseded_def c entitling_def)
    obtain p where p: "period_end_from_subscription (se_object e) = Inr p" using pe by (cases "period_end_from_subscription (se_object e)") auto
    have "upd_row wb_workspace_id ws (\<lambda>r. r\<lparr>wb_current_period_end := p, wb_cancel_at_period_end := so_cancel_at_period_end (se_object e) = Some True\<rparr>)
        (upd_row wb_workspace_id ws (mirror (se_object e)) rows) = upd_row wb_workspace_id ws (change e) rows"
    proof -
      have "(\<lambda>r. r\<lparr>wb_current_period_end := p, wb_cancel_at_period_end := so_cancel_at_period_end (se_object e) = Some True\<rparr>)
          \<circ> mirror (se_object e) = change e" by (simp add: change_def True p comp_def fun_eq_iff)
      then show ?thesis by (subst upd_row_upd_row) (simp_all add: mirror_def)
    qed
    then have upd: "workspace_billing_update (upd_row wb_workspace_id ws (\<lambda>r. r\<lparr>wb_current_period_end := p,
        wb_cancel_at_period_end := so_cancel_at_period_end (se_object e) = Some True\<rparr>) \<circ> upd_row wb_workspace_id ws (mirror (se_object e))) s = t"
      by (cases s) (simp add: t_def rows_def)
    have "apply_subscription ws (se_object e) (the (se_id e)) (se_created e) s = (if superseded s ws e then s else t, Inr ())"
      using flush_linked [OF linked_t] latest(1) out c
      by (auto simp: apply_subscription_def bindE_Inr [where m = "ensure_workspace_billing ws", OF ensure]
          bindE_Inr [where m = "latest_applied_event_created ws (the (se_id e))"] set_billing_def p upd)
    then show ?thesis using ty branch
      by (simp add: apply_event_def bindE_Inr [where m = "subscription_workspace _ _", OF mapped]
          bindE_Inr [where m = "apply_subscription _ _ _ _"] t_def rows_def)
  next
    case False
    then have pf: "se_type e = Some ''invoice.payment_failed''" "so_subscription (se_object e) = Some (RefId sub)"
      using assms(2) by (auto simp: concerns_def payment_failed_event_def)
    have stale: "(case (se_created e, latest) of (Some c, Some l) \<Rightarrow> c < l | _ \<Rightarrow> False) = superseded s ws e"
      using False latest(2) by (simp add: superseded_def c entitling_def)
    have "change e = (\<lambda>r. r\<lparr>wb_status := ''past_due''\<rparr>)" using False by (simp add: change_def fun_eq_iff)
    then have upd: "workspace_billing_update (upd_row wb_workspace_id ws (\<lambda>r. r\<lparr>wb_status := ''past_due''\<rparr>)) s = t"
      by (cases s) (simp add: t_def rows_def)
    have "payment_failed (workspace_id_from_metadata (se_object e)) e (the (se_id e)) s = (if superseded s ws e then s else t, Inr (Some ws))"
      using flush_linked [OF linked_t] flush_linked [OF assms(1)] latest(1) stale c
      by (auto simp: payment_failed_def pf r Let_def bindE_Inr [where m = "ensure_workspace_billing ws", OF ensure]
          bindE_Inr [where m = "latest_applied_event_created ws (the (se_id e))"] bindE_Inr [where m = flush_billing]
          set_billing_def upd)
    then show ?thesis using pf by (simp add: apply_event_def subscription_events_def t_def rows_def)
  qed
qed

lemma process_concerning:
  assumes "linked s ws sub cust" and "concerns ws sub cust e" and "the (se_id e) \<notin> bwe_stripe_event_id ` set (billing_webhook_events s)"
  shows "\<exists>r. process_stripe_event e s = (received s ws e, Inr r) \<and> wr_status r = ''processed''"
proof -
  define s1 where "s1 = s\<lparr>bl_next_uuid := Suc (bl_next_uuid s),
    billing_webhook_events := billing_webhook_events s @ [receipt s (workspace_id_from_metadata (se_object e)) e]\<rparr>"
  have id: "truthy (se_id e) = Some (the (se_id e))" and ty: "truthy (se_type e) = Some (the (se_type e))"
    using assms(2) by (auto simp: concerns_def truthy_def payment_failed_event_def subscription_event_def subscription_events_def
        split: option.splits if_splits)
  have none: "find_row bwe_stripe_event_id (the (se_id e)) (billing_webhook_events s) = None" using assms(3) by (simp add: find_row_None)
  have ins: "insert_receipt (the (se_id e)) (the (se_type e)) (workspace_id_from_metadata (se_object e)) e s = (s1, Inr ())"
    using assms by (auto simp: insert_receipt_def s1_def receipt_def concerns_def linked_def)
  have l1: "linked s1 ws sub cust" using assms(1) by (simp add: s1_def linked_def find_billing_def)
  have "applied_created (billing_webhook_events s1) ws (the (se_id e)) = applied_created (billing_webhook_events s) ws (the (se_id e))"
    by (simp add: applied_created_def s1_def map_filter_append receipt_def map_filter_Nil)
  then have sup: "superseded s1 ws e = superseded s ws e" by (simp add: superseded_def)
  have stamp: "upd_row bwe_stripe_event_id (the (se_id e)) (\<lambda>x. if bwe_workspace_id x = None then x\<lparr>bwe_workspace_id := Some ws\<rparr> else x)
      (billing_webhook_events s1) = billing_webhook_events s @ [receipt s (Some ws) e]"
    using assms(2,3) by (auto simp: s1_def upd_row_absent receipt_def concerns_def)
  let ?body = "bindE (insert_receipt (the (se_id e)) (the (se_type e)) (workspace_id_from_metadata (se_object e)) e) (\<lambda>_.
    bindE (apply_event (the (se_id e)) (the (se_type e)) (workspace_id_from_metadata (se_object e)) e) (\<lambda>workspace_id.
    bindE (stamp_receipt (the (se_id e)) workspace_id) (\<lambda>_. ret workspace_id)))"
  have "?body s = (received s ws e, Inr (Some ws))"
    unfolding bindE_Inr [where m = "insert_receipt _ _ _ _", OF ins] bindE_Inr [where m = "apply_event _ _ _ _", OF apply_event_concerning [OF l1 assms(2)]]
    using stamp by (simp add: stamp_receipt_def received_def sup) (simp add: s1_def)
  then have "savepoint ?body s = (received s ws e, Inr (Some ws))" by (simp add: savepoint_def)
  then show ?thesis
    unfolding process_stripe_event_def id ty Let_def by (simp add: none try_except_def bindE_Inr [where m = "savepoint _"])
qed

subsection \<open>Histories of deliveries\<close>

definition receipts_for :: "billing_db \<Rightarrow> uuid \<Rightarrow> billing_webhook_event list" where
  "receipts_for s ws = filter (\<lambda>r. bwe_workspace_id r = Some ws
     \<and> bwe_event_type r \<in> set (subscription_events @ [''invoice.payment_failed''])) (billing_webhook_events s)"

definition event_ids :: "billing_db \<Rightarrow> string set" where
  "event_ids s = bwe_stripe_event_id ` set (billing_webhook_events s)"

text \<open>The workspace has received exactly the events \<open>es\<close> and stands as the newest of them says.\<close>

definition tracks :: "billing_db \<Rightarrow> uuid \<Rightarrow> string \<Rightarrow> string \<Rightarrow> stripe_event list \<Rightarrow> bool" where
  "tracks s ws sub cust es \<longleftrightarrow> linked s ws sub cust \<and> map bwe_payload (receipts_for s ws) = es
     \<and> (\<forall>r \<in> set (receipts_for s ws). bwe_stripe_event_id r = the (se_id (bwe_payload r)) \<and> se_created (bwe_payload r) \<noteq> None)
     \<and> (es \<noteq> [] \<longrightarrow> is_entitled (find_billing s ws) True = newest_entitles es)"

lemma newest_superseded:
  assumes "e' \<in> set es" and "the (se_created e) < the (se_created e') \<or> entitling e \<and> the (se_created e) = the (se_created e')"
  shows "newest_entitles (es @ [e]) = newest_entitles es"
  using assms unfolding newest_entitles_def by (auto dest: order_less_trans)

lemma newest_latest:
  assumes "\<And>e'. e' \<in> set es \<Longrightarrow> \<not> the (se_created e) < the (se_created e')"
    and "\<And>e'. e' \<in> set es \<Longrightarrow> entitling e \<Longrightarrow> the (se_created e) \<noteq> the (se_created e')"
  shows "newest_entitles (es @ [e]) = entitling e"
  using assms unfolding newest_entitles_def by (auto simp: neq_iff)

lemma superseded_tracks:
  assumes "tracks s ws sub cust es" and "the (se_id e) \<notin> event_ids s"
  shows "superseded s ws e \<longleftrightarrow> (\<exists>e' \<in> set es. the (se_created e) < the (se_created e') \<or> entitling e \<and> the (se_created e) = the (se_created e'))"
proof -
  have "applied_created (billing_webhook_events s) ws (the (se_id e)) = List.map_filter se_created (map bwe_payload (receipts_for s ws))"
  proof -
    have "filter (\<lambda>r. bwe_workspace_id r = Some ws \<and> bwe_stripe_event_id r \<noteq> the (se_id e)
        \<and> bwe_event_type r \<in> set (subscription_events @ [''invoice.payment_failed''])) (billing_webhook_events s) = receipts_for s ws"
      unfolding receipts_for_def by (rule filter_cong) (use assms(2) in \<open>auto simp: event_ids_def image_iff\<close>)
    then show ?thesis by (simp add: applied_created_def List.map_filter_def comp_def filter_map)
  qed
  then have "set (applied_created (billing_webhook_events s) ws (the (se_id e))) = (\<lambda>e. the (se_created e)) ` set es"
    using assms(1) unfolding tracks_def by (force simp: in_map_filter)
  then show ?thesis by (auto simp: superseded_def)
qed

lemma tracks_received:
  assumes "tracks s ws sub cust es" and "concerns ws sub cust e" and "the (se_id e) \<notin> event_ids s"
  shows "tracks (received s ws e) ws sub cust (es @ [e])"
proof -
  let ?t = "received s ws e"
  have link: "linked s ws sub cust" using assms(1) by (simp add: tracks_def)
  have rec: "receipts_for ?t ws = receipts_for s ws @ [receipt s (Some ws) e]"
    using assms(2) by (auto simp: receipts_for_def received_def receipt_def concerns_def subscription_event_def payment_failed_event_def
        split: option.splits)
  have ent: "linked ?t ws sub cust \<and> is_entitled (find_billing ?t ws) True = newest_entitles (es @ [e])"
  proof (cases "superseded s ws e")
    case True
    then obtain e' where e': "e' \<in> set es"
      "the (se_created e) < the (se_created e') \<or> entitling e \<and> the (se_created e) = the (se_created e')"
      using superseded_tracks [OF assms(1,3)] by blast
    moreover have "workspace_billing ?t = workspace_billing s" "bl_workspaces ?t = bl_workspaces s" using True by (simp_all add: received_def)
    ultimately show ?thesis using assms(1) newest_superseded [OF e'] by (auto simp: tracks_def linked_def find_billing_def)
  next
    case False
    have t: "workspace_billing ?t = upd_row wb_workspace_id ws (change e) (workspace_billing s)" "bl_workspaces ?t = bl_workspaces s"
      using False by (simp_all add: received_def)
    from linked_row [OF link] obtain r where "find_billing s ws = Some r" by blast
    moreover have "newest_entitles (es @ [e]) = entitling e"
      by (rule newest_latest) (use False superseded_tracks [OF assms(1,3)] in blast)+
    ultimately show ?thesis
      using linked_change [OF link assms(2) t] change_entitlement [OF assms(2)] by simp
  qed
  have "se_created e \<noteq> None" using assms(2) by (simp add: concerns_def)
  with rec ent assms(1) show ?thesis by (auto simp: tracks_def receipt_def)
qed

lemma process_received:
  assumes "tracks s ws sub cust es" and "concerns ws sub cust e" and "e \<in> set es"
  shows "\<exists>r. process_stripe_event e s = (s, Inr r)"
proof -
  from assms(1,3) obtain r where "r \<in> set (receipts_for s ws)" "bwe_payload r = e" by (auto simp: tracks_def)
  with assms(1) have "the (se_id e) \<in> bwe_stripe_event_id ` set (billing_webhook_events s)"
    by (auto simp: tracks_def receipts_for_def rev_image_eqI)
  then have "find_row bwe_stripe_event_id (the (se_id e)) (billing_webhook_events s) \<noteq> None" by (simp add: find_row_None)
  moreover have "truthy (se_id e) = Some (the (se_id e))" "truthy (se_type e) = Some (the (se_type e))"
    using assms(2) by (auto simp: concerns_def truthy_def payment_failed_event_def subscription_event_def subscription_events_def
        split: option.splits if_splits)
  ultimately show ?thesis by (simp add: process_stripe_event_def Let_def)
qed

lemma deliver_tracks:
  assumes "tracks s ws sub cust old" and "\<And>e. e \<in> set es \<Longrightarrow> concerns ws sub cust e"
    and "inj_on (\<lambda>e. the (se_id e)) (set es)" and "\<And>e. e \<in> set es \<Longrightarrow> e \<notin> set old \<Longrightarrow> the (se_id e) \<notin> event_ids s"
  shows "\<exists>t rs all. deliver es s = (t, Inr rs) \<and> tracks t ws sub cust all \<and> set all = set old \<union> set es \<and> bl_settings t = bl_settings s"
  using assms
proof (induction es arbitrary: s old)
  case Nil
  then show ?case by (auto simp: deliver_def)
next
  case (Cons e es)
  have "\<exists>u r old'. process_stripe_event e s = (u, Inr r) \<and> tracks u ws sub cust old' \<and> set old' = insert e (set old)
    \<and> bl_settings u = bl_settings s \<and> event_ids u \<subseteq> insert (the (se_id e)) (event_ids s)"
  proof (cases "e \<in> set old")
    case True
    then show ?thesis using process_received [OF Cons.prems(1)] Cons.prems(1,2) by (metis insert_absorb list.set_intros(1) subset_insertI)
  next
    case False
    then have fresh: "the (se_id e) \<notin> event_ids s" and con: "concerns ws sub cust e" using Cons.prems by auto
    have "linked s ws sub cust" using Cons.prems(1) by (simp add: tracks_def)
    from process_concerning [OF this con] fresh obtain r where "process_stripe_event e s = (received s ws e, Inr r)"
      unfolding event_ids_def by blast
    moreover have "bl_settings (received s ws e) = bl_settings s" "event_ids (received s ws e) = insert (the (se_id e)) (event_ids s)"
      by (auto simp: received_def event_ids_def receipt_def)
    ultimately show ?thesis using tracks_received [OF Cons.prems(1) con fresh] by (intro exI [of _ "received s ws e"]) auto
  qed
  then obtain u r old' where u: "process_stripe_event e s = (u, Inr r)" "tracks u ws sub cust old'" "set old' = insert e (set old)"
    "bl_settings u = bl_settings s" "event_ids u \<subseteq> insert (the (se_id e)) (event_ids s)" by blast
  have "the (se_id x) \<notin> event_ids u" if x: "x \<in> set es" "x \<notin> set old'" for x
  proof -
    have "the (se_id x) \<noteq> the (se_id e)" using inj_onD [OF Cons.prems(3), of x e] x u(3) by auto
    with Cons.prems(4) [of x] x u(3,5) show ?thesis by auto
  qed
  from Cons.IH [OF u(2) _ _ this] obtain t rs all where
    "deliver es u = (t, Inr rs)" "tracks t ws sub cust all" "set all = set old' \<union> set es" "bl_settings t = bl_settings u"
    using Cons.prems(2,3) by (auto simp: inj_on_insert)
  with u show ?case
    by (intro exI [of _ t] exI [of _ "r # rs"] exI [of _ all]) (auto simp: deliver_def bindE_Inr [where m = "process_stripe_event e"] bindE_def)
qed

lemma newest_entitles_set: "set es = set es' \<Longrightarrow> newest_entitles es = newest_entitles es'"
  by (simp add: newest_entitles_def)


section \<open>Who grants entitlement\<close>

definition pro :: "billing_db \<Rightarrow> uuid \<Rightarrow> bool" where
  "pro s ws \<longleftrightarrow> is_entitled (find_billing s ws) True"

text \<open>Between two states nobody outside \<open>W\<close> becomes entitled, and receipts are only added.\<close>

definition grants :: "uuid set \<Rightarrow> billing_db \<Rightarrow> billing_db \<Rightarrow> bool" where
  "grants W s t \<longleftrightarrow> (\<forall>ws. pro t ws \<longrightarrow> pro s ws \<or> ws \<in> W) \<and> billing_webhook_events t = billing_webhook_events s
     \<and> bl_settings t = bl_settings s"

interpretation gr: effect_preorder "grants W" for W
  by unfold_locales (auto simp: grants_def)

lemma grants_mono: "effects (grants W) m \<Longrightarrow> W \<subseteq> V \<Longrightarrow> effects (grants V) m"
  unfolding effects_def grants_def by blast

lemma eff_set_billing:
  assumes "\<And>r. wb_workspace_id (f r) = wb_workspace_id r" and "\<And>r. is_entitled (Some (f r)) True \<Longrightarrow> is_entitled (Some r) True \<or> ws \<in> W"
  shows "effects (grants W) (set_billing ws f)"
proof -
  have "pro (workspace_billing_update (upd_row wb_workspace_id ws f) s) w \<Longrightarrow> pro s w \<or> w \<in> W" for s w
    using assms(2) by (cases "find_row wb_workspace_id w (workspace_billing s)")
      (auto simp: pro_def find_billing_def find_row_upd_row [where key = wb_workspace_id, OF assms(1)] is_entitled_def split: if_splits)
  then show ?thesis by (auto simp: effects_def set_billing_def grants_def)
qed

lemma eff_flush_billing: "effects (grants W) flush_billing"
  unfolding flush_billing_def by (intro gr.eff_rules)

lemma eff_ensure_workspace_billing: "effects (grants W) (ensure_workspace_billing ws)"
proof -
  have "effects (grants W) (modify (workspace_billing_update (\<lambda>rows. rows @ [r])))"
    if "\<not> is_entitled (Some r) True" for r
    using that by (auto simp: effects_def grants_def pro_def find_billing_def find_row_append is_entitled_def split: option.splits)
  then show ?thesis unfolding ensure_workspace_billing_def Let_def
    by (intro gr.eff_rules) (simp add: is_entitled_def PRO_PLAN_def)
qed

lemma eff_latest: "effects (grants W) (latest_applied_event_created ws i)"
  unfolding latest_applied_event_created_def by (intro gr.eff_rules)

lemma eff_apply_subscription:
  "effects (grants {w. w = ws \<and> subscription_status sub \<in> set ACTIVE_STATUSES}) (apply_subscription ws sub i c)"
  unfolding apply_subscription_def
  by (intro gr.eff_rules eff_ensure_workspace_billing eff_latest eff_flush_billing eff_set_billing)
    (auto simp: mirror_def is_entitled_def)

lemma eff_link_checkout: "effects (grants {}) (link_checkout ws obj)"
  unfolding link_checkout_def
  by (intro gr.eff_rules eff_ensure_workspace_billing eff_flush_billing eff_set_billing) (auto simp: is_entitled_def)

lemma eff_payment_failed: "effects (grants {}) (payment_failed ws e i)"
  unfolding payment_failed_def Let_def
  by (auto split: option.split stripe_ref.split simp: is_entitled_def ACTIVE_STATUSES_def
      intro!: gr.eff_rules eff_ensure_workspace_billing eff_latest eff_flush_billing eff_set_billing)

lemma eff_create_checkout: "effects (grants {}) (create_checkout stripe ws pm um)"
proof -
  have "effects (grants {}) (ensure_customer stripe ws m b)" for m b
    unfolding ensure_customer_def
    by (auto split: option.split sum.split simp: is_entitled_def intro!: gr.eff_rules eff_flush_billing eff_set_billing)
  then show ?thesis unfolding create_checkout_def create_checkout_session_def
    by (auto split: option.split sum.split intro!: gr.eff_rules eff_ensure_workspace_billing)
qed

lemma eff_get_billing: "effects (grants {}) (get_billing ws)"
  unfolding get_billing_def get_entitlement_def by (intro gr.eff_rules eff_ensure_workspace_billing)

lemma subscription_workspace_reads:
  "subscription_workspace m obj s = (t, Inr ws) \<Longrightarrow> t = s \<and> (m = None \<or> m = Some ws)"
  by (auto simp: subscription_workspace_def split: option.splits stripe_ref.splits sum.splits)

lemma apply_event_grants:
  assumes "apply_event i ty m e s = (t, Inr w)" and "se_type e = Some ty"
  shows "grants {x. w = Some x \<and> entitling e \<and> (m = None \<or> m = Some x)} s t"
proof (cases "ty \<in> set subscription_events")
  case True
  then have "ty \<noteq> ''checkout.session.completed''" by (auto simp: subscription_events_def)
  with assms(1) True obtain s1 ws u where "subscription_workspace m (se_object e) s = (s1, Inr ws)"
    "apply_subscription ws (se_object e) i (se_created e) s1 = (t, Inr u)" "w = Some ws"
    unfolding apply_event_def by (auto elim!: bindE_eq_InrD)
  with subscription_workspace_reads have h: "apply_subscription ws (se_object e) i (se_created e) s = (t, Inr u)" "w = Some ws"
    "m = None \<or> m = Some ws" by blast+
  have "grants {w. w = ws \<and> subscription_status (se_object e) \<in> set ACTIVE_STATUSES} s t"
    by (rule effects_result [OF eff_apply_subscription h(1)])
  with h(2,3) True assms(2) show ?thesis by (auto simp: grants_def entitling_def subscription_event_def)
next
  case False
  have "effects (grants {}) (apply_event i ty m e)"
    unfolding apply_event_def using False by (simp add: eff_link_checkout eff_payment_failed gr.eff_ret)
  from effects_result [OF this assms(1)] show ?thesis by (auto simp: grants_def)
qed

text \<open>
  Every entitled workspace has a receipt of an entitling event behind it, whose signature was
  verified with the configured secret.
\<close>

definition verified :: "stripe_api \<Rightarrow> billing_db \<Rightarrow> stripe_event \<Rightarrow> bool" where
  "verified stripe s e \<longleftrightarrow> (\<exists>payload sig secret. stripe_webhook_secret (bl_settings s) = Some secret
     \<and> construct_event stripe payload sig secret = Inr e)"

definition vouched :: "stripe_api \<Rightarrow> billing_db \<Rightarrow> bool" where
  "vouched stripe s \<longleftrightarrow> (\<forall>ws. pro s ws \<longrightarrow>
     (\<exists>r \<in> set (billing_webhook_events s). bwe_workspace_id r = Some ws \<and> entitling (bwe_payload r) \<and> verified stripe s (bwe_payload r)))"

lemma vouched_grants: "grants {} s t \<Longrightarrow> vouched stripe s \<Longrightarrow> vouched stripe t"
  by (auto simp: grants_def vouched_def verified_def)

lemma process_vouched:
  assumes "vouched stripe s" and "verified stripe s e" and "process_stripe_event e s = (t, Inr r)"
  shows "vouched stripe t"
proof (cases "t = s")
  case False
  from assms(3) False obtain i ty s1 t1 w where h: "se_id e = Some i" "se_type e = Some ty"
    "insert_receipt i ty (workspace_id_from_metadata (se_object e)) e s = (s1, Inr ())"
    "apply_event i ty (workspace_id_from_metadata (se_object e)) e s1 = (t1, Inr w)" "stamp_receipt i w t1 = (t, Inr ())"
    unfolding process_stripe_event_def truthy_def Let_def savepoint_def try_except_def
    by (auto split: option.splits if_splits prod.splits sum.splits py_error.splits elim!: bindE_eq_InrD simp: bindE_def)
  let ?m = "workspace_id_from_metadata (se_object e)" and ?r = "receipt s (workspace_id_from_metadata (se_object e)) e"
  have s1: "s1 = s\<lparr>bl_next_uuid := Suc (bl_next_uuid s), billing_webhook_events := billing_webhook_events s @ [?r]\<rparr>"
    and fresh: "i \<notin> bwe_stripe_event_id ` set (billing_webhook_events s)"
    using h(3) by (auto simp: insert_receipt_def receipt_def h(1,2) split: if_splits)
  have g: "grants {x. w = Some x \<and> entitling e \<and> (?m = None \<or> ?m = Some x)} s1 t1" by (rule apply_event_grants [OF h(4,2)])
  then have ev: "billing_webhook_events t1 = billing_webhook_events s @ [?r]" and st: "bl_settings t1 = bl_settings s"
    by (simp_all add: grants_def s1)
  have same: "bl_settings t = bl_settings s" "workspace_billing t = workspace_billing t1" using h(5) st by (auto simp: stamp_receipt_def split: option.splits)
  have old: "set (billing_webhook_events s) \<subseteq> set (billing_webhook_events t)"
    using h(5) fresh ev by (auto simp: stamp_receipt_def upd_row_absent split: option.splits)
  have new: "receipt s (Some x) e \<in> set (billing_webhook_events t)" if "w = Some x" "?m = None \<or> ?m = Some x" for x
    using h(1,5) that by (auto simp: stamp_receipt_def ev receipt_def)
  have "\<exists>r \<in> set (billing_webhook_events t). bwe_workspace_id r = Some x \<and> entitling (bwe_payload r) \<and> verified stripe t (bwe_payload r)"
    if "pro t x" for x
  proof -
    have "pro t1 x" using that same by (simp add: pro_def find_billing_def)
    with g have "pro s1 x \<or> w = Some x \<and> entitling e \<and> (?m = None \<or> ?m = Some x)" by (simp add: grants_def)
    then show ?thesis
    proof
      assume "pro s1 x"
      then have "pro s x" by (simp add: s1 pro_def find_billing_def)
      with assms(1) old show ?thesis unfolding vouched_def verified_def same(1) by blast
    next
      assume "w = Some x \<and> entitling e \<and> (?m = None \<or> ?m = Some x)"
      with new assms(2) same(1) show ?thesis by (intro bexI [of _ "receipt s (Some x) e"]) (auto simp: receipt_def verified_def)
    qed
  qed
  then show ?thesis by (simp add: vouched_def)
qed (use assms(1) in simp)

inductive billing_step :: "stripe_api \<Rightarrow> billing_db \<Rightarrow> billing_db \<Rightarrow> bool" for stripe where
  view: "billing_step stripe s (state_after (get_billing ws) s)"
| checkout: "billing_step stripe s (state_after (create_checkout stripe ws payload_email user_email) s)"
| webhook: "billing_step stripe s (state_after (stripe_webhook stripe payload signature) s)"

lemma webhook_vouched:
  assumes "vouched stripe s"
  shows "vouched stripe (state_after (stripe_webhook stripe payload signature) s)"
proof (cases "stripe_webhook stripe payload signature s")
  case (Pair t r)
  show ?thesis
  proof (cases "t = s")
    case False
    with Pair obtain sig e u where "construct_stripe_event stripe payload sig (bl_settings s) = Inr e"
      and p: "process_stripe_event e s = (t, Inr u)"
      by (auto simp: stripe_webhook_def try_except_def savepoint_def split: if_splits option.splits sum.splits prod.splits)
    then have "verified stripe s e"
      by (auto simp: construct_stripe_event_def verified_def split: sum.splits option.splits construct_failure.splits)
    with process_vouched [OF assms _ p] Pair show ?thesis by simp
  qed (use assms Pair in simp)
qed

text \<open>
  C16: only Stripe grants the Pro plan. Whatever sequence of billing requests is made, by whomever,
  a workspace that was not entitled and is entitled afterwards has on record a subscription event
  of an active or trialing subscription whose signature verified against the webhook secret;
  completing a checkout is not enough.
\<close>

theorem only_stripe_grants_entitlement:
  assumes "(billing_step stripe)\<^sup>*\<^sup>* s t" and "\<And>w. \<not> is_entitled (find_billing s w) True"
    and "billing_enabled (bl_settings t)" and "result_of (require_entitlement_for_workspace ws) t = Inr ()"
  shows "\<exists>r payload signature secret. r \<in> set (billing_webhook_events t) \<and> bwe_workspace_id r = Some ws \<and> entitling (bwe_payload r)
    \<and> stripe_webhook_secret (bl_settings t) = Some secret \<and> construct_event stripe payload signature secret = Inr (bwe_payload r)"
proof -
  have "vouched stripe t"
    using assms(1)
  proof (induction rule: rtranclp_induct)
    case base
    then show ?case using assms(2) by (simp add: vouched_def pro_def)
  next
    case (step t u)
    from step.hyps(2) show ?case
      by cases (use step.IH vouched_grants effectsD [OF eff_get_billing] effectsD [OF eff_create_checkout] webhook_vouched in \<open>blast+\<close>)
  qed
  moreover have "pro t ws" using assms(3,4) by (auto simp: require_entitlement_for_workspace_def pro_def split: if_splits)
  ultimately show ?thesis unfolding vouched_def verified_def by blast
qed

section \<open>A lost event\<close>

text \<open>
  An event whose customer is already recorded for another workspace violates the unique column
  inside the savepoint; the handler takes every violation for a concurrent delivery of the
  same event.
\<close>

text \<open>
  An event can be lost for good. When applying a subscription event would give its workspace a
  customer that another workspace has, the sender is told that the event is a duplicate, although
  no receipt of it exists and nothing was changed; so the event is not sent again.
\<close>

theorem conflicting_event_is_reported_as_duplicate:
  assumes "truthy (se_id e) = Some i" and "i \<notin> event_ids s" and "subscription_event e" and "receipts_for s ws = []"
    and "workspace_id_from_metadata (se_object e) = Some ws" and "ws \<in> set (bl_workspaces s)"
    and "find_billing s ws = Some r" and "so_customer (se_object e) = Some (RefId c)"
    and "q \<in> set (workspace_billing s)" and "wb_workspace_id q \<noteq> ws" and "wb_stripe_customer_id q = Some c"
    and "\<not> isl (period_end_from_subscription (se_object e))"
  shows "\<exists>out. process_stripe_event e s = (s, Inr out) \<and> wr_status out = ''duplicate''"
proof -
  obtain ty where ty: "se_type e = Some ty" "truthy (se_type e) = Some ty" "ty \<in> set subscription_events"
      "ty \<noteq> ''checkout.session.completed''"
    using assms(3) by (auto simp: subscription_event_def subscription_events_def truthy_def split: option.splits)
  obtain p where p: "period_end_from_subscription (se_object e) = Inr p"
    using assms(12) by (cases "period_end_from_subscription (se_object e)") auto
  define s1 where "s1 = s\<lparr>bl_next_uuid := Suc (bl_next_uuid s), billing_webhook_events := billing_webhook_events s @ [receipt s (Some ws) e]\<rparr>"
  have i: "se_id e = Some i" using assms(1) by (auto simp: truthy_def split: option.splits if_splits)
  have ins: "insert_receipt i ty (Some ws) e s = (s1, Inr ())"
    using assms(2,6) by (simp add: insert_receipt_def s1_def receipt_def event_ids_def ty i)
  have "applied_created (billing_webhook_events s1) ws i = []"
    using assms(4) by (auto simp: applied_created_def receipts_for_def s1_def receipt_def i map_filter_Nil filter_empty_conv map_filter_append
        List.map_filter_def)
  then have none: "bindE (case se_created e of None \<Rightarrow> ret None | Some _ \<Rightarrow> latest_applied_event_created ws i) k s1 = k None s1" for k :: "int option \<Rightarrow> unit bl"
    by (simp add: latest_applied_event_created_def split: option.split)
  have ensure: "ensure_workspace_billing ws s1 = (s1, Inr r)"
    using assms(7) by (simp add: ensure_workspace_billing_def find_billing_def s1_def)
  define f where "f = (\<lambda>r. r\<lparr>wb_current_period_end := p, wb_cancel_at_period_end := (so_cancel_at_period_end (se_object e) = Some True)\<rparr>) \<circ> mirror (se_object e)"
  define rows where "rows = upd_row wb_workspace_id ws f (workspace_billing s)"
  define u where "u = s1\<lparr>workspace_billing := rows\<rparr>"
  have clash: "\<not> unique_column wb_stripe_customer_id rows"
  proof
    assume u: "unique_column wb_stripe_customer_id rows"
    have "q \<in> set rows" using assms(9,10) by (force simp: rows_def set_upd_row)
    moreover have "f r \<in> set rows" "wb_workspace_id (f r) = ws"
      using assms(7) by (auto simp: rows_def set_upd_row find_billing_def f_def mirror_def dest!: find_row_SomeD)
    moreover have "wb_stripe_customer_id (f r) = Some c" by (simp add: f_def mirror_def assms(8))
    ultimately show False using unique_column_filter [OF u, of q c] unique_column_filter [OF u, of "f r" c] assms(10,11) by auto
  qed
  have "workspace_billing_update (upd_row wb_workspace_id ws (\<lambda>r. r\<lparr>wb_current_period_end := p,
      wb_cancel_at_period_end := so_cancel_at_period_end (se_object e) = Some True\<rparr>) \<circ> upd_row wb_workspace_id ws (mirror (se_object e))) s1 = u"
    by (cases s) (simp add: u_def rows_def s1_def f_def comp_def upd_row_upd_row [where key = wb_workspace_id, unfolded comp_def] mirror_def)
  then have "apply_subscription ws (se_object e) i (se_created e) s1 = (u, Inl (IntegrityError ''workspace_billing_stripe_customer_id_key''))"
    using clash by (simp add: apply_subscription_def bindE_Inr [where m = "ensure_workspace_billing ws", OF ensure] none
        outdated_def set_billing_def p flush_billing_def u_def split: option.split)
  then have "apply_event i ty (Some ws) e s1 = (u, Inl (IntegrityError ''workspace_billing_stripe_customer_id_key''))"
    using ty(3,4) by (simp add: apply_event_def subscription_workspace_def bindE_Inl [where m = "apply_subscription _ _ _ _"])
  then have "savepoint (bindE (insert_receipt i ty (Some ws) e) (\<lambda>_. bindE (apply_event i ty (Some ws) e) (\<lambda>w.
      bindE (stamp_receipt i w) (\<lambda>_. ret w)))) s = (s, Inl (IntegrityError ''workspace_billing_stripe_customer_id_key''))"
    by (simp add: savepoint_def bindE_Inr [where m = "insert_receipt _ _ _ _", OF ins] bindE_Inl [where m = "apply_event _ _ _ _"])
  moreover have "find_row bwe_stripe_event_id i (billing_webhook_events s) = None" using assms(2) by (simp add: find_row_None event_ids_def)
  ultimately show ?thesis
    unfolding process_stripe_event_def assms(1) ty(2) Let_def
    by (simp add: assms(5) try_except_def bindE_Inl [where m = "savepoint _"])
qed

section \<open>Examples\<close>

definition live_settings :: settings where
  "live_settings = default_settings\<lparr>billing_enabled := True, stripe_secret_key := Some ''sk'', stripe_webhook_secret := Some ''whsec'',
     stripe_price_id_pro := Some ''price'', stripe_checkout_success_url := Some ''https://ok'', stripe_checkout_cancel_url := Some ''https://no''\<rparr>"

definition sample_row :: "uuid \<Rightarrow> string option \<Rightarrow> string option \<Rightarrow> billing_row" where
  "sample_row ws cust sub = \<lparr>wb_workspace_id = ws, wb_stripe_customer_id = cust, wb_stripe_subscription_id = sub, wb_plan = ''none'',
     wb_status = ''inactive'', wb_current_period_end = None, wb_cancel_at_period_end = False\<rparr>"

definition billing_sample :: billing_db where
  "billing_sample = \<lparr>bl_settings = live_settings, bl_workspaces = [1, 2],
     workspace_billing = [sample_row 1 (Some ''cus_1'') (Some ''sub_1''), sample_row 2 None None],
     billing_webhook_events = [], bl_next_uuid = 100\<rparr>"

definition sample_event :: "string \<Rightarrow> string \<Rightarrow> int \<Rightarrow> string \<Rightarrow> string option \<Rightarrow> stripe_event" where
  "sample_event i ty created status ws = \<lparr>se_id = Some i, se_type = Some ty, se_created = Some created,
     se_object = \<lparr>so_id = Some ''sub_1'', so_status = Some status, so_customer = Some (RefId ''cus_1''), so_subscription = Some (RefId ''sub_1''),
       so_current_period_end = Some 1700000000, so_cancel_at_period_end = Some False, so_metadata_workspace_id = ws, so_client_reference_id = None\<rparr>\<rparr>"

lemma sample_linked: "linked billing_sample 1 ''sub_1'' ''cus_1''" "receipts_for billing_sample ws = []" "event_ids billing_sample = {}"
  by (simp_all add: linked_def billing_sample_def sample_row_def find_billing_def unique_column_def map_filter_Cons map_filter_Nil
      receipts_for_def event_ids_def)

lemmas sample_event_defs = sample_event_def subscription_event_def payment_failed_event_def subscription_events_def
  workspace_id_from_metadata_def truthy_def period_end_from_subscription_def entitling_def subscription_status_def ACTIVE_STATUSES_def


definition sample_stripe :: "stripe_event \<Rightarrow> stripe_api" where
  "sample_stripe e = \<lparr>customer_create = (\<lambda>_ _ _. Inr ''cus_1''), checkout_create = (\<lambda>_ _ _ _ _. Inr (Some ''https://pay'', ''cs_1'')),
     construct_event = (\<lambda>payload sig secret. if sig = ''signed'' \<and> secret = ''whsec'' then Inr e else Inl SignatureVerificationError)\<rparr>"

theorem only_stripe_grants_entitlement_witness:
  "\<exists>t r. (billing_step (sample_stripe (sample_event ''evt_2'' ''customer.subscription.updated'' 20 ''active'' None)))\<^sup>*\<^sup>* billing_sample t
     \<and> r \<in> set (billing_webhook_events t) \<and> bwe_workspace_id r = Some 1 \<and> entitling (bwe_payload r)"
proof -
  let ?e = "sample_event ''evt_2'' ''customer.subscription.updated'' 20 ''active'' None"
  let ?api = "sample_stripe ?e" and ?t = "state_after (stripe_webhook (sample_stripe ?e) ''body'' (Some ''signed'')) billing_sample"
  have con: "concerns 1 ''sub_1'' ''cus_1'' ?e" by (simp add: concerns_def sample_event_defs)
  obtain r where p: "process_stripe_event ?e billing_sample = (received billing_sample 1 ?e, Inr r)"
    using process_concerning [OF sample_linked(1) con] sample_linked(3) by (auto simp: event_ids_def)
  have "construct_stripe_event ?api ''body'' ''signed'' live_settings = Inr ?e"
    by (simp add: construct_stripe_event_def require_billing_config_def missing_settings_def live_settings_def truthy_def sample_stripe_def)
  then have t: "?t = received billing_sample 1 ?e"
    by (simp add: stripe_webhook_def billing_sample_def [THEN arg_cong, of bl_settings] live_settings_def [THEN arg_cong, of billing_enabled]
        truthy_def try_except_def savepoint_def p)
  have "tracks billing_sample 1 ''sub_1'' ''cus_1'' []" using sample_linked by (simp add: tracks_def)
  from tracks_received [OF this con] have "tracks ?t 1 ''sub_1'' ''cus_1'' [?e]" by (simp add: t sample_linked(3))
  then have "is_entitled (find_billing ?t 1) True" by (simp add: tracks_def newest_entitles_def sample_event_defs)
  then have ok: "result_of (require_entitlement_for_workspace 1) ?t = Inr ()" by (simp add: require_entitlement_for_workspace_def)
  have step: "(billing_step ?api)\<^sup>*\<^sup>* billing_sample ?t" by (rule r_into_rtranclp [of "billing_step ?api", OF billing_step.webhook])
  have "billing_enabled (bl_settings ?t)" unfolding t by (simp add: received_def billing_sample_def live_settings_def)
  moreover have "\<not> is_entitled (find_billing billing_sample w) True" for w
    by (simp add: is_entitled_def find_billing_def billing_sample_def sample_row_def PRO_PLAN_def)
  ultimately show ?thesis using only_stripe_grants_entitlement [OF step _ _ ok] step by blast
qed

theorem conflicting_event_is_reported_as_duplicate_witness:
  "\<exists>out. process_stripe_event (sample_event ''evt_3'' ''customer.subscription.created'' 30 ''active'' (Some (uuid_str 2))) billing_sample
     = (billing_sample, Inr out) \<and> wr_status out = ''duplicate''"
proof (rule conflicting_event_is_reported_as_duplicate [where ws = 2 and c = "''cus_1''" and q = "sample_row 1 (Some ''cus_1'') (Some ''sub_1'')"])
  show "workspace_id_from_metadata (se_object (sample_event ''evt_3'' ''customer.subscription.created'' 30 ''active'' (Some (uuid_str 2)))) = Some 2"
    using uuid_of_str_uuid_str [of 2] by (simp add: workspace_id_from_metadata_def sample_event_def truthy_def uuid_str_def Let_def)
qed (simp_all add: sample_event_defs sample_linked billing_sample_def sample_row_def find_billing_def event_ids_def receipts_for_def)

end
