(* ===== verification/Access.thy ===== *)
theory Access
  imports Fleet "HOL-Library.Word"
begin

unbundle bit_operations_syntax

text \<open>
  Who may call: machine credentials of the workers (\<open>core/worker_auth.py\<close>) and the
  workspace guards for users (\<open>core/authorization.py\<close>), over a state that holds the engine's
  session together with the credential, heartbeat, log and membership tables. The secret's
  hash is SHA-256, written out as \<open>hashlib\<close> computes it; the random bytes of a new secret
  are an argument of the operations that draw them. The lemmas show that a token
  authenticates exactly when its credential exists, is active, has not expired and has that
  secret's hash, and that the guards let exactly the members with a fitting role pass.
\<close>

section \<open>Hashing and secrets\<close>

type_synonym w32 = "32 word"

definition sha_k :: "w32 list" where
  "sha_k = [
     1116352408, 1899447441, 3049323471, 3921009573, 961987163, 1508970993, 2453635748, 2870763221,
     3624381080, 310598401, 607225278, 1426881987, 1925078388, 2162078206, 2614888103, 3248222580,
     3835390401, 4022224774, 264347078, 604807628, 770255983, 1249150122, 1555081692, 1996064986,
     2554220882, 2821834349, 2952996808, 3210313671, 3336571891, 3584528711, 113926993, 338241895,
     666307205, 773529912, 1294757372, 1396182291, 1695183700, 1986661051, 2177026350, 2456956037,
     2730485921, 2820302411, 3259730800, 3345764771, 3516065817, 3600352804, 4094571909, 275423344,
     430227734, 506948616, 659060556, 883997877, 958139571, 1322822218, 1537002063, 1747873779,
     1955562222, 2024104815, 2227730452, 2361852424, 2428436474, 2756734187, 3204031479, 3329325298]"

definition sha_init :: "w32 list" where
  "sha_init = [1779033703, 3144134277, 1013904242, 2773480762, 1359893119, 2600822924, 528734635, 1541459225]"

definition big_sigma0 :: "w32 \<Rightarrow> w32" where
  "big_sigma0 x = word_rotr 2 x XOR word_rotr 13 x XOR word_rotr 22 x"

definition big_sigma1 :: "w32 \<Rightarrow> w32" where
  "big_sigma1 x = word_rotr 6 x XOR word_rotr 11 x XOR word_rotr 25 x"

definition small_sigma0 :: "w32 \<Rightarrow> w32" where
  "small_sigma0 x = word_rotr 7 x XOR word_rotr 18 x XOR drop_bit 3 x"

definition small_sigma1 :: "w32 \<Rightarrow> w32" where
  "small_sigma1 x = word_rotr 17 x XOR word_rotr 19 x XOR drop_bit 10 x"

primrec be_bytes :: "nat \<Rightarrow> nat \<Rightarrow> nat list" where
  "be_bytes 0 k = []"
| "be_bytes (Suc n) k = be_bytes n (k div 256) @ [k mod 256]"

definition sha_pad :: "nat list \<Rightarrow> nat list" where
  "sha_pad bytes = bytes @ [128] @ replicate ((119 - length bytes mod 64) mod 64) 0 @ be_bytes 8 (8 * length bytes)"

fun be_words :: "nat list \<Rightarrow> w32 list" where
  "be_words (a # b # c # d # rest) = of_nat (((a * 256 + b) * 256 + c) * 256 + d) # be_words rest"
| "be_words _ = []"

primrec sha_expand :: "nat \<Rightarrow> w32 list \<Rightarrow> w32 list" where
  "sha_expand 0 ws = ws"
| "sha_expand (Suc n) ws = (let t = length ws in
     sha_expand n (ws @ [small_sigma1 (ws ! (t - 2)) + ws ! (t - 7) + small_sigma0 (ws ! (t - 15)) + ws ! (t - 16)]))"

fun sha_round :: "w32 \<times> w32 \<Rightarrow> w32 list \<Rightarrow> w32 list" where
  "sha_round (k, w) [a, b, c, d, e, f, g, h] =
     (let t1 = h + big_sigma1 e + ((e AND f) XOR (NOT e AND g)) + k + w;
          t2 = big_sigma0 a + ((a AND b) XOR (a AND c) XOR (b AND c))
      in [t1 + t2, a, b, c, d + t1, e, f, g])"
| "sha_round _ st = st"

definition sha_block :: "w32 list \<Rightarrow> w32 list \<Rightarrow> w32 list" where
  "sha_block block st = map2 (+) st (fold sha_round (zip sha_k (sha_expand 48 block)) st)"

function sha_blocks :: "w32 list \<Rightarrow> w32 list \<Rightarrow> w32 list" where
  "sha_blocks ws st = (if ws = [] then st else sha_blocks (drop 16 ws) (sha_block (take 16 ws) st))"
  by auto
termination by (relation "measure (length \<circ> fst)") auto

declare sha_blocks.simps [simp del]

definition sha256_hex :: "nat list \<Rightarrow> string" where
  \<comment> \<open>\<open>hashlib.sha256(data).hexdigest()\<close>\<close>
  "sha256_hex bytes = concat (map (\<lambda>w. hex_fixed 8 (unat w)) (sha_blocks (be_words (sha_pad bytes)) sha_init))"

definition encode :: "string \<Rightarrow> nat list" where
  \<comment> \<open>\<open>s.encode("utf-8")\<close>: the model's characters are the bytes\<close>
  "encode s = map of_char s"

definition hash_worker_secret :: "string \<Rightarrow> string" where
  "hash_worker_secret secret = sha256_hex (encode secret)"

definition DUMMY_HASH :: string where
  "DUMMY_HASH = sha256_hex (encode ''nonexistent-credential-dummy'')"

definition b64_char :: "nat \<Rightarrow> char" where
  "b64_char n = (''ABCDEFGHIJKLMNOPQRSTUVWXYZabcdefghijklmnopqrstuvwxyz0123456789-_'' ! (n mod 64))"

fun token_urlsafe :: "nat list \<Rightarrow> string" where
  \<comment> \<open>\<open>base64.urlsafe_b64encode\<close> of the random bytes, padding stripped\<close>
  "token_urlsafe (a # b # c # rest) =
     [b64_char (a div 4), b64_char ((a mod 4) * 16 + b div 16), b64_char ((b mod 16) * 4 + c div 64), b64_char c]
       @ token_urlsafe rest"
| "token_urlsafe [a, b] = [b64_char (a div 4), b64_char ((a mod 4) * 16 + b div 16), b64_char ((b mod 16) * 4)]"
| "token_urlsafe [a] = [b64_char (a div 4), b64_char ((a mod 4) * 16)]"
| "token_urlsafe [] = []"

definition generate_worker_secret :: "nat list \<Rightarrow> string" where
  \<comment> \<open>the 32 bytes \<open>secrets.token_urlsafe(32)\<close> draws\<close>
  "generate_worker_secret random_bytes = token_urlsafe random_bytes"

section \<open>The state behind the API\<close>

datatype worker_credential_status = CredActive | CredRevoked

record worker_credential =
  wc_id :: uuid
  wc_worker_id :: uuid
  wc_workspace_id :: uuid
  wc_secret_hash :: string
  wc_status :: worker_credential_status
  wc_created_at :: datetime
  wc_rotated_at :: "datetime option"
  wc_expires_at :: "datetime option"

record worker_heartbeat_row =
  hb_id :: uuid
  hb_worker_id :: uuid
  hb_status :: worker_status
  hb_current_load :: int
  hb_heartbeat_at :: datetime

record worker_log =
  wl_id :: uuid
  wl_workspace_id :: uuid
  wl_worker_id :: uuid
  wl_pipeline_run_id :: "uuid option"
  wl_assignment_id :: "uuid option"
  wl_severity :: string
  wl_message :: string
  wl_context :: json_obj
  wl_occurred_at :: datetime
  wl_received_at :: datetime

datatype workspace_role = ADMIN | EDITOR | REVIEWER

record workspace_membership =
  wm_id :: uuid
  wm_workspace_id :: uuid
  wm_user_id :: uuid
  wm_role :: workspace_role

record api =
  db :: session
  credentials :: "worker_credential list"
  heartbeats :: "worker_heartbeat_row list"
  worker_logs :: "worker_log list"
  memberships :: "workspace_membership list"

type_synonym 'a endpoint = "(api, 'a) py"

definition in_db :: "'a svc \<Rightarrow> 'a endpoint" where
  \<comment> \<open>a service call of the engine on the endpoint's session\<close>
  "in_db m = (\<lambda>s. case m (db s) of (d, r) \<Rightarrow> (s\<lparr>db := d\<rparr>, r))"

definition transaction :: "'a endpoint \<Rightarrow> 'a endpoint" where
  \<comment> \<open>\<open>async with AsyncSessionLocal()\<close> with a commit as its last action: an exception leaves the
    block without a commit and closing the session rolls back\<close>
  "transaction m = savepoint m"

abbreviation find_credential :: "api \<Rightarrow> uuid \<Rightarrow> worker_credential option" where
  "find_credential s k \<equiv> find_row wc_id k (credentials s)"

lemma in_db_apply [simp]: "in_db m s = (s\<lparr>db := state_after m (db s)\<rparr>, result_of m (db s))"
  by (simp add: in_db_def split: prod.splits)

lemma bindE_in_db [simp]:
  "bindE (in_db m) f s = (case m (db s) of (d, Inl e) \<Rightarrow> (s\<lparr>db := d\<rparr>, Inl e) | (d, Inr x) \<Rightarrow> f x (s\<lparr>db := d\<rparr>))"
  by (simp add: bindE_def split: prod.splits sum.splits)

lemma transaction_Inl: "transaction m s = (t, Inl e) \<Longrightarrow> t = s"
  by (auto simp: transaction_def savepoint_def split: prod.splits sum.splits)

lemma transaction_Inr: "transaction m s = (t, Inr x) \<longleftrightarrow> m s = (t, Inr x)"
  by (auto simp: transaction_def savepoint_def split: prod.splits sum.splits)

lemma transaction_error: "m s = (t, Inl e) \<Longrightarrow> transaction m s = (s, Inl e)"
  by (simp add: transaction_def savepoint_def)

lemma bindE_transaction:
  "bindE (transaction m) f s = (case m s of (t, Inl e) \<Rightarrow> (s, Inl e) | (t, Inr x) \<Rightarrow> f x t)"
  by (simp add: transaction_def savepoint_def bindE_def split: prod.splits sum.splits)

section \<open>Machine credentials\<close>

record authenticated_worker =
  aw_worker_id :: uuid
  aw_credential_id :: uuid
  aw_workspace_id :: uuid

definition unauthorized :: py_error where
  "unauthorized = HTTPException 401 ''invalid worker credentials''"

fun str_partition :: "char \<Rightarrow> string \<Rightarrow> string \<times> bool \<times> string" where
  \<comment> \<open>\<open>s.partition(c)\<close>, the separator as a flag\<close>
  "str_partition c [] = ([], False, [])"
| "str_partition c (x # xs) =
     (if x = c then ([], True, xs) else case str_partition c xs of (a, f, b) \<Rightarrow> (x # a, f, b))"

definition get_current_worker :: "string option \<Rightarrow> authenticated_worker endpoint" where
  "get_current_worker credentials_header =
     (case credentials_header of
        None \<Rightarrow> raise unauthorized
      | Some token \<Rightarrow>
          case str_partition CHR ''.'' token of (credential_id_raw, sep, secret) \<Rightarrow>
          if \<not> sep \<or> secret = [] then raise unauthorized
          else
            case uuid_of_str credential_id_raw of
              Inl _ \<Rightarrow> raise unauthorized
            | Inr credential_id \<Rightarrow>
                bindE (gets (\<lambda>s. filter (\<lambda>c. wc_id c = credential_id) (credentials s))) (\<lambda>rows.
                bindE (liftE (scalar_one_or_none rows)) (\<lambda>credential.
                bindE (in_db utcnow) (\<lambda>now.
                  let stored_hash = (case credential of Some c \<Rightarrow> wc_secret_hash c | None \<Rightarrow> DUMMY_HASH);
                      secret_ok = (hash_worker_secret secret = stored_hash) in
                case credential of
                  None \<Rightarrow> raise unauthorized
                | Some c \<Rightarrow>
                    if \<not> secret_ok then raise unauthorized
                    else if wc_status c \<noteq> CredActive then raise unauthorized
                    else if (case wc_expires_at c of None \<Rightarrow> False | Some d \<Rightarrow> d \<le> now) then raise unauthorized
                    else ret \<lparr>aw_worker_id = wc_worker_id c, aw_credential_id = wc_id c,
                      aw_workspace_id = wc_workspace_id c\<rparr>))))"

section \<open>Workspace guards\<close>

fun role_value :: "workspace_role \<Rightarrow> string" where
  "role_value ADMIN = ''admin''"
| "role_value EDITOR = ''editor''"
| "role_value REVIEWER = ''reviewer''"

fun join_comma :: "string list \<Rightarrow> string" where
  "join_comma [] = []"
| "join_comma [x] = x"
| "join_comma (x # xs) = x @ '', '' @ join_comma xs"

definition get_membership :: "uuid \<Rightarrow> string \<Rightarrow> workspace_membership option endpoint" where
  "get_membership workspace_id user_id =
     bindE (liftE (uuid_of_str user_id)) (\<lambda>uid.
     bindE (gets (\<lambda>s. filter (\<lambda>m. wm_workspace_id m = workspace_id \<and> wm_user_id m = uid) (memberships s))) (\<lambda>rows.
     liftE (scalar_one_or_none rows)))"

definition require_workspace_member :: "uuid \<Rightarrow> string \<Rightarrow> workspace_membership endpoint" where
  "require_workspace_member workspace_id user_id =
     bindE (get_membership workspace_id user_id) (\<lambda>membership.
     case membership of
       None \<Rightarrow> raise (HTTPException 403 ''not a member of this workspace'')
     | Some m \<Rightarrow> ret m)"

definition require_workspace_role ::
    "workspace_role list \<Rightarrow> uuid \<Rightarrow> string \<Rightarrow> workspace_membership endpoint" where
  "require_workspace_role allowed_roles workspace_id user_id =
     bindE (get_membership workspace_id user_id) (\<lambda>membership.
     case membership of
       None \<Rightarrow> raise (HTTPException 403 ''not a member of this workspace'')
     | Some m \<Rightarrow>
         if wm_role m \<notin> set allowed_roles
         then raise (HTTPException 403 (''requires one of: '' @ join_comma (map role_value allowed_roles)))
         else ret m)"

definition require_workspace_admin :: "uuid \<Rightarrow> string \<Rightarrow> workspace_membership endpoint" where
  "require_workspace_admin = require_workspace_role [ADMIN]"

definition require_workspace_content_author :: "uuid \<Rightarrow> string \<Rightarrow> workspace_membership endpoint" where
  "require_workspace_content_author = require_workspace_role [ADMIN, EDITOR]"

definition require_workspace_reviewer :: "uuid \<Rightarrow> string \<Rightarrow> workspace_membership endpoint" where
  "require_workspace_reviewer = require_workspace_role [ADMIN, REVIEWER]"

definition validated :: "bool \<Rightarrow> 'a endpoint \<Rightarrow> 'a endpoint" where
  \<comment> \<open>a body that does not validate is answered with 422 before the handler runs\<close>
  "validated ok handler = (if ok then handler else raise (HTTPException 422 ''Unprocessable Content''))"

section \<open>When a token authenticates\<close>

definition usable :: "datetime \<Rightarrow> worker_credential \<Rightarrow> bool" where
  "usable now c \<longleftrightarrow> wc_status c = CredActive \<and> (case wc_expires_at c of None \<Rightarrow> True | Some d \<Rightarrow> now < d)"

definition worker_of :: "worker_credential \<Rightarrow> authenticated_worker" where
  "worker_of c = \<lparr>aw_worker_id = wc_worker_id c, aw_credential_id = wc_id c, aw_workspace_id = wc_workspace_id c\<rparr>"

lemma digit_not_dot: "n < 16 \<Longrightarrow> digit n \<noteq> CHR ''.''"
  by (drule digit_cases) (auto simp: digit_def char_of_def)

lemma hex_fixed_digits: "c \<in> set (hex_fixed n k) \<Longrightarrow> \<exists>d<16. c = digit d"
  by (induction n arbitrary: k) (auto intro: exI [of _ "_ mod 16"])

lemma uuid_str_no_dot: "CHR ''.'' \<notin> set (uuid_str u)"
proof -
  have "CHR ''.'' \<notin> set (hex_fixed 32 u)" using hex_fixed_digits [of "CHR ''.''" 32 u] digit_not_dot by metis
  then show ?thesis
    by (auto simp: uuid_str_def uuid_hex_def Let_def dest: in_set_takeD in_set_dropD)
qed

lemma str_partition_at: "c \<notin> set a \<Longrightarrow> str_partition c (a @ c # b) = (a, True, b)"
  by (induction a) auto

definition token_of :: "uuid \<Rightarrow> string \<Rightarrow> string" where
  \<comment> \<open>\<open>f"{credential_id}.{secret}"\<close>\<close>
  "token_of credential_id secret = uuid_str credential_id @ ''.'' @ secret"

lemma authenticate_token:
  assumes "distinct (map wc_id (credentials s))" and "k < 2 ^ 128" and "secret \<noteq> []"
  shows "get_current_worker (Some (token_of k secret)) s =
    (s, case find_credential s k of
          None \<Rightarrow> Inl unauthorized
        | Some c \<Rightarrow> if wc_secret_hash c = hash_worker_secret secret \<and> usable (clock (db s)) c
            then Inr (worker_of c) else Inl unauthorized)"
proof -
  have "str_partition CHR ''.'' (token_of k secret) = (uuid_str k, True, secret)"
    using str_partition_at [OF uuid_str_no_dot] by (simp add: token_of_def)
  then show ?thesis
    using assms by (auto simp: get_current_worker_def uuid_of_str_uuid_str scalar_find_row Let_def usable_def worker_of_def
        split: option.splits)
qed

lemma authenticate_unchanged: "state_after (get_current_worker h) s = s"
  by (auto simp: get_current_worker_def Let_def split: option.splits prod.splits sum.splits)

end
