(* ===== verification/WorkerApi.thy ===== *)
theory WorkerApi
  imports Access
begin

text \<open>
  The worker endpoints (\<open>api/routes/workers.py\<close>). A route is its dependency (the machine
  credential, or the workspace guard of a user) followed by its handler; the two run in
  separate transactions, so the handlers are definitions of their own and take the
  authenticated worker as an argument. Each handler is one transaction: a raised
  \<open>HTTPException\<close> leaves the state as it was. Audit log lines are not modelled.
\<close>

section \<open>Requests and responses\<close>

record provider_capability =
  pc_name :: string
  pc_models :: "string list"
  pc_max_concurrency :: int

record capability_spec =
  cs_protocol_version :: int
  cs_providers :: "provider_capability list"
  cs_features :: "string list"

definition model_dump :: "capability_spec \<Rightarrow> json_obj" where
  "model_dump c = [(''protocol_version'', JInt (cs_protocol_version c)),
     (''providers'', JList (map (\<lambda>p. JObj [(''name'', JStr (pc_name p)),
        (''models'', JList (map JStr (pc_models p))), (''max_concurrency'', JInt (pc_max_concurrency p))]) (cs_providers c))),
     (''features'', JList (map JStr (cs_features c)))]"

record worker_register_in =
  ri_supported_stages :: "string list"
  ri_capabilities :: capability_spec
  ri_worker_version :: "string option"
  ri_max_concurrency :: int

record worker_log_in =
  li_severity :: string
  li_message :: string
  li_pipeline_run_id :: "uuid option"
  li_assignment_id :: "uuid option"
  li_occurred_at :: "datetime option"
  li_context :: json_obj

record worker_out =
  wo_row :: worker_registration
  wo_liveness :: string

record claimed_assignment_out =
  ca_id :: uuid
  ca_stage :: string
  ca_pipeline_run_id :: uuid
  ca_attempt_number :: int
  ca_lease_expires_at :: "datetime option"
  ca_correlation_id :: "uuid option"
  ca_trace_id :: "string option"
  ca_workspace_id :: "uuid option"
  ca_content_item_id :: "uuid option"
  ca_topic :: "string option"
  ca_target_length_seconds :: "int option"
  ca_provider :: "string option"

record claim_out =
  co_assignment :: "claimed_assignment_out option"
  co_outcome :: claim_outcome
  co_reason :: string

record lease_out =
  lo_assignment_id :: uuid
  lo_status :: stage_assignment_status
  lo_lease_expires_at :: "datetime option"
  lo_lease_extension_count :: int
  lo_attempt_number :: int
  lo_provider_effect_created :: "bool option"

record submit_in =
  si_success :: bool
  si_result :: "json_obj option"
  si_error_message :: string
  si_provider_effect_key :: "string option"

record submit_out =
  so_assignment_id :: uuid
  so_status :: stage_assignment_status
  so_provider_effect_key :: string
  so_provider_effect_created :: bool

record provision_in =
  pi_name :: string
  pi_supported_stages :: "string list"
  pi_max_concurrency :: int

record issued_credential =
  ic_worker_id :: uuid
  ic_credential_id :: uuid
  ic_worker_secret :: string
  ic_previous_expires_at :: "datetime option"

definition to_worker_out :: "settings \<Rightarrow> datetime \<Rightarrow> worker_registration \<Rightarrow> worker_out" where
  \<comment> \<open>\<open>_worker_out\<close>: the columns of the row and the liveness computed from them\<close>
  "to_worker_out st now w = \<lparr>wo_row = w, wo_liveness = compute_liveness (wk_last_heartbeat_at w) now
     (worker_suspect_after_seconds st) (worker_offline_after_seconds st)\<rparr>"

section \<open>Machine endpoints\<close>

definition http_404_worker :: py_error where "http_404_worker = HTTPException 404 ''worker not found''"
definition http_404_assignment :: py_error where "http_404_assignment = HTTPException 404 ''assignment not found''"
definition http_410 :: py_error where "http_410 = HTTPException 410 ''worker is deregistered''"

definition get_registration :: "uuid \<Rightarrow> worker_registration endpoint" where
  \<comment> \<open>\<open>session.get(WorkerRegistration, ..., with_for_update=True)\<close> and the 404\<close>
  "get_registration k =
     bindE (gets (\<lambda>s. find_worker (db s) k)) (\<lambda>registration.
     case registration of None \<Rightarrow> raise http_404_worker | Some w \<Rightarrow> ret w)"

definition log_reference :: "worker_log_in \<Rightarrow> authenticated_worker \<Rightarrow> uuid option endpoint" where
  \<comment> \<open>the checks on the assignment a log line refers to; the result is the run it belongs to\<close>
  "log_reference payload worker =
     (case li_assignment_id payload of
        None \<Rightarrow> ret (li_pipeline_run_id payload)
      | Some k \<Rightarrow>
          bindE (gets (\<lambda>s. find_asg (db s) k)) (\<lambda>assignment.
          case assignment of
            None \<Rightarrow> raise (HTTPException 422 ''assignment does not belong to authenticated worker'')
          | Some a \<Rightarrow>
              if asg_workspace_id a \<noteq> aw_workspace_id worker \<or> asg_worker_id a \<noteq> Some (aw_worker_id worker)
              then raise (HTTPException 422 ''assignment does not belong to authenticated worker'')
              else if li_pipeline_run_id payload \<noteq> None \<and> li_pipeline_run_id payload \<noteq> Some (asg_pipeline_run_id a)
              then raise (HTTPException 422 ''pipeline_run_id does not match assignment'')
              else ret (Some (asg_pipeline_run_id a))))"

definition ingest_worker_log :: "worker_log_in \<Rightarrow> authenticated_worker \<Rightarrow> uuid endpoint" where
  "ingest_worker_log payload worker =
     bindE (in_db utcnow) (\<lambda>now.
       let occurred_at = opt_or (li_occurred_at payload) now in
     if now + seconds 300 < occurred_at
     then raise (HTTPException 422 ''occurred_at cannot be more than five minutes in the future'')
     else transaction (
       bindE (log_reference payload worker) (\<lambda>pipeline_run_id.
       bindE (case pipeline_run_id of
           None \<Rightarrow> ret ()
         | Some rid \<Rightarrow>
             bindE (gets (\<lambda>s. find_run (db s) rid)) (\<lambda>run.
             if (case run of None \<Rightarrow> True | Some r \<Rightarrow> run_workspace_id r \<noteq> aw_workspace_id worker)
             then raise (HTTPException 422 ''pipeline does not belong to authenticated worker workspace'')
             else ret ())) (\<lambda>_.
       bindE (in_db uuid4) (\<lambda>u.
       bindE (modify (worker_logs_update (\<lambda>ls. ls @ [\<lparr>wl_id = u, wl_workspace_id = aw_workspace_id worker,
          wl_worker_id = aw_worker_id worker, wl_pipeline_run_id = pipeline_run_id,
          wl_assignment_id = li_assignment_id payload, wl_severity = li_severity payload,
          wl_message = li_message payload, wl_context = li_context payload, wl_occurred_at = occurred_at,
          wl_received_at = now\<rparr>]))) (\<lambda>_.
       ret u))))))"

definition announce :: "worker_register_in \<Rightarrow> datetime \<Rightarrow> worker_registration \<Rightarrow> worker_registration" where
  "announce payload now w = w\<lparr>wk_supported_stages := ri_supported_stages payload,
     wk_capabilities := Some (model_dump (ri_capabilities payload)), wk_worker_version := ri_worker_version payload,
     wk_max_concurrency := ri_max_concurrency payload, wk_current_load := 0, wk_status := WorkerOnline,
     wk_last_heartbeat_at := Some now, wk_registered_at := now, wk_deregistered_at := None\<rparr>"

definition register_worker :: "worker_register_in \<Rightarrow> authenticated_worker \<Rightarrow> int endpoint" where
  \<comment> \<open>the result is the accepted protocol version\<close>
  "register_worker payload worker =
     (let v = cs_protocol_version (ri_capabilities payload) in
     bindE (gets (\<lambda>s. get_settings (db s))) (\<lambda>st.
     if v \<notin> set (worker_capability_protocol_versions st)
     then raise (HTTPException 422 (''unsupported capability protocol_version '' @ int_str v
       @ ''; server accepts ['' @ join_comma (map int_str (worker_capability_protocol_versions st)) @ '']''))
     else
       transaction (
         bindE (get_registration (aw_worker_id worker)) (\<lambda>_.
         bindE (in_db utcnow) (\<lambda>now.
         bindE (in_db (ended (reap_worker_assignments (aw_worker_id worker) WorkerRestart None (Some now) None))) (\<lambda>_.
         bindE (in_db (set_worker (aw_worker_id worker) (announce payload now))) (\<lambda>_.
         ret v))))))) "

definition worker_heartbeat :: "worker_status \<Rightarrow> int \<Rightarrow> authenticated_worker \<Rightarrow> worker_out endpoint" where
  "worker_heartbeat status current_load worker =
     (if status \<notin> {WorkerOnline, WorkerBusy, WorkerDraining}
      then raise (HTTPException 422 (''a heartbeat may report online, busy, or draining ''
        @ [CHR 0xE2, CHR 0x80, CHR 0x94] @ '' not offline''))
      else
        transaction (
          bindE (get_registration (aw_worker_id worker)) (\<lambda>registration.
          if wk_deregistered_at registration \<noteq> None then raise http_410
          else if wk_max_concurrency registration < current_load
          then raise (HTTPException 422 ''current_load exceeds max_concurrency'')
          else
            bindE (in_db utcnow) (\<lambda>now.
            bindE (in_db (set_worker (aw_worker_id worker) (\<lambda>w. w\<lparr>wk_status := status,
               wk_current_load := current_load, wk_last_heartbeat_at := Some now\<rparr>))) (\<lambda>_.
            bindE (in_db uuid4) (\<lambda>u.
            bindE (modify (heartbeats_update (\<lambda>hs. hs @ [\<lparr>hb_id = u, hb_worker_id = aw_worker_id worker,
               hb_status = status, hb_current_load = current_load, hb_heartbeat_at = now\<rparr>]))) (\<lambda>_.
            bindE (gets (\<lambda>s. get_settings (db s))) (\<lambda>st.
            bindE (in_db (the_worker (aw_worker_id worker))) (\<lambda>w.
            ret (to_worker_out st now w)))))))))) "

definition deregister_worker :: "authenticated_worker \<Rightarrow> worker_out endpoint" where
  "deregister_worker worker =
     transaction (
       bindE (get_registration (aw_worker_id worker)) (\<lambda>registration.
       bindE (in_db utcnow) (\<lambda>now.
       bindE (whenE (wk_deregistered_at registration = None)
         (bindE (in_db (ended (reap_worker_assignments (aw_worker_id worker) WorkerDeregistered None None None))) (\<lambda>_.
          in_db (set_worker (aw_worker_id worker) (\<lambda>w. w\<lparr>wk_status := WorkerOffline, wk_current_load := 0,
            wk_deregistered_at := Some now\<rparr>))))) (\<lambda>_.
       bindE (gets (\<lambda>s. get_settings (db s))) (\<lambda>st.
       bindE (in_db (the_worker (aw_worker_id worker))) (\<lambda>w.
       ret (to_worker_out st now w)))))))"

definition assert_credential_still_active :: "authenticated_worker \<Rightarrow> unit endpoint" where
  "assert_credential_still_active worker =
     bindE (gets (\<lambda>s. find_credential s (aw_credential_id worker))) (\<lambda>credential.
     bindE (in_db utcnow) (\<lambda>now.
     if (case credential of
           None \<Rightarrow> True
         | Some c \<Rightarrow> wc_status c \<noteq> CredActive \<or> wc_worker_id c \<noteq> aw_worker_id worker
             \<or> (case wc_expires_at c of None \<Rightarrow> False | Some d \<Rightarrow> d \<le> now))
     then raise unauthorized else ret ()))"

definition to_claimed_out :: "stage_assignment \<Rightarrow> content_item option \<Rightarrow> claimed_assignment_out" where
  "to_claimed_out a item = \<lparr>ca_id = asg_id a, ca_stage = stage_value (asg_stage a),
     ca_pipeline_run_id = asg_pipeline_run_id a, ca_attempt_number = asg_attempt_number a,
     ca_lease_expires_at = asg_lease_expires_at a, ca_correlation_id = asg_correlation_id a,
     ca_trace_id = asg_trace_id a, ca_workspace_id = Some (asg_workspace_id a),
     ca_content_item_id = map_option ci_id item, ca_topic = map_option ci_topic item,
     ca_target_length_seconds = Option.bind item ci_target_length_seconds, ca_provider = asg_provider a\<rparr>"

definition claim_assignment_endpoint :: "uuid option \<Rightarrow> authenticated_worker \<Rightarrow> claim_out endpoint" where
  "claim_assignment_endpoint claim_token worker =
     transaction (
       bindE (assert_credential_still_active worker) (\<lambda>_.
       bindE (in_db (ended (claim_assignment (aw_worker_id worker) None claim_token (Some (aw_workspace_id worker))))) (\<lambda>result.
       bindE (case cr_assignment result of
           None \<Rightarrow> ret None
         | Some k \<Rightarrow>
             bindE (in_db (the_asg k)) (\<lambda>a.
             bindE (gets (\<lambda>s. find_run (db s) (asg_pipeline_run_id a))) (\<lambda>run.
             bindE (gets (\<lambda>s. Option.bind run (\<lambda>r. find_row ci_id (run_content_item_id r) (items (db s))))) (\<lambda>item.
             ret (Some (to_claimed_out a item)))))) (\<lambda>assignment_out.
       ret \<lparr>co_assignment = assignment_out, co_outcome = cr_outcome result, co_reason = cr_reason result\<rparr>))))"

fun lease_http_error :: "py_error \<Rightarrow> py_error" where
  "lease_http_error LeaseNotOwned = HTTPException 403 ''assignment not owned by worker''"
| "lease_http_error (LeaseConflict code message) =
     (if code = ''lease_expired'' then HTTPException 409 code
      else if code = ''max_lease_exceeded'' then HTTPException 409 code
      else HTTPException 409 message)"
| "lease_http_error e = e"

definition lease_call :: "'a svc \<Rightarrow> 'a endpoint" where
  \<comment> \<open>\<open>try: ... except LeaseError as exc: raise _lease_http_error(exc)\<close>\<close>
  "lease_call m = try_except (in_db m) (\<lambda>exc. raise (lease_http_error exc))"

definition load_owned_assignment ::
    "uuid \<Rightarrow> authenticated_worker \<Rightarrow> worker_registration \<Rightarrow> stage_assignment endpoint" where
  "load_owned_assignment assignment_id worker registration =
     bindE (gets (\<lambda>s. find_asg (db s) assignment_id)) (\<lambda>assignment.
     case assignment of
       None \<Rightarrow> raise http_404_assignment
     | Some a \<Rightarrow>
         if wk_workspace_id registration = None
         then (if asg_worker_id a \<noteq> Some (aw_worker_id worker) then raise http_404_assignment else ret a)
         else if asg_workspace_id a \<noteq> aw_workspace_id worker then raise http_404_assignment
         else ret a)"

definition held_assignment :: "uuid \<Rightarrow> authenticated_worker \<Rightarrow> stage_assignment endpoint" where
  \<comment> \<open>how \<open>ack\<close>, \<open>renew\<close> and \<open>submit\<close> begin\<close>
  "held_assignment assignment_id worker =
     bindE (assert_credential_still_active worker) (\<lambda>_.
     bindE (get_registration (aw_worker_id worker)) (\<lambda>registration.
     if wk_deregistered_at registration \<noteq> None then raise http_410
     else load_owned_assignment assignment_id worker registration))"

definition to_lease_out :: "stage_assignment \<Rightarrow> bool option \<Rightarrow> lease_out" where
  "to_lease_out a created = \<lparr>lo_assignment_id = asg_id a, lo_status = asg_status a,
     lo_lease_expires_at = asg_lease_expires_at a, lo_lease_extension_count = asg_lease_extension_count a,
     lo_attempt_number = asg_attempt_number a, lo_provider_effect_created = created\<rparr>"

definition ack_assignment :: "uuid \<Rightarrow> authenticated_worker \<Rightarrow> lease_out endpoint" where
  "ack_assignment assignment_id worker =
     transaction (
       bindE (held_assignment assignment_id worker) (\<lambda>assignment.
       bindE (lease_call (acknowledge assignment_id None (Some (aw_worker_id worker)) None)) (\<lambda>_.
       bindE (in_db (ensure_provider_effect_key (asg_workspace_id assignment) (asg_id assignment)
          (asg_attempt_number assignment) stage_execute None)) (\<lambda>effect.
       bindE (in_db (the_asg assignment_id)) (\<lambda>a.
       ret (to_lease_out a (Some (ekr_created effect))))))))"

definition renew_assignment_lease :: "uuid \<Rightarrow> authenticated_worker \<Rightarrow> lease_out endpoint" where
  "renew_assignment_lease assignment_id worker =
     transaction (
       bindE (held_assignment assignment_id worker) (\<lambda>_.
       bindE (lease_call (renew_lease assignment_id None (Some (aw_worker_id worker)) None)) (\<lambda>_.
       bindE (in_db (the_asg assignment_id)) (\<lambda>a.
       ret (to_lease_out a None)))))"

definition submit_assignment_result :: "uuid \<Rightarrow> submit_in \<Rightarrow> authenticated_worker \<Rightarrow> submit_out endpoint" where
  "submit_assignment_result assignment_id payload worker =
     transaction (
       bindE (held_assignment assignment_id worker) (\<lambda>assignment.
       bindE (in_db (ensure_provider_effect_key (asg_workspace_id assignment) (asg_id assignment)
          (asg_attempt_number assignment) stage_execute (si_provider_effect_key payload))) (\<lambda>effect.
       if \<not> ekr_created effect \<and> asg_status assignment \<in> {AsgCompleted, AsgFailed}
       then ret \<lparr>so_assignment_id = asg_id assignment, so_status = asg_status assignment,
         so_provider_effect_key = ekr_effect_key effect, so_provider_effect_created = False\<rparr>
       else
         bindE (lease_call (submit_result assignment_id (si_success payload) (si_result payload)
            (si_error_message payload) (Some (aw_worker_id worker)) None)) (\<lambda>_.
         bindE (in_db (the_asg assignment_id)) (\<lambda>a.
         ret \<lparr>so_assignment_id = asg_id a, so_status = asg_status a,
           so_provider_effect_key = ekr_effect_key effect, so_provider_effect_created = ekr_created effect\<rparr>)))))"

section \<open>Admin endpoints\<close>

definition new_credential :: "uuid \<Rightarrow> uuid \<Rightarrow> string \<Rightarrow> uuid endpoint" where
  "new_credential worker_id workspace_id secret =
     bindE (in_db utcnow) (\<lambda>now.
     bindE (in_db uuid4) (\<lambda>u.
     bindE (modify (credentials_update (\<lambda>cs. cs @ [\<lparr>wc_id = u, wc_worker_id = worker_id,
        wc_workspace_id = workspace_id, wc_secret_hash = hash_worker_secret secret, wc_status = CredActive,
        wc_created_at = now, wc_rotated_at = None, wc_expires_at = None\<rparr>]))) (\<lambda>_.
     ret u)))"

definition provision_worker :: "uuid \<Rightarrow> provision_in \<Rightarrow> nat list \<Rightarrow> issued_credential endpoint" where
  "provision_worker workspace_id payload random_bytes =
     (let secret = generate_worker_secret random_bytes in
     transaction (
       bindE (in_db utcnow) (\<lambda>now.
       bindE (in_db uuid4) (\<lambda>w.
       bindE (in_db uuid4) (\<lambda>instance.
       bindE (in_db (modify (workers_update (\<lambda>ws. ws @ [\<lparr>wk_id = w, wk_workspace_id = Some workspace_id,
          wk_name = pi_name payload, wk_supported_stages = pi_supported_stages payload, wk_capabilities = None,
          wk_status = WorkerOffline, wk_max_concurrency = pi_max_concurrency payload, wk_current_load = 0,
          wk_health_score = 100, wk_last_heartbeat_at = None, wk_registered_at = now,
          wk_instance_key = uuid_str instance, wk_worker_version = None, wk_drain = False,
          wk_deregistered_at = None\<rparr>])))) (\<lambda>_.
       bindE (new_credential w workspace_id secret) (\<lambda>u.
       ret \<lparr>ic_worker_id = w, ic_credential_id = u, ic_worker_secret = token_of u secret,
         ic_previous_expires_at = None\<rparr>)))))))"

definition get_workspace_worker :: "uuid \<Rightarrow> uuid \<Rightarrow> worker_registration endpoint" where
  "get_workspace_worker workspace_id worker_id =
     bindE (gets (\<lambda>s. filter (\<lambda>w. wk_id w = worker_id \<and> wk_workspace_id w = Some workspace_id) (workers (db s)))) (\<lambda>rows.
     bindE (liftE (scalar_one_or_none rows)) (\<lambda>registration.
     case registration of None \<Rightarrow> raise http_404_worker | Some w \<Rightarrow> ret w))"

definition list_workers :: "uuid \<Rightarrow> worker_out list endpoint" where
  "list_workers workspace_id =
     gets (\<lambda>s. map (to_worker_out (get_settings (db s)) (clock (db s)))
       (sort_key (\<lambda>w. - wk_registered_at w) (filter (\<lambda>w. wk_workspace_id w = Some workspace_id) (workers (db s)))))"

definition get_worker :: "uuid \<Rightarrow> uuid \<Rightarrow> worker_out endpoint" where
  "get_worker workspace_id worker_id =
     bindE (get_workspace_worker workspace_id worker_id) (\<lambda>w.
     gets (\<lambda>s. to_worker_out (get_settings (db s)) (clock (db s)) w))"

definition list_worker_heartbeats :: "uuid \<Rightarrow> uuid \<Rightarrow> int \<Rightarrow> worker_heartbeat_row list endpoint" where
  "list_worker_heartbeats workspace_id worker_id limit =
     bindE (get_workspace_worker workspace_id worker_id) (\<lambda>_.
     gets (\<lambda>s. take (nat (min (max limit 1) 1000))
       (sort_key (\<lambda>h. - hb_heartbeat_at h) (filter (\<lambda>h. hb_worker_id h = worker_id) (heartbeats s)))))"

definition set_worker_drain :: "uuid \<Rightarrow> uuid \<Rightarrow> bool \<Rightarrow> worker_out endpoint" where
  "set_worker_drain workspace_id worker_id drain =
     bindE (get_workspace_worker workspace_id worker_id) (\<lambda>_.
     transaction (
       bindE (get_registration worker_id) (\<lambda>_.
       bindE (in_db (set_worker worker_id (\<lambda>w. w\<lparr>wk_drain := drain\<rparr>))) (\<lambda>_.
       bindE (in_db (the_worker worker_id)) (\<lambda>w.
       gets (\<lambda>s. to_worker_out (get_settings (db s)) (clock (db s)) w))))))"

definition begin_grace :: "datetime \<Rightarrow> datetime \<Rightarrow> worker_credential \<Rightarrow> worker_credential" where
  "begin_grace now grace_until old = old\<lparr>wc_rotated_at := Some now, wc_expires_at :=
     (if (case wc_expires_at old of None \<Rightarrow> True | Some d \<Rightarrow> grace_until < d) then Some grace_until
      else wc_expires_at old)\<rparr>"

definition active_of :: "uuid \<Rightarrow> worker_credential \<Rightarrow> bool" where
  "active_of worker_id c \<longleftrightarrow> wc_worker_id c = worker_id \<and> wc_status c = CredActive"

definition rotate_worker_credential :: "uuid \<Rightarrow> uuid \<Rightarrow> nat list \<Rightarrow> issued_credential endpoint" where
  "rotate_worker_credential workspace_id worker_id random_bytes =
     bindE (get_workspace_worker workspace_id worker_id) (\<lambda>_.
       let secret = generate_worker_secret random_bytes in
     bindE (in_db utcnow) (\<lambda>now.
     bindE (gets (\<lambda>s. get_settings (db s))) (\<lambda>st.
       let grace_until = now + seconds (worker_credential_rotation_grace_seconds st) in
     transaction (
       bindE (modify (credentials_update (map (\<lambda>c. if active_of worker_id c then begin_grace now grace_until c else c)))) (\<lambda>_.
       bindE (new_credential worker_id workspace_id secret) (\<lambda>u.
       ret \<lparr>ic_worker_id = worker_id, ic_credential_id = u, ic_worker_secret = token_of u secret,
         ic_previous_expires_at = Some grace_until\<rparr>))))))"

definition take_down :: "uuid \<Rightarrow> unit endpoint" where
  \<comment> \<open>the kill switch: requeue what the worker holds and force it offline\<close>
  "take_down worker_id =
     bindE (in_db (ended (reap_worker_assignments worker_id WorkerRevoked None None None))) (\<lambda>_.
     bindE (gets (\<lambda>s. find_worker (db s) worker_id)) (\<lambda>registration.
     case registration of
       None \<Rightarrow> ret ()
     | Some w \<Rightarrow> whenE (wk_deregistered_at w = None)
         (in_db (set_worker worker_id (\<lambda>w. w\<lparr>wk_status := WorkerOffline, wk_current_load := 0\<rparr>)))))"

definition revoke_credential :: "uuid \<Rightarrow> worker_credential \<Rightarrow> worker_credential" where
  "revoke_credential worker_id c = (if active_of worker_id c then c\<lparr>wc_status := CredRevoked\<rparr> else c)"

definition revoke_worker_credentials :: "uuid \<Rightarrow> uuid \<Rightarrow> nat endpoint" where
  "revoke_worker_credentials workspace_id worker_id =
     bindE (get_workspace_worker workspace_id worker_id) (\<lambda>_.
     transaction (
       bindE (gets (\<lambda>s. length (filter (active_of worker_id) (credentials s)))) (\<lambda>revoked.
       bindE (modify (credentials_update (map (revoke_credential worker_id)))) (\<lambda>_.
       bindE (take_down worker_id) (\<lambda>_.
       ret revoked)))))"

section \<open>Routes\<close>

definition machine_route :: "string option \<Rightarrow> (authenticated_worker \<Rightarrow> 'a endpoint) \<Rightarrow> 'a endpoint" where
  \<comment> \<open>\<open>worker: AuthenticatedWorker = Depends(get_current_worker)\<close>\<close>
  "machine_route header handler = bindE (get_current_worker header) handler"

definition admin_route :: "uuid \<Rightarrow> string \<Rightarrow> 'a endpoint \<Rightarrow> 'a endpoint" where
  \<comment> \<open>\<open>membership: WorkspaceMembership = Depends(require_workspace_admin)\<close>\<close>
  "admin_route workspace_id user_id handler = bindE (require_workspace_admin workspace_id user_id) (\<lambda>_. handler)"

definition member_route :: "uuid \<Rightarrow> string \<Rightarrow> 'a endpoint \<Rightarrow> 'a endpoint" where
  \<comment> \<open>\<open>membership: WorkspaceMembership = Depends(require_workspace_member())\<close>\<close>
  "member_route workspace_id user_id handler = bindE (require_workspace_member workspace_id user_id) (\<lambda>_. handler)"

section \<open>What the endpoints may do\<close>

text \<open>
  A relation \<open>Q\<close> on the whole state that ignores heartbeats and logs and that holds whenever
  the session moves within \<open>D\<close>; the second locale ignores the credentials as well.
\<close>

locale api_core = Q: effect_preorder Q + D: fleet_frame D
  for Q :: "api \<Rightarrow> api \<Rightarrow> bool" and D :: "session \<Rightarrow> session \<Rightarrow> bool" +
  assumes eff_db: "D (db s) d \<Longrightarrow> Q s (s\<lparr>db := d\<rparr>)"
    and eff_heartbeats: "Q s (heartbeats_update f s)"
    and eff_worker_logs: "Q s (worker_logs_update g s)"
begin

lemma eff_in_db: "effects D m \<Longrightarrow> effects Q (in_db m)"
  by (simp add: effects_def eff_db)

lemma eff_modify_heartbeats: "effects Q (modify (heartbeats_update f))"
  by (simp add: effects_def eff_heartbeats)

lemma eff_modify_logs: "effects Q (modify (worker_logs_update f))"
  by (simp add: effects_def eff_worker_logs)

lemma eff_transaction: "effects Q m \<Longrightarrow> effects Q (transaction m)"
  unfolding transaction_def by (rule Q.eff_savepoint)

lemmas api_rules = Q.eff_rules eff_modify_heartbeats eff_modify_logs eff_transaction eff_in_db

lemma eff_get_registration: "effects Q (get_registration k)"
  unfolding get_registration_def by (intro api_rules)

lemma eff_ingest_worker_log: "effects Q (ingest_worker_log p w)"
  unfolding ingest_worker_log_def log_reference_def Let_def by (intro api_rules D.fleet_rules)

lemma eff_register_worker: "effects Q (register_worker p w)"
  unfolding register_worker_def Let_def by (intro api_rules eff_get_registration D.fleet_rules)

lemma eff_worker_heartbeat: "effects Q (worker_heartbeat st l w)"
  unfolding worker_heartbeat_def by (intro api_rules eff_get_registration D.fleet_rules)

lemma eff_deregister_worker: "effects Q (deregister_worker w)"
  unfolding deregister_worker_def by (intro api_rules eff_get_registration D.fleet_rules)

lemma eff_assert_credential: "effects Q (assert_credential_still_active w)"
  unfolding assert_credential_still_active_def by (intro api_rules D.fleet_rules)

lemma eff_claim_assignment_endpoint: "effects Q (claim_assignment_endpoint tok w)"
  unfolding claim_assignment_endpoint_def by (intro api_rules eff_assert_credential D.fleet_rules)

lemma eff_held_assignment: "effects Q (held_assignment k w)"
  unfolding held_assignment_def load_owned_assignment_def
  by (intro api_rules eff_assert_credential eff_get_registration)

lemma eff_lease_call: "effects D m \<Longrightarrow> effects Q (lease_call m)"
  unfolding lease_call_def by (intro api_rules)

lemma eff_ack_assignment: "effects Q (ack_assignment k w)"
  unfolding ack_assignment_def by (intro api_rules eff_held_assignment eff_lease_call D.fleet_rules)

lemma eff_renew_assignment_lease: "effects Q (renew_assignment_lease k w)"
  unfolding renew_assignment_lease_def by (intro api_rules eff_held_assignment eff_lease_call D.fleet_rules)

lemma eff_submit_assignment_result: "effects Q (submit_assignment_result k p w)"
  unfolding submit_assignment_result_def by (intro api_rules eff_held_assignment eff_lease_call D.fleet_rules)

lemma eff_get_workspace_worker: "effects Q (get_workspace_worker ws k)"
  unfolding get_workspace_worker_def by (intro api_rules)

lemma eff_set_worker_drain: "effects Q (set_worker_drain ws k b)"
  unfolding set_worker_drain_def
  by (intro api_rules eff_get_workspace_worker eff_get_registration D.fleet_rules)

lemma eff_take_down: "effects Q (take_down k)"
  unfolding take_down_def by (intro api_rules D.fleet_rules)

lemma eff_guards:
  "effects Q (require_workspace_member ws u)" "effects Q (require_workspace_role rs ws u)"
  unfolding require_workspace_member_def require_workspace_role_def get_membership_def by (intro api_rules)+

lemma eff_get_current_worker: "effects Q (get_current_worker h)"
  by (simp add: effects_def authenticate_unchanged Q.eff_refl)

lemmas machine_rules = eff_ingest_worker_log eff_register_worker eff_worker_heartbeat eff_deregister_worker
  eff_claim_assignment_endpoint eff_ack_assignment eff_renew_assignment_lease eff_submit_assignment_result

end

locale api_frame = api_core Q D for Q :: "api \<Rightarrow> api \<Rightarrow> bool" and D :: "session \<Rightarrow> session \<Rightarrow> bool" +
  assumes eff_credentials: "Q s (credentials_update f s)"
begin

lemma eff_modify_credentials: "effects Q (modify (credentials_update f))"
  by (simp add: effects_def eff_credentials)

lemma eff_new_credential: "effects Q (new_credential w ws sec)"
  unfolding new_credential_def by (intro api_rules eff_modify_credentials D.fleet_rules)

lemma eff_provision_worker: "effects Q (provision_worker ws p bs)"
  unfolding provision_worker_def Let_def by (intro api_rules eff_new_credential D.fleet_rules)

lemma eff_rotate_worker_credential: "effects Q (rotate_worker_credential ws k bs)"
  unfolding rotate_worker_credential_def Let_def
  by (intro api_rules eff_modify_credentials eff_get_workspace_worker eff_new_credential D.fleet_rules)

lemma eff_revoke_worker_credentials: "effects Q (revoke_worker_credentials ws k)"
  unfolding revoke_worker_credentials_def
  by (intro api_rules eff_modify_credentials eff_get_workspace_worker eff_take_down)

end

text \<open>What holds of the session under the engine's operations holds of it under the endpoints.\<close>

context fleet_frame
begin

lemma lifts: "api_frame (\<lambda>s t. R (db s) (db t)) R"
  by unfold_locales (auto intro: eff_refl eff_trans)

end

interpretation numba: api_frame "\<lambda>s t. numbered (db s) \<longrightarrow> numbered (db t)" "\<lambda>s t. numbered s \<longrightarrow> numbered t"
  by (rule numb.lifts)

interpretation logxa: api_frame "\<lambda>s t. log_extends (db s) (db t)" log_extends
  by (rule logx.lifts)

interpretation confa: api_frame "\<lambda>s t. same_config (db s) (db t)" same_config
  by (rule conf.lifts)

interpretation keyga: api_frame "\<lambda>s t. keys_grow (db s) (db t)" keys_grow
  by (rule keyg.lifts)

interpretation idsga: api_frame "\<lambda>s t. ids_grow (db s) (db t)" ids_grow
  by (rule idsg.lifts)

interpretation anyd: fleet_frame "\<lambda>s t :: session. True"
  by unfold_locales (simp_all add: effects_def)

interpretation cred: api_core "\<lambda>s t. credentials t = credentials s" "\<lambda>_ _. True"
  by unfold_locales simp_all

section \<open>Revocation\<close>

datatype machine_call =
    Ingest worker_log_in
  | Register worker_register_in
  | Heartbeat worker_status int
  | Deregister
  | Claim "uuid option"
  | Ack uuid
  | Renew uuid
  | Submit uuid submit_in

fun handle :: "machine_call \<Rightarrow> authenticated_worker \<Rightarrow> unit endpoint" where
  "handle (Ingest p) w = bindE (ingest_worker_log p w) (\<lambda>_. ret ())"
| "handle (Register p) w = bindE (register_worker p w) (\<lambda>_. ret ())"
| "handle (Heartbeat st l) w = bindE (worker_heartbeat st l w) (\<lambda>_. ret ())"
| "handle Deregister w = bindE (deregister_worker w) (\<lambda>_. ret ())"
| "handle (Claim tok) w = bindE (claim_assignment_endpoint tok w) (\<lambda>_. ret ())"
| "handle (Ack k) w = bindE (ack_assignment k w) (\<lambda>_. ret ())"
| "handle (Renew k) w = bindE (renew_assignment_lease k w) (\<lambda>_. ret ())"
| "handle (Submit k p) w = bindE (submit_assignment_result k p w) (\<lambda>_. ret ())"

context api_core
begin

lemma eff_handle: "effects Q (handle c w)"
  by (cases c) (simp_all, (intro api_rules machine_rules)+)

end

text \<open>
  A step of the system in which no credential is issued to the worker \<open>wid\<close>: a request
  handler run for any worker that was authenticated at any earlier time, an operation of the
  engine (or the passage of time), an administrator's action other than rotating the
  credentials of \<open>wid\<close>.
\<close>

inductive issues_nothing_to :: "uuid \<Rightarrow> api \<Rightarrow> api \<Rightarrow> bool" for wid where
  machine: "issues_nothing_to wid s (state_after (handle c w) s)"
| engine: "ids_grow (db s) d \<Longrightarrow> issues_nothing_to wid s (s\<lparr>db := d\<rparr>)"
| provision: "issues_nothing_to wid s (state_after (provision_worker ws p bs) s)"
| drain: "issues_nothing_to wid s (state_after (set_worker_drain ws k b) s)"
| rotate: "k \<noteq> wid \<Longrightarrow> issues_nothing_to wid s (state_after (rotate_worker_credential ws k bs) s)"
| revoke: "issues_nothing_to wid s (state_after (revoke_worker_credentials ws k) s)"

definition no_active :: "uuid \<Rightarrow> worker_credential list \<Rightarrow> bool" where
  "no_active wid cs \<longleftrightarrow> list_all (\<lambda>c. \<not> active_of wid c) cs"

definition shut_out :: "uuid \<Rightarrow> api \<Rightarrow> bool" where
  "shut_out wid s \<longleftrightarrow> wid < next_uuid (db s) \<and> no_active wid (credentials s)"

lemma no_active_append: "no_active wid (cs @ ds) \<longleftrightarrow> no_active wid cs \<and> no_active wid ds"
  by (simp add: no_active_def)

lemma no_active_map:
  "(\<And>c. active_of wid (f c) \<Longrightarrow> active_of wid c) \<Longrightarrow> no_active wid cs \<Longrightarrow> no_active wid (map f cs)"
  by (auto simp: no_active_def list_all_iff)

lemma ids_of: "effects (\<lambda>s t. ids_grow (db s) (db t)) m \<Longrightarrow> wid < next_uuid (db s) \<Longrightarrow> wid < next_uuid (db (state_after m s))"
  by (auto simp: effects_def ids_grow_def dest: spec [of _ s])

lemma shut_out_kept:
  assumes "effects (\<lambda>s t. credentials t = credentials s) m" and "effects (\<lambda>s t. ids_grow (db s) (db t)) m"
    and "shut_out wid s"
  shows "shut_out wid (state_after m s)"
  using assms ids_of [OF assms(2)] by (simp add: shut_out_def effects_def)

text \<open>The three operations that write credentials, as effects on the credential list.\<close>

lemma new_credential_apply:
  "new_credential w ws sec s = (s\<lparr>db := (db s)\<lparr>next_uuid := Suc (next_uuid (db s))\<rparr>,
     credentials := credentials s @ [\<lparr>wc_id = next_uuid (db s), wc_worker_id = w, wc_workspace_id = ws,
       wc_secret_hash = hash_worker_secret sec, wc_status = CredActive, wc_created_at = clock (db s),
       wc_rotated_at = None, wc_expires_at = None\<rparr>]\<rparr>, Inr (next_uuid (db s)))"
  by (simp add: new_credential_def)

lemma bindE_new_credential:
  "bindE (new_credential w ws sec) f s = f (next_uuid (db s)) (state_after (new_credential w ws sec) s)"
  by (simp add: bindE_def new_credential_apply)

lemma provision_credentials:
  "\<exists>c. credentials (state_after (provision_worker ws p bs) s) = credentials s @ [c]
    \<and> wc_worker_id c = next_uuid (db s)"
  by (simp add: provision_worker_def transaction_def savepoint_def Let_def bindE_new_credential new_credential_apply)

lemma get_workspace_worker_unchanged:
  "(\<exists>w. get_workspace_worker ws k s = (s, Inr w)) \<or> (\<exists>e. get_workspace_worker ws k s = (s, Inl e))"
  by (simp add: get_workspace_worker_def scalar_one_or_none_def split: list.splits option.splits)

lemma rotate_credentials:
  "(\<exists>e. rotate_worker_credential ws k bs s = (s, Inl e)) \<or>
   (\<exists>g c. credentials (state_after (rotate_worker_credential ws k bs) s) =
      map (\<lambda>c. if active_of k c then begin_grace (clock (db s)) g c else c) (credentials s) @ [c] \<and> wc_worker_id c = k)"
  using get_workspace_worker_unchanged [of ws k s]
proof
  assume "\<exists>w. get_workspace_worker ws k s = (s, Inr w)"
  then obtain w where "get_workspace_worker ws k s = (s, Inr w)" ..
  then show ?thesis
    by (intro disjI2) (auto simp: rotate_worker_credential_def bindE_Inr [where m = "get_workspace_worker ws k"]
        transaction_def savepoint_def Let_def bindE_new_credential new_credential_apply)
next
  assume "\<exists>e. get_workspace_worker ws k s = (s, Inl e)"
  then show ?thesis by (auto simp: rotate_worker_credential_def bindE_def)
qed

lemma revoke_outcome:
  assumes "revoke_worker_credentials ws k s = (t, r)"
  shows "(\<exists>e. r = Inl e \<and> t = s) \<or>
    (\<exists>n. r = Inr n \<and> take_down k (credentials_update (map (revoke_credential k)) s) = (t, Inr ())
      \<and> credentials t = map (revoke_credential k) (credentials s))"
proof -
  let ?s1 = "credentials_update (map (revoke_credential k)) s"
  obtain u q where td: "take_down k ?s1 = (u, q)" by (cases "take_down k ?s1")
  have cr: "credentials u = map (revoke_credential k) (credentials s)"
    using effects_result [OF cred.eff_take_down td] by simp
  from get_workspace_worker_unchanged [of ws k s] show ?thesis
  proof
    assume "\<exists>w. get_workspace_worker ws k s = (s, Inr w)"
    then obtain w where "get_workspace_worker ws k s = (s, Inr w)" ..
    then show ?thesis
      using assms td cr by (cases q) (auto simp: revoke_worker_credentials_def transaction_def savepoint_def
          bindE_Inr [where m = "get_workspace_worker ws k"] bindE_Inr [where m = "take_down k"] bindE_Inl [where m = "take_down k"])
  next
    assume "\<exists>e. get_workspace_worker ws k s = (s, Inl e)"
    then show ?thesis using assms by (auto simp: revoke_worker_credentials_def bindE_def)
  qed
qed

lemma revoked_none_active: "no_active k (map (revoke_credential k) cs)"
  by (induction cs) (auto simp: no_active_def revoke_credential_def active_of_def)

lemma shut_out_step:
  assumes "issues_nothing_to wid s t" and "shut_out wid s"
  shows "shut_out wid t"
  using assms
proof (cases rule: issues_nothing_to.cases)
  case (machine c w)
  with assms(2) show ?thesis by (auto intro!: shut_out_kept cred.eff_handle idsga.eff_handle)
next
  case (engine d)
  with assms(2) show ?thesis by (auto simp: shut_out_def ids_grow_def)
next
  case (provision ws p bs)
  with assms(2) provision_credentials [of ws p bs s] ids_of [OF idsga.eff_provision_worker]
  show ?thesis by (auto simp: shut_out_def no_active_append) (auto simp: no_active_def active_of_def)
next
  case (drain ws k b)
  with assms(2) show ?thesis by (auto intro!: shut_out_kept cred.eff_set_worker_drain idsga.eff_set_worker_drain)
next
  case (rotate k ws bs)
  have ids: "wid < next_uuid (db t)"
    using ids_of [OF idsga.eff_rotate_worker_credential] assms(2) by (simp add: rotate shut_out_def)
  have "no_active wid (map (\<lambda>c. if active_of k c then begin_grace n g c else c) (credentials s))" for n g
    using assms(2) by (intro no_active_map) (auto simp: shut_out_def active_of_def begin_grace_def split: if_splits)
  with rotate_credentials [of ws k bs s] ids rotate assms(2) show ?thesis
    by (auto simp: shut_out_def no_active_append) (auto simp: no_active_def active_of_def)
next
  case (revoke ws k)
  have ids: "wid < next_uuid (db t)"
    using ids_of [OF idsga.eff_revoke_worker_credentials] assms(2) by (simp add: revoke shut_out_def)
  have "no_active wid (map (revoke_credential k) (credentials s))"
    using assms(2) by (intro no_active_map) (auto simp: shut_out_def active_of_def revoke_credential_def split: if_splits)
  with revoke_outcome [of ws k s t] revoke ids assms(2) show ?thesis
    by (cases "revoke_worker_credentials ws k s") (auto simp: shut_out_def)
qed

lemma shut_out_steps: "(issues_nothing_to wid)\<^sup>*\<^sup>* s t \<Longrightarrow> shut_out wid s \<Longrightarrow> shut_out wid t"
  by (induction rule: rtranclp_induct) (auto intro: shut_out_step)

fun touches_work :: "machine_call \<Rightarrow> bool" where
  "touches_work (Claim tok) = True"
| "touches_work (Ack k) = True"
| "touches_work (Renew k) = True"
| "touches_work (Submit k p) = True"
| "touches_work c = False"

lemma credential_refused:
  assumes "no_active (aw_worker_id w) (credentials s)"
  shows "assert_credential_still_active w s = (s, Inl unauthorized)"
proof (cases "find_credential s (aw_credential_id w)")
  case (Some c)
  then have "\<not> active_of (aw_worker_id w) c"
    using assms find_row_SomeD [OF Some] by (auto simp: no_active_def list_all_iff)
  with Some show ?thesis by (auto simp: assert_credential_still_active_def active_of_def)
qed (simp add: assert_credential_still_active_def)

lemma work_refused:
  assumes "no_active (aw_worker_id w) (credentials s)" and "touches_work c"
  shows "handle c w s = (s, Inl unauthorized)"
proof -
  note no = bindE_Inl [where m = "assert_credential_still_active w", OF credential_refused [OF assms(1)]]
  have held: "held_assignment k w s = (s, Inl unauthorized)" for k by (simp add: held_assignment_def no)
  note nh = bindE_Inl [where m = "held_assignment k w" for k, OF held]
  from assms(2) show ?thesis
    by (cases c) (simp_all add: claim_assignment_endpoint_def ack_assignment_def renew_assignment_lease_def
        submit_assignment_result_def bindE_transaction no nh)
qed

lemma authenticated_is_active:
  assumes "get_current_worker h s = (t, Inr w)"
  shows "\<exists>c\<in>set (credentials s). active_of (aw_worker_id w) c"
  using assms
  by (auto simp: get_current_worker_def Let_def active_of_def scalar_one_or_none_def bindE_def
      filter_eq_Cons_iff split: option.splits prod.splits sum.splits if_splits list.splits)

text \<open>
  C9: the kill switch holds. Once an administrator has revoked a worker's credentials, and
  until a new credential is issued to that worker, no token authenticates as the worker, and
  a request to claim, acknowledge, renew or submit work is refused with 401 and changes
  nothing, even when the worker was authenticated before the revocation; whatever other
  requests are served and whatever the engine does in between.
\<close>

theorem revoked_worker_is_locked_out:
  assumes "revoke_worker_credentials ws wid s = (t, Inr n)" and "wid < next_uuid (db s)"
    and "(issues_nothing_to wid)\<^sup>*\<^sup>* t u" and "aw_worker_id w = wid" and "touches_work c"
  shows "handle c w u = (u, Inl unauthorized)
    \<and> (\<forall>w'. get_current_worker header u = (u, Inr w') \<longrightarrow> aw_worker_id w' \<noteq> wid)"
proof
  have "shut_out wid t"
    using revoke_outcome [OF assms(1)] revoked_none_active assms(2) ids_of [OF idsga.eff_revoke_worker_credentials [of ws wid] assms(2)]
    by (auto simp: shut_out_def assms(1))
  then have out: "no_active wid (credentials u)" using shut_out_steps [OF assms(3)] by (simp add: shut_out_def)
  then show "handle c w u = (u, Inl unauthorized)" using work_refused assms(4,5) by blast
  show "\<forall>w'. get_current_worker header u = (u, Inr w') \<longrightarrow> aw_worker_id w' \<noteq> wid"
    using out authenticated_is_active by (fastforce simp: no_active_def list_all_iff)
qed

section \<open>Work held by others\<close>

lemma held_outcome:
  "held_assignment k w s = (t, r) \<Longrightarrow> t = s \<and> (\<forall>a. r = Inr a \<longrightarrow> find_asg (db s) k = Some a)"
  by (auto simp: held_assignment_def assert_credential_still_active_def get_registration_def load_owned_assignment_def
      bindE_def split: option.splits if_splits sum.splits prod.splits)

lemma lease_call_error: "m (db s) = (d, Inl e) \<Longrightarrow> lease_call m s = (s\<lparr>db := d\<rparr>, Inl (lease_http_error e))"
  by (simp add: lease_call_def try_except_def)

lemma lease_refused_other:
  assumes "find_asg s k = Some a" and "asg_worker_id a \<noteq> Some wid"
  shows "acknowledge k None (Some wid) None s = (s, Inl LeaseNotOwned)"
    and "renew_lease k None (Some wid) None s = (s, Inl LeaseNotOwned)"
    and "submit_result k ok res err (Some wid) None s = (s, Inl LeaseNotOwned)"
  using assms by (simp_all add: acknowledge_outcome renew_lease_outcome assert_lease_outcome Let_def
      submit_result_def check_submit_def)

lemma transaction_keeps: "(\<And>t x. m s = (t, Inr x) \<Longrightarrow> t = s) \<Longrightarrow> state_after (transaction m) s = s"
  by (simp add: transaction_def savepoint_def split: prod.splits sum.splits)

lemma ack_other:
  assumes "find_asg (db s) k = Some a" and "asg_worker_id a \<noteq> Some (aw_worker_id w)"
  shows "state_after (ack_assignment k w) s = s" and "state_after (renew_assignment_lease k w) s = s"
proof -
  have lc: "lease_call (acknowledge k None (Some (aw_worker_id w)) None) s = (s, Inl (lease_http_error LeaseNotOwned))"
      "lease_call (renew_lease k None (Some (aw_worker_id w)) None) s = (s, Inl (lease_http_error LeaseNotOwned))"
    using lease_refused_other [OF assms] lease_call_error [of "acknowledge k None (Some (aw_worker_id w)) None" s]
      lease_call_error [of "renew_lease k None (Some (aw_worker_id w)) None" s] by simp_all
  show "state_after (ack_assignment k w) s = s" unfolding ack_assignment_def
    by (rule transaction_keeps) (auto elim!: bindE_eq_InrD dest!: held_outcome simp: lc)
  show "state_after (renew_assignment_lease k w) s = s" unfolding renew_assignment_lease_def
    by (rule transaction_keeps) (auto elim!: bindE_eq_InrD dest!: held_outcome simp: lc)
qed

lemma ensure_db:
  "in_db (ensure_provider_effect_key ws aid n kind ek) s = (t, Inr r) \<Longrightarrow>
    assignments (db t) = assignments (db s) \<and> (\<not> ekr_created r \<longrightarrow> t = s)"
  by (auto simp: ensure_effect_key_apply new_effect_key_def split: if_splits)

lemma submit_other:
  assumes "find_asg (db s) k = Some a" and "asg_worker_id a \<noteq> Some (aw_worker_id w)"
  shows "state_after (submit_assignment_result k p w) s = s"
  unfolding submit_assignment_result_def
proof (rule transaction_keeps, elim bindE_eq_InrD)
  fix t x b u effect v
  assume "held_assignment k w s = (u, Inr b)"
    and ens: "in_db (ensure_provider_effect_key (asg_workspace_id b) (asg_id b) (asg_attempt_number b) stage_execute
      (si_provider_effect_key p)) u = (v, Inr effect)"
    and rest: "(if \<not> ekr_created effect \<and> asg_status b \<in> {AsgCompleted, AsgFailed}
       then ret \<lparr>so_assignment_id = asg_id b, so_status = asg_status b,
         so_provider_effect_key = ekr_effect_key effect, so_provider_effect_created = False\<rparr>
       else
         bindE (lease_call (submit_result k (si_success p) (si_result p)
            (si_error_message p) (Some (aw_worker_id w)) None)) (\<lambda>_.
         bindE (in_db (the_asg k)) (\<lambda>a.
         ret \<lparr>so_assignment_id = asg_id a, so_status = asg_status a,
           so_provider_effect_key = ekr_effect_key effect, so_provider_effect_created = ekr_created effect\<rparr>))) v = (t, Inr x)"
  then have u: "u = s" using held_outcome by blast
  have keep: "assignments (db v) = assignments (db s)" "\<not> ekr_created effect \<Longrightarrow> v = s"
    using ensure_db [OF ens] by (auto simp: u)
  have "find_asg (db v) k = Some a" using keep(1) assms(1) by simp
  from lease_refused_other(3) [OF this assms(2)]
  have "lease_call (submit_result k (si_success p) (si_result p) (si_error_message p) (Some (aw_worker_id w)) None) v
      = (v, Inl (lease_http_error LeaseNotOwned))"
    using lease_call_error by fastforce
  then show "t = s" using rest keep(2) by (auto simp: bindE_Inl split: if_splits)
qed

fun addresses :: "machine_call \<Rightarrow> uuid \<Rightarrow> bool" where
  "addresses (Ack k) j \<longleftrightarrow> j = k"
| "addresses (Renew k) j \<longleftrightarrow> j = k"
| "addresses (Submit k p) j \<longleftrightarrow> j = k"
| "addresses c j \<longleftrightarrow> False"

lemma state_after_unit [simp]: "state_after (bindE m (\<lambda>_. ret ())) s = state_after m s"
  by (simp add: bindE_def split: prod.splits sum.splits)

text \<open>
  C31: an assignment can be acknowledged, renewed or submitted by its holder only. A request
  of any other worker about it changes nothing at all, the provider effect keys included,
  whatever the response.
\<close>

theorem only_the_holder_acts_on_an_assignment:
  assumes "find_asg (db s) k = Some a" and "asg_worker_id a \<noteq> Some (aw_worker_id w)" and "addresses c k"
  shows "state_after (handle c w) s = s"
  using assms(3) ack_other [OF assms(1,2)] submit_other [OF assms(1,2)] by (cases c) simp_all

section \<open>Issued secrets\<close>

definition credentials_ok :: "api \<Rightarrow> bool" where
  \<comment> \<open>credential ids are distinct and were all drawn before\<close>
  "credentials_ok s \<longleftrightarrow> distinct (map wc_id (credentials s)) \<and> (\<forall>c\<in>set (credentials s). wc_id c < next_uuid (db s))"

lemma token_nonempty: "bs \<noteq> [] \<Longrightarrow> generate_worker_secret bs \<noteq> []"
  by (cases bs rule: token_urlsafe.cases) (simp_all add: generate_worker_secret_def)

lemma new_credential_authenticates:
  assumes "credentials_ok s" and "next_uuid (db s) < 2 ^ 128" and "sec \<noteq> []"
    and "new_credential w ws sec s = (t, Inr u)"
  shows "get_current_worker (Some (token_of u sec)) t =
    (t, Inr \<lparr>aw_worker_id = w, aw_credential_id = u, aw_workspace_id = ws\<rparr>)"
proof -
  let ?c = "\<lparr>wc_id = next_uuid (db s), wc_worker_id = w, wc_workspace_id = ws, wc_secret_hash = hash_worker_secret sec,
    wc_status = CredActive, wc_created_at = clock (db s), wc_rotated_at = None, wc_expires_at = None\<rparr>"
  have u: "u = next_uuid (db s)" and t: "credentials t = credentials s @ [?c]" "clock (db t) = clock (db s)"
    using assms(4) by (auto simp: new_credential_apply)
  have "u \<notin> wc_id ` set (credentials s)" using assms(1) by (auto simp: credentials_ok_def u)
  then have "distinct (map wc_id (credentials t))" "find_credential t u = Some ?c"
    using assms(1) by (auto simp: credentials_ok_def t u find_row_append find_row_None [THEN iffD2])
  then show ?thesis
    using assms(2,3) by (simp add: authenticate_token u usable_def worker_of_def)
qed

definition graced :: "api \<Rightarrow> uuid \<Rightarrow> worker_credential \<Rightarrow> worker_credential" where
  "graced s wid c = (if active_of wid c then begin_grace (clock (db s))
     (clock (db s) + seconds (worker_credential_rotation_grace_seconds (get_settings (db s)))) c else c)"

lemma graced_sel [simp]:
  "wc_id (graced s wid c) = wc_id c" "wc_worker_id (graced s wid c) = wc_worker_id c"
  "wc_workspace_id (graced s wid c) = wc_workspace_id c" "wc_secret_hash (graced s wid c) = wc_secret_hash c"
  by (simp_all add: graced_def begin_grace_def)

lemma provision_issues:
  assumes "provision_worker ws p bs s = (t, Inr ic)"
  shows "\<exists>s1. new_credential (ic_worker_id ic) ws (generate_worker_secret bs) s1 = (t, Inr (ic_credential_id ic))
    \<and> credentials s1 = credentials s \<and> next_uuid (db s1) = next_uuid (db s) + 2
    \<and> ic_worker_secret ic = token_of (ic_credential_id ic) (generate_worker_secret bs)"
  using assms unfolding provision_worker_def Let_def transaction_Inr
  by (simp, elim bindE_eq_InrD, clarsimp) (rule exI, rule conjI, assumption, simp)

lemma rotate_issues:
  assumes "rotate_worker_credential ws wid bs s = (t, Inr ic)"
  shows "new_credential wid ws (generate_worker_secret bs) (credentials_update (map (graced s wid)) s)
      = (t, Inr (ic_credential_id ic))"
    and "ic_worker_secret ic = token_of (ic_credential_id ic) (generate_worker_secret bs)" and "ic_worker_id ic = wid"
  using assms get_workspace_worker_unchanged [of ws wid s]
  by (auto simp: rotate_worker_credential_def bindE_Inl [where m = "get_workspace_worker ws wid"]
      bindE_Inr [where m = "get_workspace_worker ws wid"] transaction_Inr Let_def bindE_new_credential
      new_credential_apply graced_def [abs_def])

text \<open>
  C39: the secret handed out on provisioning or rotation is the worker's key: presented as a
  bearer token it authenticates as that worker, in that workspace, under the new credential.
\<close>

theorem issued_secret_authenticates:
  assumes "credentials_ok s" and "next_uuid (db s) + 2 < 2 ^ 128" and "bs \<noteq> []"
    and "provision_worker ws p bs s = (t, Inr ic) \<or> rotate_worker_credential ws wid bs s = (t, Inr ic)"
  shows "get_current_worker (Some (ic_worker_secret ic)) t =
    (t, Inr \<lparr>aw_worker_id = ic_worker_id ic, aw_credential_id = ic_credential_id ic, aw_workspace_id = ws\<rparr>)"
  using assms(4)
proof
  assume "provision_worker ws p bs s = (t, Inr ic)"
  from provision_issues [OF this] obtain s1 where s1: "credentials s1 = credentials s" "next_uuid (db s1) = next_uuid (db s) + 2"
    "new_credential (ic_worker_id ic) ws (generate_worker_secret bs) s1 = (t, Inr (ic_credential_id ic))"
    "ic_worker_secret ic = token_of (ic_credential_id ic) (generate_worker_secret bs)" by blast
  have "credentials_ok s1" using assms(1) s1(1,2) by (auto simp: credentials_ok_def)
  from new_credential_authenticates [OF this _ token_nonempty [OF assms(3)] s1(3)] assms(2) s1(2,4)
  show ?thesis by simp
next
  assume r: "rotate_worker_credential ws wid bs s = (t, Inr ic)"
  have "credentials_ok (credentials_update (map (graced s wid)) s)"
    using assms(1) by (auto simp: credentials_ok_def comp_def)
  from new_credential_authenticates [OF this _ token_nonempty [OF assms(3)] rotate_issues(1) [OF r]] assms(2) rotate_issues(2,3) [OF r]
  show ?thesis by simp
qed

text \<open>
  Rotation is without downtime and yet ends. After the rotation an old secret still
  authenticates until the grace period is over, or until its own earlier expiry, and not
  a moment longer.
\<close>

theorem rotated_secret_lasts_for_the_grace_period:
  assumes "rotate_worker_credential ws wid bs s = (t, Inr ic)" and "credentials_ok s"
    and "find_credential s k = Some c" and "active_of wid c" and "wc_secret_hash c = hash_worker_secret sec"
    and "k < 2 ^ 128" and "sec \<noteq> []"
    and "u = t\<lparr>db := (db t)\<lparr>clock := now\<rparr>\<rparr>"
    and "grace_until = clock (db s) + seconds (worker_credential_rotation_grace_seconds (get_settings (db s)))"
  shows "get_current_worker (Some (token_of k sec)) u =
    (u, if now < grace_until \<and> (case wc_expires_at c of None \<Rightarrow> True | Some d \<Rightarrow> now < d)
        then Inr (worker_of c) else Inl unauthorized)"
proof -
  let ?s1 = "credentials_update (map (graced s wid)) s"
  obtain c' where t: "credentials t = map (graced s wid) (credentials s) @ [c']" "wc_id c' = next_uuid (db s)"
    using rotate_issues(1) [OF assms(1)] by (auto simp: new_credential_apply)
  have mem: "c \<in> set (credentials s)" "wc_id c = k" using find_row_SomeD [OF assms(3)] by auto
  have dist: "distinct (map wc_id (credentials u))"
    using assms(2) t by (auto simp: assms(8) credentials_ok_def comp_def)
  then have "find_credential u k = Some (graced s wid c)"
    using find_row_mem [OF dist, of "graced s wid c"] mem t(1) by (simp add: assms(8))
  with authenticate_token [OF dist assms(6,7)] show ?thesis
    using assms(4,5) by (auto simp: assms(8,9) usable_def worker_of_def graced_def begin_grace_def active_of_def split: option.splits)
qed

section \<open>Registration after a revocation\<close>

lemma reap_nothing:
  assumes "worker_holdings d wid = []"
  shows "ended (reap_worker_assignments wid rs None now det) d = (d, Inr [])"
  using assms by (simp add: reap_worker_assignments_def ended_def Let_def)

text \<open>
  The kill switch does not reach registration. A worker that was authenticated before
  its credentials were revoked, and whose registration request is handled after the
  revocation, is set online again and is eligible for dispatch, although none of its
  credentials is active.
\<close>

theorem registration_survives_revocation:
  assumes "revoke_worker_credentials ws wid s = (t, Inr n)" and "worker_holdings (db t) wid = []"
    and "find_worker (db t) wid = Some x" and "\<not> wk_drain x" and "unlocked (db t) wid"
    and "cs_protocol_version (ri_capabilities p) \<in> set (worker_capability_protocol_versions (get_settings (db t)))"
    and "0 < ri_max_concurrency p" and "stage \<in> set (ri_supported_stages p)" and "aw_worker_id w = wid"
  shows "\<exists>u v y. register_worker p w t = (u, Inr v) \<and> find_worker (db u) wid = Some y
    \<and> eligible_worker (db u) stage (wk_health_score x) y \<and> no_active wid (credentials u)"
proof -
  let ?u = "t\<lparr>db := workers_update (upd_row wk_id wid (announce p (clock (db t)))) (db t)\<rparr>"
  have "register_worker p w t = (?u, Inr (cs_protocol_version (ri_capabilities p)))"
    using assms(3,6,9) by (simp add: register_worker_def Let_def transaction_Inr get_registration_def
        reap_nothing [OF assms(2)])
  moreover have "wk_id x = wid" using find_row_SomeD [OF assms(3)] by simp
  then have "find_worker (db ?u) wid = Some (announce p (clock (db t)) x)"
    using assms(3) by (simp add: find_row_upd_row announce_def)
  moreover have "eligible_worker (db ?u) stage (wk_health_score x) (announce p (clock (db t)) x)"
    using assms(4,5,7,8) \<open>wk_id x = wid\<close> by (simp add: eligible_worker_def announce_def unlocked_def)
  moreover have "no_active wid (credentials ?u)"
    using revoke_outcome [OF assms(1)] revoked_none_active by auto
  ultimately show ?thesis by blast
qed

section \<open>Only administrators manage workers\<close>

lemma role_guard_outcome:
  "require_workspace_role roles ws user s = (t, r) \<Longrightarrow> t = s \<and> (\<forall>m. r = Inr m \<longrightarrow>
     m \<in> set (memberships s) \<and> wm_workspace_id m = ws \<and> wm_role m \<in> set roles
     \<and> uuid_of_str user = Inr (wm_user_id m))"
  by (auto simp: require_workspace_role_def get_membership_def scalar_one_or_none_Some scalar_one_or_none_None
      filter_eq_Cons_iff bindE_def split: sum.splits option.splits if_splits)

text \<open>
  The administrative worker endpoints are closed to everyone but the workspace's own
  administrators: for a user without an admin membership of that workspace the request
  fails and changes nothing, whichever endpoint it addresses.
\<close>

theorem only_admins_manage_workers:
  assumes "\<forall>m\<in>set (memberships s). wm_workspace_id m = ws \<and> uuid_of_str user = Inr (wm_user_id m) \<longrightarrow> wm_role m \<noteq> ADMIN"
  shows "\<exists>e. admin_route ws user handler s = (s, Inl e)"
proof -
  obtain t r where g: "require_workspace_admin ws user s = (t, r)" by (cases "require_workspace_admin ws user s")
  from role_guard_outcome [of "[ADMIN]" ws user s] g assms have "t = s" "\<exists>e. r = Inl e"
    by (cases r; fastforce simp: require_workspace_admin_def)+
  with g show ?thesis by (auto simp: admin_route_def bindE_def)
qed

section \<open>Samples\<close>

definition sample_credential :: worker_credential where
  "sample_credential = \<lparr>wc_id = 500, wc_worker_id = 80, wc_workspace_id = 1,
     wc_secret_hash = hash_worker_secret ''s3cret'', wc_status = CredActive, wc_created_at = 0,
     wc_rotated_at = None, wc_expires_at = None\<rparr>"

definition api_sample :: "session \<Rightarrow> api" where
  "api_sample d = \<lparr>db = d, credentials = [sample_credential], heartbeats = [], worker_logs = [],
     memberships = [\<lparr>wm_id = 900, wm_workspace_id = 1, wm_user_id = 901, wm_role = EDITOR\<rparr>]\<rparr>"

lemma silent_sample_facts:
  "workers silent_sample = [sample_worker]" "find_worker silent_sample 80 = Some sample_worker"
  "worker_holdings silent_sample wid = []" "next_uuid silent_sample = 1000"
  "get_settings silent_sample = default_settings" "clock silent_sample = seconds 120" "unlocked silent_sample k"
  by (simp_all add: silent_sample_def sample_worker_def worker_holdings_def unlocked_def empty_session_def)

lemma sample_workspace_worker: "get_workspace_worker 1 80 (api_sample silent_sample) = (api_sample silent_sample, Inr sample_worker)"
  by (simp add: get_workspace_worker_def api_sample_def silent_sample_facts sample_worker_def)

abbreviation dark_worker :: worker_registration where
  "dark_worker \<equiv> sample_worker\<lparr>wk_status := WorkerOffline, wk_current_load := 0\<rparr>"

definition revoked_sample :: api where
  "revoked_sample = (api_sample (silent_sample\<lparr>workers := [dark_worker]\<rparr>))
     \<lparr>credentials := [sample_credential\<lparr>wc_status := CredRevoked\<rparr>]\<rparr>"

lemma sample_revocation: "revoke_worker_credentials 1 80 (api_sample silent_sample) = (revoked_sample, Inr 1)"
  unfolding revoke_worker_credentials_def bindE_Inr [where m = "get_workspace_worker 1 80", OF sample_workspace_worker] transaction_Inr
  by (simp add: take_down_def api_sample_def reap_nothing silent_sample_facts revoked_sample_def
      sample_credential_def sample_worker_def revoke_credential_def active_of_def del: One_nat_def)

abbreviation desk_worker :: "uuid \<Rightarrow> authenticated_worker" where
  "desk_worker k \<equiv> \<lparr>aw_worker_id = k, aw_credential_id = 500, aw_workspace_id = 1\<rparr>"

theorem revoked_worker_is_locked_out_witness:
  "revoke_worker_credentials 1 80 (api_sample silent_sample) = (revoked_sample, Inr 1)
    \<and> handle (Claim None) (desk_worker 80) revoked_sample = (revoked_sample, Inl unauthorized)"
  using sample_revocation revoked_worker_is_locked_out [THEN conjunct1, OF sample_revocation, of revoked_sample "desk_worker 80" "Claim None"]
  by (simp add: api_sample_def silent_sample_facts)

theorem only_the_holder_acts_on_an_assignment_witness:
  "state_after (handle (Ack 90) (desk_worker 81)) (api_sample desk_sample) = api_sample desk_sample"
  by (rule only_the_holder_acts_on_an_assignment [of _ _ "held_asg 90 1"])
    (simp_all add: api_sample_def desk_sample_facts(1) held_asg_def)

lemma api_sample_credentials_ok: "credentials_ok (api_sample silent_sample)"
  by (simp add: credentials_ok_def api_sample_def silent_sample_facts sample_credential_def)

lemma sample_rotation: "\<exists>t ic. rotate_worker_credential 1 80 [7] (api_sample silent_sample) = (t, Inr ic)"
  unfolding rotate_worker_credential_def bindE_Inr [where m = "get_workspace_worker 1 80", OF sample_workspace_worker] Let_def
  by (simp add: transaction_Inr bindE_new_credential)

theorem issued_secret_authenticates_witness:
  "\<exists>t ic. rotate_worker_credential 1 80 [7] (api_sample silent_sample) = (t, Inr ic)
    \<and> get_current_worker (Some (ic_worker_secret ic)) t =
      (t, Inr \<lparr>aw_worker_id = ic_worker_id ic, aw_credential_id = ic_credential_id ic, aw_workspace_id = 1\<rparr>)"
proof -
  obtain t ic where r: "rotate_worker_credential 1 80 [7] (api_sample silent_sample) = (t, Inr ic)"
    using sample_rotation by blast
  with issued_secret_authenticates [OF api_sample_credentials_ok _ _ disjI2 [OF r]] show ?thesis
    by (auto simp: api_sample_def silent_sample_facts)
qed

theorem rotated_secret_lasts_for_the_grace_period_witness:
  "\<exists>t ic. rotate_worker_credential 1 80 [7] (api_sample silent_sample) = (t, Inr ic)
    \<and> (let u = t\<lparr>db := (db t)\<lparr>clock := seconds 3719\<rparr>\<rparr> in
        get_current_worker (Some (token_of 500 ''s3cret'')) u = (u, Inr (desk_worker 80)))
    \<and> (let u = t\<lparr>db := (db t)\<lparr>clock := seconds 3720\<rparr>\<rparr> in
        get_current_worker (Some (token_of 500 ''s3cret'')) u = (u, Inl unauthorized))"
proof -
  obtain t ic where r: "rotate_worker_credential 1 80 [7] (api_sample silent_sample) = (t, Inr ic)"
    using sample_rotation by blast
  have c: "find_credential (api_sample silent_sample) 500 = Some sample_credential" "active_of 80 sample_credential"
      "wc_secret_hash sample_credential = hash_worker_secret ''s3cret''"
    by (simp_all add: api_sample_def sample_credential_def active_of_def)
  have grace: "clock (db (api_sample silent_sample)) + seconds (worker_credential_rotation_grace_seconds
      (get_settings (db (api_sample silent_sample)))) = seconds 3720"
    by (simp add: api_sample_def silent_sample_facts default_settings_def seconds_def)
  note grows = rotated_secret_lasts_for_the_grace_period [OF r api_sample_credentials_ok c _ _ refl refl, unfolded grace]
  have "worker_of sample_credential = desk_worker 80" "wc_expires_at sample_credential = None"
    by (simp_all add: worker_of_def sample_credential_def)
  with r grows [of "seconds 3719"] grows [of "seconds 3720"] show ?thesis
    by (auto simp: Let_def seconds_def)
qed

abbreviation sample_registration :: worker_register_in where
  "sample_registration \<equiv> \<lparr>ri_supported_stages = [''scripting''],
     ri_capabilities = \<lparr>cs_protocol_version = 1, cs_providers = [], cs_features = []\<rparr>,
     ri_worker_version = None, ri_max_concurrency = 1\<rparr>"

theorem registration_survives_revocation_witness:
  "\<exists>u v y. register_worker sample_registration (desk_worker 80) revoked_sample = (u, Inr v)
    \<and> find_worker (db u) 80 = Some y \<and> eligible_worker (db u) ''scripting'' 100 y \<and> no_active 80 (credentials u)"
proof -
  have d: "db revoked_sample = silent_sample\<lparr>workers := [dark_worker]\<rparr>"
    by (simp add: revoked_sample_def api_sample_def)
  have "worker_holdings (db revoked_sample) 80 = []" "unlocked (db revoked_sample) 80"
      "find_worker (db revoked_sample) 80 = Some dark_worker"
    using silent_sample_facts(3,7) by (simp_all add: d worker_holdings_def unlocked_def sample_worker_def)
  from registration_survives_revocation [OF sample_revocation this(1,3) _ this(2), of sample_registration "''scripting''" "desk_worker 80"]
  show ?thesis by (simp add: d silent_sample_facts default_settings_def sample_worker_def)
qed

theorem only_admins_manage_workers_witness:
  "\<exists>e. admin_route 1 (uuid_str 901) (revoke_worker_credentials 1 80) (api_sample silent_sample)
    = (api_sample silent_sample, Inl e)"
  by (rule only_admins_manage_workers) (simp add: api_sample_def)

end
