(* ===== verification/Publication.thy ===== *)
theory Publication
  imports Access Text
begin

text \<open>
  The gate before publication (\<open>services/publication_policy.py\<close>): the fingerprint of a
  script and the decision whether an item may be handed to a platform. No code under the
  API writes eligibility rows, so the table is an argument; the message of a refusal is
  left out, its stable code is kept. The lemmas show that the decision is exactly the
  conjunction of the controls, each of which refuses on its own.
\<close>

section \<open>Data\<close>

record publication_eligibility =
  pe_id :: uuid
  pe_workspace_id :: uuid
  pe_content_item_id :: uuid
  pe_platform :: string
  pe_synthetic_media_disclosed :: bool
  pe_rights_confirmed_by :: "uuid option"
  pe_rights_confirmed_at :: "datetime option"
  pe_originality_fingerprint :: "string option"
  pe_review_gate_id :: "uuid option"

definition SUPPORTED_PLATFORMS :: "string list" where
  "SUPPORTED_PLATFORMS = [''youtube'', ''tiktok'', ''instagram'']"

record publication_decision =
  dec_content_item_id :: uuid
  dec_platform :: string
  dec_eligibility_id :: uuid
  dec_review_gate_id :: uuid

section \<open>Operations\<close>

definition normalize_script :: "string option list \<Rightarrow> string" where
  "normalize_script parts =
     py_strip (join '' '' (map (\<lambda>part. collapse (lower (case part of None \<Rightarrow> [] | Some p \<Rightarrow> p))) parts))"

definition fingerprint_script :: "string option list \<Rightarrow> py_error + string" where
  "fingerprint_script parts =
     (let normalized = normalize_script parts in
      if normalized = [] then Inl (PublicationBlocked ''originality_fingerprint_missing'')
      else Inr (sha256_hex (encode normalized)))"

abbreviation blocked :: "string \<Rightarrow> 'a svc" where
  "blocked code \<equiv> raise (PublicationBlocked code)"

definition approved_gate :: "uuid \<Rightarrow> uuid \<Rightarrow> publication_eligibility \<Rightarrow> review_gate svc" where
  \<comment> \<open>the gate the row refers to: it exists in the workspace, is approved and belongs to the item's run\<close>
  "approved_gate workspace_id content_item_id row =
     (case pe_review_gate_id row of
        None \<Rightarrow> blocked ''review_gate_missing''
      | Some gid \<Rightarrow>
          bindE (gets (\<lambda>s. find_gate s gid)) (\<lambda>g.
          case g of
            None \<Rightarrow> blocked ''review_gate_missing''
          | Some gate \<Rightarrow>
              if gate_workspace_id gate \<noteq> workspace_id then blocked ''review_gate_missing''
              else if gate_status gate \<noteq> GateApproved then blocked ''review_gate_not_approved''
              else
                bindE (gets (\<lambda>s. find_run s (gate_pipeline_run_id gate))) (\<lambda>r.
                case r of
                  None \<Rightarrow> blocked ''review_gate_missing''
                | Some run \<Rightarrow>
                    if run_workspace_id run \<noteq> workspace_id then blocked ''review_gate_missing''
                    else if run_content_item_id run \<noteq> content_item_id
                    then blocked ''review_gate_content_item_mismatch''
                    else ret gate)))"

definition decision_for :: "uuid \<Rightarrow> string \<Rightarrow> publication_eligibility \<Rightarrow> review_gate \<Rightarrow> publication_decision" where
  "decision_for it pf row gate = \<lparr>dec_content_item_id = it, dec_platform = pf, dec_eligibility_id = pe_id row,
     dec_review_gate_id = gate_id gate\<rparr>"

definition publishable_row ::
    "publication_eligibility list \<Rightarrow> uuid \<Rightarrow> uuid \<Rightarrow> string \<Rightarrow> publication_eligibility \<Rightarrow> publication_decision svc" where
  \<comment> \<open>the checks once the row has been found\<close>
  "publishable_row eligibility workspace_id content_item_id pf row =
     bindE (approved_gate workspace_id content_item_id row) (\<lambda>gate.
     bindE (gets (\<lambda>s. find_row ci_id content_item_id (items s))) (\<lambda>i.
     case i of
       None \<Rightarrow> blocked ''content_item_missing''
     | Some item \<Rightarrow>
         if ci_workspace_id item \<noteq> workspace_id then blocked ''content_item_missing''
         else if gate_content_version_id gate = None \<or> ci_current_version_id item = None
           \<or> gate_content_version_id gate \<noteq> ci_current_version_id item
         then blocked ''review_gate_content_version_mismatch''
         else if \<not> pe_synthetic_media_disclosed row then blocked ''synthetic_media_not_disclosed''
         else if pe_rights_confirmed_by row = None \<or> pe_rights_confirmed_at row = None
         then blocked ''rights_not_confirmed''
         else if pe_originality_fingerprint row = None \<or> pe_originality_fingerprint row = Some []
         then blocked ''originality_fingerprint_missing''
         else if filter (\<lambda>p. pe_workspace_id p = workspace_id \<and> pe_platform p = pf
           \<and> pe_originality_fingerprint p = pe_originality_fingerprint row
           \<and> pe_content_item_id p \<noteq> content_item_id) eligibility \<noteq> []
         then blocked ''duplicate_content_for_platform''
         else ret (decision_for content_item_id pf row gate)))"

definition assert_publishable ::
    "publication_eligibility list \<Rightarrow> uuid \<Rightarrow> uuid \<Rightarrow> string \<Rightarrow> publication_decision svc" where
  "assert_publishable eligibility workspace_id content_item_id platform =
     (let normalized_platform = lower (py_strip platform) in
      if normalized_platform \<notin> set SUPPORTED_PLATFORMS then blocked ''unsupported_platform''
      else
        bindE (liftE (scalar_one_or_none (filter (\<lambda>p. pe_workspace_id p = workspace_id
          \<and> pe_content_item_id p = content_item_id \<and> pe_platform p = normalized_platform) eligibility))) (\<lambda>r.
        case r of
          None \<Rightarrow> blocked ''eligibility_missing''
        | Some row \<Rightarrow> publishable_row eligibility workspace_id content_item_id normalized_platform row))"

section \<open>The controls\<close>

text \<open>
  What publication requires, written without the order of the checks: a row for the item and
  the platform, an approved gate of this very item that binds to its current version, the
  disclosure, the rights attestation, and a fingerprint no other item has on the platform.
\<close>

definition gate_covers :: "session \<Rightarrow> uuid \<Rightarrow> uuid \<Rightarrow> review_gate \<Rightarrow> bool" where
  "gate_covers s workspace_id content_item_id gate \<longleftrightarrow>
     gate_workspace_id gate = workspace_id \<and> gate_status gate = GateApproved
     \<and> (\<exists>run. find_run s (gate_pipeline_run_id gate) = Some run \<and> run_workspace_id run = workspace_id
          \<and> run_content_item_id run = content_item_id)
     \<and> (\<exists>item version. find_row ci_id content_item_id (items s) = Some item \<and> ci_workspace_id item = workspace_id
          \<and> ci_current_version_id item = Some version \<and> gate_content_version_id gate = Some version)"

definition attested :: "publication_eligibility \<Rightarrow> bool" where
  "attested row \<longleftrightarrow> pe_synthetic_media_disclosed row \<and> pe_rights_confirmed_by row \<noteq> None \<and> pe_rights_confirmed_at row \<noteq> None"

definition original :: "publication_eligibility list \<Rightarrow> publication_eligibility \<Rightarrow> bool" where
  "original eligibility row \<longleftrightarrow> (\<exists>fp. pe_originality_fingerprint row = Some fp \<and> fp \<noteq> []
     \<and> (\<forall>p \<in> set eligibility. pe_workspace_id p = pe_workspace_id row \<and> pe_platform p = pe_platform row
          \<and> pe_originality_fingerprint p = Some fp \<longrightarrow> pe_content_item_id p = pe_content_item_id row))"

definition one_row_each :: "publication_eligibility list \<Rightarrow> bool" where
  \<comment> \<open>the unique constraint on item and platform\<close>
  "one_row_each eligibility \<longleftrightarrow> distinct (map (\<lambda>p. (pe_content_item_id p, pe_platform p)) eligibility)"

lemma eligibility_row:
  assumes "one_row_each rows"
  shows "scalar_one_or_none (filter (\<lambda>p. pe_workspace_id p = ws \<and> pe_content_item_id p = it \<and> pe_platform p = pf) rows)
    = Inr (find_row (\<lambda>p. (pe_content_item_id p, pe_platform p)) (it, pf) (filter (\<lambda>p. pe_workspace_id p = ws) rows))"
proof -
  have "filter (\<lambda>p. pe_workspace_id p = ws \<and> pe_content_item_id p = it \<and> pe_platform p = pf) rows
    = filter (\<lambda>p. (pe_content_item_id p, pe_platform p) = (it, pf)) (filter (\<lambda>p. pe_workspace_id p = ws) rows)"
    by (simp add: conj_commute)
  moreover have "distinct (map (\<lambda>p. (pe_content_item_id p, pe_platform p)) (filter (\<lambda>p. pe_workspace_id p = ws) rows))"
    using assms unfolding one_row_each_def by (rule distinct_map_filter)
  ultimately show ?thesis by (simp only: scalar_find_row)
qed

lemma approved_gate_reads: "state_after (approved_gate ws it row) s = s"
  by (simp add: approved_gate_def split: option.split)

lemma approved_gate_Inr:
  "approved_gate ws it row s = (s, Inr gate) \<longleftrightarrow> (\<exists>gid. pe_review_gate_id row = Some gid \<and> find_gate s gid = Some gate)
    \<and> gate_workspace_id gate = ws \<and> gate_status gate = GateApproved
    \<and> (\<exists>run. find_run s (gate_pipeline_run_id gate) = Some run \<and> run_workspace_id run = ws \<and> run_content_item_id run = it)"
  by (auto simp: approved_gate_def split: option.split)


definition cleared :: "publication_eligibility list \<Rightarrow> uuid \<Rightarrow> uuid \<Rightarrow> string \<Rightarrow> session \<Rightarrow> publication_eligibility \<Rightarrow> review_gate \<Rightarrow> bool" where
  "cleared eligibility ws it pf s row gate \<longleftrightarrow> row \<in> set eligibility \<and> pe_workspace_id row = ws \<and> pe_content_item_id row = it
     \<and> pe_platform row = pf \<and> attested row \<and> original eligibility row
     \<and> pe_review_gate_id row = Some (gate_id gate) \<and> find_gate s (gate_id gate) = Some gate \<and> gate_covers s ws it gate"

lemma find_in_workspace:
  "find_row (\<lambda>p. (pe_content_item_id p, pe_platform p)) (it, pf) (filter (\<lambda>p. pe_workspace_id p = ws) rows) = Some row \<Longrightarrow>
    row \<in> set rows \<and> pe_workspace_id row = ws \<and> pe_content_item_id row = it \<and> pe_platform row = pf"
  by (auto dest!: find_row_SomeD)

lemma cleared_row:
  assumes "one_row_each rows" and "cleared rows ws it pf s row gate"
  shows "find_row (\<lambda>p. (pe_content_item_id p, pe_platform p)) (it, pf) (filter (\<lambda>p. pe_workspace_id p = ws) rows) = Some row"
proof -
  have "distinct (map (\<lambda>p. (pe_content_item_id p, pe_platform p)) (filter (\<lambda>p. pe_workspace_id p = ws) rows))"
    using assms(1) unfolding one_row_each_def by (rule distinct_map_filter)
  from find_row_mem [OF this, of row] assms(2) show ?thesis by (simp add: cleared_def)
qed

lemma original_iff:
  assumes "row \<in> set rows" and "pe_workspace_id row = ws" and "pe_platform row = pf" and "pe_content_item_id row = it"
  shows "original rows row \<longleftrightarrow> \<not> (pe_originality_fingerprint row = None \<or> pe_originality_fingerprint row = Some [])
    \<and> filter (\<lambda>p. pe_workspace_id p = ws \<and> pe_platform p = pf
         \<and> pe_originality_fingerprint p = pe_originality_fingerprint row \<and> pe_content_item_id p \<noteq> it) rows = []"
proof (cases "pe_originality_fingerprint row")
  case (Some fp)
  show ?thesis unfolding original_def filter_empty_conv Some assms(2-4) by (cases "fp = []") (simp, simp, blast)
qed (simp add: original_def)

lemma publishable_row_Inr:
  assumes "row \<in> set rows" and "pe_workspace_id row = ws" and "pe_platform row = pf" and "pe_content_item_id row = it"
  shows "publishable_row rows ws it pf row s = (s, Inr d) \<longleftrightarrow> (\<exists>gate. cleared rows ws it pf s row gate \<and> d = decision_for it pf row gate)"
proof (cases "snd (approved_gate ws it row s)")
  case (Inl e)
  then have no: "approved_gate ws it row s = (s, Inl e)" using approved_gate_reads [of ws it row s] by (metis prod.collapse)
  have "\<not> cleared rows ws it pf s row gate" for gate
    using no approved_gate_Inr [of ws it row s gate] by (auto simp: cleared_def gate_covers_def)
  with no show ?thesis by (simp add: publishable_row_def bindE_Inl)
next
  case (Inr gate)
  then have ok: "approved_gate ws it row s = (s, Inr gate)" using approved_gate_reads [of ws it row s] by (metis prod.collapse)
  have g: "pe_review_gate_id row = Some (gate_id gate)" "find_gate s (gate_id gate) = Some gate"
      "gate_workspace_id gate = ws" "gate_status gate = GateApproved"
      "\<exists>run. find_run s (gate_pipeline_run_id gate) = Some run \<and> run_workspace_id run = ws \<and> run_content_item_id run = it"
    using ok [THEN approved_gate_Inr [THEN iffD1]] by (auto dest: find_row_SomeD)
  have only: "cleared rows ws it pf s row h \<Longrightarrow> h = gate" for h using g(1,2) by (auto simp: cleared_def)
  have "publishable_row rows ws it pf row s = (s, Inr d) \<longleftrightarrow> cleared rows ws it pf s row gate \<and> d = decision_for it pf row gate"
    unfolding publishable_row_def bindE_Inr [where m = "approved_gate ws it row", OF ok] bindE_gets
    by (cases "find_row ci_id it (items s)")
      (auto simp: cleared_def gate_covers_def attested_def assms g original_iff [OF assms])
  with only show ?thesis by blast
qed

lemma publishable_row_closed:
  "\<exists>r. publishable_row rows ws it pf row s = (s, r) \<and> (\<forall>e. r = Inl e \<longrightarrow> (\<exists>code. e = PublicationBlocked code))"
proof (cases "snd (approved_gate ws it row s)")
  case (Inl e)
  then have no: "approved_gate ws it row s = (s, Inl e)" using approved_gate_reads [of ws it row s] by (metis prod.collapse)
  then have "\<exists>code. e = PublicationBlocked code"
    by (auto simp: approved_gate_def split: option.splits if_splits)
  then show ?thesis by (simp add: publishable_row_def bindE_Inl [where m = "approved_gate ws it row", OF no])
next
  case (Inr gate)
  then have ok: "approved_gate ws it row s = (s, Inr gate)" using approved_gate_reads [of ws it row s] by (metis prod.collapse)
  show ?thesis unfolding publishable_row_def bindE_Inr [where m = "approved_gate ws it row", OF ok] bindE_gets
    by (cases "find_row ci_id it (items s)") auto
qed

lemma publishable_iff_cleared:
  assumes "one_row_each rows"
  shows "let pf = lower (py_strip platform) in
    (assert_publishable rows ws it platform s = (s, Inr d) \<longleftrightarrow>
       pf \<in> set SUPPORTED_PLATFORMS \<and> (\<exists>row gate. cleared rows ws it pf s row gate \<and> d = decision_for it pf row gate))
    \<and> (\<exists>r. assert_publishable rows ws it platform s = (s, r) \<and> (\<forall>e. r = Inl e \<longrightarrow> (\<exists>code. e = PublicationBlocked code)))"
proof -
  define pf where "pf = lower (py_strip platform)"
  let ?row = "find_row (\<lambda>p. (pe_content_item_id p, pe_platform p)) (it, pf) (filter (\<lambda>p. pe_workspace_id p = ws) rows)"
  have run: "assert_publishable rows ws it platform s =
      (if pf \<notin> set SUPPORTED_PLATFORMS then (s, Inl (PublicationBlocked ''unsupported_platform''))
       else case ?row of None \<Rightarrow> (s, Inl (PublicationBlocked ''eligibility_missing'')) | Some row \<Rightarrow> publishable_row rows ws it pf row s)"
    unfolding assert_publishable_def Let_def pf_def [symmetric] eligibility_row [OF assms] by (simp split: option.split)
  have row: "publishable_row rows ws it pf row s = (s, Inr d) \<longleftrightarrow> (\<exists>gate. cleared rows ws it pf s row gate \<and> d = decision_for it pf row gate)"
    if "?row = Some row" for row using find_in_workspace [OF that] by (intro publishable_row_Inr) auto
  have only: "cleared rows ws it pf s row gate \<Longrightarrow> ?row = Some row" for row gate by (rule cleared_row [OF assms])
  have "assert_publishable rows ws it platform s = (s, Inr d) \<longleftrightarrow>
      pf \<in> set SUPPORTED_PLATFORMS \<and> (\<exists>row gate. cleared rows ws it pf s row gate \<and> d = decision_for it pf row gate)"
  proof (cases ?row)
    case None
    with only have "\<not> cleared rows ws it pf s row gate" for row gate by fastforce
    with None show ?thesis by (simp add: run)
  next
    case (Some r)
    with only have "cleared rows ws it pf s row gate \<Longrightarrow> row = r" for row gate by fastforce
    then have "(\<exists>row gate. cleared rows ws it pf s row gate \<and> d = decision_for it pf row gate) \<longleftrightarrow>
      (\<exists>gate. cleared rows ws it pf s r gate \<and> d = decision_for it pf r gate)" by blast
    with row [OF Some] show ?thesis by (simp add: run Some)
  qed
  moreover have "\<exists>r. assert_publishable rows ws it platform s = (s, r) \<and> (\<forall>e. r = Inl e \<longrightarrow> (\<exists>code. e = PublicationBlocked code))"
    unfolding run using publishable_row_closed by (cases ?row) auto
  ultimately show ?thesis by (simp add: pf_def)
qed

lemma publishable_cleared:
  assumes "one_row_each rows" and "assert_publishable rows ws it platform s = (s, Inr d)"
  obtains row gate where "cleared rows ws it (lower (py_strip platform)) s row gate" "d = decision_for it (lower (py_strip platform)) row gate"
  using publishable_iff_cleared [OF assms(1), of platform ws it s d] assms(2) by (auto simp: Let_def)

text \<open>
  C14: an item is publishable on a platform exactly when every control is met (a supported
  platform, an eligibility row, an approved gate of this very item bound to its current
  version, the disclosure, the rights attestation, a fingerprint of its own), the decision
  names that row and that gate, and in every other case the answer is a refusal; the check
  changes nothing.
\<close>

theorem publishable_exactly_when_cleared:
  assumes "one_row_each rows"
  shows "let pf = lower (py_strip platform) in
    (assert_publishable rows ws it platform s = (s, Inr d) \<longleftrightarrow>
       pf \<in> set SUPPORTED_PLATFORMS \<and> (\<exists>row gate. cleared rows ws it pf s row gate \<and> d = decision_for it pf row gate))
    \<and> (\<exists>r. assert_publishable rows ws it platform s = (s, r) \<and> (\<forall>e. r = Inl e \<longrightarrow> (\<exists>code. e = PublicationBlocked code)))"
  by (rule publishable_iff_cleared [OF assms])

section \<open>Fingerprints\<close>

text \<open>
  The fingerprint depends on the words of each part and not on their case or layout. Two
  scripts that divide the same words differently between the parts can still have different
  fingerprints: an empty part in the middle leaves a second space.
\<close>

definition words_of :: "string option \<Rightarrow> string list" where
  "words_of part = py_split (lower (case part of None \<Rightarrow> [] | Some p \<Rightarrow> p))"

lemma normalize_words: "map words_of ps = map words_of qs \<Longrightarrow> normalize_script ps = normalize_script qs"
proof -
  have "normalize_script ps = py_strip (join '' '' (map (join '' '') (map words_of ps)))" for ps
    by (simp add: normalize_script_def words_of_def collapse_def comp_def)
  then show "map words_of ps = map words_of qs \<Longrightarrow> normalize_script ps = normalize_script qs"
    by (simp only:)
qed

lemma split_points_matter:
  "concat (map words_of [Some ''hook'', Some ''body'', None]) = concat (map words_of [Some ''hook'', None, Some ''body''])
   \<and> normalize_script [Some ''hook'', Some ''body'', None] \<noteq> normalize_script [Some ''hook'', None, Some ''body'']"
  by code_simp

section \<open>Example\<close>

definition published_sample :: session where
  "published_sample = (gate_sample RunSucceeded)\<lparr>gates := [sample_gate\<lparr>gate_status := GateApproved\<rparr>]\<rparr>"

definition sample_eligibility :: publication_eligibility where
  "sample_eligibility = \<lparr>pe_id = 95, pe_workspace_id = 1, pe_content_item_id = ci_id sample_item, pe_platform = ''youtube'',
     pe_synthetic_media_disclosed = True, pe_rights_confirmed_by = Some 5, pe_rights_confirmed_at = Some 0,
     pe_originality_fingerprint = Some ''f1'', pe_review_gate_id = Some (gate_id sample_gate)\<rparr>"

lemma one_row_sample: "one_row_each [sample_eligibility]"
  by (simp add: one_row_each_def)

theorem publishable_exactly_when_cleared_witness:
  "assert_publishable [sample_eligibility] 1 (ci_id sample_item) '' YouTube '' published_sample
     = (published_sample, Inr (decision_for (ci_id sample_item) ''youtube'' sample_eligibility (hd (gates published_sample))))"
proof -
  have pf: "lower (py_strip '' YouTube '') = ''youtube''" by code_simp
  have "cleared [sample_eligibility] 1 (ci_id sample_item) ''youtube'' published_sample sample_eligibility (hd (gates published_sample))"
    by (simp add: cleared_def sample_eligibility_def attested_def original_def gate_covers_def published_sample_def
        wf_sample_defs sample_run_def)
  then show ?thesis
    using publishable_exactly_when_cleared [OF one_row_sample, of "'' YouTube ''" 1 "ci_id sample_item" published_sample]
    by (auto simp: Let_def pf SUPPORTED_PLATFORMS_def)
qed

end
