(* ===== verification/DeskApi.thy ===== *)
theory DeskApi
  imports Decisions Billing WorkerApi Publication
begin

text \<open>
  The routes of the content desk (\<open>routes/content_jobs.py\<close>, \<open>routes/review_gates.py\<close>,
  \<open>schemas/content_desk.py\<close>) on the state behind the API: the guard, the validation of the body,
  the service call and the answer to each exception, in the one session of the request, which
  commits when the route returns and rolls back when it raises. The lemmas say what a request may
  do to the session and who can put a verdict in the log.
\<close>

section \<open>Requests\<close>

record content_job_create =
  cc_topic :: string
  cc_script_hook :: "string option"
  cc_script_body :: "string option"
  cc_script_cta :: "string option"
  cc_target_length_seconds :: "int option"
  cc_idempotency_key :: "string option"

record review_gate_edit_in =
  re_script_hook :: "string option"
  re_script_body :: "string option"
  re_script_cta :: "string option"
  re_expected_content_version_id :: uuid

record review_decision_in =
  ri_approved :: bool
  ri_notes :: "string option"
  ri_expected_content_version_id :: "uuid option"

definition at_most :: "nat \<Rightarrow> string option \<Rightarrow> bool" where
  \<comment> \<open>\<open>Field(max_length=n)\<close> on an optional string\<close>
  "at_most n x = (case x of None \<Rightarrow> True | Some a \<Rightarrow> length a \<le> n)"

definition valid_job :: "content_job_create \<Rightarrow> bool" where
  "valid_job p \<longleftrightarrow> 1 \<le> length (cc_topic p) \<and> length (cc_topic p) \<le> 500 \<and> at_most 2000 (cc_script_hook p)
     \<and> at_most 50000 (cc_script_body p) \<and> at_most 2000 (cc_script_cta p)
     \<and> (case cc_target_length_seconds p of None \<Rightarrow> True | Some n \<Rightarrow> 1 \<le> n \<and> n \<le> 3600)
     \<and> at_most 200 (cc_idempotency_key p) \<and> cc_idempotency_key p \<noteq> Some []"

definition valid_edit :: "review_gate_edit_in \<Rightarrow> bool" where
  "valid_edit p \<longleftrightarrow> at_most 2000 (re_script_hook p) \<and> at_most 50000 (re_script_body p) \<and> at_most 2000 (re_script_cta p)
     \<and> \<not> (re_script_hook p = None \<and> re_script_body p = None \<and> re_script_cta p = None)"

definition valid_decision :: "review_decision_in \<Rightarrow> bool" where
  "valid_decision p \<longleftrightarrow> at_most 5000 (ri_notes p) \<and> \<not> (ri_approved p \<and> ri_expected_content_version_id p = None)"

section \<open>Routes\<close>

definition content_job_http_error :: "py_error \<Rightarrow> py_error" where
  "content_job_http_error e =
     (case e of
        BillingError _ msg \<Rightarrow> HTTPException 402 msg
      | IntegrityError _ \<Rightarrow> HTTPException 409 ''content job conflicts with an existing idempotency key''
      | SpendBudgetExceededError \<Rightarrow> HTTPException 402 ''workspace spend cap exceeded; pipeline run paused on spend_hold''
      | ValueError msg \<Rightarrow> HTTPException 422 msg
      | RuntimeError msg \<Rightarrow> HTTPException 500 msg
      | _ \<Rightarrow> e)"

definition to_job_request :: "content_job_create \<Rightarrow> job_request" where
  "to_job_request p = \<lparr>jr_topic = py_strip (cc_topic p),
     jr_script_body = (case cc_script_body p of None \<Rightarrow> [] | Some b \<Rightarrow> b), jr_script_hook = cc_script_hook p,
     jr_script_cta = cc_script_cta p, jr_target_length_seconds = cc_target_length_seconds p,
     jr_idempotency_key = cc_idempotency_key p\<rparr>"

definition require_entitlement :: "billing_db \<Rightarrow> uuid \<Rightarrow> unit endpoint" where
  \<comment> \<open>the billing tables are read only here\<close>
  "require_entitlement bl workspace_id =
     bindE (gets (\<lambda>s. get_settings (db s))) (\<lambda>st.
     if billing_enabled st then liftE (result_of (require_entitlement_for_workspace workspace_id) (bl\<lparr>bl_settings := st\<rparr>))
     else ret ())"

definition create_job_route :: "billing_db \<Rightarrow> string \<Rightarrow> uuid \<Rightarrow> content_job_create \<Rightarrow> content_job_result endpoint" where
  "create_job_route bl user workspace_id payload =
     transaction (bindE (require_workspace_content_author workspace_id user) (\<lambda>_.
       validated (valid_job payload)
         (try_except
           (bindE (require_entitlement bl workspace_id) (\<lambda>_. in_db (create_content_job workspace_id (to_job_request payload))))
           (\<lambda>e. raise (content_job_http_error e)))))"

definition gate_http_error :: "py_error \<Rightarrow> py_error" where
  "gate_http_error e =
     (case e of
        ReviewGateNotFoundError \<Rightarrow> HTTPException 404 ''review gate not found''
      | ValueError msg \<Rightarrow> HTTPException 409 msg
      | ReviewGateDeliveryError \<Rightarrow> HTTPException 503 ''review decision could not be applied; retry safely''
      | _ \<Rightarrow> e)"

definition list_gates_route :: "string \<Rightarrow> uuid \<Rightarrow> string option \<Rightarrow> nat option \<Rightarrow> gate_row list endpoint" where
  "list_gates_route user workspace_id status_filter limit =
     transaction (bindE (require_workspace_member workspace_id user) (\<lambda>_.
       validated (case limit of None \<Rightarrow> True | Some n \<Rightarrow> 1 \<le> n \<and> n \<le> 200)
         (if status_filter \<noteq> None \<and> status_filter \<noteq> Some ''all'' \<and> gate_status_of (the status_filter) = None
          then raise (HTTPException 422 ''status must be one of: approved, awaiting, escalated, rejected, timed_out, all'')
          else in_db (list_review_gates workspace_id (if status_filter = Some ''all'' then None else status_filter) limit))))"

definition get_gate_route :: "string \<Rightarrow> uuid \<Rightarrow> uuid \<Rightarrow> gate_row endpoint" where
  "get_gate_route user workspace_id gid =
     transaction (bindE (require_workspace_member workspace_id user) (\<lambda>_.
       bindE (in_db (get_review_gate workspace_id gid)) (\<lambda>row.
       case row of None \<Rightarrow> raise (HTTPException 404 ''review gate not found'') | Some r \<Rightarrow> ret r)))"

definition edit_gate_route :: "string \<Rightarrow> uuid \<Rightarrow> uuid \<Rightarrow> review_gate_edit_in \<Rightarrow> gate_row endpoint" where
  "edit_gate_route user workspace_id gid payload =
     transaction (bindE (require_workspace_content_author workspace_id user) (\<lambda>_.
       validated (valid_edit payload)
         (try_except
           (in_db (edit_review_gate_content workspace_id gid (re_expected_content_version_id payload)
              (re_script_hook payload) (re_script_body payload) (re_script_cta payload)))
           (\<lambda>e. raise (gate_http_error e)))))"

definition decide_gate_route :: "string \<Rightarrow> uuid \<Rightarrow> uuid \<Rightarrow> review_decision_in \<Rightarrow> gate_row endpoint" where
  "decide_gate_route user workspace_id gid payload =
     transaction (bindE (require_workspace_reviewer workspace_id user) (\<lambda>_.
       validated (valid_decision payload)
         (try_except
           (bindE (liftE (uuid_of_str user)) (\<lambda>reviewer_id.
            in_db (decide_review_gate workspace_id gid reviewer_id (ri_approved payload)
              (ri_expected_content_version_id payload) (ri_notes payload))))
           (\<lambda>e. raise (gate_http_error e)))))"

section \<open>What a request may do\<close>

context fleet_frame
begin

lemma lifts_core: "api_core (\<lambda>s t. R (db s) (db t)) R"
  by (rule api_frame.axioms(1) [OF lifts])

lemmas route_rules = api_core.api_rules [OF lifts_core] api_core.eff_guards [OF lifts_core]

lemma eff_validated: "effects (\<lambda>s t. R (db s) (db t)) m \<Longrightarrow> effects (\<lambda>s t. R (db s) (db t)) (validated ok m)"
  unfolding validated_def by (intro route_rules)

end

context author_frame
begin

lemma eff_create_job_route: "effects (\<lambda>s t. R (db s) (db t)) (create_job_route bl u ws p)"
  unfolding create_job_route_def require_entitlement_def require_workspace_content_author_def
  by (intro route_rules eff_validated eff_create_content_job)

lemma eff_edit_gate_route: "effects (\<lambda>s t. R (db s) (db t)) (edit_gate_route u ws gid p)"
  unfolding edit_gate_route_def require_workspace_content_author_def by (intro route_rules eff_validated eff_edit)

end

context desk_frame
begin

lemma eff_decide_gate_route: "effects (\<lambda>s t. R (db s) (db t)) (decide_gate_route u ws gid p)"
  unfolding decide_gate_route_def require_workspace_reviewer_def
  by (intro route_rules eff_validated eff_decide_review_gate)

end

section \<open>Who can put a verdict in the log\<close>

definition verdict_log :: "session \<Rightarrow> (string \<times> json_obj) list" where
  "verdict_log s = map (\<lambda>e. (ev_event_type e, ev_payload e)) (filter (\<lambda>e. \<not> engine_event (ev_event_type e)) (outbox s))"

definition same_verdicts :: "session \<Rightarrow> session \<Rightarrow> bool" where
  "same_verdicts s t \<longleftrightarrow> verdict_log t = verdict_log s"

lemma same_verdicts_cong: "outbox t = outbox s \<Longrightarrow> same_verdicts s t"
  by (simp add: same_verdicts_def verdict_log_def)

lemma verdict_log_mark:
  assumes "\<And>e. ev_ident (f e) = ev_ident e"
  shows "same_verdicts s (outbox_update (upd_row ev_event_id k f) s)"
proof -
  have "ev_event_type (f e) = ev_event_type e" "ev_payload (f e) = ev_payload e" for e using assms [of e] by (simp_all add: ev_ident_def)
  then have "map (\<lambda>e. (ev_event_type e, ev_payload e)) (filter (\<lambda>e. \<not> engine_event (ev_event_type e)) (upd_row ev_event_id k f es))
    = map (\<lambda>e. (ev_event_type e, ev_payload e)) (filter (\<lambda>e. \<not> engine_event (ev_event_type e)) es)" for es
    by (induction es) auto
  then show ?thesis by (simp add: same_verdicts_def verdict_log_def)
qed

interpretation same: core_frame same_verdicts
  by unfold_locales (auto simp: same_verdicts_def verdict_log_def)

lemma same_gates: "effects same_verdicts (modify (gates_update f))"
  by (rule same.eff_modify) (simp add: same_verdicts_cong)

lemma same_pause: "effects same_verdicts (pause_for_review uf rid st n)"
  unfolding pause_for_review_def gate_insert_def Let_def by (intro same.run_rules same_gates)

interpretation same: fleet_frame same_verdicts
proof unfold_locales
  show "effects same_verdicts (pause_for_review uf rid st n)" for uf rid st n by (rule same_pause)
  show "effects same_verdicts (handle_review_timeout gid)" for gid
    unfolding handle_review_timeout_def Let_def by (intro same.run_rules same_gates)
  show "same_verdicts s (state_after (resume_from_review gid ok) s)" for s gid ok
    unfolding resume_from_review_def advance_or_finish_def Let_def
    by (rule effectsD) (intro same.run_rules same_gates same_pause)
  show "same_verdicts s (outbox_update (upd_row ev_event_id k f) s)" if "\<And>e. ev_ident (f e) = ev_ident e" for s k f
    using that by (rule verdict_log_mark)
qed (simp_all add: same_verdicts_cong)

lemma same_edit: "effects same_verdicts (edit_review_gate_content ws gid v hook body cta)"
  unfolding edit_review_gate_content_def open_gate_def add_version_def get_review_gate_def
  by (intro same.run_rules same_gates)

interpretation same: author_frame same_verdicts
  by unfold_locales (simp_all add: same_verdicts_cong same_edit)

lemma guard_reviewer:
  assumes "require_workspace_reviewer ws user s = (t, Inr m)"
  shows "t = s \<and> m \<in> set (memberships s) \<and> wm_workspace_id m = ws \<and> uuid_of_str user = Inr (wm_user_id m) \<and> wm_role m \<in> {ADMIN, REVIEWER}"
proof -
  from assms obtain uid where u: "uuid_of_str user = Inr uid"
      "filter (\<lambda>m. wm_workspace_id m = ws \<and> wm_user_id m = uid) (memberships s) = [m]" and "t = s" "wm_role m \<in> {ADMIN, REVIEWER}"
    by (auto simp: require_workspace_reviewer_def require_workspace_role_def get_membership_def scalar_one_or_none_Some
        split: sum.splits option.splits if_splits)
  have "m \<in> set [m]" by simp
  then have "m \<in> set (memberships s) \<and> wm_workspace_id m = ws \<and> wm_user_id m = uid" unfolding u(2) [symmetric] by simp
  with u(1) \<open>t = s\<close> \<open>wm_role m \<in> {ADMIN, REVIEWER}\<close> show ?thesis by simp
qed

text \<open>What stands behind an accepted decision: the role, the body, and the service's decision.\<close>

lemma decide_route_accepted:
  assumes "decide_gate_route user ws gid p s = (t, Inr row)"
  obtains m where "m \<in> set (memberships s)" "wm_workspace_id m = ws" "uuid_of_str user = Inr (wm_user_id m)" "wm_role m \<in> {ADMIN, REVIEWER}"
    "valid_decision p" "memberships t = memberships s"
    "decide_review_gate ws gid (wm_user_id m) (ri_approved p) (ri_expected_content_version_id p) (ri_notes p) (db s) = (db t, Inr row)"
proof -
  from assms [unfolded decide_gate_route_def transaction_Inr] obtain m s1 where
    g: "require_workspace_reviewer ws user s = (s1, Inr m)"
    and h: "validated (valid_decision p) (try_except (bindE (liftE (uuid_of_str user)) (\<lambda>reviewer_id.
        in_db (decide_review_gate ws gid reviewer_id (ri_approved p) (ri_expected_content_version_id p) (ri_notes p))))
        (\<lambda>e. raise (gate_http_error e))) s1 = (t, Inr row)"
    by (rule bindE_eq_InrD)
  note m = guard_reviewer [OF g]
  have "valid_decision p" using h by (auto simp: validated_def split: if_splits)
  moreover have "decide_review_gate ws gid (wm_user_id m) (ri_approved p) (ri_expected_content_version_id p) (ri_notes p) (db s) = (db t, Inr row)"
      "memberships t = memberships s"
    using h m by (auto simp: validated_def try_except_def prod_eq_iff split: if_splits sum.splits prod.splits)
  ultimately show thesis using m that by blast
qed

lemma route_verdict:
  assumes "decide_gate_route user ws gid p s = (t, Inr row)"
  shows "\<exists>k. verdict_log (db t) = verdict_log (db s) @ [(verdict_event (ri_approved p),
      [(''review_gate_id'', JStr (uuid_str gid)), (''decision_id'', JStr (uuid_str k))])]"
proof -
  from assms obtain m :: workspace_membership where "decide_review_gate ws gid (wm_user_id m) (ri_approved p) (ri_expected_content_version_id p) (ri_notes p) (db s) = (db t, Inr row)"
    by (rule decide_route_accepted) blast
  then obtain ev t1 where h: "submit_review_decision gid (wm_user_id m) (ri_approved p) (ri_notes p) (db s) = (t1, Inr ev)"
    "dispatch_one (register_all []) (ev_event_id ev) t1 = (db t, Inr ())" by (rule decide_open)
  have "t1 \<noteq> db s" using h(1) by (auto simp: submit_review_decision_def emit_apply bindE_the_row split: option.splits if_splits dest: arg_cong [of _ _ outbox])
  with submit_decision_state [of gid "wm_user_id m" "ri_approved p" "ri_notes p" "db s"] h(1) obtain e :: outbox_event and d :: review_decision where
    "outbox t1 = outbox (db s) @ [e]" "ev_event_type e = verdict_event (ri_approved p)"
    "ev_payload e = [(''review_gate_id'', JStr (uuid_str gid)), (''decision_id'', JStr (uuid_str (rd_id d)))]"
    by (auto simp: Let_def)
  then have "verdict_log t1 = verdict_log (db s) @ [(verdict_event (ri_approved p),
      [(''review_gate_id'', JStr (uuid_str gid)), (''decision_id'', JStr (uuid_str (rd_id d)))])]"
    by (cases "ri_approved p") (auto simp: verdict_log_def engine_event_def)
  moreover have "same_verdicts t1 (db t)" by (rule effects_result [OF same.eff_deliver_verdict h(2)])
  ultimately show ?thesis by (auto simp: same_verdicts_def)
qed

end
