(* ===== verification/Leases.thy ===== *)
theory Leases
  imports PyLib
begin

text \<open>
  The durable leases of the automation loops (\<open>automation.py\<close>: claiming, renewing, releasing,
  recording the outcome of a tick, and the health report). The table is one row per loop; the
  operations are each one transaction with the row locked, so they act on the table one at a
  time. The lemmas show that the table implements a lock with expiry, that replicas which
  act only within the lease they were granted exclude one another, and that heartbeats at
  the code's interval keep a lease for as long as a tick runs.
\<close>

section \<open>The lease table\<close>

record automation_lease =
  al_loop_name :: string
  al_owner_id :: "string option"
  al_owner_started_at :: "datetime option"
  al_lease_expires_at :: "datetime option"
  al_last_heartbeat_at :: "datetime option"
  al_last_ok_at :: "datetime option"
  al_last_error :: "string option"
  al_tick_count :: int
  al_work_count :: int

type_synonym lease_table = "automation_lease list"
type_synonym 'a lease_op = "(lease_table, 'a) py"

definition AUTOMATION_LOOP_NAMES :: "string list" where
  "AUTOMATION_LOOP_NAMES = [''maintenance'', ''outbox_relay'', ''scheduler'']"

definition replica_owner_id :: "string \<Rightarrow> string \<Rightarrow> nat \<Rightarrow> string" where
  "replica_owner_id configured_owner_id hostname pid = configured_owner_id @ ''@'' @ hostname @ '':'' @ nat_str pid"

definition lease_seconds_for :: "rat \<Rightarrow> int" where
  \<comment> \<open>\<open>_lease_seconds\<close>\<close>
  "lease_seconds_for interval_seconds = max 5 \<lceil>interval_seconds * 4\<rceil>"

abbreviation find_lease :: "lease_table \<Rightarrow> string \<Rightarrow> automation_lease option" where
  "find_lease ls l \<equiv> find_row al_loop_name l ls"

abbreviation set_lease :: "string \<Rightarrow> (automation_lease \<Rightarrow> automation_lease) \<Rightarrow> unit lease_op" where
  "set_lease l f \<equiv> modify (upd_row al_loop_name l f)"

definition held_by_other :: "automation_lease \<Rightarrow> string \<Rightarrow> datetime \<Rightarrow> bool" where
  "held_by_other row owner_id now \<longleftrightarrow>
     (case al_owner_id row of None \<Rightarrow> False | Some o' \<Rightarrow> o' \<noteq> [] \<and> o' \<noteq> owner_id)
     \<and> (case al_lease_expires_at row of None \<Rightarrow> False | Some d \<Rightarrow> now < d)"

definition try_claim_automation_loop :: "string \<Rightarrow> string \<Rightarrow> int \<Rightarrow> datetime \<Rightarrow> bool lease_op" where
  "try_claim_automation_loop loop_name owner_id lease_seconds now =
     bindE (gets (\<lambda>ls. find_lease ls loop_name)) (\<lambda>row.
     case row of
       None \<Rightarrow> raise (ValueError (''automation loop '' @ [CHR 0x27] @ loop_name @ [CHR 0x27]
         @ '' missing from automation_leases''))
     | Some r \<Rightarrow>
         if held_by_other r owner_id now then ret False
         else
           bindE (whenE (al_owner_id r \<noteq> Some owner_id)
             (set_lease loop_name (\<lambda>x. x\<lparr>al_owner_started_at := Some now\<rparr>))) (\<lambda>_.
           bindE (set_lease loop_name (\<lambda>x. x\<lparr>al_owner_id := Some owner_id, al_last_heartbeat_at := Some now,
              al_lease_expires_at := Some (now + seconds lease_seconds)\<rparr>)) (\<lambda>_.
           ret True)))"

definition owned_now :: "automation_lease option \<Rightarrow> string \<Rightarrow> datetime \<Rightarrow> bool" where
  \<comment> \<open>the row exists, is this owner's and its lease is running\<close>
  "owned_now row owner_id now \<longleftrightarrow>
     (case row of None \<Rightarrow> False
      | Some r \<Rightarrow> al_owner_id r = Some owner_id
          \<and> (case al_lease_expires_at r of None \<Rightarrow> False | Some d \<Rightarrow> now < d))"

definition renew_owned_automation_loop :: "string \<Rightarrow> string \<Rightarrow> int \<Rightarrow> datetime \<Rightarrow> bool lease_op" where
  "renew_owned_automation_loop loop_name owner_id lease_seconds now =
     bindE (gets (\<lambda>ls. find_lease ls loop_name)) (\<lambda>row.
     if \<not> owned_now row owner_id now then ret False
     else
       bindE (set_lease loop_name (\<lambda>x. x\<lparr>al_last_heartbeat_at := Some now,
          al_lease_expires_at := Some (now + seconds lease_seconds)\<rparr>)) (\<lambda>_.
       ret True))"

definition release_owned_automation_loops :: "string \<Rightarrow> datetime \<Rightarrow> unit lease_op" where
  "release_owned_automation_loops owner_id now =
     modify (map (\<lambda>x. if owned_now (Some x) owner_id now
       then x\<lparr>al_owner_id := None, al_owner_started_at := None, al_lease_expires_at := None,
         al_last_heartbeat_at := Some now\<rparr> else x))"

definition record_success :: "string \<Rightarrow> string \<Rightarrow> int \<Rightarrow> int \<Rightarrow> datetime \<Rightarrow> unit lease_op" where
  "record_success loop_name owner_id lease_seconds work_count now =
     bindE (gets (\<lambda>ls. find_lease ls loop_name)) (\<lambda>row.
     whenE (owned_now row owner_id now)
       (set_lease loop_name (\<lambda>x. x\<lparr>al_last_heartbeat_at := Some now,
          al_lease_expires_at := Some (now + seconds lease_seconds), al_last_ok_at := Some now,
          al_last_error := None, al_tick_count := al_tick_count x + 1,
          al_work_count := al_work_count x + work_count\<rparr>)))"

fun error_class :: "py_error \<Rightarrow> string" where
  \<comment> \<open>\<open>error.__class__.__name__\<close>\<close>
  "error_class (ValueError m) = ''ValueError''"
| "error_class (KeyError m) = ''KeyError''"
| "error_class TypeError = ''TypeError''"
| "error_class AttributeError = ''AttributeError''"
| "error_class NotImplementedError = ''NotImplementedError''"
| "error_class LookupError = ''LookupError''"
| "error_class MultipleResultsFound = ''MultipleResultsFound''"
| "error_class NoResultFound = ''NoResultFound''"
| "error_class (IntegrityError m) = ''IntegrityError''"
| "error_class LeaseNotOwned = ''LeaseNotOwned''"
| "error_class (LeaseConflict c m) = ''LeaseConflict''"
| "error_class (HTTPException n m) = ''HTTPException''"
| "error_class AutomationOwnershipLostError = ''AutomationOwnershipLostError''"
| "error_class (AutomationControlPlaneError m) = ''AutomationControlPlaneError''"
| "error_class e = ''RuntimeError''"

definition record_error :: "string \<Rightarrow> string \<Rightarrow> int \<Rightarrow> py_error \<Rightarrow> datetime \<Rightarrow> unit lease_op" where
  "record_error loop_name owner_id lease_seconds exc now =
     bindE (gets (\<lambda>ls. find_lease ls loop_name)) (\<lambda>row.
     whenE (owned_now row owner_id now)
       (set_lease loop_name (\<lambda>x. x\<lparr>al_last_heartbeat_at := Some now,
          al_lease_expires_at := Some (now + seconds lease_seconds), al_last_error := Some (error_class exc)\<rparr>)))"

section \<open>The health report\<close>

definition row_status :: "automation_lease option \<Rightarrow> datetime \<Rightarrow> string \<times> bool" where
  "row_status row now =
     (case row of
        None \<Rightarrow> (''idle'', False)
      | Some r \<Rightarrow>
          case (al_owner_id r, al_lease_expires_at r) of
            (Some _, Some d) \<Rightarrow> if d \<le> now then (''stale'', False) else (''running'', True)
          | _ \<Rightarrow> (''idle'', False))"

record loop_health =
  lh_status :: string
  lh_owner_id :: "string option"
  lh_owner_started_at :: "datetime option"
  lh_lease_expires_at :: "datetime option"
  lh_last_heartbeat_at :: "datetime option"
  lh_ticks :: int
  lh_last_ok_at :: "datetime option"
  lh_last_error :: "string option"
  lh_active :: bool
  lh_jobs_leased :: "int option"

definition loop_payload :: "automation_lease option \<Rightarrow> datetime \<Rightarrow> loop_health" where
  \<comment> \<open>times are left as times; \<open>isoformat\<close> renders them\<close>
  "loop_payload row now =
     (case row_status row now of (status, active) \<Rightarrow>
      \<lparr>lh_status = status, lh_owner_id = Option.bind row al_owner_id,
       lh_owner_started_at = Option.bind row al_owner_started_at,
       lh_lease_expires_at = Option.bind row al_lease_expires_at,
       lh_last_heartbeat_at = Option.bind row al_last_heartbeat_at,
       lh_ticks = (case row of None \<Rightarrow> 0 | Some r \<Rightarrow> al_tick_count r),
       lh_last_ok_at = Option.bind row al_last_ok_at, lh_last_error = Option.bind row al_last_error,
       lh_active = active,
       lh_jobs_leased = (case row of None \<Rightarrow> None
         | Some r \<Rightarrow> if al_loop_name r = ''scheduler'' then Some (al_work_count r) else None)\<rparr>)"

record automation_health =
  ah_status :: string
  ah_started_at :: "datetime option"
  ah_tasks_running :: "string list"
  ah_loops :: "(string \<times> loop_health) list"

definition truthy_str :: "string option \<Rightarrow> bool" where
  "truthy_str x \<longleftrightarrow> (case x of None \<Rightarrow> False | Some t \<Rightarrow> t \<noteq> [])"

definition automation_health_snapshot :: "lease_table \<Rightarrow> datetime \<Rightarrow> automation_health" where
  "automation_health_snapshot ls now =
     (let payloads = map (\<lambda>name. (name, loop_payload (find_lease ls name) now)) AUTOMATION_LOOP_NAMES;
          tasks_running = map fst (filter (\<lambda>(name, p). lh_active p) payloads);
          started = List.map_filter (\<lambda>(name, p). if lh_active p then lh_owner_started_at p else None) payloads;
          status =
            (if list_ex (\<lambda>(name, p). lh_status p = ''stale'' \<or> truthy_str (lh_last_error p)) payloads then ''degraded''
             else if tasks_running \<noteq> [] \<and> length tasks_running = length AUTOMATION_LOOP_NAMES then ''ok''
             else if tasks_running \<noteq> [] then ''degraded''
             else ''idle'')
      in \<lparr>ah_status = status, ah_started_at = (if started = [] then None else Some (Min (set started))),
          ah_tasks_running = tasks_running, ah_loops = payloads\<rparr>)"

definition public_automation_health_snapshot :: "automation_health \<Rightarrow> string \<times> datetime option \<times> string list \<times> (string \<times> string \<times> bool) list" where
  "public_automation_health_snapshot h = (ah_status h, ah_started_at h, ah_tasks_running h,
     map (\<lambda>(name, p). (name, lh_status p, lh_active p)) (ah_loops h))"

section \<open>A lock with expiry\<close>

text \<open>
  The specification: per loop, at most one holder with the time until which it holds. A
  holder may be displaced only when its time is over.
\<close>

type_synonym lock_state = "string \<Rightarrow> (string \<times> datetime) option"

definition lock_acquire :: "string \<Rightarrow> string \<Rightarrow> int \<Rightarrow> datetime \<Rightarrow> lock_state \<Rightarrow> lock_state \<times> bool" where
  "lock_acquire l p secs now L =
     (if (case L l of None \<Rightarrow> False | Some (q, d) \<Rightarrow> q \<noteq> p \<and> now < d) then (L, False)
      else (L(l \<mapsto> (p, now + seconds secs)), True))"

definition lock_renew :: "string \<Rightarrow> string \<Rightarrow> int \<Rightarrow> datetime \<Rightarrow> lock_state \<Rightarrow> lock_state \<times> bool" where
  "lock_renew l p secs now L =
     (if (case L l of None \<Rightarrow> False | Some (q, d) \<Rightarrow> q = p \<and> now < d)
      then (L(l \<mapsto> (p, now + seconds secs)), True) else (L, False))"

definition lock_release :: "string \<Rightarrow> datetime \<Rightarrow> lock_state \<Rightarrow> lock_state" where
  "lock_release p now L = (\<lambda>l. case L l of None \<Rightarrow> None
     | Some (q, d) \<Rightarrow> if q = p \<and> now < d then None else Some (q, d))"

definition lock_of_row :: "automation_lease \<Rightarrow> (string \<times> datetime) option" where
  "lock_of_row r = (case (al_owner_id r, al_lease_expires_at r) of
     (Some q, Some d) \<Rightarrow> if q = [] then None else Some (q, d) | _ \<Rightarrow> None)"

definition lock_of :: "lease_table \<Rightarrow> lock_state" where
  "lock_of ls l = Option.bind (find_lease ls l) lock_of_row"

lemma lock_of_row_iff:
  "lock_of_row r = Some (q, d) \<longleftrightarrow> al_owner_id r = Some q \<and> al_lease_expires_at r = Some d \<and> q \<noteq> []"
  by (auto simp: lock_of_row_def split: option.splits)

lemma lock_of_upd:
  assumes "\<And>x. al_loop_name (f x) = al_loop_name x" and "find_lease ls l = Some r"
  shows "lock_of (upd_row al_loop_name l f ls) = (lock_of ls)(l := lock_of_row (f r))"
  using assms by (auto simp: lock_of_def find_row_upd_row fun_eq_iff)

lemma owned_iff:
  "p \<noteq> [] \<Longrightarrow> owned_now (find_lease ls l) p now \<longleftrightarrow> (case lock_of ls l of None \<Rightarrow> False | Some (q, d) \<Rightarrow> q = p \<and> now < d)"
  by (auto simp: owned_now_def lock_of_def lock_of_row_def split: option.splits bind_splits)

lemma owned_SomeD: "owned_now row p now \<Longrightarrow> \<exists>r. row = Some r \<and> al_owner_id r = Some p"
  by (auto simp: owned_now_def split: option.splits)

lemma other_iff:
  "find_lease ls l = Some r \<Longrightarrow>
    held_by_other r p now \<longleftrightarrow> (case lock_of ls l of None \<Rightarrow> False | Some (q, d) \<Rightarrow> q \<noteq> p \<and> now < d)"
  by (auto simp: held_by_other_def lock_of_def lock_of_row_def split: option.splits)

lemma claim_refines:
  assumes "p \<noteq> []" and "find_lease ls l = Some r"
  shows "map_prod lock_of id (try_claim_automation_loop l p secs now ls) =
    map_prod id Inr (lock_acquire l p secs now (lock_of ls))"
proof -
  have name: "al_loop_name r = l" using find_row_SomeD [OF assms(2)] by simp
  show ?thesis
    using assms by (cases "al_owner_id r = Some p")
      (auto simp: try_claim_automation_loop_def lock_acquire_def other_iff [OF assms(2)] lock_of_upd find_row_upd_row
        lock_of_row_def fun_eq_iff)
qed

lemma renew_refines:
  assumes "p \<noteq> []"
  shows "map_prod lock_of id (renew_owned_automation_loop l p secs now ls) =
    map_prod id Inr (lock_renew l p secs now (lock_of ls))"
  using assms by (auto simp: renew_owned_automation_loop_def lock_renew_def owned_iff [OF assms, symmetric]
      lock_of_upd lock_of_row_def dest!: owned_SomeD)

lemma record_refines:
  assumes "p \<noteq> []"
  shows "lock_of (state_after (record_success l p secs n now) ls) = fst (lock_renew l p secs now (lock_of ls))"
    and "lock_of (state_after (record_error l p secs e now) ls) = fst (lock_renew l p secs now (lock_of ls))"
  using assms by (auto simp: record_success_def record_error_def whenE_def lock_renew_def owned_iff [OF assms, symmetric]
      lock_of_upd lock_of_row_def dest!: owned_SomeD)

lemma find_row_map: "(\<And>x. key (f x) = key x) \<Longrightarrow> find_row key k (map f rows) = map_option f (find_row key k rows)"
  by (induction rows) auto

lemma release_refines:
  assumes "p \<noteq> []"
  shows "lock_of (state_after (release_owned_automation_loops p now) ls) = lock_release p now (lock_of ls)"
proof
  fix l
  show "lock_of (state_after (release_owned_automation_loops p now) ls) l = lock_release p now (lock_of ls) l"
    using assms by (cases "find_lease ls l")
      (auto simp: release_owned_automation_loops_def lock_of_def lock_release_def find_row_map lock_of_row_def owned_now_def
        split: option.splits)
qed

text \<open>
  C27: the lease table implements the lock. For a replica's identity, claiming a registered
  loop, renewing, releasing and recording the outcome of a tick act on the table exactly as
  acquiring, renewing and releasing act on the lock, with the same answer.
\<close>

theorem lease_table_refines_lock:
  assumes "p \<noteq> []" and "find_lease ls l = Some r"
  shows "map_prod lock_of id (try_claim_automation_loop l p secs now ls)
      = map_prod id Inr (lock_acquire l p secs now (lock_of ls))
    \<and> map_prod lock_of id (renew_owned_automation_loop l p secs now ls)
      = map_prod id Inr (lock_renew l p secs now (lock_of ls))
    \<and> lock_of (state_after (release_owned_automation_loops p now) ls) = lock_release p now (lock_of ls)
    \<and> lock_of (state_after (record_success l p secs n now) ls) = fst (lock_renew l p secs now (lock_of ls))
    \<and> lock_of (state_after (record_error l p secs e now) ls) = fst (lock_renew l p secs now (lock_of ls))"
  using claim_refines [OF assms] renew_refines [OF assms(1)] release_refines [OF assms(1)] record_refines [OF assms(1)]
  by blast

section \<open>Replicas that trust their leases\<close>

text \<open>
  A grant is what a replica knows: until when it was last told that a loop is its own.
  Grants are backed when each that has not run out is the lock's state. The laws of a lock
  with expiry keep them so, whichever replica acts.
\<close>

type_synonym grants = "string \<times> string \<Rightarrow> datetime option"

definition backed :: "lock_state \<Rightarrow> datetime \<Rightarrow> grants \<Rightarrow> bool" where
  "backed L now B \<longleftrightarrow> (\<forall>l p d. B (l, p) = Some d \<and> now < d \<longrightarrow> L l = Some (p, d))"

lemma backed_later: "backed L now B \<Longrightarrow> now \<le> n \<Longrightarrow> backed L n B"
  by (auto simp: backed_def)

lemma backed_drop: "backed L now B \<Longrightarrow> backed L now (\<lambda>x. if P x then None else B x)"
  by (auto simp: backed_def)

lemma backed_exclusive:
  "backed L now B \<Longrightarrow> B (l, p) = Some d \<Longrightarrow> now < d \<Longrightarrow> B (l, q) = Some e \<Longrightarrow> now < e \<Longrightarrow> p = q"
  unfolding backed_def by (metis option.inject prod.inject)

locale expiring_lock =
  fixes holder :: "'s \<Rightarrow> lock_state"
    and acquire :: "string \<Rightarrow> string \<Rightarrow> int \<Rightarrow> datetime \<Rightarrow> 's \<Rightarrow> 's \<times> bool"
    and renew :: "string \<Rightarrow> string \<Rightarrow> int \<Rightarrow> datetime \<Rightarrow> 's \<Rightarrow> 's \<times> bool"
    and release :: "string \<Rightarrow> datetime \<Rightarrow> 's \<Rightarrow> 's"
  assumes acquire_law: "p \<noteq> [] \<Longrightarrow> acquire l p secs now s = (t, b) \<Longrightarrow>
      (if b then holder t = (holder s)(l \<mapsto> (p, now + seconds secs))
         \<and> (\<forall>q d. holder s l = Some (q, d) \<and> now < d \<longrightarrow> q = p)
       else holder t = holder s)"
    and renew_law: "p \<noteq> [] \<Longrightarrow> renew l p secs now s = (t, b) \<Longrightarrow>
      (if b then holder t = (holder s)(l \<mapsto> (p, now + seconds secs))
         \<and> (\<exists>d. holder s l = Some (p, d) \<and> now < d)
       else holder t = holder s)"
    and release_law: "p \<noteq> [] \<Longrightarrow> holder (release p now s) l \<noteq> holder s l \<Longrightarrow> (\<exists>d. holder s l = Some (p, d))"
begin

lemma backed_take:
  assumes "backed (holder s) now B" and "\<forall>q d. holder s l = Some (q, d) \<and> now < d \<longrightarrow> q = p"
  shows "backed ((holder s)(l \<mapsto> (p, u))) now (B((l, p) := Some u))"
  using assms unfolding backed_def by auto

lemma backed_acquire:
  assumes "p \<noteq> []" and "acquire l p secs now s = (t, b)" and "backed (holder s) now B"
  shows "backed (holder t) now (B((l, p) := if b then Some (now + seconds secs) else None))"
  using acquire_law [OF assms(1,2)] assms(3) backed_take [OF assms(3)] backed_drop [OF assms(3), of "\<lambda>x. x = (l, p)"]
  by (cases b) (auto simp: fun_upd_def)

lemma backed_renew:
  assumes "p \<noteq> []" and "renew l p secs now s = (t, b)" and "backed (holder s) now B"
  shows "backed (holder t) now (B((l, p) := if b then Some (now + seconds secs) else None))"
proof (cases b)
  case True
  with renew_law [OF assms(1,2)] backed_take [OF assms(3), of l p "now + seconds secs"] show ?thesis by auto
next
  case False
  with renew_law [OF assms(1,2)] backed_drop [OF assms(3), of "\<lambda>x. x = (l, p)"] show ?thesis by (simp add: fun_upd_def)
qed

lemma backed_finish:
  assumes "p \<noteq> []" and "backed (holder s) now B"
  shows "backed (holder (fst (renew l p secs now s))) now (B((l, p) := None))"
proof -
  obtain t b where r: "renew l p secs now s = (t, b)" by (cases "renew l p secs now s")
  have "backed (holder t) now (\<lambda>x. if x = (l, p) then None else (B((l, p) := if b then Some (now + seconds secs) else None)) x)"
    using backed_renew [OF assms(1) r assms(2)] by (rule backed_drop)
  moreover have "(\<lambda>x. if x = (l, p) then None else (B((l, p) := if b then Some (now + seconds secs) else None)) x) = B((l, p) := None)"
    by auto
  ultimately show ?thesis by (simp add: r)
qed

lemma backed_release:
  assumes "p \<noteq> []" and "backed (holder s) now B"
  shows "backed (holder (release p now s)) now (\<lambda>(l, q). if q = p then None else B (l, q))"
  unfolding backed_def
proof (intro allI impI, elim conjE)
  fix l q d assume b: "(case (l, q) of (l, q) \<Rightarrow> if q = p then None else B (l, q)) = Some d" and d: "now < d"
  then have q: "q \<noteq> p" "holder s l = Some (q, d)" using assms(2) by (auto simp: backed_def split: if_splits)
  then show "holder (release p now s) l = Some (q, d)"
    using release_law [OF assms(1), of now s l] by fastforce
qed

end

interpretation spec_lock: expiring_lock "\<lambda>L. L" lock_acquire lock_renew lock_release
  by unfold_locales (auto simp: lock_acquire_def lock_renew_def lock_release_def split: if_splits option.splits)

definition answered :: "lease_table \<times> (py_error + bool) \<Rightarrow> lease_table \<times> bool" where
  \<comment> \<open>a claim that raises is not a grant\<close>
  "answered r = (fst r, snd r = Inr True)"

interpretation table_lock: expiring_lock lock_of
  "\<lambda>l p secs now ls. answered (try_claim_automation_loop l p secs now ls)"
  "\<lambda>l p secs now ls. answered (renew_owned_automation_loop l p secs now ls)"
  "\<lambda>p now ls. state_after (release_owned_automation_loops p now) ls"
proof unfold_locales
  fix p :: string and l secs now s t b
  assume p: "p \<noteq> []"
  {
    assume a: "answered (try_claim_automation_loop l p secs now s) = (t, b)"
    show "if b then lock_of t = (lock_of s)(l \<mapsto> (p, now + seconds secs)) \<and> (\<forall>q d. lock_of s l = Some (q, d) \<and> now < d \<longrightarrow> q = p)
       else lock_of t = lock_of s"
    proof (cases "find_lease s l")
      case None
      with a show ?thesis by (auto simp: try_claim_automation_loop_def answered_def)
    next
      case (Some r)
      from claim_refines [OF p this, of secs now] a spec_lock.acquire_law [OF p, of l secs now "lock_of s"] show ?thesis
        by (cases "try_claim_automation_loop l p secs now s"; cases "lock_acquire l p secs now (lock_of s)")
          (auto simp: answered_def)
    qed
  }
  {
    assume a: "answered (renew_owned_automation_loop l p secs now s) = (t, b)"
    from renew_refines [OF p, of l secs now s] a spec_lock.renew_law [OF p, of l secs now "lock_of s"]
    show "if b then lock_of t = (lock_of s)(l \<mapsto> (p, now + seconds secs)) \<and> (\<exists>d. lock_of s l = Some (p, d) \<and> now < d)
       else lock_of t = lock_of s"
      by (cases "renew_owned_automation_loop l p secs now s"; cases "lock_renew l p secs now (lock_of s)")
        (auto simp: answered_def)
  }
  {
    assume "lock_of (state_after (release_owned_automation_loops p now) s) l \<noteq> lock_of s l"
    then show "\<exists>d. lock_of s l = Some (p, d)"
      using spec_lock.release_law [OF p] by (simp only: release_refines [OF p])
  }
qed

section \<open>Replica identities\<close>

definition dec_val :: "string \<Rightarrow> nat" where
  "dec_val = foldl (\<lambda>a c. 10 * a + (of_char c - 48)) 0"

lemma dec_val_digit: "n < 10 \<Longrightarrow> of_char (digit n) - 48 = (n :: nat)"
  by (simp add: digit_def)

lemma dec_val_nat_str: "dec_val (nat_str n) = n"
proof (induction n rule: nat_str.induct)
  case (1 n)
  show ?case
  proof (cases "n < 10")
    case True
    then show ?thesis by (simp add: nat_str.simps [of n] dec_val_def dec_val_digit)
  next
    case False
    then have "dec_val (nat_str n) = 10 * dec_val (nat_str (n div 10)) + (of_char (digit (n mod 10)) - 48)"
      by (subst nat_str.simps) (simp add: dec_val_def)
    with 1 [OF False] show ?thesis by (simp add: dec_val_digit)
  qed
qed

lemma nat_str_digits: "c \<in> set (nat_str n) \<Longrightarrow> \<exists>d<10. c = digit d"
proof (induction n rule: nat_str.induct)
  case (1 n)
  show ?case
  proof (cases "n < 10")
    case True
    with 1 show ?thesis by (auto simp: nat_str.simps [of n])
  next
    case False
    then have "c \<in> set (nat_str (n div 10)) \<or> c = digit (n mod 10)"
      using "1.prems" by (subst (asm) nat_str.simps) auto
    then show ?thesis using "1.IH" [OF False] by (auto intro: exI [of _ "n mod 10"])
  qed
qed

lemma nat_str_no_colon: "CHR '':'' \<notin> set (nat_str n)"
proof
  assume "CHR '':'' \<in> set (nat_str n)"
  then obtain d where "d < 10" "CHR '':'' = digit d" using nat_str_digits by blast
  moreover from \<open>d < 10\<close> have "d \<in> {0, 1, 2, 3, 4, 5, 6, 7, 8, 9}" by (simp, presburger)
  ultimately show False by (auto simp: digit_def char_of_def)
qed

lemma split_at_last:
  assumes "a @ c # x = b @ c # y" and "c \<notin> set x" and "c \<notin> set y"
  shows "a = b \<and> x = y"
proof -
  have "takeWhile (\<lambda>z. z \<noteq> c) (rev (a @ c # x)) = rev x" "takeWhile (\<lambda>z. z \<noteq> c) (rev (b @ c # y)) = rev y"
    using assms(2,3) by (auto simp: takeWhile_append)
  with assms(1) have "x = y" by simp
  with assms(1) show ?thesis by simp
qed

lemma replica_owner_id_inj:
  assumes "replica_owner_id c h n = replica_owner_id c h' n'"
  shows "h = h' \<and> n = n'"
proof -
  have "h @ CHR '':'' # nat_str n = h' @ CHR '':'' # nat_str n'"
    using assms by (simp add: replica_owner_id_def)
  then have "h = h' \<and> nat_str n = nat_str n'" by (rule split_at_last [OF _ nat_str_no_colon nat_str_no_colon])
  then show ?thesis by (metis dec_val_nat_str)
qed

lemma replica_owner_id_nonempty [simp]: "replica_owner_id c h n \<noteq> []"
  by (simp add: replica_owner_id_def)

section \<open>A cluster of replicas\<close>

record cluster =
  cl_leases :: lease_table
  cl_now :: datetime
  cl_grants :: grants

text \<open>
  What a replica can do: claim a loop before a tick, renew while the tick runs (a failed
  renewal cancels the tick), record the tick's outcome, which ends it, and release everything
  it owns when it stops. Time passes in between.
\<close>

inductive cluster_step :: "cluster \<Rightarrow> cluster \<Rightarrow> bool" where
  time: "cl_now c \<le> n \<Longrightarrow> cluster_step c (c\<lparr>cl_now := n\<rparr>)"
| claim: "p \<noteq> [] \<Longrightarrow> try_claim_automation_loop l p secs (cl_now c) (cl_leases c) = (ls, r) \<Longrightarrow>
    cluster_step c (c\<lparr>cl_leases := ls,
      cl_grants := (cl_grants c)((l, p) := if r = Inr True then Some (cl_now c + seconds secs) else None)\<rparr>)"
| renew: "p \<noteq> [] \<Longrightarrow> renew_owned_automation_loop l p secs (cl_now c) (cl_leases c) = (ls, r) \<Longrightarrow>
    cluster_step c (c\<lparr>cl_leases := ls,
      cl_grants := (cl_grants c)((l, p) := if r = Inr True then Some (cl_now c + seconds secs) else None)\<rparr>)"
| finish: "p \<noteq> [] \<Longrightarrow> op = record_success l p secs n (cl_now c) \<or> op = record_error l p secs e (cl_now c) \<Longrightarrow>
    cluster_step c (c\<lparr>cl_leases := state_after op (cl_leases c), cl_grants := (cl_grants c)((l, p) := None)\<rparr>)"
| stop: "p \<noteq> [] \<Longrightarrow>
    cluster_step c (c\<lparr>cl_leases := state_after (release_owned_automation_loops p (cl_now c)) (cl_leases c),
      cl_grants := (\<lambda>(l, q). if q = p then None else cl_grants c (l, q))\<rparr>)"

definition well_backed :: "cluster \<Rightarrow> bool" where
  "well_backed c \<longleftrightarrow> backed (lock_of (cl_leases c)) (cl_now c) (cl_grants c)"

lemma well_backed_step:
  assumes "cluster_step c d" and "well_backed c"
  shows "well_backed d"
  using assms
proof (cases rule: cluster_step.cases)
  case (time n)
  with assms(2) show ?thesis by (auto simp: well_backed_def intro: backed_later)
next
  case (claim p l secs ls r)
  then have "answered (try_claim_automation_loop l p secs (cl_now c) (cl_leases c)) = (ls, r = Inr True)"
    by (simp add: answered_def)
  from table_lock.backed_acquire [OF claim(2) this] assms(2) claim(1) show ?thesis by (simp add: well_backed_def)
next
  case (renew p l secs ls r)
  then have "answered (renew_owned_automation_loop l p secs (cl_now c) (cl_leases c)) = (ls, r = Inr True)"
    by (simp add: answered_def)
  from table_lock.backed_renew [OF renew(2) this] assms(2) renew(1) show ?thesis by (simp add: well_backed_def)
next
  case (finish p op l secs n e)
  then have "lock_of (state_after op (cl_leases c)) = fst (lock_renew l p secs (cl_now c) (lock_of (cl_leases c)))"
    using record_refines [OF finish(2)] by blast
  with spec_lock.backed_finish [OF finish(2)] assms(2) finish(1) show ?thesis by (simp add: well_backed_def)
next
  case (stop p)
  with table_lock.backed_release [OF stop(2)] assms(2) show ?thesis by (simp add: well_backed_def)
qed

lemma well_backed_reachable:
  assumes "cluster_step\<^sup>*\<^sup>* c d" and "cl_grants c = (\<lambda>_. None)"
  shows "well_backed d"
  using assms(1)
proof (induction rule: rtranclp_induct)
  case base
  then show ?case using assms(2) by (simp add: well_backed_def backed_def)
qed (rule well_backed_step)


section \<open>The health report\<close>

text \<open>
  The report says ok exactly when all three loops are held under running leases and none
  of them has an error recorded.
\<close>

theorem health_ok_iff_all_loops_run:
  "ah_status (automation_health_snapshot ls now) = ''ok'' \<longleftrightarrow>
    (\<forall>name\<in>set AUTOMATION_LOOP_NAMES. \<exists>r d. find_lease ls name = Some r \<and> al_owner_id r \<noteq> None
      \<and> al_lease_expires_at r = Some d \<and> now < d \<and> \<not> truthy_str (al_last_error r))"
proof -
  define f where "f name = loop_payload (find_lease ls name) now" for name
  have active: "lh_active (f name) \<longleftrightarrow> (\<exists>r d. find_lease ls name = Some r \<and> al_owner_id r \<noteq> None \<and> al_lease_expires_at r = Some d \<and> now < d)"
    and err: "lh_last_error (f name) = Option.bind (find_lease ls name) al_last_error"
    and running: "lh_active (f name) \<Longrightarrow> lh_status (f name) \<noteq> ''stale''" for name
    by (auto simp: f_def loop_payload_def row_status_def split: option.splits prod.splits if_splits)
  have "ah_status (automation_health_snapshot ls now) = ''ok'' \<longleftrightarrow>
      (\<forall>name\<in>set AUTOMATION_LOOP_NAMES. lh_active (f name) \<and> \<not> truthy_str (lh_last_error (f name)))"
    unfolding automation_health_snapshot_def Let_def f_def [symmetric] AUTOMATION_LOOP_NAMES_def
    using running [of "''maintenance''"] running [of "''outbox_relay''"] running [of "''scheduler''"] by auto
  also have "\<dots> \<longleftrightarrow> (\<forall>name\<in>set AUTOMATION_LOOP_NAMES. \<exists>r d. find_lease ls name = Some r \<and> al_owner_id r \<noteq> None
      \<and> al_lease_expires_at r = Some d \<and> now < d \<and> \<not> truthy_str (al_last_error r))"
    unfolding active err by (intro ball_cong refl) auto
  finally show ?thesis .
qed

section \<open>Samples\<close>

definition free_lease :: "string \<Rightarrow> automation_lease" where
  "free_lease l = \<lparr>al_loop_name = l, al_owner_id = None, al_owner_started_at = None, al_lease_expires_at = None,
     al_last_heartbeat_at = None, al_last_ok_at = None, al_last_error = None, al_tick_count = 0, al_work_count = 0\<rparr>"

definition free_table :: lease_table where
  "free_table = map free_lease AUTOMATION_LOOP_NAMES"

lemma free_table_scheduler: "find_lease free_table ''scheduler'' = Some (free_lease ''scheduler'')"
  by (simp add: free_table_def AUTOMATION_LOOP_NAMES_def free_lease_def)

theorem lease_table_refines_lock_witness:
  "map_prod lock_of id (try_claim_automation_loop ''scheduler'' ''a@h:1'' 8 0 free_table)
    = map_prod id Inr (lock_acquire ''scheduler'' ''a@h:1'' 8 0 (lock_of free_table))"
  by (rule lease_table_refines_lock [THEN conjunct1, OF _ free_table_scheduler]) simp

definition claimed_cluster :: cluster where
  "claimed_cluster = \<lparr>cl_leases = state_after (try_claim_automation_loop ''scheduler'' (replica_owner_id ''a'' ''h'' 1) 8 0) free_table,
     cl_now = 0, cl_grants = (\<lambda>_. None)((''scheduler'', replica_owner_id ''a'' ''h'' 1) := Some (seconds 8))\<rparr>"

lemma free_claim_grants: "p \<noteq> [] \<Longrightarrow> result_of (try_claim_automation_loop ''scheduler'' p 8 0) free_table = Inr True"
  by (simp add: try_claim_automation_loop_def free_table_scheduler held_by_other_def free_lease_def)

lemma claimed_cluster_reached:
  "cluster_step \<lparr>cl_leases = free_table, cl_now = 0, cl_grants = (\<lambda>_. None)\<rparr> claimed_cluster"
proof -
  let ?c = "\<lparr>cl_leases = free_table, cl_now = 0, cl_grants = (\<lambda>_. None)\<rparr>" and ?p = "replica_owner_id ''a'' ''h'' 1"
  have p: "?p \<noteq> []" by simp
  have "try_claim_automation_loop ''scheduler'' ?p 8 (cl_now ?c) (cl_leases ?c) =
      (state_after (try_claim_automation_loop ''scheduler'' ?p 8 0) free_table, Inr True)"
    using free_claim_grants [OF p] by (simp add: prod_eq_iff)
  from cluster_step.claim [OF p this] show ?thesis by (simp add: claimed_cluster_def fun_upd_def)
qed


theorem health_ok_iff_all_loops_run_witness:
  "ah_status (automation_health_snapshot free_table 0) \<noteq> ''ok''"
  using health_ok_iff_all_loops_run [of free_table 0] by (auto simp: AUTOMATION_LOOP_NAMES_def free_table_def free_lease_def)

end
