(* ===== verification/Automation.thy ===== *)
theory Automation
  imports Fleet Leases
begin

text \<open>
  The automation runner (\<open>automation.py\<close>): the three ticks, each one transaction over the
  engine, and the loop that runs a tick only while it holds the loop's lease. A tick and its
  heartbeat task run side by side in the code; here their interleaving is an argument: the
  times at which the heartbeat fires before the tick is done, and the time it is done. A
  heartbeat that finds the lease lost cancels the tick, whose transaction is then never
  committed. Process start-up and shutdown (\<open>run\<close>, \<open>main\<close>) are asyncio plumbing and are not
  modelled.
\<close>

section \<open>Ticks\<close>

definition outbox_relay_tick :: "nat svc" where
  "outbox_relay_tick = savepoint (poll_and_dispatch (register_all []) 50)"

definition scheduler_tick :: "string \<Rightarrow> nat svc" where
  "scheduler_tick hostname =
     savepoint (
       bindE (gets (\<lambda>s. scheduler_batch_size (get_settings s))) (\<lambda>batch_size.
       bindE (poll_and_lease hostname batch_size) (\<lambda>leased.
       bindE (for_each process_leased_job leased) (\<lambda>_.
       bindE (reap_expired_job_leases 100) (\<lambda>reaped.
       ret (length leased))))))"

definition maintenance_tick :: "nat svc" where
  "maintenance_tick =
     savepoint (
       bindE (gets (\<lambda>s. worker_offline_after_seconds (get_settings s))) (\<lambda>offline_after.
       bindE (mark_stale_workers_offline offline_after None) (\<lambda>flipped.
       bindE (collect_each (\<lambda>w. ended (reap_worker_assignments w ReasonWorkerOffline None None None)) flipped) (\<lambda>outcomes.
       bindE (reap_expired_leases None None) (\<lambda>expired.
       bindE (evaluate_all_active_workspaces 100) (\<lambda>bp_snapshots.
       ret (length flipped + length expired + length (concat outcomes)
         + length (filter snap_changed bp_snapshots))))))))"

section \<open>Running a tick under a lease\<close>

record control =
  ct_leases :: lease_table
  ct_db :: session

definition in_leases :: "'a lease_op \<Rightarrow> (control, 'a) py" where
  "in_leases m = (\<lambda>c. case m (ct_leases c) of (ls, r) \<Rightarrow> (c\<lparr>ct_leases := ls\<rparr>, r))"

definition in_engine :: "'a svc \<Rightarrow> (control, 'a) py" where
  "in_engine m = (\<lambda>c. case m (ct_db c) of (d, r) \<Rightarrow> (c\<lparr>ct_db := d\<rparr>, r))"

definition heartbeat_interval :: "rat \<Rightarrow> int \<Rightarrow> rat" where
  "heartbeat_interval interval_seconds lease_seconds =
     min (max interval_seconds (1/10)) (max (of_int lease_seconds / 2) (1/2))"

primrec heartbeat_until_tick_completes :: "string \<Rightarrow> string \<Rightarrow> int \<Rightarrow> datetime list \<Rightarrow> unit lease_op" where
  "heartbeat_until_tick_completes name owner secs [] = ret ()"
| "heartbeat_until_tick_completes name owner secs (t # ts) =
     bindE (renew_owned_automation_loop name owner secs t) (\<lambda>renewed.
     if \<not> renewed then raise AutomationOwnershipLostError
     else heartbeat_until_tick_completes name owner secs ts)"

record loop_spec =
  ls_name :: string
  ls_interval_seconds :: rat
  ls_tick :: "nat svc"

definition attempt :: "('s, 'a) py \<Rightarrow> ('s, py_error + 'a) py" where
  "attempt m = try_except (bindE m (\<lambda>x. ret (Inr x))) (\<lambda>e. ret (Inl e))"

definition run_owned_tick :: "loop_spec \<Rightarrow> string \<Rightarrow> int \<Rightarrow> datetime list \<Rightarrow> datetime \<Rightarrow> (control, unit) py" where
  "run_owned_tick spec owner secs beats finish =
     bindE (in_leases (heartbeat_until_tick_completes (ls_name spec) owner secs beats)) (\<lambda>_.
     bindE (attempt (in_engine (ls_tick spec))) (\<lambda>result.
     case result of
       Inl exc \<Rightarrow> in_leases (record_error (ls_name spec) owner secs exc finish)
     | Inr work_count \<Rightarrow> in_leases (record_success (ls_name spec) owner secs (int work_count) finish)))"

definition run_loop_round :: "loop_spec \<Rightarrow> string \<Rightarrow> datetime \<Rightarrow> datetime list \<Rightarrow> datetime \<Rightarrow> (control, bool) py" where
  \<comment> \<open>one pass of \<open>_run_loop\<close>; the result is \<open>acquired\<close>, which decides how long to sleep\<close>
  "run_loop_round spec owner now beats finish =
     (let lease_seconds = lease_seconds_for (ls_interval_seconds spec) in
     bindE (in_leases (try_claim_automation_loop (ls_name spec) owner lease_seconds now)) (\<lambda>acquired.
     if acquired then
       try_except
         (bindE (run_owned_tick spec owner lease_seconds beats finish) (\<lambda>_. ret True))
         (\<lambda>exc. if exc = AutomationOwnershipLostError then ret False else raise exc)
     else ret False))"

definition loop_specs :: "settings \<Rightarrow> string \<Rightarrow> loop_spec list" where
  "loop_specs st hostname =
     [\<lparr>ls_name = ''maintenance'', ls_interval_seconds = of_int (assignment_reaper_interval_seconds st), ls_tick = maintenance_tick\<rparr>,
      \<lparr>ls_name = ''outbox_relay'', ls_interval_seconds = outbox_relay_interval_seconds st, ls_tick = outbox_relay_tick\<rparr>,
      \<lparr>ls_name = ''scheduler'', ls_interval_seconds = scheduler_interval_seconds st, ls_tick = scheduler_tick hostname\<rparr>]"

fun supervise_loop :: "string \<Rightarrow> nat \<Rightarrow> nat \<Rightarrow> (py_error + unit) list \<Rightarrow> py_error + unit" where
  \<comment> \<open>the outcomes of the successive runs of the loop; at the end of the list the stop event is set\<close>
  "supervise_loop name max_failures failures [] = Inr ()"
| "supervise_loop name max_failures failures (Inr u # rest) = Inr ()"
| "supervise_loop name max_failures failures (Inl exc # rest) =
     (let failures = failures + 1 in
      if max_failures \<le> failures
      then Inl (AutomationControlPlaneError (name @ '' automation loop failed '' @ nat_str failures @ '' times''))
      else supervise_loop name max_failures failures rest)"

context fleet_frame
begin

lemma eff_ticks:
  "effects R outbox_relay_tick" "effects R (scheduler_tick h)" "effects R maintenance_tick"
  unfolding outbox_relay_tick_def scheduler_tick_def maintenance_tick_def
  by (intro eff_savepoint eff_relay_tick) (intro fleet_rules)+

end

section \<open>Lifting\<close>

lemma in_leases_apply [simp]: "in_leases m c = (c\<lparr>ct_leases := state_after m (ct_leases c)\<rparr>, result_of m (ct_leases c))"
  by (simp add: in_leases_def split: prod.splits)

lemma in_engine_apply [simp]: "in_engine m c = (c\<lparr>ct_db := state_after m (ct_db c)\<rparr>, result_of m (ct_db c))"
  by (simp add: in_engine_def split: prod.splits)

lemma bindE_in_leases:
  "bindE (in_leases m) f c = (case m (ct_leases c) of (ls, Inl e) \<Rightarrow> (c\<lparr>ct_leases := ls\<rparr>, Inl e)
    | (ls, Inr x) \<Rightarrow> f x (c\<lparr>ct_leases := ls\<rparr>))"
  by (simp add: bindE_def split: prod.splits sum.splits)

lemma bindE_attempt:
  "bindE (attempt m) f c = (case m c of (d, r) \<Rightarrow> f r d)"
  by (simp add: bindE_def attempt_def try_except_def split: prod.splits sum.splits)

lemma record_returns:
  "result_of (record_success l p secs n now) ls = Inr ()" "result_of (record_error l p secs e now) ls = Inr ()"
  by (simp_all add: record_success_def record_error_def whenE_def)

lemma run_owned_tick_apply:
  "run_owned_tick spec owner secs beats finish c =
    (case heartbeat_until_tick_completes (ls_name spec) owner secs beats (ct_leases c) of
       (ls, Inl e) \<Rightarrow> (c\<lparr>ct_leases := ls\<rparr>, Inl e)
     | (ls, Inr _) \<Rightarrow>
         (case ls_tick spec (ct_db c) of
            (d, Inl e) \<Rightarrow> (c\<lparr>ct_leases := state_after (record_error (ls_name spec) owner secs e finish) ls, ct_db := d\<rparr>, Inr ())
          | (d, Inr n) \<Rightarrow> (c\<lparr>ct_leases := state_after (record_success (ls_name spec) owner secs (int n) finish) ls, ct_db := d\<rparr>, Inr ())))"
  by (auto simp: run_owned_tick_def bindE_in_leases bindE_attempt record_returns split: prod.splits sum.splits)

section \<open>Heartbeats at the code's interval keep the lease\<close>

fun on_schedule :: "rat \<Rightarrow> datetime \<Rightarrow> datetime list \<Rightarrow> bool" where
  \<comment> \<open>each time follows the one before by less than \<open>gap\<close> seconds\<close>
  "on_schedule gap t [] = True"
| "on_schedule gap t (x # xs) = (t \<le> x \<and> of_int (x - t) < 1000000 * gap \<and> on_schedule gap x xs)"

lemma lease_seconds_ge: "5 \<le> lease_seconds_for i"
  by (simp add: lease_seconds_for_def)

lemma heartbeat_interval_half: "heartbeat_interval i (lease_seconds_for i) \<le> of_int (lease_seconds_for i) / 2"
proof -
  have "(of_int 5 :: rat) \<le> of_int (lease_seconds_for i)" using lease_seconds_ge by (simp only: of_int_le_iff)
  then have "max (of_int (lease_seconds_for i) / 2) (1/2) = (of_int (lease_seconds_for i) / 2 :: rat)" by simp
  then show ?thesis by (simp add: heartbeat_interval_def)
qed

definition allowed_gap :: "rat \<Rightarrow> rat" where
  \<comment> \<open>the heartbeat interval, and a delay of less than half the lease\<close>
  "allowed_gap i = heartbeat_interval i (lease_seconds_for i) + of_int (lease_seconds_for i) / 2"

lemma gap_within_lease:
  assumes "of_int (x - t) < 1000000 * allowed_gap i"
  shows "x < t + seconds (lease_seconds_for i)"
proof -
  have "1000000 * allowed_gap i \<le> of_int (seconds (lease_seconds_for i))"
    using heartbeat_interval_half [of i] by (simp add: allowed_gap_def seconds_def)
  with assms have "(of_int (x - t) :: rat) < of_int (seconds (lease_seconds_for i))" by linarith
  then have "x - t < seconds (lease_seconds_for i)" by (simp only: of_int_less_iff)
  then show ?thesis by linarith
qed

definition leased_to :: "lease_table \<Rightarrow> string \<Rightarrow> string \<Rightarrow> datetime \<Rightarrow> automation_lease \<Rightarrow> bool" where
  \<comment> \<open>the loop's row is owned until the given time; its counters are those of the given row\<close>
  "leased_to ls l p until r \<longleftrightarrow> (\<exists>x. find_lease ls l = Some x \<and> al_owner_id x = Some p \<and> al_lease_expires_at x = Some until
     \<and> al_tick_count x = al_tick_count r \<and> al_work_count x = al_work_count r)"

lemma renew_in_time:
  assumes "leased_to ls l p until r" and "now < until"
  shows "\<exists>ls'. renew_owned_automation_loop l p secs now ls = (ls', Inr True) \<and> leased_to ls' l p (now + seconds secs) r"
  using assms by (auto simp: leased_to_def renew_owned_automation_loop_def owned_now_def find_row_upd_row)

lemma beats_keep_lease:
  assumes "leased_to ls l p (t + seconds (lease_seconds_for i)) r" and "on_schedule (allowed_gap i) t beats"
  shows "\<exists>ls'. heartbeat_until_tick_completes l p (lease_seconds_for i) beats ls = (ls', Inr ())
    \<and> leased_to ls' l p (last (t # beats) + seconds (lease_seconds_for i)) r"
  using assms
proof (induction beats arbitrary: t ls)
  case Nil
  then show ?case by simp
next
  case (Cons x xs)
  then have "x < t + seconds (lease_seconds_for i)" by (intro gap_within_lease) simp
  from renew_in_time [OF Cons.prems(1) this, of "lease_seconds_for i"] obtain ls1 where
    r1: "renew_owned_automation_loop l p (lease_seconds_for i) x ls = (ls1, Inr True)"
      "leased_to ls1 l p (x + seconds (lease_seconds_for i)) r" by blast
  from Cons.IH [OF r1(2)] Cons.prems(2) show ?case
    by (simp add: bindE_Inr [where m = "renew_owned_automation_loop l p (lease_seconds_for i) x", OF r1(1)])
qed

lemma on_schedule_append: "on_schedule g t (xs @ [y]) \<longleftrightarrow> on_schedule g t xs \<and> on_schedule g (last (t # xs)) [y]"
  by (induction xs arbitrary: t) auto

lemma claim_grants:
  assumes "find_lease ls l = Some r" and "\<not> held_by_other r p now"
  shows "\<exists>ls'. try_claim_automation_loop l p secs now ls = (ls', Inr True) \<and> leased_to ls' l p (now + seconds secs) r"
  using assms by (cases "al_owner_id r = Some p")
    (auto simp: try_claim_automation_loop_def leased_to_def find_row_upd_row)


text \<open>
  The engine's data changes only by a whole tick under a held lease. If a round of one
  of the three loops leaves the database different from before, then the round had claimed
  the loop and kept it, and the change is that of the tick run to completion; a failed tick,
  a lost lease or a loop held elsewhere leave the database as it was.
\<close>

theorem only_a_completed_tick_changes_data:
  assumes "spec \<in> set (loop_specs st hostname)" and "run_loop_round spec owner now beats finish c = (c', r)"
    and "ct_db c' \<noteq> ct_db c"
  shows "r = Inr True \<and> (\<exists>n. ls_tick spec (ct_db c) = (ct_db c', Inr n))"
proof -
  have atomic: "ls_tick spec (ct_db c) = (d, Inl e) \<Longrightarrow> d = ct_db c" for d e
    using assms(1) by (auto simp: loop_specs_def outbox_relay_tick_def scheduler_tick_def maintenance_tick_def
        savepoint_def split: prod.splits sum.splits)
  from assms(2,3) show ?thesis
    by (auto simp: run_loop_round_def Let_def bindE_in_leases try_except_def bindE_def run_owned_tick_apply
        split: prod.splits sum.splits if_splits dest: atomic)
qed

section \<open>The maintenance tick\<close>

lemma ended_Inr: "ended m s = (t, Inr x) \<longleftrightarrow> m s = (t, Inr (Some x))"
  by (auto simp: ended_def bindE_def split: prod.splits sum.splits option.splits)

lemma reap_flipped:
  assumes "collect_each (\<lambda>w. ended (reap_worker_assignments w ReasonWorkerOffline None None None)) ws s = (t, Inr outs)"
    and "reapable s" and "0 < assignment_reaper_batch_size (get_settings s)"
  shows "same_config s t \<and> holdings_shrink s t \<and> (\<forall>w\<in>set ws. worker_holdings t w = [])"
  using assms
proof (induction ws arbitrary: s outs)
  case Nil
  then show ?case by (simp add: conf.eff_refl shrk.eff_refl)
next
  case (Cons w ws)
  let ?reap = "reap_worker_assignments w ReasonWorkerOffline None None None"
  from Cons.prems(1) obtain u out where u: "ended ?reap s = (u, Inr out)"
      and rest: "\<exists>outs'. collect_each (\<lambda>w. ended (reap_worker_assignments w ReasonWorkerOffline None None None)) ws u = (t, Inr outs')"
    by (auto elim!: bindE_eq_InrD)
  have reap: "?reap s = (u, Inr (Some out))" using u by (simp add: ended_Inr)
  have emptied: "worker_holdings u w = []" "reapable u"
    using reap_worker_ends [OF Cons.prems(2), of None w ReasonWorkerOffline None None] Cons.prems(3) reap by auto
  have su: "same_config s u" "holdings_shrink s u"
    using effects_result [OF conf.eff_reap_worker_assignments reap] effects_result [OF shrink_reap_worker reap] by auto
  then have "0 < assignment_reaper_batch_size (get_settings u)" using Cons.prems(3) by (simp add: same_config_def)
  from rest Cons.IH [OF _ emptied(2) this] have ut: "same_config u t" "holdings_shrink u t" "\<forall>v\<in>set ws. worker_holdings t v = []"
    by auto
  then have "worker_holdings t w = []"
    using no_holdings_kept [OF _ _ emptied(1)] by (simp add: same_config_def)
  with su ut show ?case using conf.eff_trans shrk.eff_trans by auto
qed


section \<open>The scheduler tick\<close>

lemma tick_with_recurring_job:
  assumes "poll_and_lease hostname (scheduler_batch_size (get_settings s)) s = (t, Inr (k # ks))"
    and "find_job t k = Some j" and "job_job_type j = JobRecurring"
  shows "scheduler_tick hostname s = (s, Inl NotImplementedError)"
proof -
  have "process_leased_job k t = (t, Inl NotImplementedError)" using assms(2,3) by (simp add: process_leased_job_def)
  then have "for_each process_leased_job (k # ks) t = (t, Inl NotImplementedError)"
    by (simp add: bindE_Inl [where m = "process_leased_job k"])
  then show ?thesis
    by (simp add: scheduler_tick_def savepoint_def bindE_Inr [where m = "poll_and_lease hostname (scheduler_batch_size (get_settings s))", OF assms(1)]
        bindE_Inl [where m = "for_each process_leased_job (k # ks)"] del: for_each.simps)
qed

text \<open>
  One job the scheduler cannot carry out stops it for everyone. When a job of type
  recurring comes first among the leased jobs, the tick raises and is rolled back whole, so
  the next tick finds the same queue and fails the same way.
\<close>

theorem recurring_job_blocks_the_scheduler:
  assumes "poll_and_lease hostname (scheduler_batch_size (get_settings s)) s = (t, Inr (k # ks))"
    and "find_job t k = Some j" and "job_job_type j = JobRecurring"
  shows "scheduler_tick hostname s = (s, Inl NotImplementedError)"
  using assms by (rule tick_with_recurring_job)

section \<open>Samples\<close>

definition idle_control :: "session \<Rightarrow> control" where
  "idle_control d = \<lparr>ct_leases = free_table, ct_db = d\<rparr>"

abbreviation count_spec :: loop_spec where
  \<comment> \<open>a loop whose tick draws one identifier\<close>
  "count_spec \<equiv> \<lparr>ls_name = ''scheduler'', ls_interval_seconds = 2, ls_tick = bindE uuid4 (\<lambda>_. ret 1)\<rparr>"


definition recurring_sample :: session where
  "recurring_sample = empty_session\<lparr>jobs := [(due_job 201 1)\<lparr>job_job_type := JobRecurring\<rparr>]\<rparr>"

lemma recurring_polled:
  "\<exists>t j. poll_and_lease ''host'' 50 recurring_sample = (t, Inr [201]) \<and> find_job t 201 = Some j \<and> job_job_type j = JobRecurring"
proof -
  define j where "j = (due_job 201 1)\<lparr>job_job_type := JobRecurring\<rparr>"
  define s1 where "s1 = recurring_sample\<lparr>next_uuid := Suc (next_uuid recurring_sample)\<rparr>"
  have j: "job_id j = 201" "job_workspace_id j = 1" "job_job_type j = JobRecurring" by (simp_all add: j_def due_job_def)
  have due: "due_jobs s1 150 = [j]"
    by (simp add: s1_def due_jobs_def recurring_sample_def due_job_def unlocked_def empty_session_def j_def)
  have lims: "fairness_limits [1] s1 = (s1, Inr [(1, 5)])"
    by (simp add: fairness_limits_def configured_limit_def effective_scheduler_tick_limit_def
        s1_def recurring_sample_def empty_session_def)
  have groups: "by_workspace [j] = [(1, [j])]" by (simp add: by_workspace_def j)
  have rr: "snd (round_robin 50 [(1, 5)] [(1, [j])] (\<lambda>_. 0, [])) = [j]"
    by (simp add: round_robin.simps rr_more_def allowance_def)
  have "poll_and_lease ''host'' 50 recurring_sample = (jobs_update (upd_row job_id 201 (\<lambda>j. j\<lparr>job_status := JobLeased,
      job_lease_owner := Some (''host:'' @ take 8 (uuid_hex (next_uuid recurring_sample))),
      job_lease_expires_at := Some (clock s1 + seconds LEASE_SECONDS)\<rparr>)) s1, Inr [201])"
    unfolding poll_and_lease_def scheduler_owner_id_def
    by (simp add: s1_def [symmetric] due groups bindE_Inr [where m = "fairness_limits [1]", OF lims] rr Let_def j del: One_nat_def)
  moreover have "jobs s1 = [j]" by (simp add: s1_def recurring_sample_def j_def)
  ultimately show ?thesis by (simp add: j)
qed

lemma recurring_tick: "scheduler_tick ''host'' recurring_sample = (recurring_sample, Inl NotImplementedError)"
proof -
  have "scheduler_batch_size (get_settings recurring_sample) = 50"
    by (simp add: recurring_sample_def empty_session_def default_settings_def)
  with recurring_polled tick_with_recurring_job [of "''host''" recurring_sample] show ?thesis by auto
qed

theorem recurring_job_blocks_the_scheduler_witness:
  "scheduler_tick ''host'' recurring_sample = (recurring_sample, Inl NotImplementedError)"
proof -
  have "scheduler_batch_size (get_settings recurring_sample) = 50"
    by (simp add: recurring_sample_def empty_session_def default_settings_def)
  with recurring_polled recurring_job_blocks_the_scheduler [of "''host''" recurring_sample] show ?thesis by auto
qed

theorem only_a_completed_tick_changes_data_witness:
  "\<exists>c' r. run_loop_round (loop_specs default_settings ''host'' ! 2) ''a@h:1'' 0 [] 0 (idle_control recurring_sample) = (c', r)
    \<and> ct_db c' = recurring_sample"
proof -
  let ?spec = "loop_specs default_settings ''host'' ! 2"
  obtain c' r where run: "run_loop_round ?spec ''a@h:1'' 0 [] 0 (idle_control recurring_sample) = (c', r)" by (cases "run_loop_round ?spec ''a@h:1'' 0 [] 0 (idle_control recurring_sample)")
  have spec: "?spec \<in> set (loop_specs default_settings ''host'')" by (simp add: loop_specs_def)
  have "ls_tick ?spec recurring_sample = (recurring_sample, Inl NotImplementedError)"
    using recurring_tick by (simp add: loop_specs_def)
  then have "ct_db c' = recurring_sample"
    using only_a_completed_tick_changes_data [OF spec run] by (auto simp: idle_control_def)
  with run show ?thesis by blast
qed


end
