(* ===== verification/System.thy ===== *)
theory System
  imports DeskApi Automation
begin

text \<open>
  The whole system as one step relation: requests of workers and administrators, the runs
  and decisions of users, the three ticks, and time. The lemmas carry the invariants of the
  components through every step: the event log, the effect keys, the identifiers and the
  configuration under any relation the engine respects, and the review gates.
\<close>

section \<open>Steps\<close>

text \<open>
  The path parameter of a decision is a UUID, that is a number below \<open>2\<^sup>1\<^sup>2\<^sup>8\<close>. Who is a member of
  a workspace, and in which role, changes at any time in ways the engine does not see; so do the
  billing tables a request for a new job reads.
\<close>

inductive system_step :: "api \<Rightarrow> api \<Rightarrow> bool" where
  machine: "system_step s (state_after (handle c w) s)"
| provision: "system_step s (state_after (provision_worker ws p bs) s)"
| drain: "system_step s (state_after (set_worker_drain ws k b) s)"
| rotate: "system_step s (state_after (rotate_worker_credential ws k bs) s)"
| revoke: "system_step s (state_after (revoke_worker_credentials ws k) s)"
| create: "system_step s (state_after (create_job_route bl user ws job) s)"
| edit: "system_step s (state_after (edit_gate_route user ws gid text) s)"
| decide: "gid < 2 ^ 128 \<Longrightarrow> system_step s (state_after (decide_gate_route user ws gid verdict) s)"
| cancel: "system_step s (state_after (transaction (in_db (cancel_run rid))) s)"
| relay: "system_step s (state_after (in_db outbox_relay_tick) s)"
| schedule: "system_step s (state_after (in_db (scheduler_tick host)) s)"
| maintain: "system_step s (state_after (in_db maintenance_tick) s)"
| members: "system_step s (s\<lparr>memberships := ms\<rparr>)"
| time: "clock (db s) \<le> n \<Longrightarrow> system_step s (s\<lparr>db := (db s)\<lparr>clock := n\<rparr>\<rparr>)"

inductive_cases system_stepE: "system_step s t"

definition accepted :: "api \<Rightarrow> api \<Rightarrow> uuid \<Rightarrow> review_decision_in \<Rightarrow> workspace_membership \<Rightarrow> bool" where
  \<comment> \<open>the decision of a member with the role to decide, which the route carried out\<close>
  "accepted s t gid verdict m \<longleftrightarrow> (\<exists>user row. decide_gate_route user (wm_workspace_id m) gid verdict s = (t, Inr row) \<and> gid < 2 ^ 128
     \<and> m \<in> set (memberships s) \<and> wm_role m \<in> {ADMIN, REVIEWER} \<and> uuid_of_str user = Inr (wm_user_id m))"

section \<open>Invariants of the session\<close>

text \<open>A relation that no step but a decision can leave, and one that no step can.\<close>

locale quiet_frame = author_frame R for R :: "session \<Rightarrow> session \<Rightarrow> bool" +
  assumes eff_time: "R s (s\<lparr>clock := n\<rparr>)"
begin

lemmas request_rules = lifts_core [THEN api_core.eff_handle] lifts_core [THEN api_core.eff_set_worker_drain]
  lifts [THEN api_frame.eff_provision_worker] lifts [THEN api_frame.eff_rotate_worker_credential]
  lifts [THEN api_frame.eff_revoke_worker_credentials] eff_create_job_route eff_edit_gate_route

lemma command_rules:
  "effects R m \<Longrightarrow> effects (\<lambda>s t. R (db s) (db t)) (in_db m)"
  "effects R m \<Longrightarrow> effects (\<lambda>s t. R (db s) (db t)) (transaction (in_db m))"
  using api_core.eff_in_db [OF lifts_core] api_core.eff_transaction [OF lifts_core] by blast+

lemma respects_or_decides:
  assumes "system_step s t"
  shows "R (db s) (db t) \<or> (\<exists>gid verdict m. accepted s t gid verdict m)"
  using assms
proof cases
  case (decide gid user ws verdict)
  show ?thesis
  proof (cases "decide_gate_route user ws gid verdict s")
    case (Pair u r)
    then have t: "t = u" using decide(1) by simp
    show ?thesis
    proof (cases r)
      case (Inl e)
      then have "t = s" using Pair t by (auto simp: decide_gate_route_def dest: transaction_Inl)
      then show ?thesis by (simp add: eff_refl)
    next
      case (Inr row)
      with Pair t decide(2) show ?thesis unfolding accepted_def by (metis decide_route_accepted)
    qed
  qed
next
  case time
  then show ?thesis using eff_time by simp
next
  case members
  then show ?thesis using eff_refl by simp
next
  case machine
  then show ?thesis using effectsD [OF request_rules(1)] by simp
next
  case drain
  then show ?thesis using effectsD [OF request_rules(2)] by simp
next
  case provision
  then show ?thesis using effectsD [OF request_rules(3)] by simp
next
  case rotate
  then show ?thesis using effectsD [OF request_rules(4)] by simp
next
  case revoke
  then show ?thesis using effectsD [OF request_rules(5)] by simp
next
  case create
  then show ?thesis using effectsD [OF request_rules(6)] by simp
next
  case edit
  then show ?thesis using effectsD [OF request_rules(7)] by simp
next
  case cancel
  then show ?thesis using effectsD [OF command_rules(2) [OF eff_cancel_run]] by simp
next
  case relay
  then show ?thesis using effectsD [OF command_rules(1) [OF eff_ticks(1)]] by simp
next
  case schedule
  then show ?thesis using effectsD [OF command_rules(1) [OF eff_ticks(2)]] by simp
next
  case maintain
  then show ?thesis using effectsD [OF command_rules(1) [OF eff_ticks(3)]] by simp
qed

end

locale system_frame = quiet_frame R + desk_frame R for R :: "session \<Rightarrow> session \<Rightarrow> bool"
begin

lemma respects_step: "system_step s t \<Longrightarrow> R (db s) (db t)"
  using respects_or_decides effects_result [OF eff_decide_gate_route] unfolding accepted_def by blast

lemma respects_steps: "system_step\<^sup>*\<^sup>* s t \<Longrightarrow> R (db s) (db t)"
  by (induction rule: rtranclp_induct) (auto intro: eff_refl eff_trans respects_step)

end

context open_frame
begin

lemma system: "(\<And>s n. R s (s\<lparr>clock := n\<rparr>)) \<Longrightarrow> system_frame R"
  by (intro system_frame.intro quiet_frame.intro quiet_frame_axioms.intro desk desk_frame.axioms(1) [OF desk])

end

interpretation opn_numb: open_frame "\<lambda>s t. numbered s \<longrightarrow> numbered t"
  by unfold_locales (auto intro: numbered_cong [THEN iffD2] numb.eff_mark [THEN mp])

interpretation sys_numb: system_frame "\<lambda>s t. numbered s \<longrightarrow> numbered t"
  by (rule opn_numb.system) (auto intro: numbered_cong [THEN iffD2])

interpretation opn_logx: open_frame log_extends
  by unfold_locales (rule logx.eff_mark, assumption, auto simp: log_extends_def)

interpretation sys_logx: system_frame log_extends
  by (rule opn_logx.system) (simp add: log_extends_def)

interpretation opn_keyg: open_frame keys_grow
  by unfold_locales (auto simp: keys_grow_def)

interpretation sys_keyg: system_frame keys_grow
  by (rule opn_keyg.system) (simp add: keys_grow_def)

interpretation opn_idsg: open_frame ids_grow
  by unfold_locales (auto simp: ids_grow_def)

interpretation sys_idsg: system_frame ids_grow
  by (rule opn_idsg.system) (simp add: ids_grow_def)

text \<open>
  The rules the system plays by: what administrators and operators set stays as it is, and the
  stages and transitions of workflows are only added to.
\<close>

definition rules_kept :: "session \<Rightarrow> session \<Rightarrow> bool" where
  "rules_kept s t \<longleftrightarrow> get_settings t = get_settings s \<and> workspaces t = workspaces s \<and> limits t = limits s
     \<and> budgets t = budgets s \<and> caps t = caps s
     \<and> (\<exists>ws. wf_stages t = wf_stages s @ ws) \<and> (\<exists>ts. wf_transitions t = wf_transitions s @ ts)"

interpretation opn_rules: open_frame rules_kept
  by unfold_locales (auto simp: rules_kept_def)

interpretation sys_rules: system_frame rules_kept
  by (rule opn_rules.system) (simp add: rules_kept_def)



lemma acknowledge_keys: "acknowledge k None (Some wid) None d = (d', r) \<Longrightarrow> effect_keys d' = effect_keys d"
proof (cases "find_asg d k")
  case None
  then show "acknowledge k None (Some wid) None d = (d', r) \<Longrightarrow> ?thesis" by (auto simp: acknowledge_def Let_def)
next
  case (Some a)
  then show "acknowledge k None (Some wid) None d = (d', r) \<Longrightarrow> ?thesis"
    by (auto simp: acknowledge_outcome [OF Some] Let_def split: sum.splits if_splits)
qed

lemma ack_effect:
  assumes "ack_assignment k w s = (t, Inr out)" and "find_asg (db s) k = Some a"
  shows "\<exists>(u :: api) v r. effect_keys (db u) = effect_keys (db s)
    \<and> ensure_provider_effect_key (asg_workspace_id a) k (asg_attempt_number a) stage_execute None (db u) = (v, Inr r)
    \<and> effect_keys (db t) = effect_keys v \<and> lo_provider_effect_created out = Some (ekr_created r)"
proof -
  from assms(1) obtain s1 b u x v r y z where
    "held_assignment k w s = (s1, Inr b)"
    and lc: "lease_call (acknowledge k None (Some (aw_worker_id w)) None) s1 = (u, Inr x)"
    and en: "in_db (ensure_provider_effect_key (asg_workspace_id b) (asg_id b) (asg_attempt_number b) stage_execute None) u = (v, Inr r)"
    and ta: "in_db (the_asg k) v = (y, Inr z)" and ret: "ret (to_lease_out z (Some (ekr_created r))) y = (t, Inr out)"
    unfolding ack_assignment_def transaction_Inr by (elim bindE_eq_InrD) blast
  then have b: "s1 = s" "b = a" using held_outcome assms(2) by fastforce+
  have "asg_id a = k" using assms(2) by (rule asg_row_id)
  have "effect_keys (db u) = effect_keys (db s)"
    using lc acknowledge_keys by (cases "acknowledge k None (Some (aw_worker_id w)) None (db s)")
      (auto simp: lease_call_def try_except_def b split: sum.splits)
  moreover have "ensure_provider_effect_key (asg_workspace_id a) k (asg_attempt_number a) stage_execute None (db u) = (db v, Inr r)"
    using en \<open>asg_id a = k\<close> by (auto simp: b prod_eq_iff)
  moreover have "effect_keys (db t) = effect_keys (db v)" "lo_provider_effect_created out = Some (ekr_created r)"
    using ta ret by (auto simp: the_row_apply to_lease_out_def split: option.splits)
  ultimately show ?thesis by (intro exI [of _ u] exI [of _ "db v"] exI [of _ r]) simp
qed


lemma desk_ack: "\<exists>t out. ack_assignment 90 (desk_worker 80) (api_sample desk_sample) = (t, Inr out)"
proof -
  let ?s = "api_sample desk_sample"
  have "find_worker desk_sample 80 = Some sample_worker" by (simp add: desk_sample_def sample_worker_def)
  then have held: "held_assignment 90 (desk_worker 80) ?s = (?s, Inr (held_asg 90 1))"
    by (simp add: held_assignment_def assert_credential_still_active_def get_registration_def load_owned_assignment_def
        api_sample_def sample_credential_def desk_sample_facts(1) sample_worker_def held_asg_def sample_asg_def)
  obtain d where d: "acknowledge 90 None (Some 80) None desk_sample = (d, Inr ())" "\<exists>b. find_asg d 90 = Some b"
    using desk_sample_facts(1)
    by (simp add: acknowledge_outcome [OF desk_sample_facts(1)] assert_lease_outcome desk_sample_facts(6,7) Let_def
        held_asg_def default_settings_def lease_started_def find_row_upd_row seconds_def)
  have "lease_call (acknowledge 90 None (Some 80) None) ?s = (?s\<lparr>db := d\<rparr>, Inr ())"
    using d(1) by (simp add: lease_call_def try_except_def api_sample_def)
  then show ?thesis
    unfolding ack_assignment_def transaction_def savepoint_def
      bindE_Inr [where m = "held_assignment 90 (desk_worker 80)", OF held]
    using d(2) by (auto simp: bindE_Inr [where m = "lease_call (acknowledge 90 None (Some 80) None)"]
        ensure_effect_key_apply new_effect_key_def the_row_apply held_asg_def sample_asg_def)
qed


section \<open>Event identifiers\<close>

definition log_ids :: "session \<Rightarrow> bool" where
  "log_ids s \<longleftrightarrow> distinct (map ev_event_id (outbox s)) \<and> list_all (\<lambda>e. ev_event_id e < next_uuid s) (outbox s)"

lemma log_ids_map:
  assumes "map ev_event_id (outbox t) = map ev_event_id (outbox s)" and "next_uuid s \<le> next_uuid t"
  shows "log_ids s \<longrightarrow> log_ids t"
proof -
  have "list_all (\<lambda>e. ev_event_id e < n) es \<longleftrightarrow> list_all (\<lambda>i. i < n) (map ev_event_id es)" for n :: nat and es
    by (simp add: list.pred_map comp_def)
  moreover have "list_all (\<lambda>i. i < next_uuid s) is \<Longrightarrow> list_all (\<lambda>i. i < next_uuid t) is" for "is"
    using assms(2) by (auto simp: list_all_iff)
  ultimately show ?thesis using assms(1) unfolding log_ids_def by metis
qed

lemma log_ids_append:
  assumes "ev_event_id ev = next_uuid s"
  shows "log_ids s \<longrightarrow> log_ids (s\<lparr>next_uuid := Suc (next_uuid s), outbox := outbox s @ [ev]\<rparr>)"
  using assms by (fastforce simp: log_ids_def list_all_iff)

interpretation opn_ids: open_frame "\<lambda>s t. log_ids s \<longrightarrow> log_ids t"
proof unfold_locales
  fix f :: "outbox_event \<Rightarrow> outbox_event" and s :: session and k
  assume "\<And>e. ev_ident (f e) = ev_ident e"
  then have "ev_event_id (f e) = ev_event_id e" for e by (simp add: ev_ident_def)
  then show "log_ids s \<longrightarrow> log_ids (outbox_update (upd_row ev_event_id k f) s)"
    by (intro log_ids_map) (simp_all add: upd_row_def)
qed (simp, blast, (rule log_ids_append log_ids_map; simp)+)

interpretation sys_ids: system_frame "\<lambda>s t. log_ids s \<longrightarrow> log_ids t"
  by (rule opn_ids.system) (simp add: log_ids_def)


section \<open>Review gates\<close>


section \<open>Review gates\<close>

lemma ppl_edit: "effects people_kept (edit_review_gate_content ws gid v hook body cta)"
  unfolding edit_review_gate_content_def open_gate_def add_version_def get_review_gate_def
  by (intro ppl.run_rules ppl_set_gate) simp_all

interpretation sys_ppl: system_frame people_kept
  by unfold_locales (rule people_cong ppl_edit ppl_submit; simp)+

lemma gate_edit: "effects gates_kept (edit_review_gate_content ws gid v hook body cta)"
  unfolding edit_review_gate_content_def open_gate_def add_version_def get_review_gate_def
  by (intro gate.run_rules gate.eff_modify impI gates_single_decide) auto

interpretation sys_gate: system_frame gates_kept
  by unfold_locales (rule gate_edit gate_submit impI, (rule gates_single_cong [THEN iffD2]; simp)?)+

interpretation sys_closed: system_frame closed_last
  by unfold_locales (simp add: closed_last_cong)

interpretation sys_decg: system_frame decisions_grow
  by unfold_locales (simp add: decisions_grow_cong)

interpretation sys_same: quiet_frame same_verdicts
  by unfold_locales (simp add: same_verdicts_cong)

text \<open>Every verdict in the log was put there by an accepted decision on the gate it names.\<close>

lemma verdict_origin:
  assumes "system_step\<^sup>*\<^sup>* s t" and "(verdict_event ok, pl) \<in> set (verdict_log (db t))"
  shows "(verdict_event ok, pl) \<in> set (verdict_log (db s)) \<or> (\<exists>u v gid verdict m k. system_step\<^sup>*\<^sup>* s u \<and> accepted u v gid verdict m
    \<and> system_step\<^sup>*\<^sup>* v t \<and> ri_approved verdict = ok
    \<and> pl = [(''review_gate_id'', JStr (uuid_str gid)), (''decision_id'', JStr (uuid_str k))])"
  using assms
proof (induction rule: rtranclp_induct)
  case base
  then show ?case by blast
next
  case (step t w)
  show ?case
  proof (cases "(verdict_event ok, pl) \<in> set (verdict_log (db t))")
    case True
    from step.IH [OF this] show ?thesis
    proof (elim disjE exE conjE)
      fix u v gid verdict m k
      assume "system_step\<^sup>*\<^sup>* s u" "accepted u v gid verdict m" "system_step\<^sup>*\<^sup>* v t" "ri_approved verdict = ok"
        "pl = [(''review_gate_id'', JStr (uuid_str gid)), (''decision_id'', JStr (uuid_str k))]"
      then show ?thesis using rtranclp.rtrancl_into_rtrancl [of system_step v t w] step.hyps(2)
        by (intro disjI2 exI [of _ u] exI [of _ v] exI [of _ gid] exI [of _ verdict] exI [of _ m] exI [of _ k]) simp
    qed simp
  next
    case False
    then have "\<not> same_verdicts (db t) (db w)" using step.prems by (auto simp: same_verdicts_def)
    with sys_same.respects_or_decides [OF step.hyps(2)] obtain gid verdict m where a: "accepted t w gid verdict m" by blast
    then obtain k where "verdict_log (db w) = verdict_log (db t) @ [(verdict_event (ri_approved verdict),
        [(''review_gate_id'', JStr (uuid_str gid)), (''decision_id'', JStr (uuid_str k))])]"
      unfolding accepted_def using route_verdict by blast
    moreover have "verdict_event x = verdict_event y \<Longrightarrow> x = y" for x y by (cases x; cases y) simp_all
    ultimately have "ri_approved verdict = ok" "pl = [(''review_gate_id'', JStr (uuid_str gid)), (''decision_id'', JStr (uuid_str k))]"
      using False step.prems by auto
    with a step.hyps(1) show ?thesis by (intro disjI2 exI [of _ t] exI [of _ w] exI [of _ gid] exI [of _ verdict] exI [of _ m] exI [of _ k]) simp
  qed
qed

lemma verdict_has_request:
  assumes "system_step\<^sup>*\<^sup>* s t" and "decided_by_people (db s)" and "verdict_log (db s) = []"
    and "g \<in> set (gates (db t))" and "gate_status g = verdict_status ok"
  shows "\<exists>u v verdict m. system_step\<^sup>*\<^sup>* s u \<and> accepted u v (gate_id g) verdict m \<and> system_step\<^sup>*\<^sup>* v t \<and> ri_approved verdict = ok"
proof -
  have "decided_by_people (db t)" using sys_ppl.respects_steps [OF assms(1)] assms(2) by blast
  then obtain ev where ev: "ev \<in> set (outbox (db t))" "payload_gate ev = Inr (gate_id g)" "ev_event_type ev = verdict_event ok"
    using assms(4,5) unfolding decided_by_people_def verdict_logged_def by metis
  have "\<not> engine_event (verdict_event ok)" by (cases ok) (simp_all add: engine_event_def)
  with ev have "(verdict_event ok, ev_payload ev) \<in> set (verdict_log (db t))" by (force simp: verdict_log_def)
  from verdict_origin [OF assms(1) this] obtain u v gid verdict m k where
    h: "system_step\<^sup>*\<^sup>* s u" "accepted u v gid verdict m" "system_step\<^sup>*\<^sup>* v t" "ri_approved verdict = ok"
      "ev_payload ev = [(''review_gate_id'', JStr (uuid_str gid)), (''decision_id'', JStr (uuid_str k))]"
    unfolding assms(3) by auto
  have "gid < 2 ^ 128" using h(2) unfolding accepted_def by blast
  from uuid_of_str_uuid_str [OF this] have "payload_gate ev = Inr gid" using h(5) by (simp add: payload_gate_def)
  with ev(2) h show ?thesis by auto
qed

text \<open>What an accepted decision guarantees about the gate, then and for ever.\<close>

lemma accepted_gate:
  assumes "accepted s t gid verdict m" and "system_step\<^sup>*\<^sup>* t u"
  obtains gate gate' d where "find_gate (db s) gid = Some gate" "gate_status gate = GateAwaiting" "gate_workspace_id gate = wm_workspace_id m"
    "find_gate (db u) gid = Some gate'" "gate_workspace_id gate' = wm_workspace_id m" "gate_status gate' \<noteq> GateAwaiting"
    "gate_content_version_id gate' = gate_content_version_id gate" "wm_role m \<in> {ADMIN, REVIEWER}"
    "ri_approved verdict \<Longrightarrow> ri_expected_content_version_id verdict \<noteq> None \<and> ri_expected_content_version_id verdict = gate_content_version_id gate"
    "d \<in> set (decisions (db t))" "rd_reviewer_id d = wm_user_id m" "rd_decision d = verdict_decision (ri_approved verdict)"
proof -
  from assms(1) obtain user row where h: "decide_gate_route user (wm_workspace_id m) gid verdict s = (t, Inr row)"
    "wm_role m \<in> {ADMIN, REVIEWER}" "uuid_of_str user = Inr (wm_user_id m)" by (auto simp: accepted_def)
  from h(1) have v: "valid_decision verdict" by (rule decide_route_accepted) blast
  from h(1,3) have "decide_review_gate (wm_workspace_id m) gid (wm_user_id m) (ri_approved verdict) (ri_expected_content_version_id verdict)
      (ri_notes verdict) (db s) = (db t, Inr row)" by (rule_tac decide_route_accepted) auto
  from decision_pinned [OF this] obtain gate gate' and d :: review_decision where
    g: "find_gate (db s) gid = Some gate" "gate_status gate = GateAwaiting" "gate_workspace_id gate = wm_workspace_id m"
      "ri_expected_content_version_id verdict = None \<or> ri_expected_content_version_id verdict = gate_content_version_id gate"
    and g': "find_gate (db t) gid = Some gate'" "gate_status gate' \<noteq> GateAwaiting" "gate_content_version_id gate' = gate_content_version_id gate"
      "gate_workspace_id gate' = gate_workspace_id gate"
    and d: "d \<in> set (decisions (db t))" "rd_reviewer_id d = wm_user_id m" "rd_decision d = verdict_decision (ri_approved verdict)" by blast
  from sys_closed.respects_steps [OF assms(2)] g'(1,2) obtain g2 where g2: "find_gate (db u) gid = Some g2" "gate_status g2 = gate_status gate'"
    "gate_content_version_id g2 = gate_content_version_id gate'" "gate_workspace_id g2 = gate_workspace_id gate'" unfolding closed_last_def by metis
  show thesis
  proof (rule that)
    show "find_gate (db s) gid = Some gate" "gate_status gate = GateAwaiting" "gate_workspace_id gate = wm_workspace_id m" using g by simp_all
    show "find_gate (db u) gid = Some g2" "gate_workspace_id g2 = wm_workspace_id m" "gate_status g2 \<noteq> GateAwaiting"
      "gate_content_version_id g2 = gate_content_version_id gate" using g g' g2 by simp_all
    show "ri_expected_content_version_id verdict \<noteq> None \<and> ri_expected_content_version_id verdict = gate_content_version_id gate"
      if "ri_approved verdict" using that v g(4) by (auto simp: valid_decision_def)
  qed (rule h(2) d)+
qed

text \<open>
  C3: only a reviewer of the workspace approves or rejects. Over any history of a system that
  began without verdicts, whenever a gate stands approved (or rejected), there was a moment when a
  person who was then a member of the gate's workspace, as administrator or reviewer, sent exactly
  that decision on exactly that gate while it was open, and it was carried out; the decision row
  of that person is on record.
\<close>

theorem only_reviewers_decide:
  assumes "system_step\<^sup>*\<^sup>* s t" and "decided_by_people (db s)" and "verdict_log (db s) = []"
    and "find_gate (db t) gid = Some g" and "gate_status g = verdict_status ok"
  shows "\<exists>u v user verdict row m d. system_step\<^sup>*\<^sup>* s u \<and> decide_gate_route user (gate_workspace_id g) gid verdict u = (v, Inr row)
    \<and> system_step\<^sup>*\<^sup>* v t \<and> ri_approved verdict = ok \<and> map_option gate_status (find_gate (db u) gid) = Some GateAwaiting
    \<and> m \<in> set (memberships u) \<and> wm_workspace_id m = gate_workspace_id g \<and> wm_role m \<in> {ADMIN, REVIEWER} \<and> uuid_of_str user = Inr (wm_user_id m)
    \<and> d \<in> set (decisions (db t)) \<and> rd_reviewer_id d = wm_user_id m \<and> rd_decision d = verdict_decision ok"
proof -
  have g: "g \<in> set (gates (db t))" "gate_id g = gid" using assms(4) by (auto dest: find_row_SomeD)
  from verdict_has_request [OF assms(1-3) g(1) assms(5)] obtain u v verdict m where
    h: "system_step\<^sup>*\<^sup>* s u" "accepted u v gid verdict m" "system_step\<^sup>*\<^sup>* v t" "ri_approved verdict = ok" unfolding g(2) by blast
  obtain gate gate' d where a: "find_gate (db u) gid = Some gate" "gate_status gate = GateAwaiting" "find_gate (db t) gid = Some gate'"
    "gate_workspace_id gate' = wm_workspace_id m" "d \<in> set (decisions (db v))" "rd_reviewer_id d = wm_user_id m"
    "rd_decision d = verdict_decision (ri_approved verdict)" by (rule accepted_gate [OF h(2,3)])
  have ws: "wm_workspace_id m = gate_workspace_id g" using a(3,4) assms(4) by simp
  have "d \<in> set (decisions (db t))" using sys_decg.respects_steps [OF h(3)] a(5) by (auto simp: decisions_grow_def)
  moreover obtain user row where "decide_gate_route user (gate_workspace_id g) gid verdict u = (v, Inr row)" "m \<in> set (memberships u)"
    "wm_role m \<in> {ADMIN, REVIEWER}" "uuid_of_str user = Inr (wm_user_id m)" using h(2) unfolding accepted_def ws by blast
  ultimately show ?thesis using h(1,3,4) a(1,2,6,7) ws by fastforce
qed

text \<open>
  C2: nothing is published that a reviewer has not approved in that very version. Over any history
  of a system that began without verdicts, when the publication policy clears an item, a person
  who was at that moment administrator or reviewer of the workspace sent an approval of the gate
  that the clearance names, for the version that is the item's current one, and it was carried out.
\<close>

theorem published_version_was_approved:
  assumes "system_step\<^sup>*\<^sup>* s t" and "decided_by_people (db s)" and "verdict_log (db s) = []" and "one_row_each rows"
    and "assert_publishable rows ws it platform (db t) = (db t, Inr dec)"
  shows "\<exists>u v user verdict row m item version. system_step\<^sup>*\<^sup>* s u \<and> decide_gate_route user ws (dec_review_gate_id dec) verdict u = (v, Inr row)
    \<and> system_step\<^sup>*\<^sup>* v t \<and> ri_approved verdict \<and> ri_expected_content_version_id verdict = Some version
    \<and> m \<in> set (memberships u) \<and> wm_workspace_id m = ws \<and> wm_role m \<in> {ADMIN, REVIEWER} \<and> uuid_of_str user = Inr (wm_user_id m)
    \<and> find_item (db t) it = Some item \<and> ci_current_version_id item = Some version"
proof -
  obtain row gate where c: "cleared rows ws it (lower (py_strip platform)) (db t) row gate"
    and "dec = decision_for it (lower (py_strip platform)) row gate" by (rule publishable_cleared [OF assms(4,5)])
  then have dec: "dec_review_gate_id dec = gate_id gate" by (simp add: decision_for_def)
  from c have gate: "find_gate (db t) (gate_id gate) = Some gate" "gate_workspace_id gate = ws" "gate_status gate = verdict_status True"
    by (simp_all add: cleared_def gate_covers_def)
  from c obtain item version where item: "find_item (db t) it = Some item" "ci_current_version_id item = Some version"
    "gate_content_version_id gate = Some version" by (auto simp: cleared_def gate_covers_def)
  have "gate \<in> set (gates (db t))" using gate(1) by (auto dest: find_row_SomeD)
  from verdict_has_request [OF assms(1-3) this gate(3)] obtain u v verdict m where
    h: "system_step\<^sup>*\<^sup>* s u" "accepted u v (gate_id gate) verdict m" "system_step\<^sup>*\<^sup>* v t" "ri_approved verdict" by blast
  obtain g g' :: review_gate where a: "find_gate (db t) (gate_id gate) = Some g'" "gate_workspace_id g' = wm_workspace_id m"
    "gate_content_version_id g' = gate_content_version_id g" "ri_expected_content_version_id verdict = gate_content_version_id g"
    using h(4) by (rule_tac accepted_gate [OF h(2,3)]) blast
  then have ver: "ri_expected_content_version_id verdict = Some version" and ws: "wm_workspace_id m = ws" using gate item(3) by simp_all
  moreover obtain user out where "decide_gate_route user ws (gate_id gate) verdict u = (v, Inr out)" "m \<in> set (memberships u)"
    "wm_role m \<in> {ADMIN, REVIEWER}" "uuid_of_str user = Inr (wm_user_id m)" using h(2) unfolding accepted_def ws by blast
  ultimately show ?thesis unfolding dec using h(1,3,4) item(1,2) by fastforce
qed

text \<open>
  C25: a run waits at no more than one gate. Over any history of the system no run ever has
  two gates that await a decision.
\<close>

theorem one_open_gate_per_run:
  assumes "system_step\<^sup>*\<^sup>* s t" and "gates_single (db s)"
  shows "length (awaiting_gates (db t) rid) \<le> 1"
  using sys_gate.respects_steps [OF assms(1)] assms(2) by (simp add: gates_single_def)

section \<open>A reviewed run\<close>

definition reviewer_sample :: api where
  "reviewer_sample = (api_sample desk_gate_sample)\<lparr>memberships := [\<lparr>wm_id = 902, wm_workspace_id = 1, wm_user_id = 5, wm_role = REVIEWER\<rparr>]\<rparr>"

definition sample_verdict :: review_decision_in where
  "sample_verdict = \<lparr>ri_approved = True, ri_notes = None, ri_expected_content_version_id = Some 21\<rparr>"

lemma reviewer_sample_decides:
  "\<exists>t row gate. decide_gate_route (uuid_str 5) 1 70 sample_verdict reviewer_sample = (t, Inr row) \<and> system_step reviewer_sample t
    \<and> find_gate (db t) 70 = Some gate \<and> gate_status gate = GateApproved
    \<and> cleared [sample_eligibility] 1 20 ''youtube'' (db t) sample_eligibility gate"
proof -
  obtain d row run' where h: "decide_review_gate 1 70 5 True (Some 21) None desk_gate_sample = (d, Inr row)"
      "map_option gate_status (find_gate d 70) = Some GateApproved" "find_run d 10 = Some run'" "run_content_item_id run' = 20"
      "run_workspace_id run' = 1" "find_item d 20 = Some sample_item" "map_option gate_pipeline_run_id (find_gate d 70) = Some 10"
    using desk_approval [OF desk_gate_facts, of 5 None] by (auto simp: sample_gate_def sample_run_def)
  from decision_pinned [OF h(1)] desk_gate_facts(1) obtain gate where gate: "find_gate d 70 = Some gate"
      "gate_content_version_id gate = Some 21" "gate_workspace_id gate = 1" by (auto simp: sample_gate_def)
  then have "cleared [sample_eligibility] 1 20 ''youtube'' d sample_eligibility gate"
    using h gate find_row_SomeD [OF gate(1)]
    by (simp add: cleared_def sample_eligibility_def attested_def original_def gate_covers_def sample_gate_def sample_item_def)
  have "uuid_of_str (uuid_str 5) = Inr 5" by (rule uuid_of_str_uuid_str) simp
  then have guard: "require_workspace_reviewer 1 (uuid_str 5) reviewer_sample = (reviewer_sample, Inr \<lparr>wm_id = 902, wm_workspace_id = 1, wm_user_id = 5, wm_role = REVIEWER\<rparr>)"
    by (simp add: require_workspace_reviewer_def require_workspace_role_def get_membership_def reviewer_sample_def)
  have "db reviewer_sample = desk_gate_sample" by (simp add: reviewer_sample_def api_sample_def)
  with h(1) \<open>uuid_of_str (uuid_str 5) = Inr 5\<close>
  have dec: "decide_gate_route (uuid_str 5) 1 70 sample_verdict reviewer_sample = (reviewer_sample\<lparr>db := d\<rparr>, Inr row)"
    unfolding decide_gate_route_def transaction_def savepoint_def bindE_Inr [where m = "require_workspace_reviewer 1 (uuid_str 5)", OF guard]
    by (simp add: validated_def valid_decision_def sample_verdict_def at_most_def try_except_def del: One_nat_def)
  moreover have "system_step reviewer_sample (reviewer_sample\<lparr>db := d\<rparr>)"
    using system_step.decide [of 70 reviewer_sample "uuid_str 5" 1 sample_verdict] dec by simp
  ultimately show ?thesis using h(2) gate(1) \<open>cleared _ _ _ _ _ _ _\<close>
    by (intro exI [of _ "reviewer_sample\<lparr>db := d\<rparr>"] exI [of _ row] exI [of _ gate]) auto
qed

lemma reviewer_sample_clean: "decided_by_people (db reviewer_sample)" "gates_single (db reviewer_sample)" "verdict_log (db reviewer_sample) = []"
  by (simp_all add: reviewer_sample_def api_sample_def desk_gate_sample_def verdict_sample_def wf_sample_defs empty_session_def
      decided_by_people_def gates_single_def awaiting_gates_def verdict_log_def)

theorem only_reviewers_decide_witness:
  "\<exists>t g (u :: api) m d. system_step\<^sup>*\<^sup>* reviewer_sample t \<and> find_gate (db t) 70 = Some g \<and> gate_status g = GateApproved
    \<and> m \<in> set (memberships u) \<and> wm_role m \<in> {ADMIN, REVIEWER} \<and> d \<in> set (decisions (db t)) \<and> rd_reviewer_id d = wm_user_id m"
proof -
  obtain t g where t: "system_step\<^sup>*\<^sup>* reviewer_sample t" "find_gate (db t) 70 = Some g" "gate_status g = GateApproved"
    using reviewer_sample_decides by blast
  from only_reviewers_decide [OF t(1) reviewer_sample_clean(1,3) t(2), of True] t(3) obtain u :: api and m d where
    "m \<in> set (memberships u)" "wm_role m \<in> {ADMIN, REVIEWER}" "d \<in> set (decisions (db t))" "rd_reviewer_id d = wm_user_id m" by auto
  with t show ?thesis by blast
qed

theorem published_version_was_approved_witness:
  "\<exists>t dec (u :: api) m. system_step\<^sup>*\<^sup>* reviewer_sample t \<and> assert_publishable [sample_eligibility] 1 20 ''youtube'' (db t) = (db t, Inr dec)
    \<and> m \<in> set (memberships u) \<and> wm_workspace_id m = 1 \<and> wm_role m \<in> {ADMIN, REVIEWER}"
proof -
  obtain t g where t: "system_step\<^sup>*\<^sup>* reviewer_sample t" "cleared [sample_eligibility] 1 20 ''youtube'' (db t) sample_eligibility g"
    using reviewer_sample_decides by blast
  have "lower (py_strip ''youtube'') = ''youtube''" by code_simp
  with t(2) have pub: "assert_publishable [sample_eligibility] 1 20 ''youtube'' (db t) = (db t, Inr (decision_for 20 ''youtube'' sample_eligibility g))"
    using publishable_iff_cleared [OF one_row_sample, of "''youtube''" 1 20 "db t"] by (auto simp: Let_def SUPPORTED_PLATFORMS_def)
  from published_version_was_approved [OF t(1) reviewer_sample_clean(1,3) one_row_sample pub] obtain u :: api and m where
    "m \<in> set (memberships u)" "wm_workspace_id m = 1" "wm_role m \<in> {ADMIN, REVIEWER}" by blast
  with t(1) pub show ?thesis by blast
qed


theorem one_open_gate_per_run_witness:
  "\<exists>u. system_step\<^sup>*\<^sup>* reviewer_sample u \<and> length (awaiting_gates (db u) 10) \<le> 1"
  using reviewer_sample_decides one_open_gate_per_run [OF _ reviewer_sample_clean(2)] by blast

end
