(* ===== verification/RateLimit.thy ===== *)
theory RateLimit
  imports PyLib "HOL-Library.AList"
begin

text \<open>
  Request rate limiting (\<open>core/rate_limit.py\<close>): the in-memory fixed-window limiter with its
  bounded, insertion-ordered map of windows, the limiter whose counters are shared through
  PostgreSQL, and the middleware that applies one of them. Times are rationals of seconds; the
  database clock, the process clock and whether the advisory lock was obtained are arguments.
  The lemmas show that both limiters decide like one abstract fixed-window counter, how many
  requests it can admit in any span of one window, and that the map stays bounded.
\<close>

section \<open>The in-memory limiter\<close>

record window =
  started_at :: rat
  win_count :: int

record in_memory_limiter =
  max_requests :: int
  window_seconds :: rat
  max_tracked_keys :: nat
  windows :: "(string \<times> window) list"   \<comment> \<open>the \<open>OrderedDict\<close>, oldest first\<close>
  next_sweep_at :: rat

definition DEFAULT_MAX_TRACKED_KEYS :: nat where
  "DEFAULT_MAX_TRACKED_KEYS = 100000"

definition in_memory_init :: "int \<Rightarrow> rat \<Rightarrow> nat \<Rightarrow> py_error + in_memory_limiter" where
  "in_memory_init mr ws mk =
     (if mr < 1 then Inl (ValueError ''max_requests must be >= 1'')
      else if ws \<le> 0 then Inl (ValueError ''window_seconds must be > 0'')
      else if mk < 1 then Inl (ValueError ''max_tracked_keys must be >= 1'')
      else Inr \<lparr>max_requests = mr, window_seconds = ws, max_tracked_keys = mk, windows = [], next_sweep_at = 0\<rparr>)"

definition tracked_keys :: "in_memory_limiter \<Rightarrow> nat" where
  "tracked_keys l = length (windows l)"

definition sweep :: "rat \<Rightarrow> in_memory_limiter \<Rightarrow> in_memory_limiter" where
  "sweep now l =
     (let cutoff = now - window_seconds l in
      l\<lparr>windows := filter (\<lambda>(key, w). cutoff < started_at w) (windows l),
        next_sweep_at := now + window_seconds l\<rparr>)"

fun evict :: "nat \<Rightarrow> (string \<times> window) list \<Rightarrow> (string \<times> window) list" where
  \<comment> \<open>\<open>while len(...) >= max: popitem(last=False)\<close>; the limit is at least one\<close>
  "evict n [] = []"
| "evict n (x # ws) = (if n \<le> length (x # ws) then evict n ws else x # ws)"

definition make_room :: "rat \<Rightarrow> in_memory_limiter \<Rightarrow> in_memory_limiter" where
  "make_room now l =
     (let l = (if next_sweep_at l \<le> now then sweep now l else l) in
      l\<lparr>windows := evict (max_tracked_keys l) (windows l)\<rparr>)"

definition set_at_end :: "string \<Rightarrow> window \<Rightarrow> (string \<times> window) list \<Rightarrow> (string \<times> window) list" where
  \<comment> \<open>assigning the key and \<open>move_to_end\<close>\<close>
  "set_at_end key w ws = filter (\<lambda>(k, _). k \<noteq> key) ws @ [(key, w)]"

definition check :: "string \<Rightarrow> rat \<Rightarrow> in_memory_limiter \<Rightarrow> in_memory_limiter \<times> bool \<times> rat" where
  "check key now l =
     (case map_of (windows l) key of
        Some w \<Rightarrow>
          if window_seconds l \<le> now - started_at w then
            (let l = make_room now l in
             (l\<lparr>windows := set_at_end key \<lparr>started_at = now, win_count = 1\<rparr> (windows l)\<rparr>, True, 0))
          else if win_count w < max_requests l then
            (l\<lparr>windows := map (\<lambda>(k, x). (k, if k = key then x\<lparr>win_count := win_count x + 1\<rparr> else x)) (windows l)\<rparr>, True, 0)
          else (l, False, max (window_seconds l - (now - started_at w)) 0)
      | None \<Rightarrow>
          (let l = make_room now l in
           (l\<lparr>windows := set_at_end key \<lparr>started_at = now, win_count = 1\<rparr> (windows l)\<rparr>, True, 0)))"

section \<open>The shared limiter\<close>

record rate_row =
  rl_bucket_key :: string
  rl_window_started_at :: rat
  rl_expires_at :: rat
  rl_count :: int
  rl_updated_at :: rat

record postgres_limiter =
  pg_max_requests :: int
  pg_window_seconds :: rat
  pg_cleanup_interval_seconds :: rat
  pg_cleanup_batch_size :: nat
  pg_next_cleanup_at :: rat
  request_rate_limits :: "rate_row list"

definition postgres_init :: "int \<Rightarrow> rat \<Rightarrow> rat option \<Rightarrow> nat \<Rightarrow> rat \<Rightarrow> rate_row list \<Rightarrow> py_error + postgres_limiter" where
  "postgres_init mr ws interval batch monotonic rows =
     (if mr < 1 then Inl (ValueError ''max_requests must be >= 1'')
      else if ws \<le> 0 then Inl (ValueError ''window_seconds must be > 0'')
      else if (case interval of None \<Rightarrow> False | Some i \<Rightarrow> i \<le> 0) then Inl (ValueError ''cleanup_interval_seconds must be > 0'')
      else if batch < 1 then Inl (ValueError ''cleanup_batch_size must be >= 1'')
      else
        (let i = (case interval of None \<Rightarrow> ws | Some i \<Rightarrow> i) in
         Inr \<lparr>pg_max_requests = mr, pg_window_seconds = ws, pg_cleanup_interval_seconds = i,
           pg_cleanup_batch_size = batch, pg_next_cleanup_at = monotonic + i, request_rate_limits = rows\<rparr>))"

definition fresh_row :: "string \<Rightarrow> rat \<Rightarrow> rat \<Rightarrow> rate_row" where
  "fresh_row key ws now = \<lparr>rl_bucket_key = key, rl_window_started_at = now, rl_expires_at = now + ws,
     rl_count = 1, rl_updated_at = now\<rparr>"

definition conflict_update :: "rate_row \<Rightarrow> rate_row \<Rightarrow> rate_row" where
  \<comment> \<open>\<open>DO UPDATE SET\<close>: the stored row \<open>rl\<close> and the row \<open>EXCLUDED\<close> that was to be inserted\<close>
  "conflict_update ex rl = \<lparr>rl_bucket_key = rl_bucket_key rl,
     rl_window_started_at = (if rl_expires_at rl \<le> rl_updated_at ex then rl_window_started_at ex else rl_window_started_at rl),
     rl_expires_at = (if rl_expires_at rl \<le> rl_updated_at ex then rl_expires_at ex else rl_expires_at rl),
     rl_count = (if rl_expires_at rl \<le> rl_updated_at ex then 1 else rl_count rl + 1),
     rl_updated_at = rl_updated_at ex\<rparr>"

definition upsert :: "string \<Rightarrow> rat \<Rightarrow> rat \<Rightarrow> rate_row list \<Rightarrow> rate_row list \<times> rate_row" where
  \<comment> \<open>\<open>_RATE_LIMIT_UPSERT_SQL\<close> with the row it returns\<close>
  "upsert key ws now rows =
     (case find_row rl_bucket_key key rows of
        None \<Rightarrow> (rows @ [fresh_row key ws now], fresh_row key ws now)
      | Some rl \<Rightarrow> (upd_row rl_bucket_key key (conflict_update (fresh_row key ws now)) rows,
          conflict_update (fresh_row key ws now) rl))"

definition cleanup :: "rat \<Rightarrow> nat \<Rightarrow> rate_row list \<Rightarrow> rate_row list" where
  \<comment> \<open>\<open>_RATE_LIMIT_CLEANUP_SQL\<close>\<close>
  "cleanup now batch_size rows =
     (let doomed = map rl_bucket_key (take batch_size (sort_key rl_expires_at (filter (\<lambda>r. rl_expires_at r \<le> now) rows))) in
      filter (\<lambda>r. rl_bucket_key r \<notin> set doomed) rows)"

definition pg_check :: "string \<Rightarrow> rat \<Rightarrow> rat \<Rightarrow> rat \<Rightarrow> bool \<Rightarrow> postgres_limiter \<Rightarrow> postgres_limiter \<times> bool \<times> rat" where
  \<comment> \<open>\<open>monotonic\<close> is the process clock, \<open>now\<close> and \<open>later\<close> the database's at the two statements\<close>
  "pg_check key monotonic now later locked_ok l =
     (let (rows, row) = upsert key (pg_window_seconds l) now (request_rate_limits l);
          l1 = (if pg_next_cleanup_at l \<le> monotonic then
                  if locked_ok then l\<lparr>request_rate_limits := cleanup later (pg_cleanup_batch_size l) rows,
                       pg_next_cleanup_at := monotonic + pg_cleanup_interval_seconds l\<rparr>
                  else l\<lparr>request_rate_limits := rows,
                       pg_next_cleanup_at := monotonic + min 1 (pg_cleanup_interval_seconds l)\<rparr>
                else l\<lparr>request_rate_limits := rows\<rparr>);
          retry_after = max (rl_expires_at row - rl_updated_at row) 0;
          allowed = rl_count row \<le> pg_max_requests l
      in (l1, allowed, if allowed then 0 else retry_after))"

section \<open>The middleware\<close>

datatype response =
    Forwarded                       \<comment> \<open>\<open>await call_next(request)\<close>\<close>
  | Unavailable                     \<comment> \<open>503, \<open>rate_limit_backend_unavailable\<close>\<close>
  | TooMany int                     \<comment> \<open>429 with its \<open>Retry-After\<close>\<close>

record middleware =
  auth_path_prefixes :: "string list"
  exempt_paths :: "string list"

definition default_middleware :: middleware where
  "default_middleware = \<lparr>auth_path_prefixes = [''/auth/''],
     exempt_paths = [''/health/live'', ''/health/ready'', ''/health/automation'', ''/metrics'']\<rparr>"

definition starts_with :: "string \<Rightarrow> string \<Rightarrow> bool" where
  "starts_with s p \<longleftrightarrow> take (length p) s = p"

definition client_ip :: "string option \<Rightarrow> string" where
  "client_ip client = (case client of None \<Rightarrow> ''unknown'' | Some host \<Rightarrow> host)"

definition tier_of :: "middleware \<Rightarrow> string \<Rightarrow> string" where
  "tier_of m path = (if list_ex (starts_with path) (auth_path_prefixes m) then ''auth'' else ''global'')"

definition bucket_of :: "middleware \<Rightarrow> string \<Rightarrow> string option \<Rightarrow> string" where
  "bucket_of m path client = tier_of m path @ '':'' @ client_ip client"

definition dispatch :: "middleware \<Rightarrow> string \<Rightarrow> (py_error + bool \<times> rat) \<Rightarrow> response" where
  \<comment> \<open>\<open>result\<close> is what the limiter of the path's tier answers for the bucket\<close>
  "dispatch m path result =
     (if path \<in> set (exempt_paths m) then Forwarded
      else case result of
          Inl _ \<Rightarrow> Unavailable
        | Inr (allowed, retry_after) \<Rightarrow>
            if \<not> allowed then TooMany (\<lfloor>retry_after\<rfloor> + 1)
            else Forwarded)"

section \<open>A fixed-window counter\<close>

text \<open>
  The specification: per key the start of the last window and how many requests it has
  admitted. A window that has run out counts as none.
\<close>

type_synonym counter = "(rat \<times> int) option"

definition expire :: "rat \<Rightarrow> rat \<Rightarrow> counter \<Rightarrow> counter" where
  "expire W now w = (case w of None \<Rightarrow> None | Some (st, c) \<Rightarrow> if now < st + W then Some (st, c) else None)"

definition admits :: "int \<Rightarrow> counter \<Rightarrow> bool" where
  "admits n w = (case w of None \<Rightarrow> True | Some (st, c) \<Rightarrow> c < n)"

definition count_in :: "int \<Rightarrow> rat \<Rightarrow> counter \<Rightarrow> counter" where
  "count_in n now w = (case w of None \<Rightarrow> Some (now, 1) | Some (st, c) \<Rightarrow> Some (st, min n (c + 1)))"

primrec spec_run :: "rat \<Rightarrow> int \<Rightarrow> (string \<Rightarrow> counter) \<Rightarrow> (rat \<times> string) list \<Rightarrow> bool list" where
  "spec_run W n f [] = []"
| "spec_run W n f (r # rs) = admits n (expire W (fst r) (f (snd r)))
     # spec_run W n (f(snd r := count_in n (fst r) (expire W (fst r) (f (snd r))))) rs"

primrec admitted :: "string \<Rightarrow> (rat \<times> string) list \<Rightarrow> bool list \<Rightarrow> int" where
  \<comment> \<open>how many requests of the key were admitted\<close>
  "admitted k [] bs = 0"
| "admitted k (r # rs) bs = (case bs of [] \<Rightarrow> 0 | b # bs \<Rightarrow> (if snd r = k \<and> b then 1 else 0) + admitted k rs bs)"

lemma expire_simps [simp]:
  "expire W now None = None" "expire W now (Some (st, c)) = (if now < st + W then Some (st, c) else None)"
  by (simp_all add: expire_def)

lemma admits_simps [simp]: "admits n None" "admits n (Some (st, c)) = (c < n)"
  by (simp_all add: admits_def)

lemma count_in_simps [simp]: "count_in n now None = Some (now, 1)" "count_in n now (Some (st, c)) = Some (st, min n (c + 1))"
  by (simp_all add: count_in_def)

lemma expire_expire: "t \<le> t' \<Longrightarrow> expire W t' (expire W t w) = expire W t' w"
  by (cases w) (auto simp: expire_def)

subsection \<open>How much it admits\<close>

lemma admitted_in_window:
  assumes "f k = Some (st, c)" and "c \<le> n" and "\<And>r. r \<in> set rs \<Longrightarrow> fst r < st + W"
  shows "admitted k rs (spec_run W n f rs) \<le> n - c"
  using assms
proof (induction rs arbitrary: f c)
  case (Cons r rs)
  define g where "g = f(snd r := count_in n (fst r) (expire W (fst r) (f (snd r))))"
  have rest: "fst q < st + W" if "q \<in> set rs" for q using Cons.prems(3) that by simp
  have g: "g k = Some (st, if snd r = k then min n (c + 1) else c)" using Cons.prems(1) Cons.prems(3) [of r] by (auto simp: g_def)
  have "admitted k rs (spec_run W n g rs) \<le> n - (if snd r = k then min n (c + 1) else c)"
    by (rule Cons.IH [of g, OF g]) (use Cons.prems(2) rest in auto)
  then show ?case using Cons.prems(1,2) Cons.prems(3) [of r] by (auto simp: g_def min_def split: if_splits)
qed simp

lemma admitted_in_span:
  assumes "1 \<le> n" and "\<And>st c. f k = Some (st, c) \<Longrightarrow> 0 \<le> c \<and> c \<le> n"
    and "\<And>r. r \<in> set rs \<Longrightarrow> a \<le> fst r \<and> fst r < a + W"
  shows "admitted k rs (spec_run W n f rs) \<le> (case f k of None \<Rightarrow> n | Some (st, c) \<Rightarrow> 2 * n - c)"
  using assms(2,3)
proof (induction rs arbitrary: f)
  case (Cons r rs)
  define w where "w = expire W (fst r) (f (snd r))"
  define g where "g = f(snd r := count_in n (fst r) w)"
  have rest: "a \<le> fst q \<and> fst q < a + W" if "q \<in> set rs" for q using Cons.prems(2) that by simp
  have run: "admitted k (r # rs) (spec_run W n f (r # rs))
      = (if snd r = k \<and> admits n w then 1 else 0) + admitted k rs (spec_run W n g rs)"
    by (simp add: g_def w_def)
  consider (other) "snd r \<noteq> k" | (new) "snd r = k" "w = None"
    | (live) st c where "snd r = k" "w = Some (st, c)" "f k = Some (st, c)"
  proof (cases w)
    case (Some p)
    then have "f (snd r) = Some p" unfolding w_def by (cases "f (snd r)") (auto split: if_splits)
    then show ?thesis using Some that by (cases p; cases "snd r = k") auto
  qed (use that in blast)
  then show ?case
  proof cases
    case other
    then have "g k = f k" by (simp add: g_def)
    then show ?thesis unfolding run using Cons.IH [of g] rest Cons.prems(1) other by simp
  next
    case new
    have "admitted k rs (spec_run W n g rs) \<le> n - 1"
    proof (rule admitted_in_window)
      show "g k = Some (fst r, 1)" using new by (simp add: g_def)
      show "fst q < fst r + W" if "q \<in> set rs" for q using rest [OF that] Cons.prems(2) [of r] by simp
    qed (rule assms(1))
    then show ?thesis unfolding run using new Cons.prems(1) by (auto split: option.split)
  next
    case (live st c)
    then have g: "g k = Some (st, min n (c + 1))" by (simp add: g_def)
    have "admitted k rs (spec_run W n g rs) \<le> (case g k of None \<Rightarrow> n | Some (st, c) \<Rightarrow> 2 * n - c)"
      by (rule Cons.IH) (use g Cons.prems(1) [OF live(3)] rest assms(1) in auto)
    then show ?thesis unfolding run using live Cons.prems(1) [OF live(3)] by (auto simp: g)
  qed
qed (use assms(1) in \<open>auto split: option.split\<close>)

subsection \<open>Limiters that decide like it\<close>

text \<open>
  A limiter asked at the times of its clock: \<open>asked\<close> is the time a request is judged by and
  \<open>settled\<close> the time it is done. Its window for a key may be stale, as long as what is left of it
  agrees with the specification.
\<close>

primrec orderly :: "('e \<Rightarrow> rat) \<Rightarrow> ('e \<Rightarrow> rat) \<Rightarrow> rat \<Rightarrow> ('e \<times> string) list \<Rightarrow> bool" where
  \<comment> \<open>the clock does not run backwards from \<open>t\<close> on\<close>
  "orderly asked settled t [] \<longleftrightarrow> True"
| "orderly asked settled t (r # rs) \<longleftrightarrow> t \<le> asked (fst r) \<and> asked (fst r) \<le> settled (fst r) \<and> orderly asked settled (settled (fst r)) rs"

primrec ask_all :: "('e \<Rightarrow> string \<Rightarrow> 's \<Rightarrow> 's \<times> bool) \<Rightarrow> 's \<Rightarrow> ('e \<times> string) list \<Rightarrow> bool list" where
  "ask_all ask s [] = []"
| "ask_all ask s (r # rs) = snd (ask (fst r) (snd r) s) # ask_all ask (fst (ask (fst r) (snd r) s)) rs"

locale fixed_window =
  fixes W :: rat and n :: int and K :: "string set"
    and ok :: "'s \<Rightarrow> rat \<Rightarrow> bool" and live :: "'s \<Rightarrow> string \<Rightarrow> counter"
    and asked :: "'e \<Rightarrow> rat" and settled :: "'e \<Rightarrow> rat"
    and ask :: "'e \<Rightarrow> string \<Rightarrow> 's \<Rightarrow> 's \<times> bool"
  assumes ask_law: "ok s t \<Longrightarrow> t \<le> asked e \<Longrightarrow> asked e \<le> settled e \<Longrightarrow> k \<in> K \<Longrightarrow> ask e k s = (u, b) \<Longrightarrow>
      ok u (settled e) \<and> b = admits n (expire W (asked e) (live s k))
      \<and> (\<forall>k' \<in> K. expire W (settled e) (live u k') = expire W (settled e)
           (if k' = k then count_in n (asked e) (expire W (asked e) (live s k)) else live s k'))"
begin

lemma decides_like_spec:
  assumes "ok s t" and "\<And>k. k \<in> K \<Longrightarrow> expire W t (live s k) = expire W t (f k)"
    and "orderly asked settled t rs" and "snd ` set rs \<subseteq> K"
  shows "ask_all ask s rs = spec_run W n f (map (apfst asked) rs)"
  using assms
proof (induction rs arbitrary: s t f)
  case (Cons r rs)
  obtain e k where r: "r = (e, k)" by (cases r)
  obtain u b where u: "ask e k s = (u, b)" by (cases "ask e k s")
  have h: "t \<le> asked e" "asked e \<le> settled e" "orderly asked settled (settled e) rs" "k \<in> K" "snd ` set rs \<subseteq> K"
    using Cons.prems(3,4) by (simp_all add: r)
  note law = ask_law [OF Cons.prems(1) h(1,2,4) u]
  have same: "expire W t' (live s k') = expire W t' (f k')" if "k' \<in> K" "t \<le> t'" for k' t'
    using Cons.prems(2) [OF that(1)] expire_expire [OF that(2)] by metis
  define g where "g = f(k := count_in n (asked e) (expire W (asked e) (f k)))"
  have "expire W (settled e) (live u k') = expire W (settled e) (g k')" if "k' \<in> K" for k'
    using law that same [OF that, of "settled e"] same [OF h(4,1)] h(1,2) by (auto simp: g_def)
  from Cons.IH [OF _ this h(3,5)] law same [OF h(4,1)] show ?case by (simp add: r u g_def fun_upd_def)
qed simp

lemma ask_prefix:
  assumes "ok s t" and "orderly asked settled t (rs @ qs)" and "snd ` set rs \<subseteq> K"
  shows "\<exists>u t'. ok u t' \<and> orderly asked settled t' qs \<and> drop (length rs) (ask_all ask s (rs @ qs)) = ask_all ask u qs"
  using assms
proof (induction rs arbitrary: s t)
  case (Cons r rs)
  obtain u b where u: "ask (fst r) (snd r) s = (u, b)" by (cases "ask (fst r) (snd r) s")
  have "ok u (settled (fst r))" using ask_law [OF Cons.prems(1) _ _ _ u] Cons.prems(2,3) by simp
  from Cons.IH [OF this] Cons.prems(2,3) show ?case by (simp add: u)
qed auto

lemma burst_bound:
  assumes "ok s t" and "orderly asked settled t rs" and "snd ` set rs \<subseteq> K" and "1 \<le> n"
    and "\<And>st c. live s k = Some (st, c) \<Longrightarrow> 0 \<le> c \<and> c \<le> n"
    and "\<And>r. r \<in> set rs \<Longrightarrow> a \<le> asked (fst r) \<and> asked (fst r) < a + W"
  shows "admitted k (map (apfst asked) rs) (ask_all ask s rs) \<le> 2 * n"
proof -
  have "admitted k (map (apfst asked) rs) (spec_run W n (live s) (map (apfst asked) rs))
      \<le> (case live s k of None \<Rightarrow> n | Some (st, c) \<Rightarrow> 2 * n - c)"
    by (rule admitted_in_span [OF assms(4), where a = a]) (use assms(5,6) in auto)
  also have "\<dots> \<le> 2 * n" using assms(4,5) by (auto split: option.split)
  finally show ?thesis using decides_like_spec [OF assms(1) refl assms(2,3)] by simp
qed

end

section \<open>The shared limiter decides like the counter\<close>

definition pg_live :: "postgres_limiter \<Rightarrow> string \<Rightarrow> counter" where
  "pg_live l k = map_option (\<lambda>r. (rl_window_started_at r, min (pg_max_requests l) (rl_count r)))
     (find_row rl_bucket_key k (request_rate_limits l))"

definition pg_ok :: "rat \<Rightarrow> int \<Rightarrow> postgres_limiter \<Rightarrow> rat \<Rightarrow> bool" where
  "pg_ok W n l t \<longleftrightarrow> 0 < W \<and> 1 \<le> n \<and> pg_max_requests l = n \<and> pg_window_seconds l = W
     \<and> distinct (map rl_bucket_key (request_rate_limits l))
     \<and> list_all (\<lambda>r. rl_expires_at r = rl_window_started_at r + W \<and> 1 \<le> rl_count r) (request_rate_limits l)"

record pg_call =
  pc_monotonic :: rat
  pc_now :: rat
  pc_later :: rat
  pc_locked :: bool

definition pg_ask :: "pg_call \<Rightarrow> string \<Rightarrow> postgres_limiter \<Rightarrow> postgres_limiter \<times> bool" where
  "pg_ask e k l = (case pg_check k (pc_monotonic e) (pc_now e) (pc_later e) (pc_locked e) l of (u, b, r) \<Rightarrow> (u, b))"

lemma rl_key_simps [simp]:
  "rl_bucket_key (fresh_row k ws now) = k" "rl_bucket_key (conflict_update ex rl) = rl_bucket_key rl"
  by (simp_all add: fresh_row_def conflict_update_def)

lemma upsert_find:
  "find_row rl_bucket_key k' (fst (upsert k ws now rows)) =
     (if k' = k then Some (snd (upsert k ws now rows)) else find_row rl_bucket_key k' rows)"
  by (auto simp: upsert_def find_row_append find_row_upd_row split: option.split)

lemma upsert_row:
  "snd (upsert k ws now rows) = (case find_row rl_bucket_key k rows of None \<Rightarrow> fresh_row k ws now
     | Some rl \<Rightarrow> conflict_update (fresh_row k ws now) rl)"
  by (simp add: upsert_def split: option.split)

lemma find_row_filter_key: "find_row key k (filter (\<lambda>r. key r \<notin> D) rows) = (if k \<in> D then None else find_row key k rows)"
  by (induction rows) auto

lemma cleanup_expired:
  assumes "distinct (map rl_bucket_key rows)" and "list_all (\<lambda>r. rl_expires_at r = rl_window_started_at r + W) rows"
  shows "expire W later (map_option (\<lambda>r. (rl_window_started_at r, g r)) (find_row rl_bucket_key k (cleanup later m rows)))
    = expire W later (map_option (\<lambda>r. (rl_window_started_at r, g r)) (find_row rl_bucket_key k rows))"
proof -
  let ?D = "set (map rl_bucket_key (take m (sort_key rl_expires_at (filter (\<lambda>r. rl_expires_at r \<le> later) rows))))"
  have "expire W later (map_option (\<lambda>r. (rl_window_started_at r, g r)) (find_row rl_bucket_key k rows)) = None" if "k \<in> ?D"
  proof -
    from that obtain r where "r \<in> set rows" "rl_bucket_key r = k" "rl_expires_at r \<le> later"
      by (auto dest!: in_set_takeD)
    moreover from this have "find_row rl_bucket_key k rows = Some r" using find_row_mem [OF assms(1)] by metis
    ultimately show ?thesis using assms(2) by (simp add: list_all_iff)
  qed
  then show ?thesis by (auto simp: cleanup_def Let_def find_row_filter_key)
qed

lemma upsert_ok:
  assumes "distinct (map rl_bucket_key rows)"
    and "list_all (\<lambda>r. rl_expires_at r = rl_window_started_at r + W \<and> 1 \<le> rl_count r) rows"
  shows "distinct (map rl_bucket_key (fst (upsert k W now rows)))"
    and "list_all (\<lambda>r. rl_expires_at r = rl_window_started_at r + W \<and> 1 \<le> rl_count r) (fst (upsert k W now rows))"
proof -
  show "distinct (map rl_bucket_key (fst (upsert k W now rows)))"
    using assms(1) by (auto simp: upsert_def find_row_None map_key_upd_row split: option.split)
  show "list_all (\<lambda>r. rl_expires_at r = rl_window_started_at r + W \<and> 1 \<le> rl_count r) (fst (upsert k W now rows))"
    using assms(2) by (auto simp: upsert_def upd_row_def list_all_iff fresh_row_def conflict_update_def split: option.split)
qed

lemma pg_check_table:
  "request_rate_limits (fst (pg_check k mt now later lk l)) =
     (let rows = fst (upsert k (pg_window_seconds l) now (request_rate_limits l)) in
      if pg_next_cleanup_at l \<le> mt \<and> lk then cleanup later (pg_cleanup_batch_size l) rows else rows)"
  "pg_max_requests (fst (pg_check k mt now later lk l)) = pg_max_requests l"
  "pg_window_seconds (fst (pg_check k mt now later lk l)) = pg_window_seconds l"
  "fst (snd (pg_check k mt now later lk l)) \<longleftrightarrow>
     rl_count (snd (upsert k (pg_window_seconds l) now (request_rate_limits l))) \<le> pg_max_requests l"
  by (simp_all add: pg_check_def Let_def split: prod.split)

lemma upsert_counts:
  fixes k :: string and now :: rat
  assumes "list_all (\<lambda>r. rl_expires_at r = rl_window_started_at r + W \<and> 1 \<le> rl_count r) rows" and "1 \<le> n"
  defines "w \<equiv> expire W now (map_option (\<lambda>r. (rl_window_started_at r, min n (rl_count r))) (find_row rl_bucket_key k rows))"
    and "r \<equiv> snd (upsert k W now rows)"
  shows "rl_count r \<le> n \<longleftrightarrow> admits n w" and "Some (rl_window_started_at r, min n (rl_count r)) = count_in n now w"
  using assms(1,2) unfolding w_def r_def upsert_row
  by (auto simp: fresh_row_def conflict_update_def list_all_iff dest!: find_row_SomeD split: option.split)

lemma cleanup_rows: "distinct (map rl_bucket_key rows) \<Longrightarrow> distinct (map rl_bucket_key (cleanup now m rows))"
  "list_all P rows \<Longrightarrow> list_all P (cleanup now m rows)"
  by (auto simp: cleanup_def Let_def list_all_iff distinct_map_filter)

interpretation pg: fixed_window W n UNIV "pg_ok W n" pg_live pc_now pc_later pg_ask for W n
proof
  fix s :: postgres_limiter and t :: rat and e :: pg_call and k u b
  assume ok: "pg_ok W n s t" and ask: "pg_ask e k s = (u, b)"
  define rows where "rows = request_rate_limits s"
  have h: "0 < W" "1 \<le> n" "pg_max_requests s = n" "pg_window_seconds s = W" "distinct (map rl_bucket_key rows)"
      "list_all (\<lambda>r. rl_expires_at r = rl_window_started_at r + W \<and> 1 \<le> rl_count r) rows"
    using ok by (simp_all add: pg_ok_def rows_def)
  have u: "u = fst (pg_check k (pc_monotonic e) (pc_now e) (pc_later e) (pc_locked e) s)"
      "b = fst (snd (pg_check k (pc_monotonic e) (pc_now e) (pc_later e) (pc_locked e) s))"
    using ask by (simp_all add: pg_ask_def split: prod.splits)
  note up = upsert_ok [OF h(5,6), of k "pc_now e"]
  have exp: "list_all (\<lambda>r. rl_expires_at r = rl_window_started_at r + W) (fst (upsert k W (pc_now e) rows))"
    using up(2) by (auto simp: list_all_iff)
  have "pg_ok W n u (pc_later e)"
    using h up cleanup_rows by (simp add: pg_ok_def u pg_check_table Let_def rows_def)
  moreover have live: "expire W (pc_now e) (pg_live s k)
      = expire W (pc_now e) (map_option (\<lambda>r. (rl_window_started_at r, min n (rl_count r))) (find_row rl_bucket_key k rows))"
    by (simp add: pg_live_def h rows_def)
  moreover have "b = admits n (expire W (pc_now e) (pg_live s k))"
    using upsert_counts(1) [OF h(6,2)] by (simp add: u pg_check_table h live rows_def)
  moreover have "expire W (pc_later e) (pg_live u k') = expire W (pc_later e)
      (if k' = k then count_in n (pc_now e) (expire W (pc_now e) (pg_live s k)) else pg_live s k')" for k'
  proof -
    have "expire W (pc_later e) (pg_live u k') = expire W (pc_later e)
        (map_option (\<lambda>r. (rl_window_started_at r, min n (rl_count r))) (find_row rl_bucket_key k' (fst (upsert k W (pc_now e) rows))))"
      using cleanup_expired [OF up(1) exp] by (simp add: pg_live_def u pg_check_table h rows_def Let_def)
    also have "\<dots> = expire W (pc_later e) (if k' = k then count_in n (pc_now e) (expire W (pc_now e) (pg_live s k)) else pg_live s k')"
      using upsert_counts(2) [OF h(6,2), of k "pc_now e"] by (simp add: upsert_find live) (simp add: pg_live_def h rows_def)
    finally show ?thesis .
  qed
  ultimately show "pg_ok W n u (pc_later e) \<and> b = admits n (expire W (pc_now e) (pg_live s k))
      \<and> (\<forall>k' \<in> UNIV. expire W (pc_later e) (pg_live u k') = expire W (pc_later e)
           (if k' = k then count_in n (pc_now e) (expire W (pc_now e) (pg_live s k)) else pg_live s k'))" by blast
qed

section \<open>The in-memory limiter decides like the counter\<close>

text \<open>
  It does as long as no live window is evicted. That is so when no more keys are in use than
  are tracked: the map is ordered by the start of the windows, so when a key whose window has run
  out comes back to a full map, the entry that makes room for it is not younger and has run out too.
\<close>

definition mem_live :: "(string \<times> window) list \<Rightarrow> string \<Rightarrow> counter" where
  "mem_live ws k = map_option (\<lambda>w. (started_at w, win_count w)) (map_of ws k)"

definition tidy :: "int \<Rightarrow> string set \<Rightarrow> rat \<Rightarrow> (string \<times> window) list \<Rightarrow> bool" where
  "tidy n K t ws \<longleftrightarrow> distinct (map fst ws) \<and> fst ` set ws \<subseteq> K \<and> sorted (map (started_at \<circ> snd) ws)
     \<and> list_all (\<lambda>(k, w). started_at w \<le> t \<and> 1 \<le> win_count w \<and> win_count w \<le> n) ws"

definition mem_ok :: "rat \<Rightarrow> int \<Rightarrow> nat \<Rightarrow> string set \<Rightarrow> in_memory_limiter \<Rightarrow> rat \<Rightarrow> bool" where
  "mem_ok W n m K l t \<longleftrightarrow> 0 < W \<and> 1 \<le> n \<and> 1 \<le> m \<and> finite K \<and> card K \<le> m
     \<and> max_requests l = n \<and> window_seconds l = W \<and> max_tracked_keys l = m \<and> tidy n K t (windows l)"

definition mem_ask :: "rat \<Rightarrow> string \<Rightarrow> in_memory_limiter \<Rightarrow> in_memory_limiter \<times> bool" where
  "mem_ask now k l = (case check k now l of (u, b, r) \<Rightarrow> (u, b))"

lemma evict_short: "length ws < m \<Longrightarrow> evict m ws = ws"
  by (cases ws) auto

lemma evict_full: "length ws = m \<Longrightarrow> 1 \<le> m \<Longrightarrow> evict m ws = tl ws"
  by (cases ws) (auto simp: evict_short)

lemma tidy_filter: "tidy n K t ws \<Longrightarrow> t \<le> t' \<Longrightarrow> tidy n K t' (filter P ws)"
  by (auto simp: tidy_def list_all_iff distinct_map_filter sorted_filter)

lemma tidy_tl: "tidy n K t ws \<Longrightarrow> tidy n K t (tl ws)"
  by (cases ws) (auto simp: tidy_def)

lemma tidy_length: "tidy n K t ws \<Longrightarrow> finite K \<Longrightarrow> length ws \<le> card K"
proof -
  assume "tidy n K t ws" "finite K"
  then have "card (set (map fst ws)) \<le> card K" "distinct (map fst ws)" by (auto simp: tidy_def intro: card_mono)
  then show ?thesis using distinct_card [of "map fst ws"] by simp
qed

lemma tidy_end:
  assumes "tidy n K t ws" and "t \<le> now" and "k \<in> K" and "1 \<le> n"
  shows "tidy n K now (set_at_end k \<lparr>started_at = now, win_count = 1\<rparr> ws)"
proof -
  have "tidy n K now (filter (\<lambda>(k', _). k' \<noteq> k) ws)" using tidy_filter [OF assms(1,2)] .
  then show ?thesis using assms(3,4) by (force simp: tidy_def set_at_end_def sorted_append list_all_iff)
qed

lemma live_end: "mem_live (set_at_end k w ws) k' = (if k' = k then Some (started_at w, win_count w) else mem_live ws k')"
proof -
  have "map_of (filter (\<lambda>(k', _). k' \<noteq> k) ws) k' = (if k' = k then None else map_of ws k')"
    by (induction ws) auto
  then show ?thesis by (auto simp: mem_live_def set_at_end_def map_add_def split: option.split)
qed

lemma live_swept:
  assumes "distinct (map fst ws)"
  shows "expire W now (mem_live (filter (\<lambda>(key, w). now - W < started_at w) ws) k) = expire W now (mem_live ws k)"
proof -
  have "map_of (filter P ws) k = (case map_of ws k of None \<Rightarrow> None | Some w \<Rightarrow> if P (k, w) then Some w else None)" for P
    using assms
  proof (induction ws)
    case (Cons x ws)
    then show ?case by (cases x) (auto simp: map_of_eq_None_iff rev_image_eqI split: option.splits)
  qed simp
  then show ?thesis by (auto simp: mem_live_def split: option.split)
qed

lemma head_expired:
  assumes "tidy n K t ws" and "finite K" and "length ws = card K" and "k \<in> K" and "expire W now (mem_live ws k) = None"
  shows "expire W now (mem_live (tl ws) k') = expire W now (mem_live ws k')"
proof (cases ws)
  case (Cons x ws')
  have "card (set (map fst ws)) = card K" using assms(1,3) distinct_card [of "map fst ws"] by (simp add: tidy_def)
  then have "fst ` set ws = K" using assms(1,2) card_subset_eq [of K "fst ` set ws"] by (simp add: tidy_def)
  then obtain w where w: "(k, w) \<in> set ws" using assms(4) by auto
  then have "map_of ws k = Some w" using assms(1) by (simp add: tidy_def)
  then have old: "started_at w + W \<le> now" using assms(5) by (auto simp: mem_live_def split: if_splits)
  have "started_at (snd x) \<le> started_at w" using assms(1) w by (auto simp: tidy_def Cons)
  with old have x: "started_at (snd x) + W \<le> now" by simp
  have "map_of ws' (fst x) = None" using assms(1) by (auto simp: tidy_def Cons map_of_eq_None_iff)
  with x show ?thesis by (cases x) (auto simp: mem_live_def Cons)
qed simp

lemma room_made:
  assumes "mem_ok W n m K l t" and "t \<le> now" and "k \<in> K" and "expire W now (mem_live (windows l) k) = None"
  shows "tidy n K now (windows (make_room now l))"
    and "expire W now (mem_live (windows (make_room now l)) k') = expire W now (mem_live (windows l) k')"
    and "max_requests (make_room now l) = n" "window_seconds (make_room now l) = W" "max_tracked_keys (make_room now l) = m"
proof -
  have h: "finite K" "card K \<le> m" "1 \<le> m" "window_seconds l = W" "max_tracked_keys l = m" "max_requests l = n" "tidy n K t (windows l)"
    using assms(1) by (simp_all add: mem_ok_def)
  define ws where "ws = windows (if next_sweep_at l \<le> now then sweep now l else l)"
  have room: "windows (make_room now l) = evict m ws" by (simp add: make_room_def Let_def ws_def sweep_def h)
  have ws: "tidy n K now ws"
    using tidy_filter [OF h(7) assms(2)] tidy_filter [OF h(7) assms(2), of "\<lambda>_. True"]
    by (simp add: ws_def sweep_def Let_def h filter_True)
  have same: "expire W now (mem_live ws j) = expire W now (mem_live (windows l) j)" for j
    using live_swept h(7) by (simp add: ws_def sweep_def Let_def h tidy_def)
  have "tidy n K now (evict m ws) \<and> expire W now (mem_live (evict m ws) k') = expire W now (mem_live ws k')"
  proof (cases "length ws < m")
    case True
    then show ?thesis using ws by (simp add: evict_short)
  next
    case False
    with tidy_length [OF ws h(1)] h(2) have len: "length ws = m" "length ws = card K" by auto
    from head_expired [OF ws h(1) len(2) assms(3), of W now k'] same assms(4) tidy_tl [OF ws]
    show ?thesis by (simp add: evict_full [OF len(1) h(3)])
  qed
  then show "tidy n K now (windows (make_room now l))"
    "expire W now (mem_live (windows (make_room now l)) k') = expire W now (mem_live (windows l) k')"
    using same by (simp_all add: room)
qed (use assms(1) in \<open>simp_all add: make_room_def Let_def sweep_def mem_ok_def\<close>)

lemma live_bump:
  "mem_live (map (\<lambda>(k', x). (k', if k' = k then x\<lparr>win_count := win_count x + 1\<rparr> else x)) ws) j
    = (if j = k then map_option (\<lambda>(st, c). (st, c + 1)) (mem_live ws k) else mem_live ws j)"
  by (induction ws) (auto simp: mem_live_def)

lemma tidy_bump:
  assumes "tidy n K t ws" and "t \<le> t'" and "map_of ws k = Some w" and "win_count w < n"
  shows "tidy n K t' (map (\<lambda>(k', x). (k', if k' = k then x\<lparr>win_count := win_count x + 1\<rparr> else x)) ws)"
proof -
  let ?ws = "map (\<lambda>(k', x). (k', if k' = k then x\<lparr>win_count := win_count x + 1\<rparr> else x)) ws"
  have eq: "map fst ?ws = map fst ws" "map (started_at \<circ> snd) ?ws = map (started_at \<circ> snd) ws" by auto
  have "fst ` set ?ws = fst ` set ws" using arg_cong [OF eq(1), of set] by (simp only: set_map)
  moreover have "x = w" if "(k, x) \<in> set ws" for x using that assms(1,3) by (auto simp: tidy_def map_of_is_SomeI)
  then have "list_all (\<lambda>(k, w). started_at w \<le> t' \<and> 1 \<le> win_count w \<and> win_count w \<le> n) ?ws"
    using assms(1,2,4) by (fastforce simp: tidy_def list_all_iff)
  ultimately show ?thesis using assms(1) unfolding tidy_def eq by blast
qed

interpretation mem: fixed_window W n K "mem_ok W n m K" "\<lambda>l. mem_live (windows l)" "\<lambda>t. t" "\<lambda>t. t" mem_ask for W n m K
proof
  fix s :: in_memory_limiter and t e :: rat and k u b
  assume ok: "mem_ok W n m K s t" and le: "t \<le> e" and k: "k \<in> K" and ask: "mem_ask e k s = (u, b)"
  have h: "0 < W" "1 \<le> n" "1 \<le> m" "finite K" "card K \<le> m" "max_requests s = n" "window_seconds s = W"
    "max_tracked_keys s = m" "tidy n K t (windows s)" using ok by (simp_all add: mem_ok_def)
  show "mem_ok W n m K u e \<and> b = admits n (expire W e (mem_live (windows s) k))
      \<and> (\<forall>k' \<in> K. expire W e (mem_live (windows u) k') = expire W e
           (if k' = k then count_in n e (expire W e (mem_live (windows s) k)) else mem_live (windows s) k'))"
  proof (cases "expire W e (mem_live (windows s) k)")
    case None
    note room = room_made [OF ok le k None]
    have "mem_ask e k s = ((make_room e s)\<lparr>windows := set_at_end k \<lparr>started_at = e, win_count = 1\<rparr> (windows (make_room e s))\<rparr>, True)"
      using None h(7) by (auto simp: mem_ask_def check_def Let_def mem_live_def split: option.split if_splits)
    then show ?thesis using ask None room h tidy_end [OF room(1) order_refl k h(2)]
      by (auto simp: mem_ok_def live_end)
  next
    case (Some p)
    then obtain w where w: "map_of (windows s) k = Some w" "e < started_at w + W" "p = (started_at w, win_count w)"
      by (cases "map_of (windows s) k") (auto simp: mem_live_def split: if_splits)
    then have live: "\<not> W \<le> e - started_at w" "mem_live (windows s) k = Some (started_at w, win_count w)" by (auto simp: mem_live_def)
    have "win_count w \<le> n" using h(9) map_of_SomeD [OF w(1)] by (auto simp: tidy_def list_all_iff)
    with ask w live h le tidy_bump [OF h(9) le w(1)] tidy_filter [OF h(9) le, of "\<lambda>_. True"] Some show ?thesis
      by (auto simp: mem_ask_def check_def mem_ok_def live_bump split: if_splits)
  qed
qed

section \<open>What the limiters promise\<close>

text \<open>
  C32: the two limiters decide alike. Asked about the same requests at the same times, the
  in-memory limiter and the limiter in the database, both new and configured alike, give the same
  answers, provided no more keys are in use than the former tracks; whatever the process clock
  of the latter says, whether or not it obtains the cleanup lock, and however late its cleanup runs.
\<close>

theorem limiters_decide_alike:
  assumes "in_memory_init mr W m = Inr l" and "postgres_init mr W iv batch t0 [] = Inr p"
    and "orderly pc_now pc_later t rs" and "finite K" and "card K \<le> m" and "snd ` set rs \<subseteq> K"
  shows "ask_all mem_ask l (map (apfst pc_now) rs) = ask_all pg_ask p rs"
proof -
  have l: "mem_ok W mr m K l t" "windows l = []"
    using assms(1,4,5) by (auto simp: in_memory_init_def mem_ok_def tidy_def split: if_splits)
  have p: "pg_ok W mr p t" "request_rate_limits p = []"
    using assms(2) by (auto simp: postgres_init_def pg_ok_def Let_def split: if_splits option.splits)
  have order: "orderly (\<lambda>t. t) (\<lambda>t. t) t (map (apfst pc_now) rs)"
  proof -
    have "orderly pc_now pc_later t' rs \<Longrightarrow> t \<le> t' \<Longrightarrow> orderly (\<lambda>t. t) (\<lambda>t. t) t (map (apfst pc_now) rs)" for t' t
    proof (induction rs arbitrary: t t')
      case (Cons r rs)
      then have "orderly (\<lambda>t. t) (\<lambda>t. t) (pc_now (fst r)) (map (apfst pc_now) rs)"
        by (intro Cons.IH [of "pc_later (fst r)"]) simp_all
      with Cons.prems show ?case by simp
    qed simp
    with assms(3) show ?thesis by blast
  qed
  have "ask_all mem_ask l (map (apfst pc_now) rs) = spec_run W mr (\<lambda>_. None) (map (apfst (\<lambda>t. t)) (map (apfst pc_now) rs))"
    by (rule mem.decides_like_spec [OF l(1) _ order]) (use assms(6) l(2) in \<open>auto simp: mem_live_def\<close>)
  moreover have "ask_all pg_ask p rs = spec_run W mr (\<lambda>_. None) (map (apfst pc_now) rs)"
    by (rule pg.decides_like_spec [OF p(1) _ assms(3)]) (use p(2) in \<open>auto simp: pg_live_def\<close>)
  ultimately show ?thesis by (simp add: apfst_def map_prod_def comp_def case_prod_beta)
qed

text \<open>
  C33: no client gets more than twice the limit through in any span of one window. However the
  requests of all clients interleave and wherever the span begins, the shared limiter admits at most
  \<open>2 * max_requests\<close> requests of one key in it.
\<close>

theorem limiter_bounds_bursts:
  assumes "postgres_init mr W iv batch t0 [] = Inr p" and "orderly pc_now pc_later t (rs @ qs)"
    and "\<And>r. r \<in> set qs \<Longrightarrow> a \<le> pc_now (fst r) \<and> pc_now (fst r) < a + W"
  shows "admitted k (map (apfst pc_now) qs) (drop (length rs) (ask_all pg_ask p (rs @ qs))) \<le> 2 * mr"
proof -
  have p: "pg_ok W mr p t" and mr: "1 \<le> mr"
    using assms(1) by (auto simp: postgres_init_def pg_ok_def Let_def split: if_splits option.splits)
  obtain u t' where u: "pg_ok W mr u t'" "orderly pc_now pc_later t' qs"
    "drop (length rs) (ask_all pg_ask p (rs @ qs)) = ask_all pg_ask u qs"
    using pg.ask_prefix [OF p assms(2)] by auto
  have "0 \<le> c \<and> c \<le> mr" if "pg_live u k = Some (st, c)" for st c
    using that u(1) mr by (auto simp: pg_live_def pg_ok_def list_all_iff dest!: find_row_SomeD)
  with pg.burst_bound [OF u(1,2) _ mr _ assms(3)] show ?thesis by (auto simp: u(3))
qed

text \<open>The map of the in-memory limiter never holds more keys than it was configured for.\<close>

lemma evict_length: "1 \<le> m \<Longrightarrow> length (evict m ws) < m"
  by (induction m ws rule: evict.induct) auto

lemma make_room_length: "1 \<le> max_tracked_keys l \<Longrightarrow> length (windows (make_room now l)) < max_tracked_keys l"
  by (simp add: make_room_def Let_def sweep_def evict_length)

lemma set_at_end_length: "length (set_at_end k w ws) \<le> Suc (length ws)"
  by (simp add: set_at_end_def)

theorem tracked_keys_bounded:
  assumes "tracked_keys l \<le> max_tracked_keys l" and "1 \<le> max_tracked_keys l"
  shows "tracked_keys (fst (check k now l)) \<le> max_tracked_keys l"
  using assms make_room_length [OF assms(2), of now]
    set_at_end_length [of k "\<lparr>started_at = now, win_count = 1\<rparr>" "windows (make_room now l)"]
  by (auto simp: tracked_keys_def check_def Let_def split: option.split)

text \<open>
  The limiter fails closed: a request is forwarded exactly when its path is exempt or the
  limiter was reached and admitted it.
\<close>

lemma middleware_fails_closed:
  "dispatch m path result = Forwarded \<longleftrightarrow> path \<in> set (exempt_paths m) \<or> (\<exists>r. result = Inr (True, r))"
  by (auto simp: dispatch_def split: sum.split prod.split)

section \<open>Samples\<close>

definition sample_calls :: "(pg_call \<times> string) list" where
  "sample_calls = [(\<lparr>pc_monotonic = 0, pc_now = 100, pc_later = 100, pc_locked = True\<rparr>, ''global:a''),
     (\<lparr>pc_monotonic = 70, pc_now = 101, pc_later = 101, pc_locked = True\<rparr>, ''global:b''),
     (\<lparr>pc_monotonic = 71, pc_now = 102, pc_later = 103, pc_locked = False\<rparr>, ''global:a''),
     (\<lparr>pc_monotonic = 72, pc_now = 159, pc_later = 159, pc_locked = False\<rparr>, ''global:a''),
     (\<lparr>pc_monotonic = 73, pc_now = 160, pc_later = 160, pc_locked = False\<rparr>, ''global:a'')]"

definition sample_pg :: postgres_limiter where
  "sample_pg = \<lparr>pg_max_requests = 2, pg_window_seconds = 60, pg_cleanup_interval_seconds = 60,
     pg_cleanup_batch_size = 1000, pg_next_cleanup_at = 60, request_rate_limits = []\<rparr>"

definition sample_mem :: in_memory_limiter where
  "sample_mem = \<lparr>max_requests = 2, window_seconds = 60, max_tracked_keys = 2, windows = [], next_sweep_at = 0\<rparr>"

lemma sample_limiters: "postgres_init 2 60 None 1000 0 [] = Inr sample_pg" "in_memory_init 2 60 2 = Inr sample_mem"
  by (simp_all add: postgres_init_def in_memory_init_def sample_pg_def sample_mem_def)

lemma sample_orderly: "orderly pc_now pc_later 0 sample_calls"
  by (simp add: sample_calls_def)

theorem limiters_decide_alike_witness:
  "ask_all mem_ask sample_mem (map (apfst pc_now) sample_calls) = ask_all pg_ask sample_pg sample_calls
    \<and> ask_all mem_ask sample_mem (map (apfst pc_now) sample_calls) = [True, True, True, False, True]"
proof -
  have "snd ` set sample_calls \<subseteq> {''global:a'', ''global:b''}" by (auto simp: sample_calls_def)
  moreover have "card {''global:a'', ''global:b''} \<le> 2" by simp
  ultimately have "ask_all mem_ask sample_mem (map (apfst pc_now) sample_calls) = ask_all pg_ask sample_pg sample_calls"
    by (intro limiters_decide_alike [OF sample_limiters(2,1) sample_orderly, of "{''global:a'', ''global:b''}"]) simp_all
  moreover have "ask_all mem_ask sample_mem (map (apfst pc_now) sample_calls) = [True, True, True, False, True]"
    by (simp add: sample_calls_def sample_mem_def mem_ask_def check_def make_room_def sweep_def set_at_end_def)
  ultimately show ?thesis by simp
qed

theorem limiter_bounds_bursts_witness:
  "admitted ''global:a'' (map (apfst pc_now) (drop 2 sample_calls)) (drop 2 (ask_all pg_ask sample_pg sample_calls)) \<le> 4"
  using limiter_bounds_bursts [OF sample_limiters(1), where rs = "take 2 sample_calls" and qs = "drop 2 sample_calls" and a = 101 and t = 0]
    sample_orderly by (simp add: sample_calls_def)

theorem tracked_keys_bounded_witness: "tracked_keys (fst (check ''global:a'' 5 sample_mem)) \<le> 2"
  using tracked_keys_bounded [of sample_mem "''global:a''" 5] by (simp add: sample_mem_def tracked_keys_def)

end
