(* ===== verification/Calendar.thy ===== *)
theory Calendar
  imports PyLib
begin

text \<open>
  The UTC calendar of \<open>PyLib\<close> day by day: the day of the month goes up by one or starts again at
  one, so the first day of the current month never moves back as time passes. Days are counted in
  cycles of 400 years that start on 1 March.
\<close>

definition civil_year :: "int \<Rightarrow> int" where
  \<comment> \<open>the year of a 400-year cycle that a day of the cycle belongs to\<close>
  "civil_year doe = (doe - doe div 1460 + doe div 36524 - doe div 146096) div 365"

definition year_start :: "int \<Rightarrow> int" where
  "year_start y = 365 * y + y div 4 - y div 100"

lemma day_of_month_civil:
  "day_of_month days = (let doe = (days + 719468) mod 146097 in day_in_month (doe - year_start (civil_year doe)))"
  by (simp add: day_of_month_def civil_year_def year_start_def Let_def)

lemma civil_year_all:
  "list_all (\<lambda>y. civil_year (year_start y) = y \<and> civil_year (year_start (y + 1) - 1) = y) [0..399]"
  by code_simp

lemma day_in_month_all: "list_all (\<lambda>d. day_in_month (d + 1) = day_in_month d + 1 \<or> day_in_month (d + 1) = 1) [0..366]"
  by code_simp

lemma day_in_month_step:
  "0 \<le> d \<Longrightarrow> d \<le> 366 \<Longrightarrow> day_in_month (d + 1) = day_in_month d + 1 \<or> day_in_month (d + 1) = 1"
  using day_in_month_all by (simp add: list_all_iff)

lemma div_next: "0 < n \<Longrightarrow> (x + 1) div n = x div n \<or> (x + 1) div n = x div n + 1" for x n :: int
  using zdiv_mono1 [of x "x + 1" n] zdiv_mono1 [of "x + 1" "x + n" n] by simp linarith

lemma year_start_step: "year_start y + 365 \<le> year_start (y + 1) \<and> year_start (y + 1) \<le> year_start y + 366"
proof -
  have c: "z div 100 = z div 4 div 25" for z :: int by (simp add: zdiv_zmult2_eq [symmetric])
  show ?thesis using div_next [of 4 y] div_next [of 25 "y div 4"]
    by (auto simp: year_start_def c)
qed

lemma year_start_mono: "y \<le> z \<Longrightarrow> year_start y \<le> year_start z"
proof (induction z rule: int_ge_induct)
  case (step z)
  then show ?case using year_start_step [of z] by linarith
qed simp

lemma civil_year_mono1: "0 \<le> x \<Longrightarrow> x < 146095 \<Longrightarrow> civil_year x \<le> civil_year (x + 1)"
proof -
  assume x: "0 \<le> x" "x < 146095"
  define a b where "a = x div 1460" and "b = x div 36524"
  have a: "(x + 1) div 1460 \<le> a + 1" using div_next [of 1460 x] unfolding a_def by auto
  have b: "b \<le> (x + 1) div 36524" unfolding b_def by (rule zdiv_mono1) simp_all
  have c: "x div 146096 = 0" "(x + 1) div 146096 = 0" using x by (simp_all add: div_pos_pos_trivial)
  have "x - a + b - 0 \<le> x + 1 - (x + 1) div 1460 + (x + 1) div 36524 - 0" using a b by linarith
  then show ?thesis unfolding civil_year_def c a_def b_def by (rule zdiv_mono1) simp
qed

lemma civil_year_mono: "x \<le> z \<Longrightarrow> 0 \<le> x \<Longrightarrow> z \<le> 146095 \<Longrightarrow> civil_year x \<le> civil_year z"
proof (induction z rule: int_ge_induct)
  case (step z)
  then show ?case using civil_year_mono1 [of z] by linarith
qed simp

lemma civil_year_bounds:
  assumes "0 \<le> x" and "x \<le> 146095"
  shows "year_start (civil_year x) \<le> x \<and> x < year_start (civil_year x + 1)"
proof -
  have "\<exists>y. 0 \<le> y \<and> year_start y \<le> x \<and> x < year_start (y + 1)" using assms(1)
  proof (induction x rule: int_ge_induct)
    case base
    show ?case by (rule exI [of _ 0]) (simp add: year_start_def)
  next
    case (step x)
    then obtain y where y: "0 \<le> y" "year_start y \<le> x" "x < year_start (y + 1)" by blast
    show ?case
    proof (cases "x + 1 < year_start (y + 1)")
      case True
      with y show ?thesis by (intro exI [of _ y]) simp
    next
      case False
      with y year_start_step [of "y + 1"] show ?thesis by (intro exI [of _ "y + 1"]) simp
    qed
  qed
  then obtain y where y: "0 \<le> y" "year_start y \<le> x" "x < year_start (y + 1)" by blast
  have "y \<le> 399"
  proof (rule ccontr)
    assume "\<not> y \<le> 399"
    then have "year_start 400 \<le> year_start y" by (intro year_start_mono) simp
    with y(2) assms(2) show False by (simp add: year_start_def)
  qed
  with y(1) have "civil_year (year_start y) = y" "civil_year (year_start (y + 1) - 1) = y"
    using civil_year_all by (simp_all add: list_all_iff)
  moreover have "0 \<le> year_start y" using year_start_mono [OF y(1)] by (simp add: year_start_def)
  moreover have "year_start (y + 1) - 1 \<le> 146095"
    using year_start_mono [of "y + 1" 400] \<open>y \<le> 399\<close> by (simp add: year_start_def)
  ultimately have "civil_year x = y"
    using civil_year_mono [of "year_start y" x] civil_year_mono [of x "year_start (y + 1) - 1"] y assms by linarith
  with y show ?thesis by simp
qed

lemma cycle_day_step:
  assumes "0 \<le> x" and "x < 146096"
  defines "f z \<equiv> day_in_month (z - year_start (civil_year z))"
  shows "f (x + 1) = f x + 1 \<or> f (x + 1) = 1"
proof (cases "x = 146095")
  case True
  have "civil_year 146095 = 399" "civil_year 146096 = 399" by code_simp+
  with True day_in_month_step [of "146095 - year_start 399"] show ?thesis
    by (simp add: f_def year_start_def)
next
  case False
  with assms have x: "x \<le> 146095" "x + 1 \<le> 146095" by simp_all
  note b = civil_year_bounds [OF assms(1) x(1)] civil_year_bounds [OF _ x(2)]
  have le: "civil_year x \<le> civil_year (x + 1)" using civil_year_mono1 assms(1) x by simp
  show ?thesis
  proof (cases "civil_year (x + 1) = civil_year x")
    case True
    have "f (x + 1) = day_in_month (x - year_start (civil_year x) + 1)" unfolding f_def True by (simp add: algebra_simps)
    then show ?thesis
      using day_in_month_step [of "x - year_start (civil_year x)"] b year_start_step [of "civil_year x"]
      by (simp add: f_def)
  next
    case False
    with le have "year_start (civil_year x + 1) \<le> year_start (civil_year (x + 1))"
      by (intro year_start_mono) simp
    with b assms(1) have "x + 1 - year_start (civil_year (x + 1)) = 0" by linarith
    then have "f (x + 1) = day_in_month 0" by (simp only: f_def)
    then show ?thesis by (simp add: day_in_month_def)
  qed
qed

lemma day_of_month_step: "day_of_month (d + 1) = day_of_month d + 1 \<or> day_of_month (d + 1) = 1"
proof -
  define x where "x = (d + 719468) mod 146097"
  have x: "0 \<le> x" "x < 146097" by (simp_all add: x_def)
  have nxt: "(d + 1 + 719468) mod 146097 = (if x = 146096 then 0 else x + 1)"
    using mod_add_left_eq [of "d + 719468" 146097 1, symmetric] x by (simp add: add_ac flip: x_def)
  show ?thesis
  proof (cases "x = 146096")
    case True
    with nxt have "day_of_month (d + 1) = day_in_month (0 - year_start (civil_year 0))"
      by (simp add: day_of_month_civil)
    also have "\<dots> = 1" by code_simp
    finally show ?thesis by simp
  next
    case False
    with x nxt cycle_day_step [of x] show ?thesis
      by (simp add: day_of_month_civil Let_def flip: x_def)
  qed
qed

lemma month_first_mono:
  "d \<le> e \<Longrightarrow> d - (day_of_month d - 1) \<le> e - (day_of_month e - 1)"
proof (induction e rule: int_ge_induct)
  case (step e)
  then show ?case using day_of_month_step [of e] day_of_month_pos [of e] by auto
qed simp

end
