(* ===== verification/Voice.thy ===== *)
theory Voice
  imports Spend Text Calendar
begin

text \<open>
  The companion's voice turn (\<open>services/leon_voice.py\<close>) and the spend control around its
  provider calls (\<open>services/leon_voice_spend.py\<close>). The provider is a parameter: a function of the
  time and the call that gives how long the call takes and its response, or none when the transport
  fails. Every reserve, commit and release of the code is a transaction of its own, so other turns may
  run between any two of them; \<open>voice_step\<close> is one such transaction or the passing of time. The
  theorems show that the spend of any number of interleaved turns stays within the daily and the
  monthly cap, and that a turn leaves no reservation open unless the price of a response cannot be
  computed.
\<close>

section \<open>Estimates and prices\<close>

definition LEON_SYSTEM_WORKSPACE_ID :: uuid where
  \<comment> \<open>\<open>00000000-0000-4000-8000-000000000002\<close>\<close>
  "LEON_SYSTEM_WORKSPACE_ID = 302240678275694148452354"

definition quantize4 :: "rat \<Rightarrow> py_error + usd" where
  \<comment> \<open>\<open>x.quantize(Decimal("0.0001"))\<close>: half-even; more than 28 digits are \<open>InvalidOperation\<close>\<close>
  "quantize4 x = (let n = round_half_even (x * 10000) in
     if 10 ^ 28 \<le> \<bar>n\<bar> then Inl ArithmeticError else Inr (of_int n / 10000))"

definition STT_RESERVE_MAX_MINUTES :: rat where
  "STT_RESERVE_MAX_MINUTES = 12"

definition CHARS_PER_TOKEN_ESTIMATE :: rat where
  "CHARS_PER_TOKEN_ESTIMATE = 4"

definition LLM_RESERVE_MAX_OUTPUT_TOKENS :: rat where
  "LLM_RESERVE_MAX_OUTPUT_TOKENS = 300"

definition stt_reserve_estimate_usd :: "settings \<Rightarrow> py_error + usd" where
  "stt_reserve_estimate_usd st = quantize4 (STT_RESERVE_MAX_MINUTES * leon_stt_cost_usd_per_minute st)"

fun duration_decimal :: "json \<Rightarrow> py_error + rat" where
  \<comment> \<open>\<open>Decimal(str(duration_seconds))\<close> of a value that passed \<open>isinstance(duration, int | float)\<close>;
     a boolean passes too and its text is no number\<close>
  "duration_decimal (JInt i) = Inr (of_int i)"
| "duration_decimal (JNum r) = Inr r"
| "duration_decimal _ = Inl ArithmeticError"

definition stt_actual_cost_usd :: "settings \<Rightarrow> json option \<Rightarrow> py_error + usd" where
  "stt_actual_cost_usd st duration_seconds =
     (case duration_seconds of
        None \<Rightarrow> stt_reserve_estimate_usd st
      | Some d \<Rightarrow>
          if (case json_number d of None \<Rightarrow> False | Some x \<Rightarrow> x < 0) then stt_reserve_estimate_usd st
          else case duration_decimal d of
                 Inl e \<Rightarrow> Inl e
               | Inr x \<Rightarrow> quantize4 (x / 60 * leon_stt_cost_usd_per_minute st))"

type_synonym turn = "(string \<times> string) list"

definition llm_reserve_estimate_usd :: "settings \<Rightarrow> turn list \<Rightarrow> string \<Rightarrow> py_error + usd" where
  "llm_reserve_estimate_usd st history user_text =
     (let input_chars = length user_text
            + sum_list (map (\<lambda>turn. length (case map_of turn ''content'' of None \<Rightarrow> [] | Some c \<Rightarrow> c)) history);
          input_tokens = of_nat input_chars / CHARS_PER_TOKEN_ESTIMATE;
          output_tokens = LLM_RESERVE_MAX_OUTPUT_TOKENS;
          input_cost = input_tokens / 1000 * leon_llm_input_cost_usd_per_1k_tokens st;
          output_cost = output_tokens / 1000 * leon_llm_output_cost_usd_per_1k_tokens st
      in quantize4 (input_cost + output_cost))"

definition llm_actual_cost_usd :: "settings \<Rightarrow> int \<Rightarrow> int \<Rightarrow> py_error + usd" where
  "llm_actual_cost_usd st input_tokens output_tokens =
     (let input_cost = of_int (max input_tokens 0) / 1000 * leon_llm_input_cost_usd_per_1k_tokens st;
          output_cost = of_int (max output_tokens 0) / 1000 * leon_llm_output_cost_usd_per_1k_tokens st
      in quantize4 (input_cost + output_cost))"

definition tts_cost_usd :: "settings \<Rightarrow> string \<Rightarrow> py_error + usd" where
  "tts_cost_usd st text = quantize4 (of_nat (length text) / 1000 * leon_tts_cost_usd_per_1k_chars st)"

section \<open>Reserve, commit, release\<close>

definition load_cap_for_update :: "spend_cap option svc" where
  "load_cap_for_update =
     bindE (gets (\<lambda>s. filter (\<lambda>c. cap_workspace_id c = LEON_SYSTEM_WORKSPACE_ID \<and> cap_provider c = None) (caps s)))
       (\<lambda>rows. liftE (scalar_one_or_none rows))"

definition reserve :: "string \<Rightarrow> usd \<Rightarrow> uuid svc" where
  "reserve provider estimated_cost_usd =
     bindE load_cap_for_update (\<lambda>cap.
     case cap of
       None \<Rightarrow> raise (LeonSpendExceeded ''voice spend cap is not configured'')
     | Some c \<Rightarrow>
         bindE (gets (\<lambda>s. spend_committed_plus_reserved s LEON_SYSTEM_WORKSPACE_ID None
           (Some (utc_day_start (clock s))))) (\<lambda>daily.
         bindE (gets (\<lambda>s. spend_committed_plus_reserved s LEON_SYSTEM_WORKSPACE_ID None
           (Some (utc_month_start (clock s))))) (\<lambda>monthly.
         if cap_daily_cap_usd c < daily + estimated_cost_usd
         then raise (LeonSpendExceeded ''daily voice spend cap reached'')
         else if cap_monthly_cap_usd c < monthly + estimated_cost_usd
         then raise (LeonSpendExceeded ''monthly voice spend cap reached'')
         else
           bindE uuid4 (\<lambda>u.
           bindE utcnow (\<lambda>now.
           bindE (modify (reservations_update (\<lambda>rs. rs @ [\<lparr>rsv_id = u,
               rsv_workspace_id = LEON_SYSTEM_WORKSPACE_ID, rsv_pipeline_run_id = None,
               rsv_provider = provider, rsv_stage = None,
               rsv_estimated_cost_usd = numeric4 estimated_cost_usd, rsv_status = Reserved,
               rsv_created_at = now\<rparr>]))) (\<lambda>_. ret u))))))"

definition commit :: "uuid \<Rightarrow> usd \<Rightarrow> unit svc" where
  "commit reservation_id actual_cost_usd =
     bindE (gets (\<lambda>s. find_rsv s reservation_id)) (\<lambda>reservation.
     case reservation of
       None \<Rightarrow> ret ()
     | Some r \<Rightarrow>
         if rsv_status r \<noteq> Reserved then ret ()
         else
           let reserved = rsv_estimated_cost_usd r;
               actual = (if 0 \<le> actual_cost_usd then actual_cost_usd else 0);
               actual = (if reserved < actual then reserved else actual)
           in
           bindE (set_rsv reservation_id (\<lambda>r. r\<lparr>rsv_status := Committed\<rparr>)) (\<lambda>_.
           bindE uuid4 (\<lambda>u.
           bindE utcnow (\<lambda>now.
           modify (spend_logs_update (\<lambda>ls. ls @ [\<lparr>sl_id = u,
             sl_workspace_id = LEON_SYSTEM_WORKSPACE_ID, sl_provider = rsv_provider r, sl_stage = None,
             sl_cost_usd = numeric4 actual, sl_occurred_at = now\<rparr>]))))))"

definition release :: "uuid \<Rightarrow> unit svc" where
  "release reservation_id =
     bindE (gets (\<lambda>s. find_rsv s reservation_id)) (\<lambda>reservation.
     case reservation of
       None \<Rightarrow> ret ()
     | Some r \<Rightarrow>
         if rsv_status r \<noteq> Reserved then ret ()
         else set_rsv reservation_id (\<lambda>r. r\<lparr>rsv_status := Released\<rparr>))"

section \<open>The provider calls\<close>

datatype voice_call =
    Transcription "nat list" string string  \<comment> \<open>audio, file name, content type\<close>
  | ChatCompletion nat "turn list"          \<comment> \<open>\<open>max_tokens\<close>, messages\<close>
  | Speech string

record http_response =
  status_code :: int
  content :: "nat list"
  content_json :: "json option"    \<comment> \<open>what \<open>response.json()\<close> returns, none for its \<open>ValueError\<close>\<close>
  content_type :: string           \<comment> \<open>the header, empty when it is missing\<close>

type_synonym provider = "datetime \<Rightarrow> string \<Rightarrow> voice_call \<Rightarrow> nat \<times> http_response option"

definition http_post :: "provider \<Rightarrow> string \<Rightarrow> voice_call \<Rightarrow> http_response option svc" where
  \<comment> \<open>\<open>client.post\<close> with the API key: the time it takes, and none for \<open>httpx.HTTPError\<close>\<close>
  "http_post p key call = (\<lambda>s. case p (clock s) key call of (d, r) \<Rightarrow> (s\<lparr>clock := clock s + int d\<rparr>, Inr r))"

definition MAX_REPLY_TOKENS :: nat where
  "MAX_REPLY_TOKENS = 300"

definition LEON_SYSTEM_PROMPT :: string where
  \<comment> \<open>its dashes are written as hyphens\<close>
  "LEON_SYSTEM_PROMPT =
     ''You are Leon Rico, an animated companion who lives as an overlay on ''
     @ ''the user's Android screen. You are having a spoken conversation - ''
     @ ''your reply is converted to speech and read aloud, so write the way a ''
     @ ''person actually talks: short sentences, no markdown, no bullet ''
     @ ''lists, no headings, nothing that only makes sense written down. ''
     @ ''Keep replies brief and conversational, generally one to three ''
     @ ''sentences unless the user clearly wants more detail.'' @ [CHR 0x0A, CHR 0x0A]
     @ ''Who you are: a hustler at heart who made his money designing an app ''
     @ ''that took off - self-made, not handed anything. That background ''
     @ ''comes through as confidence and hustle, not bragging; you only bring ''
     @ ''it up when it's actually relevant, not every reply.'' @ [CHR 0x0A, CHR 0x0A]
     @ ''Your energy is always positive and always encouraging - you hype the ''
     @ ''user up, look for the upside, and never talk down to them, even when ''
     @ ''the news is bad; you're still real about the bad news, just not ''
     @ ''negative about it. Your voice is casual and warm, contemporary ''
     @ ''African American vernacular worked in naturally - words like ''
     @ '''fam', 'no cap', 'let's get it', 'I got you', 'that's real' - used ''
     @ ''the way someone actually talks, not piled on every sentence and ''
     @ ''never written as broken or misspelled English. Skip it entirely for ''
     @ ''serious or sensitive topics; read the room.''"

definition safe_json :: "http_response \<Rightarrow> string \<Rightarrow> string \<Rightarrow> py_error + json_obj" where
  "safe_json response stage fallback =
     (case content_json response of
        Some (JObj body) \<Rightarrow> Inr body
      | _ \<Rightarrow> Inl (LeonVoiceError fallback stage))"

definition require_openai_key :: "string \<Rightarrow> string svc" where
  "require_openai_key stage =
     bindE (gets (\<lambda>s. openai_api_key (get_settings s))) (\<lambda>key.
     case key of
       None \<Rightarrow> raise (LeonVoiceError ''voice conversation is not configured (missing OpenAI key)'' stage)
     | Some k \<Rightarrow>
         if k = [] then raise (LeonVoiceError ''voice conversation is not configured (missing OpenAI key)'' stage)
         else ret k)"

definition budget_reached :: string where
  "budget_reached = ''Leon has reached today's conversation budget - try again later''"

definition reserve_or_fail :: "string \<Rightarrow> usd \<Rightarrow> uuid svc" where
  "reserve_or_fail provider estimated_cost_usd =
     try_except (reserve provider estimated_cost_usd) (\<lambda>e.
       case e of LeonSpendExceeded _ \<Rightarrow> raise (LeonVoiceError budget_reached ''spend'') | _ \<Rightarrow> raise e)"

definition fail_call :: "uuid \<Rightarrow> py_error \<Rightarrow> 'a svc" where
  \<comment> \<open>\<open>await leon_voice_spend.release(reservation_id=...)\<close> followed by \<open>raise\<close>\<close>
  "fail_call reservation_id e = bindE (release reservation_id) (\<lambda>_. raise e)"

definition number_duration :: "json_obj \<Rightarrow> json option" where
  \<comment> \<open>\<open>duration if isinstance(duration, int | float) else None\<close>\<close>
  "number_duration body =
     (case map_of body ''duration'' of
        Some d \<Rightarrow> if json_number d = None then None else Some d
      | None \<Rightarrow> None)"

definition transcribe_audio :: "provider \<Rightarrow> nat list \<Rightarrow> string \<Rightarrow> string \<Rightarrow> string svc" where
  "transcribe_audio p audio_bytes filename ctype =
     bindE (require_openai_key ''stt'') (\<lambda>key.
     bindE (gets get_settings) (\<lambda>st.
     bindE (liftE (stt_reserve_estimate_usd st)) (\<lambda>estimate.
     bindE (reserve_or_fail ''openai-whisper'' estimate) (\<lambda>reservation_id.
     bindE (http_post p key (Transcription audio_bytes filename
       (if ctype = [] then ''audio/m4a'' else ctype))) (\<lambda>response.
     case response of
       None \<Rightarrow> fail_call reservation_id (LeonVoiceError ''speech recognition is unavailable right now'' ''stt'')
     | Some r \<Rightarrow>
         if 400 \<le> status_code r
         then fail_call reservation_id (LeonVoiceError ''could not understand that audio'' ''stt'')
         else case safe_json r ''stt'' ''speech recognition returned an unexpected response'' of
           Inl e \<Rightarrow> fail_call reservation_id e
         | Inr body \<Rightarrow>
             (case map_of body ''text'' of
                Some (JStr text) \<Rightarrow>
                  if py_strip text = []
                  then fail_call reservation_id (LeonVoiceError ''didn't catch that - try again'' ''stt'')
                  else
                    bindE (liftE (stt_actual_cost_usd st (number_duration body))) (\<lambda>cost.
                    bindE (commit reservation_id cost) (\<lambda>_. ret (py_strip text)))
              | _ \<Rightarrow> fail_call reservation_id (LeonVoiceError ''didn't catch that - try again'' ''stt'')))))))"

definition unexpected_reply :: py_error where
  "unexpected_reply = LeonVoiceError ''Leon's brain returned an unexpected response'' ''llm''"

definition text_parts :: "json list \<Rightarrow> string list" where
  "text_parts blocks = List.map_filter (\<lambda>block. case block of
     JObj b \<Rightarrow> (case (map_of b ''type'', map_of b ''text'') of
       (Some (JStr t), Some (JStr text)) \<Rightarrow> if t = ''text'' then Some text else None
     | _ \<Rightarrow> None)
   | _ \<Rightarrow> None) blocks"

definition reply_of :: "json_obj \<Rightarrow> py_error + string" where
  "reply_of body =
     (case map_of body ''choices'' of
        Some (JList (first_choice # _)) \<Rightarrow>
          (case first_choice of
             JObj fc \<Rightarrow>
               (case map_of fc ''message'' of
                  Some (JObj message) \<Rightarrow>
                    let reply = (case map_of message ''content'' of
                        Some (JStr c) \<Rightarrow> py_strip c
                      | Some (JList blocks) \<Rightarrow> py_strip (concat (text_parts blocks))
                      | _ \<Rightarrow> [])
                    in if reply = [] then Inl (LeonVoiceError ''Leon couldn't think of a reply just now'' ''llm'')
                       else Inr reply
                | _ \<Rightarrow> Inl unexpected_reply)
           | _ \<Rightarrow> Inl unexpected_reply)
      | _ \<Rightarrow> Inl unexpected_reply)"

definition usage_tokens :: "json_obj \<Rightarrow> string \<Rightarrow> string \<Rightarrow> int" where
  \<comment> \<open>\<open>usage.get(a, usage.get(b))\<close> if it is an \<open>int\<close> (a boolean is one), else 0\<close>
  "usage_tokens body a b =
     (let usage = (case map_of body ''usage'' of Some (JObj u) \<Rightarrow> u | _ \<Rightarrow> []);
          raw = (case map_of usage a of Some v \<Rightarrow> Some v | None \<Rightarrow> map_of usage b)
      in case raw of Some (JInt n) \<Rightarrow> n | Some (JBool t) \<Rightarrow> (if t then 1 else 0) | _ \<Rightarrow> 0)"

definition generate_reply :: "provider \<Rightarrow> string \<Rightarrow> turn list \<Rightarrow> string svc" where
  "generate_reply p user_text history =
     bindE (require_openai_key ''llm'') (\<lambda>key.
     bindE (gets get_settings) (\<lambda>st.
     bindE (liftE (llm_reserve_estimate_usd st history user_text)) (\<lambda>estimate.
     bindE (reserve_or_fail ''openai-llm'' estimate) (\<lambda>reservation_id.
     bindE (http_post p key (ChatCompletion MAX_REPLY_TOKENS
       ([(''role'', ''system''), (''content'', LEON_SYSTEM_PROMPT)] # history
        @ [[(''role'', ''user''), (''content'', user_text)]]))) (\<lambda>response.
     case response of
       None \<Rightarrow> fail_call reservation_id (LeonVoiceError ''Leon's brain is unavailable right now'' ''llm'')
     | Some r \<Rightarrow>
         if 400 \<le> status_code r
         then fail_call reservation_id (LeonVoiceError ''Leon couldn't think of a reply just now'' ''llm'')
         else case safe_json r ''llm'' ''Leon's brain returned an unexpected response'' of
           Inl e \<Rightarrow> fail_call reservation_id e
         | Inr body \<Rightarrow>
             (case reply_of body of
                Inl e \<Rightarrow> fail_call reservation_id e
              | Inr reply \<Rightarrow>
                  bindE (liftE (llm_actual_cost_usd st
                    (usage_tokens body ''input_tokens'' ''prompt_tokens'')
                    (usage_tokens body ''output_tokens'' ''completion_tokens''))) (\<lambda>cost.
                  bindE (commit reservation_id cost) (\<lambda>_. ret reply))))))))"

definition starts_with :: "string \<Rightarrow> string \<Rightarrow> bool" where
  "starts_with s prefix \<longleftrightarrow> take (length prefix) s = prefix"

definition synthesize_speech :: "provider \<Rightarrow> string \<Rightarrow> nat list svc" where
  "synthesize_speech p text =
     bindE (require_openai_key ''tts'') (\<lambda>key.
     bindE (gets get_settings) (\<lambda>st.
     bindE (liftE (tts_cost_usd st text)) (\<lambda>estimate.
     bindE (reserve_or_fail ''openai-tts'' estimate) (\<lambda>reservation_id.
     bindE (http_post p key (Speech text)) (\<lambda>response.
     case response of
       None \<Rightarrow> fail_call reservation_id (LeonVoiceError ''Leon's voice is unavailable right now'' ''tts'')
     | Some r \<Rightarrow>
         if 400 \<le> status_code r
         then fail_call reservation_id (LeonVoiceError ''Leon's voice is unavailable right now'' ''tts'')
         else if content r = []
         then fail_call reservation_id (LeonVoiceError ''Leon's voice returned empty audio'' ''tts'')
         else if starts_with (lower (content_type r)) ''application/json''
         then fail_call reservation_id (LeonVoiceError ''Leon's voice returned an unexpected response'' ''tts'')
         else
           bindE (liftE (tts_cost_usd st text)) (\<lambda>cost.
           bindE (commit reservation_id cost) (\<lambda>_. ret (content r))))))))"

definition run_voice_turn ::
    "provider \<Rightarrow> string option \<Rightarrow> nat list option \<Rightarrow> string \<Rightarrow> string \<Rightarrow> turn list
      \<Rightarrow> (string \<times> string \<times> nat list) svc" where
  "run_voice_turn p user_text audio_bytes audio_filename audio_content_type history =
     (let text = py_strip (case user_text of None \<Rightarrow> [] | Some t \<Rightarrow> t) in
      bindE (if text = [] then
               (case audio_bytes of
                  None \<Rightarrow> raise (LeonVoiceError ''no speech or text was provided'' ''input'')
                | Some audio \<Rightarrow>
                    if audio = [] then raise (LeonVoiceError ''no speech or text was provided'' ''input'')
                    else transcribe_audio p audio audio_filename audio_content_type)
             else ret text) (\<lambda>resolved_text.
      bindE (generate_reply p resolved_text history) (\<lambda>reply_text.
      bindE (synthesize_speech p reply_text) (\<lambda>reply_audio.
      ret (resolved_text, reply_text, reply_audio)))))"

section \<open>Transactions and time\<close>

definition priced :: "usd \<Rightarrow> bool" where
  "priced x \<longleftrightarrow> 0 \<le> x \<and> numeric4 x = x"

definition own_reservation :: "session \<Rightarrow> uuid \<Rightarrow> bool" where
  "own_reservation s k \<longleftrightarrow> (\<forall>r. find_rsv s k = Some r \<longrightarrow> rsv_workspace_id r = LEON_SYSTEM_WORKSPACE_ID)"

inductive voice_step :: "session \<Rightarrow> session \<Rightarrow> bool" where
  v_reserve: "priced estimate \<Longrightarrow> voice_step s (state_after (reserve provider estimate) s)"
| v_commit: "own_reservation s k \<Longrightarrow> voice_step s (state_after (commit k actual) s)"
| v_release: "own_reservation s k \<Longrightarrow> voice_step s (state_after (release k) s)"
| v_time: "voice_step s (s\<lparr>clock := clock s + int d\<rparr>)"

definition voice_used :: "session \<Rightarrow> datetime \<Rightarrow> usd" where
  "voice_used s since = spend_committed_plus_reserved s LEON_SYSTEM_WORKSPACE_ID None (Some since)"

definition fresh_rsv :: "session \<Rightarrow> bool" where
  "fresh_rsv s \<longleftrightarrow> distinct (map rsv_id (reservations s)) \<and> (\<forall>r\<in>set (reservations s). rsv_id r < next_uuid s)"

definition honest_ledger :: "session \<Rightarrow> bool" where
  \<comment> \<open>no negative amounts in the voice workspace, and reservations as the column stores them\<close>
  "honest_ledger s \<longleftrightarrow>
     (\<forall>r\<in>set (reservations s). rsv_workspace_id r = LEON_SYSTEM_WORKSPACE_ID \<longrightarrow> priced (rsv_estimated_cost_usd r))
     \<and> (\<forall>l\<in>set (spend_logs s). sl_workspace_id l = LEON_SYSTEM_WORKSPACE_ID \<longrightarrow> 0 \<le> sl_cost_usd l)"

definition budgeted :: "spend_cap \<Rightarrow> session \<Rightarrow> bool" where
  "budgeted c s \<longleftrightarrow> filter (\<lambda>c. cap_workspace_id c = LEON_SYSTEM_WORKSPACE_ID \<and> cap_provider c = None) (caps s) = [c]
     \<and> fresh_rsv s \<and> honest_ledger s
     \<and> voice_used s (utc_day_start (clock s)) \<le> cap_daily_cap_usd c
     \<and> voice_used s (utc_month_start (clock s)) \<le> cap_monthly_cap_usd c"

subsection \<open>What each transaction does\<close>

definition voice_rsv :: "string \<Rightarrow> usd \<Rightarrow> session \<Rightarrow> spend_reservation" where
  "voice_rsv provider estimate s = \<lparr>rsv_id = next_uuid s, rsv_workspace_id = LEON_SYSTEM_WORKSPACE_ID,
     rsv_pipeline_run_id = None, rsv_provider = provider, rsv_stage = None,
     rsv_estimated_cost_usd = numeric4 estimate, rsv_status = Reserved, rsv_created_at = clock s\<rparr>"

lemma voice_rsv_sel [simp]:
  "rsv_id (voice_rsv p e s) = next_uuid s" "rsv_workspace_id (voice_rsv p e s) = LEON_SYSTEM_WORKSPACE_ID"
  "rsv_status (voice_rsv p e s) = Reserved" "rsv_estimated_cost_usd (voice_rsv p e s) = numeric4 e"
  by (simp_all add: voice_rsv_def)

lemma reserve_cases:
  obtains (refused) e where "reserve provider estimate s = (s, Inl e)" "e = MultipleResultsFound \<or> (\<exists>m. e = LeonSpendExceeded m)"
  | (granted) c where "reserve provider estimate s =
        (s\<lparr>next_uuid := Suc (next_uuid s), reservations := reservations s @ [voice_rsv provider estimate s]\<rparr>,
         Inr (next_uuid s))"
      and "filter (\<lambda>c. cap_workspace_id c = LEON_SYSTEM_WORKSPACE_ID \<and> cap_provider c = None) (caps s) = [c]"
      and "voice_used s (utc_day_start (clock s)) + estimate \<le> cap_daily_cap_usd c"
      and "voice_used s (utc_month_start (clock s)) + estimate \<le> cap_monthly_cap_usd c"
proof -
  define rows where "rows = filter (\<lambda>c. cap_workspace_id c = LEON_SYSTEM_WORKSPACE_ID \<and> cap_provider c = None) (caps s)"
  consider "rows = []" | c where "rows = [c]" | a b cs where "rows = a # b # cs"
    by (metis list.exhaust)
  then show ?thesis
  proof cases
    case 1
    then show ?thesis by (intro refused) (simp add: reserve_def load_cap_for_update_def flip: rows_def, blast)
  next
    case (2 c)
    let ?ok = "voice_used s (utc_day_start (clock s)) + estimate \<le> cap_daily_cap_usd c
      \<and> voice_used s (utc_month_start (clock s)) + estimate \<le> cap_monthly_cap_usd c"
    have run: "reserve provider estimate s =
      (if cap_daily_cap_usd c < voice_used s (utc_day_start (clock s)) + estimate
       then (s, Inl (LeonSpendExceeded ''daily voice spend cap reached''))
       else if cap_monthly_cap_usd c < voice_used s (utc_month_start (clock s)) + estimate
       then (s, Inl (LeonSpendExceeded ''monthly voice spend cap reached''))
       else (s\<lparr>next_uuid := Suc (next_uuid s), reservations := reservations s @ [voice_rsv provider estimate s]\<rparr>,
         Inr (next_uuid s)))"
      using 2 by (simp add: reserve_def load_cap_for_update_def voice_used_def voice_rsv_def flip: rows_def)
    show ?thesis
    proof (cases ?ok)
      case True
      then show ?thesis using 2 by (intro granted [of c]) (simp_all add: run rows_def)
    next
      case False
      then have "reserve provider estimate s = (s, Inl (LeonSpendExceeded ''daily voice spend cap reached''))
        \<or> reserve provider estimate s = (s, Inl (LeonSpendExceeded ''monthly voice spend cap reached''))"
        by (auto simp: run)
      then show ?thesis by (auto intro: refused)
    qed
  next
    case (3 a b cs)
    then show ?thesis by (intro refused) (simp add: reserve_def load_cap_for_update_def flip: rows_def, blast)
  qed
qed

definition voice_log :: "spend_reservation \<Rightarrow> usd \<Rightarrow> session \<Rightarrow> spend_log" where
  "voice_log r actual s = \<lparr>sl_id = next_uuid s, sl_workspace_id = LEON_SYSTEM_WORKSPACE_ID,
     sl_provider = rsv_provider r, sl_stage = None,
     sl_cost_usd = numeric4 (min (max 0 actual) (rsv_estimated_cost_usd r)), sl_occurred_at = clock s\<rparr>"

lemma commit_open:
  assumes "find_rsv s k = Some r" and "rsv_status r = Reserved"
  shows "commit k actual s = (s\<lparr>next_uuid := Suc (next_uuid s),
    reservations := upd_row rsv_id k (\<lambda>r. r\<lparr>rsv_status := Committed\<rparr>) (reservations s),
    spend_logs := spend_logs s @ [voice_log r actual s]\<rparr>, Inr ())"
  using assms by (auto simp: commit_def voice_log_def Let_def min_def max_def)

lemma commit_closed:
  "\<not> (\<exists>r. find_rsv s k = Some r \<and> rsv_status r = Reserved) \<Longrightarrow> commit k actual s = (s, Inr ())"
  by (auto simp: commit_def split: option.split)

lemma release_open:
  assumes "find_rsv s k = Some r" and "rsv_status r = Reserved"
  shows "release k s = (s\<lparr>reservations := upd_row rsv_id k (\<lambda>r. r\<lparr>rsv_status := Released\<rparr>) (reservations s)\<rparr>, Inr ())"
  using assms by (simp add: release_def)

lemma release_closed:
  "\<not> (\<exists>r. find_rsv s k = Some r \<and> rsv_status r = Reserved) \<Longrightarrow> release k s = (s, Inr ())"
  by (auto simp: release_def split: option.split)

subsection \<open>The caps hold at every moment\<close>

lemma day_start_mono: "t \<le> u \<Longrightarrow> utc_day_start t \<le> utc_day_start u"
  by (simp add: utc_day_start_def us_per_day_def zdiv_mono1)

lemma month_start_mono: "t \<le> u \<Longrightarrow> utc_month_start t \<le> utc_month_start u"
  unfolding utc_month_start_def Let_def us_per_day_def
  by (intro mult_right_mono month_first_mono zdiv_mono1) simp_all

lemma day_start_le: "utc_day_start t \<le> t"
  using mult_div_mod_eq [of us_per_day t] pos_mod_sign [of us_per_day t]
  by (simp add: utc_day_start_def us_per_day_def mult.commute)

lemma month_start_le: "utc_month_start t \<le> t"
proof -
  have "utc_month_start t \<le> utc_day_start t"
    using day_of_month_pos [of "t div us_per_day"]
    by (simp add: utc_month_start_def utc_day_start_def Let_def us_per_day_def)
  with day_start_le [of t] show ?thesis by linarith
qed

lemma sum_filter_mono:
  assumes "\<And>x. x \<in> set xs \<Longrightarrow> P x \<Longrightarrow> Q x" and "\<And>x. x \<in> set xs \<Longrightarrow> Q x \<Longrightarrow> 0 \<le> f x"
  shows "sum_list (map f (filter P xs)) \<le> (sum_list (map f (filter Q xs)) :: rat)"
  using assms by (induction xs) (auto simp: add_increasing)

lemma voice_used_later:
  assumes "honest_ledger s" and "d \<le> e"
  shows "voice_used s e \<le> voice_used s d"
proof -
  have "sum_list (map sl_cost_usd (filter (log_counts LEON_SYSTEM_WORKSPACE_ID None (Some e)) (spend_logs s)))
    \<le> sum_list (map sl_cost_usd (filter (log_counts LEON_SYSTEM_WORKSPACE_ID None (Some d)) (spend_logs s)))"
    using assms by (intro sum_filter_mono) (auto simp: log_counts_def honest_ledger_def)
  then show ?thesis by (simp add: voice_used_def spend_committed_plus_reserved_def)
qed

lemma numeric4_min: "priced r \<Longrightarrow> 0 \<le> x \<Longrightarrow> numeric4 (min x r) \<le> r \<and> 0 \<le> numeric4 (min x r)"
  using numeric4_mono [of "min x r" r] numeric4_nonneg [of "min x r"] by (simp add: priced_def)

lemma open_row_counts:
  "own_reservation s k \<Longrightarrow> find_rsv s k = Some r \<Longrightarrow> rsv_status r = Reserved \<Longrightarrow>
    rsv_counts LEON_SYSTEM_WORKSPACE_ID None r"
  by (simp add: own_reservation_def rsv_counts_def)

lemma closing_frees:
  assumes "fresh_rsv s" and "own_reservation s k" and "find_rsv s k = Some r" and "rsv_status r = Reserved"
    and "status \<noteq> Reserved"
  shows "sum_list (map rsv_estimated_cost_usd (filter (rsv_counts LEON_SYSTEM_WORKSPACE_ID None) (reservations s))) =
    rsv_estimated_cost_usd r + sum_list (map rsv_estimated_cost_usd (filter (rsv_counts LEON_SYSTEM_WORKSPACE_ID None)
      (upd_row rsv_id k (\<lambda>r. r\<lparr>rsv_status := status\<rparr>) (reservations s))))"
  using assms(1,5) open_row_counts [OF assms(2-4)] assms(3)
  by (intro sum_filter_upd_row) (simp_all add: fresh_rsv_def rsv_counts_def)

lemma fresh_update:
  assumes "fresh_rsv s"
  shows "fresh_rsv (s\<lparr>reservations := upd_row rsv_id k (\<lambda>r. r\<lparr>rsv_status := x\<rparr>) (reservations s)\<rparr>)"
  using assms by (auto simp: fresh_rsv_def map_key_upd_row set_upd_row)

lemma honest_update:
  assumes "honest_ledger s"
  shows "honest_ledger (s\<lparr>reservations := upd_row rsv_id k (\<lambda>r. r\<lparr>rsv_status := x\<rparr>) (reservations s)\<rparr>)"
  using assms by (auto simp: honest_ledger_def set_upd_row)

lemma reserve_budgeted:
  assumes "budgeted c s" and "priced estimate"
  shows "budgeted c (state_after (reserve provider estimate) s)"
proof (cases rule: reserve_cases [of provider estimate s])
  case (refused e)
  with assms(1) show ?thesis by simp
next
  case (granted c')
  with assms show ?thesis
    by (auto simp: budgeted_def fresh_rsv_def honest_ledger_def priced_def voice_used_def
        spend_committed_plus_reserved_def rsv_counts_def)
qed

lemma commit_budgeted:
  assumes "budgeted c s" and "own_reservation s k"
  shows "budgeted c (state_after (commit k actual) s)"
proof (cases "\<exists>r. find_rsv s k = Some r \<and> rsv_status r = Reserved")
  case False
  with assms(1) show ?thesis by (simp add: commit_closed)
next
  case True
  then obtain r where r: "find_rsv s k = Some r" "rsv_status r = Reserved" by blast
  let ?t = "s\<lparr>next_uuid := Suc (next_uuid s),
    reservations := upd_row rsv_id k (\<lambda>r. r\<lparr>rsv_status := Committed\<rparr>) (reservations s),
    spend_logs := spend_logs s @ [voice_log r actual s]\<rparr>"
  from assms(1) have ok: "fresh_rsv s" "honest_ledger s" by (simp_all add: budgeted_def)
  have "rsv_workspace_id r = LEON_SYSTEM_WORKSPACE_ID" "r \<in> set (reservations s)"
    using assms(2) r find_row_SomeD [OF r(1)] by (simp_all add: own_reservation_def)
  with ok(2) have "priced (rsv_estimated_cost_usd r)" by (simp add: honest_ledger_def)
  then have cost: "sl_cost_usd (voice_log r actual s) \<le> rsv_estimated_cost_usd r" "0 \<le> sl_cost_usd (voice_log r actual s)"
    using numeric4_min [of "rsv_estimated_cost_usd r" "max 0 actual"] by (simp_all add: voice_log_def)
  have used: "voice_used ?t d \<le> voice_used s d" for d
    using closing_frees [OF ok(1) assms(2) r, of Committed] cost
    by (simp add: voice_used_def spend_committed_plus_reserved_def)
  have "fresh_rsv ?t" using fresh_update [OF ok(1), of k Committed] by (auto simp: fresh_rsv_def less_Suc_eq)
  moreover have "honest_ledger ?t" using honest_update [OF ok(2), of k Committed] cost(2)
    by (auto simp: honest_ledger_def)
  ultimately have "budgeted c ?t"
    using assms(1) used [of "utc_day_start (clock s)"] used [of "utc_month_start (clock s)"]
    by (simp add: budgeted_def)
  then show ?thesis by (simp add: commit_open [OF r])
qed

lemma release_budgeted:
  assumes "budgeted c s" and "own_reservation s k"
  shows "budgeted c (state_after (release k) s)"
proof (cases "\<exists>r. find_rsv s k = Some r \<and> rsv_status r = Reserved")
  case False
  with assms(1) show ?thesis by (simp add: release_closed)
next
  case True
  then obtain r where r: "find_rsv s k = Some r" "rsv_status r = Reserved" by blast
  let ?t = "s\<lparr>reservations := upd_row rsv_id k (\<lambda>r. r\<lparr>rsv_status := Released\<rparr>) (reservations s)\<rparr>"
  from assms(1) have ok: "fresh_rsv s" "honest_ledger s" by (simp_all add: budgeted_def)
  have "rsv_workspace_id r = LEON_SYSTEM_WORKSPACE_ID" "r \<in> set (reservations s)"
    using assms(2) r find_row_SomeD [OF r(1)] by (simp_all add: own_reservation_def)
  with ok(2) have "0 \<le> rsv_estimated_cost_usd r" by (simp add: honest_ledger_def priced_def)
  then have "voice_used ?t d \<le> voice_used s d" for d
    using closing_frees [OF ok(1) assms(2) r, of Released]
    by (simp add: voice_used_def spend_committed_plus_reserved_def)
  from this [of "utc_day_start (clock s)"] this [of "utc_month_start (clock s)"]
  have "budgeted c ?t" using assms(1) fresh_update [OF ok(1)] honest_update [OF ok(2)]
    by (simp add: budgeted_def)
  then show ?thesis by (simp add: release_open [OF r])
qed

lemma time_budgeted:
  assumes "budgeted c s"
  shows "budgeted c (s\<lparr>clock := clock s + int d\<rparr>)"
proof -
  from assms have ok: "honest_ledger s" by (simp add: budgeted_def)
  have "voice_used s (utc_day_start (clock s + int d)) \<le> voice_used s (utc_day_start (clock s))"
    "voice_used s (utc_month_start (clock s + int d)) \<le> voice_used s (utc_month_start (clock s))"
    by (rule voice_used_later [OF ok], simp add: day_start_mono month_start_mono)+
  with assms show ?thesis
    by (simp add: budgeted_def fresh_rsv_def honest_ledger_def voice_used_def spend_committed_plus_reserved_def)
qed

lemma voice_step_budgeted: "voice_step s t \<Longrightarrow> budgeted c s \<Longrightarrow> budgeted c t"
  by (induction rule: voice_step.induct)
    (simp_all add: reserve_budgeted commit_budgeted release_budgeted time_budgeted)

lemma voice_steps_budgeted: "voice_step\<^sup>*\<^sup>* s t \<Longrightarrow> budgeted c s \<Longrightarrow> budgeted c t"
  by (induction rule: rtranclp_induct) (auto intro: voice_step_budgeted)

section \<open>A turn is made of such transactions\<close>

definition rates_ok :: "settings \<Rightarrow> bool" where
  "rates_ok st \<longleftrightarrow> 0 \<le> leon_stt_cost_usd_per_minute st \<and> 0 \<le> leon_llm_input_cost_usd_per_1k_tokens st
     \<and> 0 \<le> leon_llm_output_cost_usd_per_1k_tokens st \<and> 0 \<le> leon_tts_cost_usd_per_1k_chars st"

definition ready :: "session \<Rightarrow> bool" where
  "ready s \<longleftrightarrow> fresh_rsv s \<and> rates_ok (get_settings s)"

definition still_open :: "session \<Rightarrow> spend_reservation list" where
  "still_open s = filter (\<lambda>r. rsv_status r = Reserved) (reservations s)"

definition holds :: "session \<Rightarrow> uuid \<Rightarrow> bool" where
  "holds s k \<longleftrightarrow> (\<exists>r. find_rsv s k = Some r \<and> rsv_status r = Reserved \<and> rsv_workspace_id r = LEON_SYSTEM_WORKSPACE_ID)"

definition closes :: "uuid \<Rightarrow> session \<Rightarrow> session \<Rightarrow> bool" where
  "closes k s t \<longleftrightarrow> (\<exists>x. x \<noteq> Reserved \<and> reservations t = upd_row rsv_id k (\<lambda>r. r\<lparr>rsv_status := x\<rparr>) (reservations s))"

definition settles :: "uuid \<Rightarrow> 'a svc \<Rightarrow> bool" where
  \<comment> \<open>the part of a provider call after its reservation \<open>k\<close>\<close>
  "settles k m \<longleftrightarrow> (\<forall>s. holds s k \<longrightarrow> voice_step\<^sup>*\<^sup>* s (state_after m s)
     \<and> (result_of m s \<noteq> Inl ArithmeticError \<longrightarrow> closes k s (state_after m s)))"

definition accounted :: "'a svc \<Rightarrow> bool" where
  \<comment> \<open>a computation made of transactions that leaves no reservation of its own open\<close>
  "accounted m \<longleftrightarrow> (\<forall>s. ready s \<longrightarrow> voice_step\<^sup>*\<^sup>* s (state_after m s)
     \<and> (result_of m s \<noteq> Inl ArithmeticError \<longrightarrow> still_open (state_after m s) = still_open s))"

lemma quantize4_priced: "quantize4 x = Inr y \<Longrightarrow> 0 \<le> x \<Longrightarrow> priced y"
proof -
  assume q: "quantize4 x = Inr y" and x: "0 \<le> x"
  define n where "n = round_half_even (x * 10000)"
  have "0 \<le> n" unfolding n_def using x by (intro round_half_even_nonneg) simp
  moreover have "y = of_int n / 10000" using q by (simp add: quantize4_def n_def Let_def split: if_splits)
  moreover have "\<lfloor>of_int n + (1 / 2 :: rat)\<rfloor> = n" by (simp add: floor_eq_iff)
  ultimately show ?thesis by (simp add: priced_def numeric4_pos)
qed

lemma quantize4_error: "quantize4 x = Inl e \<Longrightarrow> e = ArithmeticError"
  by (simp add: quantize4_def Let_def split: if_splits)

lemma estimate_priced:
  assumes "rates_ok st"
  shows "stt_reserve_estimate_usd st = Inr x \<Longrightarrow> priced x"
    and "llm_reserve_estimate_usd st history user_text = Inr x \<Longrightarrow> priced x"
    and "tts_cost_usd st text = Inr x \<Longrightarrow> priced x"
  using assms
  by (auto simp: stt_reserve_estimate_usd_def llm_reserve_estimate_usd_def tts_cost_usd_def rates_ok_def Let_def
      STT_RESERVE_MAX_MINUTES_def CHARS_PER_TOKEN_ESTIMATE_def LLM_RESERVE_MAX_OUTPUT_TOKENS_def elim!: quantize4_priced)

lemma duration_decimal_error: "duration_decimal d = Inl e \<Longrightarrow> e = ArithmeticError"
  by (cases d) auto

lemma price_errors:
  "stt_reserve_estimate_usd st = Inl e \<Longrightarrow> e = ArithmeticError"
  "stt_actual_cost_usd st d = Inl e \<Longrightarrow> e = ArithmeticError"
  "llm_reserve_estimate_usd st history user_text = Inl e \<Longrightarrow> e = ArithmeticError"
  "llm_actual_cost_usd st i out = Inl e \<Longrightarrow> e = ArithmeticError"
  "tts_cost_usd st text = Inl e \<Longrightarrow> e = ArithmeticError"
  by (auto simp: stt_reserve_estimate_usd_def stt_actual_cost_usd_def llm_reserve_estimate_usd_def
      llm_actual_cost_usd_def tts_cost_usd_def Let_def
      dest: quantize4_error duration_decimal_error split: option.splits if_splits sum.splits)

lemma voice_step_ready: "voice_step s t \<Longrightarrow> ready s \<Longrightarrow> ready t"
proof (induction rule: voice_step.induct)
  case (v_reserve estimate s provider)
  then show ?case
    by (cases rule: reserve_cases [of provider estimate s]) (auto simp: ready_def fresh_rsv_def)
next
  case (v_commit s k actual)
  show ?case
  proof (cases "\<exists>r. find_rsv s k = Some r \<and> rsv_status r = Reserved")
    case True
    with v_commit show ?thesis
      by (auto simp: commit_open ready_def fresh_rsv_def map_key_upd_row set_upd_row less_Suc_eq)
  next
    case False
    with v_commit show ?thesis by (simp add: commit_closed)
  qed
next
  case (v_release s k)
  show ?case
  proof (cases "\<exists>r. find_rsv s k = Some r \<and> rsv_status r = Reserved")
    case True
    with v_release show ?thesis using fresh_update by (auto simp: release_open ready_def)
  next
    case False
    with v_release show ?thesis by (simp add: release_closed)
  qed
next
  case (v_time s d)
  then show ?case by (simp add: ready_def fresh_rsv_def)
qed

lemma voice_steps_ready: "voice_step\<^sup>*\<^sup>* s t \<Longrightarrow> ready s \<Longrightarrow> ready t"
  by (induction rule: rtranclp_induct) (auto intro: voice_step_ready)

lemma holds_own: "holds s k \<Longrightarrow> own_reservation s k"
  by (auto simp: holds_def own_reservation_def)

lemma settles_fail: "e \<noteq> ArithmeticError \<Longrightarrow> settles k (fail_call k e)"
proof (unfold settles_def, intro allI impI)
  fix s
  assume "holds s k"
  then obtain r where r: "find_rsv s k = Some r" "rsv_status r = Reserved" by (auto simp: holds_def)
  have "voice_step s (state_after (release k) s)" by (rule v_release [OF holds_own [OF \<open>holds s k\<close>]])
  then show "voice_step\<^sup>*\<^sup>* s (state_after (fail_call k e) s)
    \<and> (result_of (fail_call k e) s \<noteq> Inl ArithmeticError \<longrightarrow> closes k s (state_after (fail_call k e) s))"
    by (auto simp: fail_call_def bindE_Inr [where m = "release k", OF release_open [OF r]] release_open [OF r] closes_def
        intro!: exI [of _ Released])
qed

lemma settles_commit:
  assumes "\<And>e. cost = Inl e \<Longrightarrow> e = ArithmeticError"
  shows "settles k (bindE (liftE cost) (\<lambda>c. bindE (commit k c) (\<lambda>_. ret x)))"
proof (unfold settles_def, intro allI impI)
  fix s
  assume "holds s k"
  then obtain r where r: "find_rsv s k = Some r" "rsv_status r = Reserved" by (auto simp: holds_def)
  let ?m = "bindE (liftE cost) (\<lambda>c. bindE (commit k c) (\<lambda>_. ret x))"
  show "voice_step\<^sup>*\<^sup>* s (state_after ?m s) \<and> (result_of ?m s \<noteq> Inl ArithmeticError \<longrightarrow> closes k s (state_after ?m s))"
  proof (cases cost)
    case (Inl e)
    with assms show ?thesis by simp
  next
    case (Inr c)
    have "voice_step s (state_after (commit k c) s)" by (rule v_commit [OF holds_own [OF \<open>holds s k\<close>]])
    with Inr show ?thesis
      by (auto simp: bindE_Inr [where m = "commit k c", OF commit_open [OF r]] commit_open [OF r] closes_def
          intro!: exI [of _ Committed])
  qed
qed

lemma settles_post:
  assumes "\<And>r. settles k (f r)"
  shows "settles k (bindE (http_post p key call) f)"
proof (unfold settles_def, intro allI impI)
  fix s
  assume h: "holds s k"
  obtain d r where p: "p (clock s) key call = (d, r)" by fastforce
  let ?t = "s\<lparr>clock := clock s + int d\<rparr>"
  have run: "bindE (http_post p key call) f s = f r ?t" by (simp add: bindE_def http_post_def p)
  have "voice_step s ?t" by (rule v_time)
  moreover have "holds ?t k" using h by (simp add: holds_def)
  ultimately have "voice_step\<^sup>*\<^sup>* s (state_after (f r) ?t)
    \<and> (result_of (f r) ?t \<noteq> Inl ArithmeticError \<longrightarrow> closes k ?t (state_after (f r) ?t))"
    using assms [of r] unfolding settles_def by (blast intro: converse_rtranclp_into_rtranclp)
  then show "voice_step\<^sup>*\<^sup>* s (state_after (bindE (http_post p key call) f) s)
    \<and> (result_of (bindE (http_post p key call) f) s \<noteq> Inl ArithmeticError
        \<longrightarrow> closes k s (state_after (bindE (http_post p key call) f) s))"
    by (simp add: run closes_def)
qed

lemma settles_if: "(b \<Longrightarrow> settles k m) \<Longrightarrow> (\<not> b \<Longrightarrow> settles k n) \<Longrightarrow> settles k (if b then m else n)"
  by simp

lemma settles_option:
  "(x = None \<Longrightarrow> settles k m) \<Longrightarrow> (\<And>y. x = Some y \<Longrightarrow> settles k (f y)) \<Longrightarrow> settles k (case x of None \<Rightarrow> m | Some y \<Rightarrow> f y)"
  by (cases x) simp_all

lemma settles_sum:
  "(\<And>e. x = Inl e \<Longrightarrow> settles k (g e)) \<Longrightarrow> (\<And>y. x = Inr y \<Longrightarrow> settles k (f y))
    \<Longrightarrow> settles k (case x of Inl e \<Rightarrow> g e | Inr y \<Rightarrow> f y)"
  by (cases x) simp_all

lemma settles_json:
  "(\<And>y. settles k (f y)) \<Longrightarrow> settles k m
    \<Longrightarrow> settles k (case x of JStr y \<Rightarrow> f y | _ \<Rightarrow> m)"
  by (cases x) simp_all

lemmas settles_rules = settles_if settles_option settles_sum settles_json settles_fail settles_commit settles_post

lemma safe_json_error: "safe_json r st m = Inl e \<Longrightarrow> e \<noteq> ArithmeticError"
  by (auto simp: safe_json_def split: option.splits json.splits)

lemma reply_of_error: "reply_of body = Inl e \<Longrightarrow> e \<noteq> ArithmeticError"
  by (auto simp: reply_of_def unexpected_reply_def Let_def split: option.splits json.splits list.splits if_splits)

lemma accounted_same: "(\<And>s. state_after m s = s) \<Longrightarrow> accounted m"
  by (simp add: accounted_def)

lemma accounted_bind:
  assumes "accounted m" and "\<And>x. accounted (f x)"
  shows "accounted (bindE m f)"
proof (unfold accounted_def, intro allI impI)
  fix s
  assume s: "ready s"
  obtain t r where m: "m s = (t, r)" by fastforce
  from assms(1) s have st: "voice_step\<^sup>*\<^sup>* s t" "r \<noteq> Inl ArithmeticError \<longrightarrow> still_open t = still_open s"
    unfolding accounted_def by (metis fst_conv snd_conv m)+
  show "voice_step\<^sup>*\<^sup>* s (state_after (bindE m f) s)
    \<and> (result_of (bindE m f) s \<noteq> Inl ArithmeticError \<longrightarrow> still_open (state_after (bindE m f) s) = still_open s)"
  proof (cases r)
    case (Inl e)
    with st show ?thesis by (simp add: bindE_def m)
  next
    case (Inr x)
    from voice_steps_ready [OF st(1) s] assms(2) [of x] have
      "voice_step\<^sup>*\<^sup>* t (state_after (f x) t)" "result_of (f x) t \<noteq> Inl ArithmeticError \<longrightarrow> still_open (state_after (f x) t) = still_open t"
      unfolding accounted_def by blast+
    with st Inr show ?thesis by (auto simp: bindE_def m intro: rtranclp_trans)
  qed
qed

lemma reserve_settled:
  assumes "ready s" and "priced estimate" and "\<And>k. settles k (f k)"
  shows "voice_step\<^sup>*\<^sup>* s (state_after (bindE (reserve_or_fail provider estimate) f) s)
    \<and> (result_of (bindE (reserve_or_fail provider estimate) f) s \<noteq> Inl ArithmeticError
        \<longrightarrow> still_open (state_after (bindE (reserve_or_fail provider estimate) f) s) = still_open s)"
proof (cases rule: reserve_cases [of provider estimate s])
  case (refused e)
  then show ?thesis by (auto simp: bindE_def reserve_or_fail_def try_except_def)
next
  case (granted c)
  let ?k = "next_uuid s" and ?new = "voice_rsv provider estimate s"
  define t where "t = s\<lparr>next_uuid := Suc ?k, reservations := reservations s @ [?new]\<rparr>"
  have run: "bindE (reserve_or_fail provider estimate) f s = f ?k t"
    using granted(1) by (simp add: bindE_def reserve_or_fail_def try_except_def t_def)
  have step: "voice_step s t" using v_reserve [OF assms(2), of s provider] granted(1) by (simp add: t_def)
  have absent: "?k \<notin> rsv_id ` set (reservations s)" using assms(1) by (auto simp: ready_def fresh_rsv_def)
  then have "holds t ?k" by (simp add: holds_def t_def find_row_append find_row_None [THEN iffD2])
  with assms(3) [of ?k] have m: "voice_step\<^sup>*\<^sup>* t (state_after (f ?k) t)"
    "result_of (f ?k) t \<noteq> Inl ArithmeticError \<longrightarrow> closes ?k t (state_after (f ?k) t)"
    unfolding settles_def by blast+
  have "still_open (state_after (f ?k) t) = still_open s" if "closes ?k t (state_after (f ?k) t)"
    using that absent by (auto simp: closes_def still_open_def t_def upd_row_absent)
  with m step show ?thesis by (auto simp: run intro: converse_rtranclp_into_rtranclp)
qed

lemma accounted_call:
  assumes est: "\<And>st x. rates_ok st \<Longrightarrow> est st = Inr x \<Longrightarrow> priced x" and f: "\<And>key st k. settles k (f key st k)"
  shows "accounted (bindE (require_openai_key stage) (\<lambda>key. bindE (gets get_settings) (\<lambda>st.
    bindE (liftE (est st)) (\<lambda>e. bindE (reserve_or_fail provider e) (f key st)))))"
    (is "accounted ?m")
proof (unfold accounted_def, intro allI impI)
  fix s
  assume s: "ready s"
  obtain r where key: "require_openai_key stage s = (s, r)"
    by (fastforce simp: require_openai_key_def split: option.split)
  show "voice_step\<^sup>*\<^sup>* s (state_after ?m s)
    \<and> (result_of ?m s \<noteq> Inl ArithmeticError \<longrightarrow> still_open (state_after ?m s) = still_open s)"
  proof (cases r)
    case (Inl e)
    then show ?thesis by (simp add: bindE_Inl [where m = "require_openai_key stage", OF key [unfolded Inl]])
  next
    case (Inr k)
    show ?thesis
    proof (cases "est (get_settings s)")
      case (Inl e)
      then show ?thesis by (simp add: bindE_Inr [where m = "require_openai_key stage", OF key [unfolded Inr]])
    next
      case e: (Inr e)
      have "priced e" using est [OF _ e] s by (simp add: ready_def)
      from reserve_settled [OF s this f] show ?thesis by (simp add: bindE_Inr [where m = "require_openai_key stage", OF key [unfolded Inr]] e)
    qed
  qed
qed

lemma accounted_transcribe: "accounted (transcribe_audio p audio filename ctype)"
  unfolding transcribe_audio_def
  by (rule accounted_call, erule (1) estimate_priced)
    (auto intro!: settles_rules dest: safe_json_error price_errors)

lemma accounted_reply: "accounted (generate_reply p user_text history)"
  unfolding generate_reply_def
  by (rule accounted_call, erule (1) estimate_priced)
    (auto intro!: settles_rules dest: safe_json_error reply_of_error price_errors)

lemma accounted_speech: "accounted (synthesize_speech p text)"
  unfolding synthesize_speech_def
  by (rule accounted_call, erule (1) estimate_priced)
    (auto intro!: settles_rules dest: price_errors)

lemma accounted_turn: "accounted (run_voice_turn p user_text audio filename ctype history)"
  unfolding run_voice_turn_def Let_def
  by (intro accounted_bind accounted_reply accounted_speech)
    (auto intro: accounted_transcribe accounted_same split: option.split)

section \<open>What holds of the voice route's spend\<close>

text \<open>
  C17: The voice budget holds at every moment. From a state in which the recorded and reserved spend
  of the voice workspace is within its caps, whatever reserves, commits, releases and passing of time
  follow, of any number of turns in any order, the spend of the current day stays within the daily cap
  and that of the current month within the monthly cap.
\<close>

theorem voice_spend_stays_within_caps:
  assumes "budgeted c s" and "voice_step\<^sup>*\<^sup>* s t"
  shows "voice_used t (utc_day_start (clock t)) \<le> cap_daily_cap_usd c
    \<and> voice_used t (utc_month_start (clock t)) \<le> cap_monthly_cap_usd c"
  using voice_steps_budgeted [OF assms(2,1)] by (simp add: budgeted_def)

text \<open>
  A voice turn, whatever the provider answers, is a sequence of such transactions, and unless the
  price of a response cannot be computed it ends with exactly the reservations open that were open
  before: each of its own is committed or released.
\<close>

theorem voice_turn_settles_its_reservations:
  assumes "ready s" and "run_voice_turn p user_text audio filename ctype history s = (t, r)"
    and "r \<noteq> Inl ArithmeticError"
  shows "voice_step\<^sup>*\<^sup>* s t \<and> still_open t = still_open s"
  using accounted_turn [of p user_text audio filename ctype history] assms
  unfolding accounted_def by (metis fst_conv snd_conv)

text \<open>
  A transcription whose duration is not a number the price can be computed from (a JSON boolean
  passes the type test of the code) ends in an uncaught arithmetic error with its reservation still
  open; open reservations count against the caps of every later day.
\<close>

theorem unpriced_transcription_keeps_its_reservation:
  assumes "openai_api_key (get_settings s) = Some key" and "key \<noteq> []"
    and "stt_reserve_estimate_usd (get_settings s) = Inr estimate"
    and "reserve ''openai-whisper'' estimate s = (u, Inr k)" and "fresh_rsv s"
    and "p (clock u) key (Transcription audio filename ''audio/m4a'') = (d, Some r)"
    and "status_code r < 400" and "content_json r = Some (JObj body)"
    and "map_of body ''text'' = Some (JStr text)" and "py_strip text \<noteq> []"
    and "map_of body ''duration'' = Some (JBool b)"
  shows "\<exists>t. transcribe_audio p audio filename ''audio/m4a'' s = (t, Inl ArithmeticError) \<and> holds t k"
proof -
  let ?t = "u\<lparr>clock := clock u + int d\<rparr>"
  from assms(4) have u: "u = s\<lparr>next_uuid := Suc (next_uuid s),
      reservations := reservations s @ [voice_rsv ''openai-whisper'' estimate s]\<rparr>" "k = next_uuid s"
    by (cases rule: reserve_cases [of "''openai-whisper''" estimate s]; simp)+
  have "next_uuid s \<notin> rsv_id ` set (reservations s)" using assms(5) by (auto simp: fresh_rsv_def)
  then have "holds ?t k" by (simp add: holds_def u find_row_append find_row_None [THEN iffD2])
  moreover have key: "require_openai_key ''stt'' s = (s, Inr key)"
    using assms(1,2) by (simp add: require_openai_key_def)
  have hold: "reserve_or_fail ''openai-whisper'' estimate s = (u, Inr k)"
    by (simp add: reserve_or_fail_def try_except_def assms(4))
  have post: "http_post p key (Transcription audio filename ''audio/m4a'') u = (?t, Inr (Some r))"
    by (simp add: http_post_def assms(6))
  have cost: "stt_actual_cost_usd st (number_duration body) = Inl ArithmeticError" for st
    by (simp add: stt_actual_cost_usd_def number_duration_def assms(11))
  have "transcribe_audio p audio filename ''audio/m4a'' s = (?t, Inl ArithmeticError)"
    unfolding transcribe_audio_def
    by (simp add: bindE_Inr [where m = "require_openai_key ''stt''", OF key] assms(3)
        bindE_Inr [where m = "reserve_or_fail ''openai-whisper'' estimate", OF hold]
        bindE_Inr [where m = "http_post p key (Transcription audio filename ''audio/m4a'')", OF post]
        safe_json_def assms(8-10) assms(7) [folded not_le] cost)
  ultimately show ?thesis by blast
qed

subsection \<open>A small ledger to evaluate on\<close>

definition voice_cap :: spend_cap where
  "voice_cap = \<lparr>cap_id = 3, cap_workspace_id = LEON_SYSTEM_WORKSPACE_ID, cap_provider = None,
     cap_daily_cap_usd = 2, cap_monthly_cap_usd = 20, cap_created_by = None, cap_updated_by = None\<rparr>"

definition voice_sample :: session where
  "voice_sample = empty_session\<lparr>caps := [voice_cap],
     get_settings := default_settings\<lparr>openai_api_key := Some ''sk'', leon_llm_input_cost_usd_per_1k_tokens := 4,
       leon_llm_output_cost_usd_per_1k_tokens := 1, leon_tts_cost_usd_per_1k_chars := 1\<rparr>\<rparr>"

definition json_response :: "json_obj \<Rightarrow> http_response" where
  "json_response body = \<lparr>status_code = 200, content = [123, 125], content_json = Some (JObj body),
     content_type = ''application/json''\<rparr>"

fun provider_sample :: provider where
  "provider_sample now key (Transcription a f c) =
     (5, Some (json_response [(''text'', JStr ''hello''), (''duration'', JBool True)]))"
| "provider_sample now key (ChatCompletion n ms) =
     (7, Some (json_response [(''choices'', JList [JObj [(''message'', JObj [(''content'', JStr '' hi '')])]]),
        (''usage'', JObj [(''prompt_tokens'', JInt 400), (''completion_tokens'', JInt 3)])]))"
| "provider_sample now key (Speech text) =
     (9, Some \<lparr>status_code = 200, content = [1, 2, 3], content_json = None, content_type = ''audio/mpeg''\<rparr>)"

lemma voice_sample_ready: "ready voice_sample"
  by (simp add: ready_def fresh_rsv_def rates_ok_def voice_sample_def empty_session_def default_settings_def)

lemma voice_sample_budgeted: "budgeted voice_cap voice_sample"
  by (simp add: budgeted_def fresh_rsv_def honest_ledger_def voice_used_def spend_committed_plus_reserved_def
      voice_sample_def empty_session_def voice_cap_def)

lemma sample_estimates:
  "stt_reserve_estimate_usd (get_settings voice_sample) = Inr (9/125)"
  "llm_reserve_estimate_usd (get_settings voice_sample) [] ''hello'' = Inr (61/200)"
  "tts_cost_usd (get_settings voice_sample) ''hi'' = Inr (1/500)"
  by (simp_all add: stt_reserve_estimate_usd_def llm_reserve_estimate_usd_def tts_cost_usd_def quantize4_def Let_def
      round_half_even_def STT_RESERVE_MAX_MINUTES_def CHARS_PER_TOKEN_ESTIMATE_def LLM_RESERVE_MAX_OUTPUT_TOKENS_def
      voice_sample_def default_settings_def empty_session_def)

lemma bindE_http_post [simp]:
  "bindE (http_post p key call) f s = (case p (clock s) key call of (d, r) \<Rightarrow> f r (s\<lparr>clock := clock s + int d\<rparr>))"
  by (simp add: bindE_def http_post_def split: prod.split)

lemma sample_granted:
  assumes "caps s = [voice_cap]" and "voice_used s (utc_day_start (clock s)) + e \<le> 2"
    and "voice_used s (utc_month_start (clock s)) + e \<le> 20"
  shows "reserve prov e s =
    (s\<lparr>next_uuid := Suc (next_uuid s), reservations := reservations s @ [voice_rsv prov e s]\<rparr>, Inr (next_uuid s))"
  using assms by (simp add: reserve_def load_cap_for_update_def voice_cap_def voice_used_def voice_rsv_def)

lemma bindE_reserve_or_fail:
  "reserve prov e s = (t, Inr k) \<Longrightarrow> bindE (reserve_or_fail prov e) f s = f k t"
  by (simp add: bindE_def reserve_or_fail_def try_except_def)

lemma bindE_commit_ret: "bindE (commit k c) (\<lambda>_. ret x) s = (state_after (commit k c) s, Inr x)"
  by (cases "\<exists>r. find_rsv s k = Some r \<and> rsv_status r = Reserved")
    (auto simp: bindE_def commit_open commit_closed)

lemma bindE_sample_key:
  "get_settings s = get_settings voice_sample \<Longrightarrow> bindE (require_openai_key stage) f s = f ''sk'' s"
  by (simp add: bindE_def require_openai_key_def voice_sample_def)

lemma voice_used_none [simp]: "spend_logs s = [] \<Longrightarrow> reservations s = [] \<Longrightarrow> voice_used s d = 0"
  by (simp add: voice_used_def spend_committed_plus_reserved_def)

lemma sample_tables [simp]:
  "spend_logs voice_sample = []" "reservations voice_sample = []" "caps voice_sample = [voice_cap]" "clock voice_sample = 0"
  "next_uuid voice_sample = 1000"
  by (simp_all add: voice_sample_def empty_session_def)

lemma sample_reply_body:
  "reply_of [(''choices'', JList [JObj [(''message'', JObj [(''content'', JStr '' hi '')])]]),
     (''usage'', JObj [(''prompt_tokens'', JInt 400), (''completion_tokens'', JInt 3)])] = Inr ''hi''"
  by (simp add: reply_of_def py_strip_def is_space_def)

lemma sample_price: "llm_actual_cost_usd (get_settings voice_sample) 400 3 = Inr (1603/1000)"
  by (simp add: llm_actual_cost_usd_def quantize4_def Let_def round_half_even_def voice_sample_def default_settings_def)

lemma sample_amounts: "numeric4 (61/200) = 61/200" "numeric4 (1/500) = 1/500"
  by (simp_all add: numeric4_def floor_eq_iff)

lemma sample_reply:
  "generate_reply provider_sample ''hello'' [] voice_sample =
    (voice_sample\<lparr>clock := 7, next_uuid := 1002,
       reservations := [voice_rsv ''openai-llm'' (61/200) voice_sample\<lparr>rsv_status := Committed\<rparr>],
       spend_logs := [voice_log (voice_rsv ''openai-llm'' (61/200) voice_sample) (1603/1000)
         (voice_sample\<lparr>clock := 7, next_uuid := 1001\<rparr>)]\<rparr>, Inr ''hi'')"
  unfolding generate_reply_def
  by (simp add: bindE_sample_key sample_estimates bindE_reserve_or_fail [OF sample_granted] json_response_def safe_json_def
      sample_reply_body usage_tokens_def sample_price bindE_commit_ret commit_open voice_log_def)

lemma sample_speech:
  assumes "get_settings s = get_settings voice_sample" and "caps s = [voice_cap]"
    and "voice_used s (utc_day_start (clock s)) \<le> 1" and "voice_used s (utc_month_start (clock s)) \<le> 1"
  shows "result_of (synthesize_speech provider_sample ''hi'') s = Inr [1, 2, 3]"
  unfolding synthesize_speech_def using assms
  by (simp add: bindE_sample_key sample_estimates bindE_reserve_or_fail [OF sample_granted] bindE_commit_ret
      starts_with_def lower_def)

lemma voice_sample_turn:
  "result_of (run_voice_turn provider_sample (Some ''hello'') None ''speech.m4a'' ''audio/m4a'' []) voice_sample =
    Inr (''hello'', ''hi'', [1, 2, 3])"
proof -
  let ?t = "state_after (generate_reply provider_sample ''hello'' []) voice_sample"
  have reply: "generate_reply provider_sample ''hello'' [] voice_sample = (?t, Inr ''hi'')"
    by (simp add: sample_reply)
  have "result_of (synthesize_speech provider_sample ''hi'') ?t = Inr [1, 2, 3]"
    by (rule sample_speech) (simp_all add: sample_reply voice_used_def spend_committed_plus_reserved_def
        rsv_counts_def log_counts_def voice_log_def sample_amounts)
  moreover have "py_strip ''hello'' = ''hello''" by (simp add: py_strip_def is_space_def)
  ultimately show ?thesis
    unfolding run_voice_turn_def Let_def
    by (simp add: bindE_Inr [where m = "generate_reply provider_sample ''hello'' []", OF reply])
      (auto simp: bindE_def split: prod.split)
qed

theorem voice_spend_stays_within_caps_witness:
  "voice_used (state_after (reserve ''openai-tts'' (1/2)) voice_sample) 0 \<le> 2"
proof -
  have "priced (1/2)" by (simp add: priced_def numeric4_def floor_eq_iff)
  then have "voice_step\<^sup>*\<^sup>* voice_sample (state_after (reserve ''openai-tts'' (1/2)) voice_sample)"
    by (intro r_into_rtranclp v_reserve)
  from voice_spend_stays_within_caps [OF voice_sample_budgeted this] show ?thesis
    by (simp add: reserve_def load_cap_for_update_def voice_sample_def voice_cap_def empty_session_def utc_day_start_def
        spend_committed_plus_reserved_def us_per_day_def utc_month_start_def day_of_month_samples)
qed

theorem voice_turn_settles_its_reservations_witness:
  "still_open (state_after (run_voice_turn provider_sample (Some ''hello'') None ''speech.m4a'' ''audio/m4a'' [])
    voice_sample) = []"
proof -
  obtain t r where run: "run_voice_turn provider_sample (Some ''hello'') None ''speech.m4a'' ''audio/m4a'' [] voice_sample = (t, r)"
    by fastforce
  with voice_sample_turn have "r \<noteq> Inl ArithmeticError" by simp
  from voice_turn_settles_its_reservations [OF voice_sample_ready run this] show ?thesis
    by (simp add: run still_open_def)
qed

theorem unpriced_transcription_keeps_its_reservation_witness:
  "\<exists>t. transcribe_audio provider_sample [1] ''speech.m4a'' ''audio/m4a'' voice_sample = (t, Inl ArithmeticError) \<and> holds t 1000"
proof -
  obtain u where u: "reserve ''openai-whisper'' (9/125) voice_sample = (u, Inr 1000)"
    using sample_granted [of voice_sample "9/125" "''openai-whisper''"] by simp
  show ?thesis
    by (rule unpriced_transcription_keeps_its_reservation [OF _ _ sample_estimates(1) u, of "''sk''" provider_sample "[1]" "''speech.m4a''" 5
        "json_response [(''text'', JStr ''hello''), (''duration'', JBool True)]"
        "[(''text'', JStr ''hello''), (''duration'', JBool True)]" "''hello''" True])
      (use voice_sample_ready in \<open>simp_all add: voice_sample_def ready_def json_response_def py_strip_def is_space_def\<close>)
qed

end
