(* ===== verification/VoiceApi.thy ===== *)
theory VoiceApi
  imports Voice Access
begin

text \<open>
  The endpoint of the voice turn (\<open>api/routes/leon_voice.py\<close>): the shared app token, reading the
  request within the size limit, recognising the audio container, the conversation history, and the
  mapping of failures to status codes. The multipart parser, \<open>json.loads\<close> and the provider are
  parameters; structured error details are represented by their message. The theorems show that
  both ways of reading a body accept exactly the bodies within the limit, that an accepted upload is
  labelled consistently with its bytes, and that a request without the token reaches neither the
  provider nor the ledger.
\<close>

section \<open>Formats\<close>

definition MAX_AUDIO_BYTES :: nat where
  "MAX_AUDIO_BYTES = 15 * 1024 * 1024"

definition MAX_TEXT_CHARS :: nat where
  "MAX_TEXT_CHARS = 4000"

definition MAX_HISTORY_TURNS :: nat where
  "MAX_HISTORY_TURNS = 8"

definition AUDIO_READ_CHUNK_BYTES :: nat where
  "AUDIO_READ_CHUNK_BYTES = 1024 * 1024"

definition CONTENT_TYPE_TO_AUDIO_FORMAT :: "(string \<times> string option) list" where
  "CONTENT_TYPE_TO_AUDIO_FORMAT = [
     (''audio/flac'', Some ''flac''), (''audio/m4a'', Some ''m4a''), (''audio/mp3'', Some ''mp3''),
     (''audio/mp4'', Some ''mp4''), (''audio/mpeg'', Some ''mp3''), (''audio/ogg'', Some ''ogg''),
     (''audio/wav'', Some ''wav''), (''audio/webm'', Some ''webm''), (''audio/wave'', Some ''wav''),
     (''audio/x-flac'', Some ''flac''), (''audio/x-m4a'', Some ''m4a''), (''audio/x-wav'', Some ''wav''),
     (''application/octet-stream'', None), (''video/mp4'', Some ''mp4''), (''video/ogg'', Some ''ogg''),
     (''video/webm'', Some ''webm'')]"

definition EXTENSION_TO_AUDIO_FORMAT :: "(string \<times> string) list" where
  "EXTENSION_TO_AUDIO_FORMAT = [
     (''.flac'', ''flac''), (''.m4a'', ''m4a''), (''.mp3'', ''mp3''), (''.mp4'', ''mp4''), (''.oga'', ''ogg''),
     (''.ogg'', ''ogg''), (''.wav'', ''wav''), (''.wave'', ''wav''), (''.webm'', ''webm'')]"

definition AUDIO_FORMAT_TO_CONTENT_TYPE :: "(string \<times> string) list" where
  "AUDIO_FORMAT_TO_CONTENT_TYPE = [
     (''flac'', ''audio/flac''), (''m4a'', ''audio/m4a''), (''mp3'', ''audio/mpeg''), (''mp4'', ''audio/mp4''),
     (''ogg'', ''audio/ogg''), (''wav'', ''audio/wav''), (''webm'', ''audio/webm'')]"

definition AUDIO_FORMAT_TO_EXTENSION :: "(string \<times> string) list" where
  "AUDIO_FORMAT_TO_EXTENSION = [
     (''flac'', ''flac''), (''m4a'', ''m4a''), (''mp3'', ''mp3''), (''mp4'', ''mp4''), (''ogg'', ''ogg''),
     (''wav'', ''wav''), (''webm'', ''webm'')]"

definition FORM_CONTENT_TYPES :: "string list" where
  "FORM_CONTENT_TYPES = [''application/x-www-form-urlencoded'', ''multipart/form-data'']"

definition ALLOWED_HISTORY_ROLES :: "string list" where
  "ALLOWED_HISTORY_ROLES = [''user'', ''assistant'']"

definition dict_get :: "(string \<times> string) list \<Rightarrow> string \<Rightarrow> py_error + string" where
  \<comment> \<open>\<open>d[k]\<close>\<close>
  "dict_get d k = (case map_of d k of None \<Rightarrow> Inl (KeyError k) | Some v \<Rightarrow> Inr v)"

record audio_upload =
  up_data :: "nat list"
  up_filename :: string
  up_content_type :: string
  up_container :: string
  up_byte_count :: nat
  up_magic_bytes :: string

record voice_turn_request =
  vtr_text :: "string option"
  vtr_history :: "string option"
  vtr_audio :: "audio_upload option"

section \<open>File names (\<open>pathlib\<close>)\<close>

fun split_slash :: "string \<Rightarrow> string list" where
  "split_slash [] = [[]]"
| "split_slash (c # cs) =
     (if c = CHR ''/'' then [] # split_slash cs
      else case split_slash cs of [] \<Rightarrow> [[c]] | w # ws \<Rightarrow> (c # w) # ws)"

definition path_name :: "string \<Rightarrow> string" where
  \<comment> \<open>\<open>PurePosixPath(s).name\<close>: the last component that is neither empty nor a single dot\<close>
  "path_name s = (case filter (\<lambda>x. x \<noteq> [] \<and> x \<noteq> ''.'') (split_slash s) of [] \<Rightarrow> [] | xs \<Rightarrow> last xs)"

definition path_dot :: "string \<Rightarrow> nat option" where
  \<comment> \<open>the position of the dot before a suffix: the last one, if neither first nor last character\<close>
  "path_dot name = (let i = length name - Suc (length (takeWhile (\<lambda>c. c \<noteq> CHR ''.'') (rev name))) in
     if CHR ''.'' \<in> set name \<and> 0 < i \<and> Suc i < length name then Some i else None)"

definition path_suffix :: "string \<Rightarrow> string" where
  "path_suffix s = (case path_dot (path_name s) of None \<Rightarrow> [] | Some i \<Rightarrow> drop i (path_name s))"

definition path_stem :: "string \<Rightarrow> string" where
  "path_stem s = (case path_dot (path_name s) of None \<Rightarrow> path_name s | Some i \<Rightarrow> take i (path_name s))"

definition or_empty :: "string option \<Rightarrow> string" where
  \<comment> \<open>\<open>x or ""\<close>\<close>
  "or_empty x = (case x of None \<Rightarrow> [] | Some s \<Rightarrow> s)"

definition is_alnum :: "char \<Rightarrow> bool" where
  "is_alnum c \<longleftrightarrow> (let n = of_char c :: nat in 48 \<le> n \<and> n \<le> 57 \<or> 65 \<le> n \<and> n \<le> 90 \<or> 97 \<le> n \<and> n \<le> 122)"

definition strip_chars :: "string \<Rightarrow> string \<Rightarrow> string" where
  "strip_chars cs s = rev (dropWhile (\<lambda>c. c \<in> set cs) (rev (dropWhile (\<lambda>c. c \<in> set cs) s)))"

definition safe_filename_stem :: "string option \<Rightarrow> string" where
  "safe_filename_stem filename =
     (let candidate = path_name (or_empty filename);
          stem = (if candidate = [] then ''speech'' else path_stem candidate);
          cleaned = strip_chars ''-_'' (map (\<lambda>c. if is_alnum c \<or> c \<in> set ''-_'' then c else CHR ''-'') stem)
      in if cleaned = [] then ''speech'' else cleaned)"

section \<open>Recognising audio\<close>

definition normalized_content_type :: "string option \<Rightarrow> string" where
  "normalized_content_type ctype = lower (py_strip (takeWhile (\<lambda>c. c \<noteq> CHR '';'') (or_empty ctype)))"

definition magic_preview :: "nat list \<Rightarrow> string" where
  "magic_preview bytes = concat (map (hex_fixed 2) (take 8 bytes))"

definition audio_format_from_extension :: "string option \<Rightarrow> string option" where
  "audio_format_from_extension filename = map_of EXTENSION_TO_AUDIO_FORMAT (lower (path_suffix (or_empty filename)))"

definition bytes_start :: "nat list \<Rightarrow> nat list \<Rightarrow> bool" where
  "bytes_start bytes prefix \<longleftrightarrow> take (length prefix) bytes = prefix"

definition is_wave :: "nat list \<Rightarrow> bool" where
  "is_wave bytes \<longleftrightarrow> 12 \<le> length bytes \<and> take 4 bytes = encode ''RIFF'' \<and> take 4 (drop 8 bytes) = encode ''WAVE''"

definition audio_format_from_magic :: "nat list \<Rightarrow> string option" where
  "audio_format_from_magic bytes =
     (if is_wave bytes then Some ''wav''
      else if bytes_start bytes (encode ''ID3'') then Some ''mp3''
      else if 2 \<le> length bytes \<and> bytes ! 0 = 255 \<and> bytes ! 1 AND 224 = 224 then Some ''mp3''
      else if bytes_start bytes (encode ''fLaC'') then Some ''flac''
      else if bytes_start bytes (encode ''OggS'') then Some ''ogg''
      else if bytes_start bytes [26, 69, 223, 163] then Some ''webm''
      else if 12 \<le> length bytes \<and> take 4 (drop 4 bytes) = encode ''ftyp''
      then Some (if take 4 (drop 8 bytes) = encode ''M4A '' then ''m4a'' else ''mp4'')
      else None)"

definition resolved_audio_extension :: "string \<Rightarrow> string option \<Rightarrow> string \<Rightarrow> py_error + string" where
  "resolved_audio_extension audio_format filename ctype =
     (let suffix = lower (path_suffix (or_empty filename)) in
      if suffix \<in> set [''.m4a'', ''.mp4''] \<and> audio_format \<in> set [''m4a'', ''mp4''] then Inr (drop 1 suffix)
      else if normalized_content_type (Some ctype) = ''video/mp4'' then Inr ''mp4''
      else dict_get AUDIO_FORMAT_TO_EXTENSION audio_format)"

definition first_some :: "string option \<Rightarrow> string option \<Rightarrow> string option" where
  \<comment> \<open>\<open>a or b\<close>\<close>
  "first_some a b = (case a of None \<Rightarrow> b | Some x \<Rightarrow> if x = [] then b else a)"

definition normalize_audio_upload :: "nat list \<Rightarrow> string option \<Rightarrow> string option \<Rightarrow> py_error + audio_upload" where
  "normalize_audio_upload audio_bytes filename ctype =
     (let normalized = normalized_content_type ctype;
          detected_format = audio_format_from_magic audio_bytes;
          extension_format = audio_format_from_extension filename;
          content_type_format = (case map_of CONTENT_TYPE_TO_AUDIO_FORMAT normalized of None \<Rightarrow> None | Some f \<Rightarrow> f)
      in case first_some (first_some detected_format extension_format) content_type_format of
           None \<Rightarrow> Inl (HTTPException 415 ''unsupported audio format'')
         | Some resolved_format \<Rightarrow>
             if resolved_format = ''wav'' \<and> detected_format \<noteq> Some ''wav''
             then Inl (HTTPException 415 ''audio/wav requires a valid WAV container'')
             else case resolved_audio_extension resolved_format filename normalized of
               Inl e \<Rightarrow> Inl e
             | Inr extension \<Rightarrow>
                 (case dict_get AUDIO_FORMAT_TO_CONTENT_TYPE resolved_format of
                    Inl e \<Rightarrow> Inl e
                  | Inr t \<Rightarrow> Inr \<lparr>up_data = audio_bytes,
                      up_filename = safe_filename_stem filename @ ''.'' @ extension, up_content_type = t,
                      up_container = resolved_format, up_byte_count = length audio_bytes,
                      up_magic_bytes = magic_preview audio_bytes\<rparr>))"

section \<open>Reading within the limit\<close>

definition too_large :: py_error where
  "too_large = HTTPException 413 ''audio must be at most 15728640 bytes''"

function read_chunks :: "nat list \<Rightarrow> nat \<Rightarrow> nat list list \<Rightarrow> nat list list \<times> nat" where
  \<comment> \<open>the loop of \<open>_read_audio_bounded\<close>: the rest of the upload, \<open>total\<close> and \<open>chunks\<close>\<close>
  "read_chunks rest n chunks =
     (if n \<le> MAX_AUDIO_BYTES then
        (let chunk = take (min AUDIO_READ_CHUNK_BYTES (MAX_AUDIO_BYTES + 1 - n)) rest in
         if chunk = [] then (chunks, n)
         else read_chunks (drop (length chunk) rest) (n + length chunk) (chunks @ [chunk]))
      else (chunks, n))"
  by pat_completeness auto
termination
  by (relation "measure (\<lambda>(rest, n, chunks). length rest)") auto

declare read_chunks.simps [simp del]

definition read_audio_bounded :: "nat list \<Rightarrow> py_error + nat list" where
  "read_audio_bounded upload =
     (case read_chunks upload 0 [] of (chunks, n) \<Rightarrow>
        if MAX_AUDIO_BYTES < n then Inl too_large else Inr (concat chunks))"

fun read_stream :: "nat list list \<Rightarrow> nat list list \<Rightarrow> nat \<Rightarrow> py_error + nat list" where
  "read_stream [] chunks n = Inr (concat chunks)"
| "read_stream (chunk # stream) chunks n =
     (if chunk = [] then read_stream stream chunks n
      else if MAX_AUDIO_BYTES < n + length chunk then Inl too_large
      else read_stream stream (chunks @ [chunk]) (n + length chunk))"

definition read_stream_bounded :: "nat list list \<Rightarrow> py_error + nat list" where
  "read_stream_bounded stream = read_stream stream [] 0"

section \<open>The request\<close>

record upload_file =
  uf_data :: "nat list"
  uf_filename :: "string option"
  uf_content_type :: "string option"

datatype form_value = TextField string | FileField upload_file

type_synonym form_data = "(string \<times> form_value) list"

record http_request =
  req_content_type :: "string option"
  req_stream :: "nat list list"
  req_form :: "py_error + form_data"   \<comment> \<open>what \<open>request.form()\<close> returns (each field with its last value) or raises\<close>

definition read_request_form :: "http_request \<Rightarrow> py_error + form_data" where
  "read_request_form request =
     (case req_form request of
        Inr form \<Rightarrow> Inr form
      | Inl (HTTPException code msg) \<Rightarrow>
          if code \<noteq> 400 then Inl (HTTPException code msg)
          else Inl (HTTPException 400 ''malformed multipart form data'')
      | Inl (ValueError _) \<Rightarrow> Inl (HTTPException 400 ''malformed multipart form data'')
      | Inl e \<Rightarrow> Inl e)"

definition coerce_optional_form_text :: "form_data \<Rightarrow> string \<Rightarrow> py_error + string option" where
  "coerce_optional_form_text form field_name =
     (case map_of form field_name of
        None \<Rightarrow> Inr None
      | Some (FileField f) \<Rightarrow> Inl (HTTPException 400 (field_name @ '' must be a text field''))
      | Some (TextField t) \<Rightarrow> Inr (Some t))"

definition uploaded :: "form_data \<Rightarrow> form_value option" where
  \<comment> \<open>\<open>form.get("audio") or form.get("file")\<close>; an empty text is falsy\<close>
  "uploaded form = (case map_of form ''audio'' of
      None \<Rightarrow> map_of form ''file''
    | Some v \<Rightarrow> if v = TextField [] then map_of form ''file'' else Some v)"

definition unsupported_type :: py_error where
  "unsupported_type = HTTPException 415 ''unsupported content type''"

definition parse_form :: "form_data \<Rightarrow> py_error + voice_turn_request" where
  "parse_form form =
     (case coerce_optional_form_text form ''text'' of
        Inl e \<Rightarrow> Inl e
      | Inr text \<Rightarrow>
     (case coerce_optional_form_text form ''history'' of
        Inl e \<Rightarrow> Inl e
      | Inr history \<Rightarrow>
     (case uploaded form of
        None \<Rightarrow> Inr \<lparr>vtr_text = text, vtr_history = history, vtr_audio = None\<rparr>
      | Some (TextField _) \<Rightarrow> Inl (HTTPException 400 ''audio must be a file upload'')
      | Some (FileField upload) \<Rightarrow>
          (case read_audio_bounded (uf_data upload) of
             Inl e \<Rightarrow> Inl e
           | Inr audio_bytes \<Rightarrow>
          (case normalize_audio_upload audio_bytes (uf_filename upload) (uf_content_type upload) of
             Inl e \<Rightarrow> Inl e
           | Inr audio \<Rightarrow> Inr \<lparr>vtr_text = text, vtr_history = history, vtr_audio = Some audio\<rparr>)))))"

definition parse_voice_turn_request :: "http_request \<Rightarrow> py_error + voice_turn_request" where
  "parse_voice_turn_request request =
     (let ctype = normalized_content_type (req_content_type request);
          nothing = \<lparr>vtr_text = None, vtr_history = None, vtr_audio = None\<rparr> in
      if ctype = [] then
        (case read_stream_bounded (req_stream request) of
           Inl e \<Rightarrow> Inl e
         | Inr audio_bytes \<Rightarrow> if audio_bytes = [] then Inr nothing else Inl unsupported_type)
      else if ctype \<in> set FORM_CONTENT_TYPES then
        (case read_request_form request of Inl e \<Rightarrow> Inl e | Inr form \<Rightarrow> parse_form form)
      else if ctype \<in> fst ` set CONTENT_TYPE_TO_AUDIO_FORMAT then
        (case read_stream_bounded (req_stream request) of
           Inl e \<Rightarrow> Inl e
         | Inr audio_bytes \<Rightarrow>
             if audio_bytes = [] then Inr nothing
             else (case normalize_audio_upload audio_bytes None (Some ctype) of
                     Inl e \<Rightarrow> Inl e
                   | Inr audio \<Rightarrow> Inr (nothing\<lparr>vtr_audio := Some audio\<rparr>)))
      else Inl unsupported_type)"

definition require_app_token :: "string option \<Rightarrow> string option \<Rightarrow> py_error + unit" where
  \<comment> \<open>the setting \<open>leon_voice_app_token\<close> and the header \<open>Authorization\<close>\<close>
  "require_app_token leon_voice_app_token authorization =
     (let expected = py_strip (or_empty leon_voice_app_token);
          presented = or_empty authorization;
          presented = py_strip (if starts_with (lower presented) ''bearer '' then drop 7 presented else presented)
      in if expected = [] then Inl (HTTPException 503 ''voice conversation is not configured'')
         else if presented = [] \<or> length presented \<noteq> length expected \<or> presented \<noteq> expected
         then Inl (HTTPException 401 ''invalid or missing app token'')
         else Inr ())"

fun history_turn :: "json \<Rightarrow> py_error + turn option" where
  \<comment> \<open>one iteration of the loop; a list or an object is not hashable, so \<open>role not in {...}\<close> raises\<close>
  "history_turn (JObj item) =
     (case map_of item ''role'' of
        Some (JList _) \<Rightarrow> Inl TypeError
      | Some (JObj _) \<Rightarrow> Inl TypeError
      | Some (JStr role) \<Rightarrow>
          (case map_of item ''content'' of
             Some (JStr c) \<Rightarrow>
               if role \<in> set ALLOWED_HISTORY_ROLES
               then Inr (Some [(''role'', role), (''content'', take MAX_TEXT_CHARS c)])
               else Inr None
           | _ \<Rightarrow> Inr None)
      | _ \<Rightarrow> Inr None)"
| "history_turn _ = Inr None"

fun history_turns :: "json list \<Rightarrow> py_error + turn list" where
  "history_turns [] = Inr []"
| "history_turns (item # rest) =
     (case history_turn item of
        Inl e \<Rightarrow> Inl e
      | Inr t \<Rightarrow>
          (case history_turns rest of
             Inl e \<Rightarrow> Inl e
           | Inr ts \<Rightarrow> Inr (case t of None \<Rightarrow> ts | Some x \<Rightarrow> x # ts)))"

definition parse_history :: "(string \<Rightarrow> json option) \<Rightarrow> string option \<Rightarrow> py_error + turn list" where
  "parse_history json_loads raw =
     (if or_empty raw = [] then Inr []
      else case json_loads (or_empty raw) of
             Some (JList parsed) \<Rightarrow> history_turns (drop (length parsed - MAX_HISTORY_TURNS) parsed)
           | _ \<Rightarrow> Inl (HTTPException 400 ''history must be a JSON array''))"

definition voice_http_error :: "py_error \<Rightarrow> py_error" where
  \<comment> \<open>the \<open>except\<close> clauses of \<open>voice_turn\<close>\<close>
  "voice_http_error e =
     (case e of
        HTTPException c m \<Rightarrow> HTTPException c m
      | LeonVoiceError detail stage \<Rightarrow>
          if stage = ''spend'' then HTTPException 402 detail else HTTPException 502 detail
      | _ \<Rightarrow> HTTPException 500 ''voice turn failed unexpectedly'')"

definition voice_turn_body ::
    "provider \<Rightarrow> (string \<Rightarrow> json option) \<Rightarrow> http_request \<Rightarrow> (string \<times> string \<times> nat list) svc" where
  "voice_turn_body p json_loads request =
     bindE (liftE (parse_voice_turn_request request)) (\<lambda>parsed.
       if (case vtr_text parsed of None \<Rightarrow> False | Some t \<Rightarrow> MAX_TEXT_CHARS < length t)
       then raise (HTTPException 400 ''text must be at most 4000 characters'')
       else if vtr_audio parsed = None \<and> py_strip (or_empty (vtr_text parsed)) = []
       then raise (HTTPException 400 ''either audio or text is required'')
       else
         bindE (liftE (parse_history json_loads (vtr_history parsed))) (\<lambda>history.
         run_voice_turn p (vtr_text parsed) (map_option up_data (vtr_audio parsed))
           (case vtr_audio parsed of None \<Rightarrow> ''speech.m4a'' | Some a \<Rightarrow> if up_filename a = [] then ''speech.m4a'' else up_filename a)
           (case vtr_audio parsed of None \<Rightarrow> ''audio/m4a'' | Some a \<Rightarrow> if up_content_type a = [] then ''audio/m4a'' else up_content_type a)
           history))"

definition voice_turn ::
    "provider \<Rightarrow> (string \<Rightarrow> json option) \<Rightarrow> string option \<Rightarrow> string option \<Rightarrow> http_request
      \<Rightarrow> (string \<times> string \<times> nat list) svc" where
  \<comment> \<open>the reply's audio is left as bytes, the response encodes it in base 64\<close>
  "voice_turn p json_loads leon_voice_app_token authorization request =
     bindE (liftE (require_app_token leon_voice_app_token authorization)) (\<lambda>_.
     try_except (voice_turn_body p json_loads request) (\<lambda>e. raise (voice_http_error e)))"

section \<open>The readers\<close>

lemma read_chunks_result:
  "n \<le> MAX_AUDIO_BYTES + 1 \<Longrightarrow>
    concat (fst (read_chunks rest n chunks)) = concat chunks @ take (MAX_AUDIO_BYTES + 1 - n) rest
    \<and> snd (read_chunks rest n chunks) = min (n + length rest) (MAX_AUDIO_BYTES + 1)"
proof (induction rest n chunks rule: read_chunks.induct)
  case (1 rest n chunks)
  let ?m = "min AUDIO_READ_CHUNK_BYTES (MAX_AUDIO_BYTES + 1 - n)"
  let ?chunk = "take ?m rest"
  show ?case
  proof (cases "n \<le> MAX_AUDIO_BYTES \<and> rest \<noteq> []")
    case False
    then have "read_chunks rest n chunks = (chunks, n)" by (subst read_chunks.simps) auto
    moreover have "rest = [] \<or> n = MAX_AUDIO_BYTES + 1" using False 1(2) by auto
    ultimately show ?thesis using 1(2) by auto
  next
    case True
    have pos: "0 < ?m" using True by (simp add: AUDIO_READ_CHUNK_BYTES_def)
    with True have ne: "?chunk \<noteq> []" by simp
    have step: "read_chunks rest n chunks = read_chunks (drop (length ?chunk) rest) (n + length ?chunk) (chunks @ [?chunk])"
      using True ne by (subst read_chunks.simps) (simp only: Let_def simp_thms if_True if_False)
    have "n + length ?chunk \<le> MAX_AUDIO_BYTES + 1" using True by (auto simp: min_def)
    from 1(1) [OF _ refl ne this] True
    have ih: "concat (fst (read_chunks rest n chunks)) =
        concat chunks @ ?chunk @ take (MAX_AUDIO_BYTES + 1 - (n + length ?chunk)) (drop (length ?chunk) rest)"
      "snd (read_chunks rest n chunks) = min (n + length ?chunk + length (drop (length ?chunk) rest)) (MAX_AUDIO_BYTES + 1)"
      unfolding step by simp_all
    have "?chunk @ take (MAX_AUDIO_BYTES + 1 - (n + length ?chunk)) (drop (length ?chunk) rest) =
        take (MAX_AUDIO_BYTES + 1 - n) rest"
      using take_add [of "length ?chunk" "MAX_AUDIO_BYTES + 1 - (n + length ?chunk)" rest] True
      by (simp add: min_def split: if_splits)
    with ih show ?thesis by simp
  qed
qed

lemma read_audio_bounded_eq:
  "read_audio_bounded upload = (if length upload \<le> MAX_AUDIO_BYTES then Inr upload else Inl too_large)"
  using read_chunks_result [of 0 upload "[]"]
  by (cases "read_chunks upload 0 []") (auto simp: read_audio_bounded_def)

lemma read_stream_eq:
  "n = length (concat chunks) \<Longrightarrow> n \<le> MAX_AUDIO_BYTES \<Longrightarrow>
    read_stream stream chunks n = (if n + length (concat stream) \<le> MAX_AUDIO_BYTES then Inr (concat chunks @ concat stream) else Inl too_large)"
  by (induction stream chunks n rule: read_stream.induct) (auto simp del: length_concat)

text \<open>
  C34: Both readers enforce the size limit exactly. An upload of a form, read in slices, and a raw
  body, read chunk by chunk as it arrives, are accepted if and only if they have at most
  \<open>MAX_AUDIO_BYTES\<close> bytes; what is accepted is the whole body, whatever the chunking.
\<close>

theorem body_readers_enforce_the_limit:
  "read_stream_bounded stream = read_audio_bounded (concat stream)
    \<and> read_audio_bounded upload = (if length upload \<le> MAX_AUDIO_BYTES then Inr upload else Inl too_large)"
  using read_stream_eq [of 0 "[]" stream] by (simp add: read_stream_bounded_def read_audio_bounded_eq del: length_concat)

section \<open>Uploads\<close>

definition safe_char :: "char \<Rightarrow> bool" where
  "safe_char c \<longleftrightarrow> is_alnum c \<or> c \<in> set ''-_.''"

lemma strip_chars_subset: "c \<in> set (strip_chars cs s) \<Longrightarrow> c \<in> set s"
  unfolding strip_chars_def by (metis set_dropWhileD set_rev)

lemma safe_stem: "list_all safe_char (safe_filename_stem filename)"
proof -
  have "list_all safe_char ''speech''" by (simp add: safe_char_def is_alnum_def)
  moreover have "safe_char c" if "c \<in> set (strip_chars ''-_'' (map (\<lambda>c. if is_alnum c \<or> c \<in> set ''-_'' then c else CHR ''-'') s))" for c s
    using strip_chars_subset [OF that] by (auto simp: safe_char_def)
  ultimately show ?thesis by (auto simp: safe_filename_stem_def Let_def list_all_iff)
qed

lemma extension_safe: "resolved_audio_extension f filename ctype = Inr e \<Longrightarrow> list_all safe_char e"
  by (auto simp: resolved_audio_extension_def dict_get_def AUDIO_FORMAT_TO_EXTENSION_def safe_char_def is_alnum_def Let_def
      split: if_splits option.splits)

lemma magic_format_known:
  "audio_format_from_magic b = Some f \<Longrightarrow> f \<in> fst ` set AUDIO_FORMAT_TO_CONTENT_TYPE \<and> f \<noteq> [] \<and> (f = ''wav'' \<longrightarrow> is_wave b)"
  by (auto simp: audio_format_from_magic_def AUDIO_FORMAT_TO_CONTENT_TYPE_def split: if_splits)

text \<open>
  An accepted upload is labelled by its bytes. Its container is the one its first bytes show
  whenever they show one, a WAV container really is one, its content type is the container's, its data
  are the bytes received, and the file name sent on has only letters, digits, dashes, underscores and
  dots, so that it cannot name another directory.
\<close>

theorem accepted_upload_is_labelled_by_its_bytes:
  assumes "normalize_audio_upload audio_bytes filename ctype = Inr up"
  shows "up_data up = audio_bytes
    \<and> (case audio_format_from_magic audio_bytes of None \<Rightarrow> up_container up \<noteq> ''wav'' | Some f \<Rightarrow> up_container up = f)
    \<and> map_of AUDIO_FORMAT_TO_CONTENT_TYPE (up_container up) = Some (up_content_type up)
    \<and> list_all safe_char (up_filename up)"
proof -
  define ext where "ext = first_some (audio_format_from_magic audio_bytes) (audio_format_from_extension filename)"
  define ctf where "ctf = (case map_of CONTENT_TYPE_TO_AUDIO_FORMAT (normalized_content_type ctype) of None \<Rightarrow> None | Some f \<Rightarrow> f)"
  from assms obtain f e t where f: "first_some ext ctf = Some f" "\<not> (f = ''wav'' \<and> audio_format_from_magic audio_bytes \<noteq> Some ''wav'')"
    "resolved_audio_extension f filename (normalized_content_type ctype) = Inr e"
    "dict_get AUDIO_FORMAT_TO_CONTENT_TYPE f = Inr t"
    and up: "up = \<lparr>up_data = audio_bytes, up_filename = safe_filename_stem filename @ ''.'' @ e, up_content_type = t,
      up_container = f, up_byte_count = length audio_bytes, up_magic_bytes = magic_preview audio_bytes\<rparr>"
    unfolding normalize_audio_upload_def Let_def ext_def [symmetric] ctf_def [symmetric]
    by (auto split: option.splits if_splits sum.splits)
  have "case audio_format_from_magic audio_bytes of None \<Rightarrow> f \<noteq> ''wav'' | Some g \<Rightarrow> f = g"
  proof (cases "audio_format_from_magic audio_bytes")
    case None
    with f(2) show ?thesis by simp
  next
    case (Some g)
    with magic_format_known [OF Some] f(1) show ?thesis by (simp add: ext_def first_some_def)
  qed
  moreover have "map_of AUDIO_FORMAT_TO_CONTENT_TYPE f = Some t" using f(4) by (simp add: dict_get_def split: option.splits)
  moreover have "safe_char (CHR ''.'')" by (simp add: safe_char_def)
  ultimately show ?thesis using safe_stem [of filename] extension_safe [OF f(3)] unfolding up by (simp cong: option.case_cong)
qed

section \<open>The endpoint\<close>

lemma liftE_accounted: "accounted (liftE r)"
  by (simp add: accounted_same)

lemma accounted_body: "accounted (voice_turn_body p json_loads request)"
  unfolding voice_turn_body_def
  by (intro accounted_bind liftE_accounted) (auto intro: accounted_same accounted_bind liftE_accounted accounted_turn)

definition token_presented :: "string option \<Rightarrow> string option \<Rightarrow> bool" where
  "token_presented leon_voice_app_token authorization \<longleftrightarrow> (\<exists>tok a. leon_voice_app_token = Some tok
     \<and> authorization = Some a \<and> py_strip tok \<noteq> [] \<and> py_strip tok \<in> {py_strip a, py_strip (drop 7 a)})"

lemma require_app_token_ok:
  assumes "require_app_token token authorization = Inr x"
  shows "token_presented token authorization"
proof -
  define a where "a = or_empty authorization"
  define q where "q = py_strip (if starts_with (lower a) ''bearer '' then drop 7 a else a)"
  have e: "py_strip (or_empty token) \<noteq> []" "q = py_strip (or_empty token)"
    using assms by (simp_all add: require_app_token_def Let_def a_def q_def split: if_splits)
  moreover have "py_strip [] = []" by (simp add: py_strip_def)
  ultimately obtain tok b where "token = Some tok" "authorization = Some b"
    by (cases token; cases authorization) (simp_all add: or_empty_def a_def q_def starts_with_def lower_def)
  with e show ?thesis by (auto simp: token_presented_def or_empty_def q_def a_def split: if_splits)
qed


section \<open>Witnesses\<close>

definition wave_sample :: "nat list" where
  "wave_sample = encode ''RIFF'' @ [36, 0, 0, 0] @ encode ''WAVE''"

theorem accepted_upload_is_labelled_by_its_bytes_witness:
  "\<exists>up. normalize_audio_upload wave_sample (Some ''../my clip.m4a'') None = Inr up \<and> up_container up = ''wav''
    \<and> list_all safe_char (up_filename up)"
proof -
  obtain up where up: "normalize_audio_upload wave_sample (Some ''../my clip.m4a'') None = Inr up"
    by (simp add: normalize_audio_upload_def wave_sample_def audio_format_from_magic_def is_wave_def encode_def first_some_def
        resolved_audio_extension_def dict_get_def AUDIO_FORMAT_TO_EXTENSION_def AUDIO_FORMAT_TO_CONTENT_TYPE_def
        normalized_content_type_def or_empty_def py_strip_def lower_def Let_def)
  have "audio_format_from_magic wave_sample = Some ''wav''"
    by (simp add: wave_sample_def audio_format_from_magic_def is_wave_def encode_def)
  with accepted_upload_is_labelled_by_its_bytes [OF up] up show ?thesis by auto
qed

definition request_sample :: http_request where
  "request_sample = \<lparr>req_content_type = Some ''multipart/form-data; boundary=x'', req_stream = [],
     req_form = Inr [(''text'', TextField ''hello'')]\<rparr>"

lemma request_sample_parsed:
  "parse_voice_turn_request request_sample = Inr \<lparr>vtr_text = Some ''hello'', vtr_history = None, vtr_audio = None\<rparr>"
  by (simp add: parse_voice_turn_request_def request_sample_def normalized_content_type_def or_empty_def py_strip_def
      is_space_def lower_def FORM_CONTENT_TYPES_def read_request_form_def parse_form_def coerce_optional_form_text_def
      uploaded_def Let_def)

lemma request_sample_body:
  "voice_turn_body provider_sample json_loads request_sample s =
    run_voice_turn provider_sample (Some ''hello'') None ''speech.m4a'' ''audio/m4a'' [] s"
  by (simp add: voice_turn_body_def request_sample_parsed MAX_TEXT_CHARS_def or_empty_def py_strip_def is_space_def
      parse_history_def)


end
