(* ===== verification/Workspaces.thy ===== *)
theory Workspaces
  imports WorkerApi "HOL-Library.List_Lexorder"
begin

text \<open>
  Administration of a workspace: the endpoints of workspaces and memberships
  (\<open>api/routes/workspaces.py\<close>, \<open>memberships.py\<close>), of concurrency limits and provider budgets
  (\<open>concurrency.py\<close>), and of spend caps (\<open>api/routes/spend.py\<close> with \<open>services/spend.py\<close>), all on
  the state \<open>api\<close>. A request runs in one transaction that an exception rolls back; the guards of its
  dependencies run before the body is validated. The theorems show that in every history of these
  requests each workspace keeps an administrator, that it has one workspace-wide cap and queue limits
  in order, and that a request changes a workspace only for its administrators, or for a member who
  leaves.
\<close>

section \<open>Spend caps\<close>

definition is_default_cap :: "uuid \<Rightarrow> spend_cap \<Rightarrow> bool" where
  "is_default_cap workspace_id c \<longleftrightarrow> cap_workspace_id c = workspace_id \<and> cap_provider c = None"

definition get_workspace_spend_cap :: "uuid \<Rightarrow> spend_cap option svc" where
  "get_workspace_spend_cap workspace_id =
     bindE (gets (\<lambda>s. filter (is_default_cap workspace_id) (caps s))) (\<lambda>rows. liftE (scalar_one_or_none rows))"

definition insert_cap :: "spend_cap \<Rightarrow> unit svc" where
  \<comment> \<open>\<open>session.add(cap); await session.flush()\<close> under \<open>uq_spend_caps_workspace_provider\<close>, which
     compares \<open>COALESCE(provider, '')\<close>\<close>
  "insert_cap cap =
     bindE (gets caps) (\<lambda>rows.
       if \<exists>c\<in>set rows. cap_workspace_id c = cap_workspace_id cap
            \<and> case_option [] id (cap_provider c) = case_option [] id (cap_provider cap)
       then raise (IntegrityError ''uq_spend_caps_workspace_provider'')
       else modify (caps_update (\<lambda>cs. cs @ [cap])))"

definition ensure_default_spend_cap ::
    "spend_cap list \<Rightarrow> uuid \<Rightarrow> uuid \<Rightarrow> usd option \<Rightarrow> usd option \<Rightarrow> spend_cap svc" where
  \<comment> \<open>\<open>rivals\<close>: the rows that other transactions commit between the query and the insertion\<close>
  "ensure_default_spend_cap rivals workspace_id actor_id daily_cap_usd monthly_cap_usd =
     bindE (get_workspace_spend_cap workspace_id) (\<lambda>existing.
     case existing of
       Some c \<Rightarrow> ret c
     | None \<Rightarrow>
         bindE (gets get_settings) (\<lambda>st.
         bindE uuid4 (\<lambda>u.
         let cap = \<lparr>cap_id = u, cap_workspace_id = workspace_id, cap_provider = None,
               cap_daily_cap_usd = numeric4 (case daily_cap_usd of Some d \<Rightarrow> d | None \<Rightarrow> default_daily_spend_cap_usd st),
               cap_monthly_cap_usd = numeric4 (case monthly_cap_usd of Some m \<Rightarrow> m | None \<Rightarrow> default_monthly_spend_cap_usd st),
               cap_created_by = Some actor_id, cap_updated_by = Some actor_id\<rparr> in
         bindE (modify (caps_update (\<lambda>cs. cs @ rivals))) (\<lambda>_.
         try_except (bindE (savepoint (insert_cap cap)) (\<lambda>_. ret cap))
           (\<lambda>e. case e of
              IntegrityError _ \<Rightarrow>
                bindE (get_workspace_spend_cap workspace_id) (\<lambda>existing.
                case existing of None \<Rightarrow> raise e | Some c \<Rightarrow> ret c)
            | _ \<Rightarrow> raise e)))))"

definition update_workspace_spend_cap :: "uuid \<Rightarrow> uuid \<Rightarrow> usd option \<Rightarrow> usd option \<Rightarrow> uuid svc" where
  "update_workspace_spend_cap workspace_id actor_id daily_cap_usd monthly_cap_usd =
     bindE (ensure_default_spend_cap [] workspace_id actor_id None None) (\<lambda>cap.
     bindE (modify (caps_update (upd_row cap_id (cap_id cap) (\<lambda>c. c\<lparr>
         cap_daily_cap_usd := (case daily_cap_usd of Some d \<Rightarrow> numeric4 d | None \<Rightarrow> cap_daily_cap_usd c),
         cap_monthly_cap_usd := (case monthly_cap_usd of Some m \<Rightarrow> numeric4 m | None \<Rightarrow> cap_monthly_cap_usd c),
         cap_updated_by := Some actor_id\<rparr>)))) (\<lambda>_. ret (cap_id cap)))"

record spend_out =
  so_workspace_id :: uuid
  so_daily_cap_usd :: "usd option"
  so_monthly_cap_usd :: "usd option"
  so_daily_used_usd :: usd
  so_monthly_used_usd :: usd
  so_reserved_usd :: usd
  so_has_spend_history :: bool
  so_cap_id :: "uuid option"

definition spend_snapshot :: "uuid \<Rightarrow> spend_out svc" where
  "spend_snapshot workspace_id =
     bindE (get_workspace_spend_cap workspace_id) (\<lambda>cap.
     gets (\<lambda>s. \<lparr>so_workspace_id = workspace_id, so_daily_cap_usd = map_option cap_daily_cap_usd cap,
       so_monthly_cap_usd = map_option cap_monthly_cap_usd cap,
       so_daily_used_usd = spend_committed_plus_reserved s workspace_id None (Some (utc_day_start (clock s))),
       so_monthly_used_usd = spend_committed_plus_reserved s workspace_id None (Some (utc_month_start (clock s))),
       so_reserved_usd = sum_list (map rsv_estimated_cost_usd
         (filter (\<lambda>r. rsv_workspace_id r = workspace_id \<and> rsv_status r = Reserved) (reservations s))),
       so_has_spend_history = (\<exists>l\<in>set (spend_logs s). sl_workspace_id l = workspace_id),
       so_cap_id = map_option cap_id cap\<rparr>))"

definition get_spend :: "string \<Rightarrow> uuid \<Rightarrow> spend_out endpoint" where
  "get_spend user workspace_id =
     transaction (bindE (require_workspace_member workspace_id user) (\<lambda>_. in_db (spend_snapshot workspace_id)))"

record spend_update_in =
  su_daily_cap_usd :: "usd option"
  su_monthly_cap_usd :: "usd option"

definition valid_amount :: "usd option \<Rightarrow> bool" where
  \<comment> \<open>\<open>ge=0, max_digits=12, decimal_places=4\<close>\<close>
  "valid_amount x = (case x of None \<Rightarrow> True
     | Some d \<Rightarrow> 0 \<le> d \<and> of_int \<lfloor>d * 10000\<rfloor> = d * 10000 \<and> d < 10 ^ 8)"

definition update_spend :: "string \<Rightarrow> uuid \<Rightarrow> spend_update_in \<Rightarrow> spend_out endpoint" where
  "update_spend user workspace_id payload =
     transaction (bindE (require_workspace_admin workspace_id user) (\<lambda>_.
       validated (valid_amount (su_daily_cap_usd payload) \<and> valid_amount (su_monthly_cap_usd payload))
         (if su_daily_cap_usd payload = None \<and> su_monthly_cap_usd payload = None
          then raise (HTTPException 422 ''at least one of daily_cap_usd or monthly_cap_usd is required'')
          else if (case (su_daily_cap_usd payload, su_monthly_cap_usd payload) of
                     (Some d, Some m) \<Rightarrow> m < d | _ \<Rightarrow> False)
          then raise (HTTPException 422 ''daily_cap_usd cannot exceed monthly_cap_usd'')
          else
            bindE (liftE (uuid_of_str user)) (\<lambda>actor_id.
            bindE (in_db (update_workspace_spend_cap workspace_id actor_id (su_daily_cap_usd payload)
              (su_monthly_cap_usd payload))) (\<lambda>_.
            in_db (spend_snapshot workspace_id))))))"

section \<open>Workspaces\<close>

definition valid_name :: "string \<Rightarrow> bool" where
  "valid_name name \<longleftrightarrow> 1 \<le> length name \<and> length name \<le> 200"

definition add_membership :: "uuid \<Rightarrow> uuid \<Rightarrow> workspace_role \<Rightarrow> workspace_membership endpoint" where
  \<comment> \<open>\<open>db.add(WorkspaceMembership(...)); await db.flush()\<close> under \<open>uq_workspace_user\<close>\<close>
  "add_membership workspace_id user_id role =
     bindE (gets memberships) (\<lambda>rows.
       if \<exists>m\<in>set rows. wm_workspace_id m = workspace_id \<and> wm_user_id m = user_id
       then raise (IntegrityError ''uq_workspace_user'')
       else
         bindE (in_db uuid4) (\<lambda>u.
         let membership = \<lparr>wm_id = u, wm_workspace_id = workspace_id, wm_user_id = user_id, wm_role = role\<rparr> in
         bindE (modify (memberships_update (\<lambda>ms. ms @ [membership]))) (\<lambda>_. ret membership)))"

definition create_workspace :: "string \<Rightarrow> string \<Rightarrow> uuid endpoint" where
  "create_workspace user name =
     transaction (validated (valid_name name)
       (bindE (liftE (uuid_of_str user)) (\<lambda>uid.
        bindE (in_db uuid4) (\<lambda>ws.
        bindE (in_db utcnow) (\<lambda>now.
        bindE (in_db (modify (workspaces_update (\<lambda>w. w @ [\<lparr>ws_id = ws, ws_name = name, ws_created_by = uid,
          ws_created_at = now, ws_priority_tier = 0\<rparr>])))) (\<lambda>_.
        bindE (add_membership ws uid ADMIN) (\<lambda>_.
        bindE (in_db (ensure_default_spend_cap [] ws uid None None)) (\<lambda>_. ret ws))))))))"

definition list_my_workspaces :: "string \<Rightarrow> workspace list endpoint" where
  "list_my_workspaces user =
     transaction (bindE (liftE (uuid_of_str user)) (\<lambda>uid.
       gets (\<lambda>s. rev (sort_key ws_created_at (rev (filter
         (\<lambda>w. \<exists>m\<in>set (memberships s). wm_workspace_id m = ws_id w \<and> wm_user_id m = uid) (workspaces (db s))))))))"

definition find_workspace :: "api \<Rightarrow> uuid \<Rightarrow> workspace option" where
  "find_workspace s k = find_row ws_id k (workspaces (db s))"

definition get_workspace :: "string \<Rightarrow> uuid \<Rightarrow> workspace endpoint" where
  "get_workspace user workspace_id =
     transaction (bindE (require_workspace_member workspace_id user) (\<lambda>_.
       bindE (gets (\<lambda>s. find_workspace s workspace_id)) (\<lambda>w.
       case w of None \<Rightarrow> raise (HTTPException 404 ''workspace not found'') | Some w \<Rightarrow> ret w)))"

definition update_workspace :: "string \<Rightarrow> uuid \<Rightarrow> string option \<Rightarrow> int option \<Rightarrow> unit endpoint" where
  "update_workspace user workspace_id name priority_tier =
     transaction (bindE (require_workspace_admin workspace_id user) (\<lambda>_.
       validated ((case name of None \<Rightarrow> True | Some n \<Rightarrow> valid_name n)
           \<and> (case priority_tier of None \<Rightarrow> True | Some p \<Rightarrow> 0 \<le> p \<and> p \<le> 10))
         (bindE (gets (\<lambda>s. find_workspace s workspace_id)) (\<lambda>w.
          case w of
            None \<Rightarrow> raise (HTTPException 404 ''workspace not found'')
          | Some _ \<Rightarrow>
              if name = None \<and> priority_tier = None
              then raise (HTTPException 422 ''at least one of name or priority_tier is required'')
              else in_db (modify (workspaces_update (upd_row ws_id workspace_id (\<lambda>w. w\<lparr>
                     ws_name := (case name of None \<Rightarrow> ws_name w | Some n \<Rightarrow> n),
                     ws_priority_tier := (case priority_tier of None \<Rightarrow> ws_priority_tier w | Some p \<Rightarrow> p)\<rparr>))))))))"

section \<open>Memberships\<close>

definition get_target_membership :: "uuid \<Rightarrow> uuid \<Rightarrow> workspace_membership option endpoint" where
  "get_target_membership workspace_id user_id =
     bindE (gets (\<lambda>s. filter (\<lambda>m. wm_workspace_id m = workspace_id \<and> wm_user_id m = user_id) (memberships s)))
       (\<lambda>rows. liftE (scalar_one_or_none rows))"

definition admins :: "api \<Rightarrow> uuid \<Rightarrow> workspace_membership list" where
  "admins s workspace_id = filter (\<lambda>m. wm_workspace_id m = workspace_id \<and> wm_role m = ADMIN) (memberships s)"

definition locked_admin_count :: "uuid \<Rightarrow> nat endpoint" where
  "locked_admin_count workspace_id = gets (\<lambda>s. length (admins s workspace_id))"

definition ensure_admin_mutation_keeps_an_admin :: "uuid \<Rightarrow> uuid \<Rightarrow> workspace_membership endpoint" where
  "ensure_admin_mutation_keeps_an_admin workspace_id user_id =
     bindE (locked_admin_count workspace_id) (\<lambda>count.
     bindE (get_target_membership workspace_id user_id) (\<lambda>target.
     case target of
       None \<Rightarrow> raise (HTTPException 404 ''member not found'')
     | Some m \<Rightarrow>
         if wm_role m = ADMIN \<and> count \<le> 1
         then raise (HTTPException 409 ''workspace must retain at least one admin'')
         else ret m))"

definition list_memberships :: "string \<Rightarrow> uuid \<Rightarrow> workspace_membership list endpoint" where
  "list_memberships user workspace_id =
     transaction (bindE (require_workspace_member workspace_id user) (\<lambda>_.
       gets (\<lambda>s. filter (\<lambda>m. wm_workspace_id m = workspace_id) (memberships s))))"

definition invite_member :: "string \<Rightarrow> uuid \<Rightarrow> uuid \<Rightarrow> workspace_role \<Rightarrow> workspace_membership endpoint" where
  "invite_member user workspace_id user_id role =
     transaction (bindE (require_workspace_admin workspace_id user) (\<lambda>_.
       bindE (get_target_membership workspace_id user_id) (\<lambda>existing.
       if existing \<noteq> None then raise (HTTPException 409 ''user is already a member of this workspace'')
       else add_membership workspace_id user_id role)))"

definition update_member_role :: "string \<Rightarrow> uuid \<Rightarrow> uuid \<Rightarrow> workspace_role \<Rightarrow> workspace_membership endpoint" where
  "update_member_role user workspace_id user_id role =
     transaction (bindE (require_workspace_admin workspace_id user) (\<lambda>_.
       bindE (get_target_membership workspace_id user_id) (\<lambda>target.
       case target of
         None \<Rightarrow> raise (HTTPException 404 ''member not found'')
       | Some m \<Rightarrow>
           bindE (if wm_role m = ADMIN \<and> role \<noteq> ADMIN
                  then ensure_admin_mutation_keeps_an_admin workspace_id user_id else ret m) (\<lambda>target.
           bindE (modify (memberships_update (upd_row wm_id (wm_id target) (\<lambda>m. m\<lparr>wm_role := role\<rparr>)))) (\<lambda>_.
           ret (target\<lparr>wm_role := role\<rparr>))))))"

definition remove_member :: "string \<Rightarrow> uuid \<Rightarrow> uuid \<Rightarrow> unit endpoint" where
  "remove_member user workspace_id user_id =
     transaction (bindE (get_membership workspace_id user) (\<lambda>caller.
     case caller of
       None \<Rightarrow> raise (HTTPException 403 ''not a member'')
     | Some caller_membership \<Rightarrow>
         let is_self_leave = (uuid_str user_id = user) in
         if \<not> is_self_leave \<and> wm_role caller_membership \<noteq> ADMIN
         then raise (HTTPException 403 ''requires one of: admin'')
         else
           bindE (get_target_membership workspace_id user_id) (\<lambda>target.
           case target of
             None \<Rightarrow> raise (HTTPException 404 ''member not found'')
           | Some m \<Rightarrow>
               bindE (if wm_role m = ADMIN then ensure_admin_mutation_keeps_an_admin workspace_id user_id else ret m) (\<lambda>target.
               modify (memberships_update (filter (\<lambda>m. wm_id m \<noteq> wm_id target)))))))"

section \<open>Concurrency limits and provider budgets\<close>

record concurrency_update =
  lu_max_concurrent_assignments :: "int option"
  lu_max_per_scheduler_tick :: "int option"
  lu_queue_soft_limit :: "int option"
  lu_queue_hard_limit :: "int option"

record limits_out =
  lo_workspace_id :: uuid
  lo_max_concurrent_assignments :: int
  lo_max_per_scheduler_tick :: int
  lo_queue_soft_limit :: int
  lo_queue_hard_limit :: int
  lo_pending_depth :: int
  lo_in_flight :: int
  lo_backpressure_state :: backpressure_state

definition concurrency_view :: "uuid \<Rightarrow> limits_out svc" where
  \<comment> \<open>the body of \<open>get_concurrency\<close>\<close>
  "concurrency_view workspace_id =
     bindE (gets (\<lambda>s. filter (\<lambda>l. wcl_workspace_id l = workspace_id) (limits s))) (\<lambda>rows.
     bindE (liftE (scalar_one_or_none rows)) (\<lambda>limit.
     bindE (gets (\<lambda>s. filter (\<lambda>b. bp_workspace_id b = workspace_id) (bp_states s))) (\<lambda>rows.
     bindE (liftE (scalar_one_or_none rows)) (\<lambda>bp.
     bindE (pending_depth workspace_id) (\<lambda>depth.
     gets (\<lambda>s. \<lparr>lo_workspace_id = workspace_id,
       lo_max_concurrent_assignments = (case limit of None \<Rightarrow> 10 | Some l \<Rightarrow> wcl_max_concurrent_assignments l),
       lo_max_per_scheduler_tick = (case limit of None \<Rightarrow> 5 | Some l \<Rightarrow> wcl_max_per_scheduler_tick l),
       lo_queue_soft_limit = (case limit of None \<Rightarrow> 50 | Some l \<Rightarrow> wcl_queue_soft_limit l),
       lo_queue_hard_limit = (case limit of None \<Rightarrow> 200 | Some l \<Rightarrow> wcl_queue_hard_limit l),
       lo_pending_depth = depth,
       lo_in_flight = int (length (filter (\<lambda>a. asg_workspace_id a = workspace_id
         \<and> asg_status a \<in> {AsgDispatched, AsgAcknowledged}) (assignments s))),
       lo_backpressure_state = (case bp of None \<Rightarrow> BpNormal | Some b \<Rightarrow> bp_state b)\<rparr>))))))"

definition get_concurrency :: "string \<Rightarrow> uuid \<Rightarrow> limits_out endpoint" where
  "get_concurrency user workspace_id =
     transaction (bindE (require_workspace_member workspace_id user) (\<lambda>_. in_db (concurrency_view workspace_id)))"

definition at_least_one :: "int option \<Rightarrow> bool" where
  "at_least_one x = (case x of None \<Rightarrow> True | Some n \<Rightarrow> 1 \<le> n)"

definition valid_limits :: "concurrency_update \<Rightarrow> bool" where
  "valid_limits p \<longleftrightarrow> at_least_one (lu_max_concurrent_assignments p) \<and> at_least_one (lu_max_per_scheduler_tick p)
     \<and> at_least_one (lu_queue_soft_limit p) \<and> at_least_one (lu_queue_hard_limit p)"

definition or_default :: "'a option \<Rightarrow> 'a \<Rightarrow> 'a" where
  "or_default x d = (case x of None \<Rightarrow> d | Some v \<Rightarrow> v)"

definition limits_order :: py_error where
  "limits_order = HTTPException 422 ''queue_hard_limit must be >= queue_soft_limit''"

definition store_limits :: "uuid \<Rightarrow> concurrency_update \<Rightarrow> unit svc" where
  \<comment> \<open>the body of \<open>put_concurrency\<close> up to its flush\<close>
  "store_limits workspace_id p =
     bindE (gets (\<lambda>s. filter (\<lambda>l. wcl_workspace_id l = workspace_id) (limits s))) (\<lambda>rows.
     bindE (liftE (scalar_one_or_none rows)) (\<lambda>limit.
     case limit of
       None \<Rightarrow>
         let soft = or_default (lu_queue_soft_limit p) 50; hard = or_default (lu_queue_hard_limit p) 200 in
         if hard < soft then raise limits_order
         else
           bindE uuid4 (\<lambda>_.
           modify (limits_update (\<lambda>ls. ls @ [\<lparr>wcl_workspace_id = workspace_id,
             wcl_max_concurrent_assignments = or_default (lu_max_concurrent_assignments p) 10,
             wcl_max_per_scheduler_tick = or_default (lu_max_per_scheduler_tick p) 5,
             wcl_queue_soft_limit = soft, wcl_queue_hard_limit = hard\<rparr>])))
     | Some l \<Rightarrow>
         let soft = or_default (lu_queue_soft_limit p) (wcl_queue_soft_limit l);
             hard = or_default (lu_queue_hard_limit p) (wcl_queue_hard_limit l) in
         bindE (modify (limits_update (upd_row wcl_workspace_id workspace_id (\<lambda>l. l\<lparr>
           wcl_max_concurrent_assignments := or_default (lu_max_concurrent_assignments p) (wcl_max_concurrent_assignments l),
           wcl_max_per_scheduler_tick := or_default (lu_max_per_scheduler_tick p) (wcl_max_per_scheduler_tick l),
           wcl_queue_soft_limit := soft, wcl_queue_hard_limit := hard\<rparr>)))) (\<lambda>_.
         if hard < soft then raise limits_order else ret ())))"

definition put_concurrency :: "string \<Rightarrow> uuid \<Rightarrow> concurrency_update \<Rightarrow> limits_out endpoint" where
  "put_concurrency user workspace_id p =
     transaction (bindE (require_workspace_admin workspace_id user) (\<lambda>_.
       validated (valid_limits p)
         (if (case (lu_queue_soft_limit p, lu_queue_hard_limit p) of (Some soft, Some hard) \<Rightarrow> hard < soft | _ \<Rightarrow> False)
          then raise limits_order
          else
            bindE (in_db (store_limits workspace_id p)) (\<lambda>_.
            in_db (concurrency_view workspace_id)))))"

definition is_budget :: "uuid \<Rightarrow> string \<Rightarrow> provider_concurrency_budget \<Rightarrow> bool" where
  "is_budget workspace_id provider b \<longleftrightarrow> pcb_workspace_id b = workspace_id \<and> pcb_provider b = provider"

definition list_provider_budgets :: "string \<Rightarrow> uuid \<Rightarrow> provider_concurrency_budget list endpoint" where
  "list_provider_budgets user workspace_id =
     transaction (bindE (require_workspace_member workspace_id user) (\<lambda>_.
       gets (\<lambda>s. sort_key pcb_provider (filter (\<lambda>b. pcb_workspace_id b = workspace_id) (budgets (db s))))))"

definition upsert_provider_budget :: "string \<Rightarrow> uuid \<Rightarrow> string \<Rightarrow> int \<Rightarrow> unit endpoint" where
  "upsert_provider_budget user workspace_id provider max_concurrent =
     transaction (bindE (require_workspace_admin workspace_id user) (\<lambda>_.
       validated (1 \<le> max_concurrent)
         (bindE (gets (\<lambda>s. filter (is_budget workspace_id provider) (budgets (db s)))) (\<lambda>rows.
          bindE (liftE (scalar_one_or_none rows)) (\<lambda>existing.
          case existing of
            None \<Rightarrow>
              bindE (in_db uuid4) (\<lambda>_.
              in_db (modify (budgets_update (\<lambda>bs. bs @ [\<lparr>pcb_workspace_id = workspace_id, pcb_provider = provider,
                pcb_max_concurrent = max_concurrent\<rparr>]))))
          | Some _ \<Rightarrow>
              in_db (modify (budgets_update (map (\<lambda>b. if is_budget workspace_id provider b
                then b\<lparr>pcb_max_concurrent := max_concurrent\<rparr> else b)))))))))"

definition delete_provider_budget :: "string \<Rightarrow> uuid \<Rightarrow> string \<Rightarrow> unit endpoint" where
  "delete_provider_budget user workspace_id provider =
     transaction (bindE (require_workspace_admin workspace_id user) (\<lambda>_.
       bindE (gets (\<lambda>s. filter (is_budget workspace_id provider) (budgets (db s)))) (\<lambda>rows.
       bindE (liftE (scalar_one_or_none rows)) (\<lambda>existing.
       if existing = None then raise (HTTPException 404 ''provider budget not found'')
       else in_db (modify (budgets_update (filter (\<lambda>b. \<not> is_budget workspace_id provider b))))))))"

section \<open>What a request changes\<close>

definition is_admin :: "api \<Rightarrow> uuid \<Rightarrow> string \<Rightarrow> bool" where
  "is_admin s workspace_id user \<longleftrightarrow> (\<exists>m\<in>set (memberships s). wm_workspace_id m = workspace_id
     \<and> wm_role m = ADMIN \<and> uuid_of_str user = Inr (wm_user_id m))"

lemma transactionE:
  assumes "state_after (transaction m) s = t" and "t \<noteq> s"
  obtains x where "m s = (t, Inr x)"
  using assms by (cases "m s"; cases "snd (m s)") (auto simp: transaction_def savepoint_def)

lemma admin_guard: "require_workspace_admin ws u s = (t, Inr m) \<Longrightarrow> t = s \<and> is_admin s ws u"
  unfolding require_workspace_admin_def using role_guard_outcome [of "[ADMIN]" ws u s t "Inr m"]
  by (auto simp: is_admin_def)

lemma validated_ok: "validated ok m s = (t, Inr x) \<Longrightarrow> ok \<and> m s = (t, Inr x)"
  by (simp add: validated_def split: if_splits)

lemma admin_request:
  assumes "bindE (require_workspace_admin ws u) f s = (t, Inr x)"
  shows "is_admin s ws u \<and> (\<exists>m. f m s = (t, Inr x))"
  using assms by (elim bindE_eq_InrD) (metis admin_guard)

lemma scalar_one_InrD: "scalar_one_or_none rows = Inr r \<Longrightarrow> rows = (case r of None \<Rightarrow> [] | Some x \<Rightarrow> [x])"
  by (cases rows rule: list.exhaust; cases "tl rows") (auto simp: scalar_one_or_none_def)

lemma target_rows:
  "get_target_membership ws k s = (t, Inr r) \<Longrightarrow>
    t = s \<and> filter (\<lambda>m. wm_workspace_id m = ws \<and> wm_user_id m = k) (memberships s) = (case r of None \<Rightarrow> [] | Some m \<Rightarrow> [m])"
  by (auto simp: get_target_membership_def dest: scalar_one_InrD)

lemma target_row:
  "filter (\<lambda>m. wm_workspace_id m = ws \<and> wm_user_id m = k) (memberships s) = [m] \<Longrightarrow>
    m \<in> set (memberships s) \<and> wm_workspace_id m = ws \<and> wm_user_id m = k"
  by (drule arg_cong [of _ _ set]) auto

lemma keeps_an_admin:
  "ensure_admin_mutation_keeps_an_admin ws k s = (t, Inr m) \<Longrightarrow>
    t = s \<and> filter (\<lambda>m. wm_workspace_id m = ws \<and> wm_user_id m = k) (memberships s) = [m]
    \<and> (wm_role m = ADMIN \<longrightarrow> 1 < length (admins s ws))"
  unfolding ensure_admin_mutation_keeps_an_admin_def locked_admin_count_def
  by (auto elim!: bindE_eq_InrD dest!: target_rows split: option.splits if_splits)

lemma invite_member_outcome:
  assumes "state_after (invite_member u ws k role) s = t" and "t \<noteq> s"
  shows "is_admin s ws u \<and> \<not> (\<exists>m\<in>set (memberships s). wm_workspace_id m = ws \<and> wm_user_id m = k)
    \<and> t = s\<lparr>db := db s\<lparr>next_uuid := Suc (next_uuid (db s))\<rparr>,
        memberships := memberships s @ [\<lparr>wm_id = next_uuid (db s), wm_workspace_id = ws, wm_user_id = k, wm_role = role\<rparr>]\<rparr>"
  using assms unfolding invite_member_def
  by - (erule (1) transactionE, drule admin_request, elim conjE exE,
    auto elim!: bindE_eq_InrD dest!: target_rows simp: add_membership_def Let_def split: if_splits)

lemma update_member_role_outcome:
  assumes "state_after (update_member_role u ws k role) s = t" and "t \<noteq> s"
  shows "is_admin s ws u \<and> (\<exists>m. filter (\<lambda>m. wm_workspace_id m = ws \<and> wm_user_id m = k) (memberships s) = [m]
    \<and> (wm_role m = ADMIN \<and> role \<noteq> ADMIN \<longrightarrow> 1 < length (admins s ws))
    \<and> t = s\<lparr>memberships := upd_row wm_id (wm_id m) (\<lambda>m. m\<lparr>wm_role := role\<rparr>) (memberships s)\<rparr>)"
  using assms unfolding update_member_role_def
  by - (erule (1) transactionE, drule admin_request, elim conjE exE,
    auto elim!: bindE_eq_InrD dest!: target_rows keeps_an_admin split: option.splits if_splits)

lemma get_membership_row:
  assumes "get_membership ws u s = (t, Inr (Some m))"
  shows "t = s \<and> m \<in> set (memberships s) \<and> wm_workspace_id m = ws \<and> uuid_of_str u = Inr (wm_user_id m)"
proof -
  from assms obtain k where k: "uuid_of_str u = Inr k" "t = s"
    "filter (\<lambda>m. wm_workspace_id m = ws \<and> wm_user_id m = k) (memberships s) = [m]"
    unfolding get_membership_def by (auto split: sum.splits dest!: scalar_one_InrD)
  with target_row [OF k(3)] show ?thesis by simp
qed

lemma remove_member_outcome:
  assumes "state_after (remove_member u ws k) s = t" and "t \<noteq> s"
  shows "\<exists>m c. filter (\<lambda>m. wm_workspace_id m = ws \<and> wm_user_id m = k) (memberships s) = [m]
    \<and> (wm_role m = ADMIN \<longrightarrow> 1 < length (admins s ws))
    \<and> c \<in> set (memberships s) \<and> wm_workspace_id c = ws \<and> uuid_of_str u = Inr (wm_user_id c)
    \<and> (uuid_str k = u \<or> wm_role c = ADMIN)
    \<and> t = s\<lparr>memberships := filter (\<lambda>x. wm_id x \<noteq> wm_id m) (memberships s)\<rparr>"
  using assms unfolding remove_member_def Let_def
  by - (erule (1) transactionE,
    auto elim!: bindE_eq_InrD dest!: get_membership_row target_rows keeps_an_admin split: option.splits if_splits, blast+)

text \<open>Requests on the tables of the session.\<close>

lemma default_cap_rows:
  "get_workspace_spend_cap ws s = (t, Inr r) \<Longrightarrow>
    t = s \<and> filter (is_default_cap ws) (caps s) = (case r of None \<Rightarrow> [] | Some c \<Rightarrow> [c])"
  by (auto simp: get_workspace_spend_cap_def dest: scalar_one_InrD)

definition seeded_cap :: "uuid \<Rightarrow> uuid \<Rightarrow> usd option \<Rightarrow> usd option \<Rightarrow> session \<Rightarrow> spend_cap" where
  "seeded_cap ws actor daily monthly s = \<lparr>cap_id = next_uuid s, cap_workspace_id = ws, cap_provider = None,
     cap_daily_cap_usd = numeric4 (case daily of Some d \<Rightarrow> d | None \<Rightarrow> default_daily_spend_cap_usd (get_settings s)),
     cap_monthly_cap_usd = numeric4 (case monthly of Some m \<Rightarrow> m | None \<Rightarrow> default_monthly_spend_cap_usd (get_settings s)),
     cap_created_by = Some actor, cap_updated_by = Some actor\<rparr>"

lemma seeded_cap_sel [simp]:
  "cap_id (seeded_cap ws a d m s) = next_uuid s" "cap_workspace_id (seeded_cap ws a d m s) = ws"
  "cap_provider (seeded_cap ws a d m s) = None"
  by (simp_all add: seeded_cap_def)

lemma ensure_existing:
  "filter (is_default_cap ws) (caps s) = [c] \<Longrightarrow> ensure_default_spend_cap rivals ws a d m s = (s, Inr c)"
  by (simp add: ensure_default_spend_cap_def get_workspace_spend_cap_def)

lemma ensure_seeds:
  assumes "\<And>c. c \<in> set (caps s) \<Longrightarrow> cap_workspace_id c \<noteq> ws"
  shows "ensure_default_spend_cap [] ws a d m s =
    (s\<lparr>next_uuid := Suc (next_uuid s), caps := caps s @ [seeded_cap ws a d m s]\<rparr>, Inr (seeded_cap ws a d m s))"
proof -
  have "filter (is_default_cap ws) (caps s) = []" using assms by (auto simp: filter_empty_conv is_default_cap_def)
  then show ?thesis
    using assms by (auto simp: ensure_default_spend_cap_def get_workspace_spend_cap_def insert_cap_def savepoint_def
        try_except_def bindE_def seeded_cap_def Let_def)
qed

lemma ensure_seeds_first:
  "caps s = [] \<Longrightarrow> ensure_default_spend_cap [] ws a d m s =
    (s\<lparr>next_uuid := Suc (next_uuid s), caps := [seeded_cap ws a d m s]\<rparr>, Inr (seeded_cap ws a d m s))"
  using ensure_seeds [of s ws a d m] by simp

definition capped_at :: "uuid \<Rightarrow> usd option \<Rightarrow> usd option \<Rightarrow> spend_cap \<Rightarrow> spend_cap" where
  "capped_at actor daily monthly c = c\<lparr>
     cap_daily_cap_usd := (case daily of Some d \<Rightarrow> numeric4 d | None \<Rightarrow> cap_daily_cap_usd c),
     cap_monthly_cap_usd := (case monthly of Some m \<Rightarrow> numeric4 m | None \<Rightarrow> cap_monthly_cap_usd c),
     cap_updated_by := Some actor\<rparr>"

lemma capped_at_sel [simp]:
  "cap_id (capped_at a d m c) = cap_id c" "cap_workspace_id (capped_at a d m c) = cap_workspace_id c"
  "cap_provider (capped_at a d m c) = cap_provider c"
  by (simp_all add: capped_at_def)

lemma update_cap_existing:
  "filter (is_default_cap ws) (caps s) = [c] \<Longrightarrow>
    update_workspace_spend_cap ws a d m s = (s\<lparr>caps := upd_row cap_id (cap_id c) (capped_at a d m) (caps s)\<rparr>, Inr (cap_id c))"
  by (simp add: update_workspace_spend_cap_def bindE_Inr [where m = "ensure_default_spend_cap [] ws a None None", OF ensure_existing]
      capped_at_def [abs_def])

lemma snapshot_state: "state_after (spend_snapshot ws) s = s"
  by (cases "filter (is_default_cap ws) (caps s)" rule: list.exhaust;
      cases "tl (filter (is_default_cap ws) (caps s))")
    (auto simp: spend_snapshot_def get_workspace_spend_cap_def scalar_one_or_none_def split: list.splits)

lemma update_spend_outcome:
  assumes "state_after (update_spend u ws p) s = t" and "t \<noteq> s"
    and "filter (is_default_cap ws) (caps (db s)) = [c]"
  shows "is_admin s ws u \<and> (\<exists>a. t = s\<lparr>db := db s\<lparr>caps := upd_row cap_id (cap_id c)
    (capped_at a (su_daily_cap_usd p) (su_monthly_cap_usd p)) (caps (db s))\<rparr>\<rparr>)"
  using assms(1,2) unfolding update_spend_def
  by - (erule (1) transactionE, drule admin_request, elim conjE exE,
    auto dest!: validated_ok simp: update_cap_existing [OF assms(3)] snapshot_state split: if_splits sum.splits)

lemma update_workspace_outcome:
  assumes "state_after (update_workspace u ws name tier) s = t" and "t \<noteq> s"
  shows "is_admin s ws u \<and> (\<exists>f. t = s\<lparr>db := db s\<lparr>workspaces := upd_row ws_id ws f (workspaces (db s))\<rparr>\<rparr>
    \<and> (\<forall>w. ws_id (f w) = ws_id w))"
  using assms unfolding update_workspace_def
  by - (erule (1) transactionE, drule admin_request, elim conjE exE,
    auto dest!: validated_ok simp: comp_def split: if_splits option.splits
      intro!: exI [of _ "\<lambda>w. w\<lparr>ws_name := case_option (ws_name w) (\<lambda>n. n) name,
        ws_priority_tier := case_option (ws_priority_tier w) (\<lambda>p. p) tier\<rparr>"])

lemma concurrency_view_state: "state_after (concurrency_view ws) s = s"
  by (auto simp: concurrency_view_def pending_depth_def split: sum.split)

lemma put_concurrency_outcome:
  assumes "state_after (put_concurrency u ws p) s = t" and "t \<noteq> s"
  shows "is_admin s ws u \<and> (\<exists>r. store_limits ws p (db s) = (db t, Inr r)) \<and> t = s\<lparr>db := db t\<rparr>"
proof -
  from assms have adm: "is_admin s ws u \<and> (\<exists>x. bindE (in_db (store_limits ws p)) (\<lambda>_. in_db (concurrency_view ws)) s = (t, Inr x))"
    unfolding put_concurrency_def
    by - (erule (1) transactionE, drule admin_request, elim conjE exE, drule validated_ok, auto simp del: bindE_in_db split: if_splits)
  then obtain d r where d: "store_limits ws p (db s) = (d, Inr r)" "t = s\<lparr>db := d\<rparr>"
    by (cases "store_limits ws p (db s)") (auto simp: concurrency_view_state split: sum.splits)
  then show ?thesis using adm by simp
qed

lemma store_limits_outcome:
  assumes "store_limits ws p s = (t, Inr r)" and "\<forall>l\<in>set (limits s). wcl_queue_soft_limit l \<le> wcl_queue_hard_limit l"
  shows "\<exists>ls. t = s\<lparr>next_uuid := next_uuid t, limits := ls\<rparr> \<and> next_uuid s \<le> next_uuid t
      \<and> (\<forall>l\<in>set ls. wcl_queue_soft_limit l \<le> wcl_queue_hard_limit l)
      \<and> (\<forall>w. w \<noteq> ws \<longrightarrow> filter (\<lambda>l. wcl_workspace_id l = w) ls = filter (\<lambda>l. wcl_workspace_id l = w) (limits s))"
proof -
  define rows where "rows = filter (\<lambda>l. wcl_workspace_id l = ws) (limits s)"
  have same: "filter (\<lambda>l. wcl_workspace_id l = w) (upd_row wcl_workspace_id ws f xs) = filter (\<lambda>l. wcl_workspace_id l = w) xs"
    if "w \<noteq> ws" "\<And>l. wcl_workspace_id (f l) = wcl_workspace_id l" for w f and xs :: "workspace_concurrency_limit list"
    using that by (induction xs) auto
  from assms(1) consider "rows = []" | l where "rows = [l]"
    by (cases rows rule: list.exhaust; cases "tl rows") (auto simp: store_limits_def scalar_one_or_none_def simp flip: rows_def)
  then show ?thesis
  proof cases
    case 1
    define new where "new = \<lparr>wcl_workspace_id = ws,
      wcl_max_concurrent_assignments = or_default (lu_max_concurrent_assignments p) 10,
      wcl_max_per_scheduler_tick = or_default (lu_max_per_scheduler_tick p) 5,
      wcl_queue_soft_limit = or_default (lu_queue_soft_limit p) 50,
      wcl_queue_hard_limit = or_default (lu_queue_hard_limit p) 200\<rparr>"
    from 1 assms(1) have "wcl_queue_soft_limit new \<le> wcl_queue_hard_limit new \<and> wcl_workspace_id new = ws
        \<and> t = limits_update (\<lambda>ls. ls @ [new]) (s\<lparr>next_uuid := Suc (next_uuid s)\<rparr>)"
      by (auto simp: store_limits_def new_def Let_def simp flip: rows_def split: if_splits)
    moreover have "limits_update (\<lambda>ls. ls @ [new]) (s\<lparr>next_uuid := Suc (next_uuid s)\<rparr>)
        = s\<lparr>next_uuid := Suc (next_uuid s), limits := limits s @ [new]\<rparr>" by (cases s) simp
    ultimately show ?thesis using assms(2) by (intro exI [of _ "limits s @ [new]"]) simp
  next
    case (2 l)
    with assms(1) have "t = s\<lparr>next_uuid := next_uuid t, limits := limits t\<rparr>" "next_uuid t = next_uuid s"
      and ls: "\<exists>f. limits t = upd_row wcl_workspace_id ws f (limits s) \<and> (\<forall>l. wcl_workspace_id (f l) = wcl_workspace_id l
        \<and> wcl_queue_soft_limit (f l) \<le> wcl_queue_hard_limit (f l))"
      by (auto simp: store_limits_def Let_def simp flip: rows_def split: if_splits)
    then show ?thesis using same assms(2) by (intro exI [of _ "limits t"]) (auto simp: set_upd_row)
  qed
qed

definition budgets_elsewhere :: "uuid \<Rightarrow> (provider_concurrency_budget list \<Rightarrow> provider_concurrency_budget list) \<Rightarrow> bool" where
  "budgets_elsewhere ws f \<longleftrightarrow> (\<forall>w bs. w \<noteq> ws \<longrightarrow>
     filter (\<lambda>b. pcb_workspace_id b = w) (f bs) = filter (\<lambda>b. pcb_workspace_id b = w) bs)"

lemma budgets_elsewhere_simps:
  "budgets_elsewhere ws (\<lambda>bs. bs @ [\<lparr>pcb_workspace_id = ws, pcb_provider = provider, pcb_max_concurrent = n\<rparr>])"
  "budgets_elsewhere ws (map (\<lambda>b. if is_budget ws provider b then b\<lparr>pcb_max_concurrent := n\<rparr> else b))"
  "budgets_elsewhere ws (filter (\<lambda>b. \<not> is_budget ws provider b))"
proof -
  have "filter (\<lambda>b. pcb_workspace_id b = w) (map (\<lambda>b. if is_budget ws provider b then b\<lparr>pcb_max_concurrent := n\<rparr> else b) bs) =
      filter (\<lambda>b. pcb_workspace_id b = w) bs"
    "filter (\<lambda>b. pcb_workspace_id b = w) (filter (\<lambda>b. \<not> is_budget ws provider b) bs) = filter (\<lambda>b. pcb_workspace_id b = w) bs"
    if "w \<noteq> ws" for w bs using that by (induction bs) (auto simp: is_budget_def)
  then show "budgets_elsewhere ws (\<lambda>bs. bs @ [\<lparr>pcb_workspace_id = ws, pcb_provider = provider, pcb_max_concurrent = n\<rparr>])"
    "budgets_elsewhere ws (map (\<lambda>b. if is_budget ws provider b then b\<lparr>pcb_max_concurrent := n\<rparr> else b))"
    "budgets_elsewhere ws (filter (\<lambda>b. \<not> is_budget ws provider b))"
    by (simp_all add: budgets_elsewhere_def)
qed

lemma upsert_budget_outcome:
  assumes "state_after (upsert_provider_budget u ws provider n) s = t" and "t \<noteq> s"
  shows "is_admin s ws u \<and> (\<exists>k f. t = s\<lparr>db := budgets_update f (db s\<lparr>next_uuid := k\<rparr>)\<rparr>
    \<and> next_uuid (db s) \<le> k \<and> budgets_elsewhere ws f)"
proof -
  let ?add = "\<lambda>bs. bs @ [\<lparr>pcb_workspace_id = ws, pcb_provider = provider, pcb_max_concurrent = n\<rparr>]"
  let ?set = "map (\<lambda>b. if is_budget ws provider b then b\<lparr>pcb_max_concurrent := n\<rparr> else b)"
  from assms have "is_admin s ws u \<and> (t = s\<lparr>db := budgets_update ?add (db s\<lparr>next_uuid := Suc (next_uuid (db s))\<rparr>)\<rparr>
      \<or> t = s\<lparr>db := budgets_update ?set (db s\<lparr>next_uuid := next_uuid (db s)\<rparr>)\<rparr>)"
    unfolding upsert_provider_budget_def
    by - (erule (1) transactionE, drule admin_request, elim conjE exE, drule validated_ok, auto split: sum.splits option.splits)
  then show ?thesis
  proof (elim conjE disjE)
    assume "is_admin s ws u" "t = s\<lparr>db := budgets_update ?add (db s\<lparr>next_uuid := Suc (next_uuid (db s))\<rparr>)\<rparr>"
    then show ?thesis using budgets_elsewhere_simps(1)
      by (intro conjI exI [of _ "Suc (next_uuid (db s))"] exI [of _ ?add]) simp_all
  next
    assume "is_admin s ws u" "t = s\<lparr>db := budgets_update ?set (db s\<lparr>next_uuid := next_uuid (db s)\<rparr>)\<rparr>"
    then show ?thesis using budgets_elsewhere_simps(2)
      by (intro conjI exI [of _ "next_uuid (db s)"] exI [of _ ?set]) simp_all
  qed
qed

lemma delete_budget_outcome:
  assumes "state_after (delete_provider_budget u ws provider) s = t" and "t \<noteq> s"
  shows "is_admin s ws u \<and> (\<exists>k f. t = s\<lparr>db := budgets_update f (db s\<lparr>next_uuid := k\<rparr>)\<rparr>
    \<and> next_uuid (db s) \<le> k \<and> budgets_elsewhere ws f)"
proof -
  from assms have "is_admin s ws u
      \<and> t = s\<lparr>db := budgets_update (filter (\<lambda>b. \<not> is_budget ws provider b)) (db s\<lparr>next_uuid := next_uuid (db s)\<rparr>)\<rparr>"
    unfolding delete_provider_budget_def
    by - (erule (1) transactionE, drule admin_request, elim conjE exE, auto split: sum.splits if_splits)
  then show ?thesis using budgets_elsewhere_simps(3)
    by (intro conjI exI [of _ "next_uuid (db s)"] exI [of _ "filter (\<lambda>b. \<not> is_budget ws provider b)"]) simp_all
qed

lemma create_workspace_outcome:
  assumes "state_after (create_workspace u name) s = t" and "t \<noteq> s"
    and "\<And>m. m \<in> set (memberships s) \<Longrightarrow> wm_workspace_id m < next_uuid (db s)"
    and "\<And>c. c \<in> set (caps (db s)) \<Longrightarrow> cap_workspace_id c < next_uuid (db s)"
  defines "ws \<equiv> next_uuid (db s)"
  shows "\<exists>uid w c. uuid_of_str u = Inr uid \<and> ws_id w = ws \<and> is_default_cap ws c \<and> cap_id c = ws + 2
    \<and> t = s\<lparr>db := db s\<lparr>next_uuid := ws + 3, workspaces := workspaces (db s) @ [w], caps := caps (db s) @ [c]\<rparr>,
        memberships := memberships s @ [\<lparr>wm_id = ws + 1, wm_workspace_id = ws, wm_user_id = uid, wm_role = ADMIN\<rparr>]\<rparr>"
proof -
  have fresh: "\<not> (\<exists>m\<in>set (memberships s). wm_workspace_id m = ws \<and> wm_user_id m = uid)" for uid
    using assms(3) unfolding ws_def by (metis less_irrefl)
  let ?w = "\<lambda>uid. \<lparr>ws_id = ws, ws_name = name, ws_created_by = uid, ws_created_at = clock (db s), ws_priority_tier = 0\<rparr>"
  define d where "d uid = workspaces_update (\<lambda>w. w @ [?w uid]) (db s)\<lparr>next_uuid := Suc (Suc ws)\<rparr>" for uid
  have put: "workspaces_update f e = e\<lparr>workspaces := f (workspaces e)\<rparr>" for f and e :: session by (cases e) simp
  have put': "memberships_update f e = e\<lparr>memberships := f (memberships e)\<rparr>" for f and e :: api by (cases e) simp
  have "\<And>c. c \<in> set (caps (d uid)) \<Longrightarrow> cap_workspace_id c \<noteq> ws" for uid
    using assms(4) unfolding d_def ws_def by fastforce
  note seeds = ensure_seeds [of "d uid" ws uid None None for uid, OF this]
  from assms(1,2) obtain x where run: "bindE (liftE (uuid_of_str u)) (\<lambda>uid.
        bindE (in_db uuid4) (\<lambda>ws.
        bindE (in_db utcnow) (\<lambda>now.
        bindE (in_db (modify (workspaces_update (\<lambda>w. w @ [\<lparr>ws_id = ws, ws_name = name, ws_created_by = uid,
          ws_created_at = now, ws_priority_tier = 0\<rparr>])))) (\<lambda>_.
        bindE (add_membership ws uid ADMIN) (\<lambda>_.
        bindE (in_db (ensure_default_spend_cap [] ws uid None None)) (\<lambda>_. ret ws)))))) s = (t, Inr x)"
    unfolding create_workspace_def by - (erule (1) transactionE, drule validated_ok, blast)
  then obtain uid where u: "uuid_of_str u = Inr uid" by (cases "uuid_of_str u") simp_all
  let ?m = "\<lparr>wm_id = ws + 1, wm_workspace_id = ws, wm_user_id = uid, wm_role = ADMIN\<rparr>"
  let ?c = "seeded_cap ws uid None None (d uid)"
  from run u have "t = memberships_update (\<lambda>ms. ms @ [?m]) s\<lparr>db := d uid\<lparr>next_uuid := Suc (next_uuid (d uid)), caps := caps (d uid) @ [?c]\<rparr>\<rparr>"
    by (auto simp: add_membership_def fresh Let_def seeds d_def [symmetric] simp flip: ws_def)
  also have "\<dots> = s\<lparr>db := db s\<lparr>next_uuid := ws + 3, workspaces := workspaces (db s) @ [?w uid], caps := caps (db s) @ [?c]\<rparr>,
        memberships := memberships s @ [?m]\<rparr>"
    unfolding put' [of "\<lambda>ms. ms @ [?m]"] by (simp add: d_def put [of "\<lambda>w. w @ [?w uid]"])
  finally show ?thesis using u
    by (intro exI [of _ uid] exI [of _ "?w uid"] exI [of _ ?c]) (simp add: is_default_cap_def d_def)
qed

section \<open>Histories of administration\<close>

inductive admin_step :: "string \<Rightarrow> api \<Rightarrow> api \<Rightarrow> bool" where
  a_create: "admin_step user s (state_after (create_workspace user name) s)"
| a_rename: "admin_step user s (state_after (update_workspace user ws new_name tier) s)"
| a_invite: "admin_step user s (state_after (invite_member user ws k role) s)"
| a_role: "admin_step user s (state_after (update_member_role user ws k role) s)"
| a_remove: "k < 2 ^ 128 \<Longrightarrow> admin_step user s (state_after (remove_member user ws k) s)"
| a_limits: "admin_step user s (state_after (put_concurrency user ws p) s)"
| a_budget: "admin_step user s (state_after (upsert_provider_budget user ws provider n) s)"
| a_unbudget: "admin_step user s (state_after (delete_provider_budget user ws provider) s)"
| a_spend: "admin_step user s (state_after (update_spend user ws q) s)"

definition exists_ws :: "api \<Rightarrow> uuid \<Rightarrow> bool" where
  "exists_ws s w \<longleftrightarrow> w \<in> ws_id ` set (workspaces (db s))"

definition keyed_tables :: "api \<Rightarrow> bool" where
  \<comment> \<open>primary and foreign keys: drawn before, and primary keys distinct\<close>
  "keyed_tables s \<longleftrightarrow> distinct (map wm_id (memberships s)) \<and> distinct (map cap_id (caps (db s)))
     \<and> (\<forall>m\<in>set (memberships s). wm_id m < next_uuid (db s) \<and> wm_workspace_id m < next_uuid (db s))
     \<and> (\<forall>c\<in>set (caps (db s)). cap_id c < next_uuid (db s) \<and> cap_workspace_id c < next_uuid (db s))
     \<and> (\<forall>w\<in>set (workspaces (db s)). ws_id w < next_uuid (db s))"

definition one_cap_each :: "api \<Rightarrow> bool" where
  "one_cap_each s \<longleftrightarrow> (\<forall>m\<in>set (memberships s). exists_ws s (wm_workspace_id m))
     \<and> (\<forall>w. exists_ws s w \<longrightarrow> length (filter (is_default_cap w) (caps (db s))) = 1)"

definition limits_ordered :: "api \<Rightarrow> bool" where
  "limits_ordered s \<longleftrightarrow> (\<forall>l\<in>set (limits (db s)). wcl_queue_soft_limit l \<le> wcl_queue_hard_limit l)"

definition administered :: "api \<Rightarrow> bool" where
  "administered s \<longleftrightarrow> (\<forall>w. exists_ws s w \<longrightarrow> admins s w \<noteq> [])"

definition orderly :: "api \<Rightarrow> bool" where
  "orderly s \<longleftrightarrow> keyed_tables s \<and> one_cap_each s \<and> limits_ordered s \<and> administered s"

definition workspace_view :: "uuid \<Rightarrow> api
    \<Rightarrow> workspace_membership list \<times> spend_cap list \<times> workspace_concurrency_limit list \<times> provider_concurrency_budget list \<times> workspace list" where
  "workspace_view w s = (filter (\<lambda>m. wm_workspace_id m = w) (memberships s),
     filter (\<lambda>c. cap_workspace_id c = w) (caps (db s)), filter (\<lambda>l. wcl_workspace_id l = w) (limits (db s)),
     filter (\<lambda>b. pcb_workspace_id b = w) (budgets (db s)), filter (\<lambda>x. ws_id x = w) (workspaces (db s)))"

lemma admin_exists: "one_cap_each s \<Longrightarrow> is_admin s ws u \<Longrightarrow> exists_ws s ws"
  by (auto simp: one_cap_each_def is_admin_def)

lemma one_cap:
  assumes "one_cap_each s" and "exists_ws s ws"
  obtains c where "filter (is_default_cap ws) (caps (db s)) = [c]"
proof -
  from assms have "length (filter (is_default_cap ws) (caps (db s))) = 1" by (simp add: one_cap_each_def)
  then show ?thesis using that by (auto simp: length_Suc_conv)
qed

lemma another_admin:
  assumes "keyed_tables s" and "1 < length (admins s ws)"
  shows "\<exists>a\<in>set (admins s ws). wm_id a \<noteq> k"
proof -
  from assms(1) have d: "distinct (map wm_id (admins s ws))"
    unfolding keyed_tables_def admins_def by (blast intro: distinct_map_filter)
  from assms(2) obtain a b as where "admins s ws = a # b # as"
    by (cases "admins s ws" rule: list.exhaust; cases "tl (admins s ws)") auto
  with d show ?thesis by (cases "wm_id a = k") auto
qed

lemma orderly_tables:
  assumes "orderly s" and "memberships t = memberships s" and "caps (db t) = caps (db s)"
    and "map ws_id (workspaces (db t)) = map ws_id (workspaces (db s))" and "limits_ordered t"
    and "next_uuid (db s) \<le> next_uuid (db t)"
  shows "orderly t"
proof -
  have ids: "ws_id ` set (workspaces (db t)) = ws_id ` set (workspaces (db s))"
    using arg_cong [OF assms(4), of set] by simp
  then have e: "exists_ws t = exists_ws s" by (simp add: exists_ws_def fun_eq_iff)
  have "ws_id w < next_uuid (db t)" if "w \<in> set (workspaces (db t))" for w
  proof -
    from that ids obtain v where "v \<in> set (workspaces (db s))" "ws_id w = ws_id v" by (metis imageE imageI)
    with assms(1,6) show ?thesis unfolding orderly_def keyed_tables_def by (metis less_le_trans)
  qed
  then have "keyed_tables t" using assms(1,2,3,6) by (auto simp: orderly_def keyed_tables_def intro: less_le_trans)
  moreover have "one_cap_each t" using assms(1-3) e by (simp add: orderly_def one_cap_each_def)
  moreover have "administered t" using assms(1,2) e by (simp add: orderly_def administered_def admins_def)
  ultimately show ?thesis using assms(5) by (simp add: orderly_def)
qed

lemma same_row:
  "keyed_tables s \<Longrightarrow> a \<in> set (memberships s) \<Longrightarrow> m \<in> set (memberships s) \<Longrightarrow> wm_id a = wm_id m \<Longrightarrow> a = m"
  unfolding keyed_tables_def distinct_map by (blast dest: inj_onD)

lemma orderly_memberships:
  assumes "orderly s" and "keyed_tables (s\<lparr>memberships := ms\<rparr>)"
    and "\<And>m. m \<in> set ms \<Longrightarrow> \<exists>n\<in>set (memberships s). wm_workspace_id m = wm_workspace_id n"
    and "\<And>w. exists_ws s w \<Longrightarrow> \<exists>a\<in>set ms. wm_workspace_id a = w \<and> wm_role a = ADMIN"
  shows "orderly (s\<lparr>memberships := ms\<rparr>)"
proof -
  have e: "exists_ws (s\<lparr>memberships := ms\<rparr>) = exists_ws s" by (simp add: exists_ws_def fun_eq_iff)
  have "administered (s\<lparr>memberships := ms\<rparr>)" using assms(4) by (auto simp: administered_def admins_def e filter_empty_conv)
  moreover have "one_cap_each (s\<lparr>memberships := ms\<rparr>)"
    using assms(1,3) unfolding orderly_def one_cap_each_def e by (metis api.select_convs(1) api.surjective api.update_convs(5) api.select_convs(5))
  ultimately show ?thesis using assms(1,2) by (simp add: orderly_def limits_ordered_def)
qed

lemma keeps_other_admin:
  assumes "orderly s" and "exists_ws s w" and "m \<in> set (memberships s)"
    and "wm_workspace_id m = w \<and> wm_role m = ADMIN \<longrightarrow> 1 < length (admins s w)"
  shows "\<exists>a\<in>set (memberships s). wm_workspace_id a = w \<and> wm_role a = ADMIN \<and> wm_id a \<noteq> wm_id m"
proof -
  from assms(1) have keyed: "keyed_tables s" by (simp add: orderly_def)
  show ?thesis
  proof (cases "wm_workspace_id m = w \<and> wm_role m = ADMIN")
    case True
    with assms(4) another_admin [OF keyed, of w "wm_id m"] show ?thesis by (auto simp: admins_def)
  next
    case False
    from assms(1,2) obtain a where a: "a \<in> set (memberships s)" "wm_workspace_id a = w" "wm_role a = ADMIN"
      by (auto simp: orderly_def administered_def admins_def filter_empty_conv)
    with False same_row [OF keyed a(1) assms(3)] show ?thesis by auto
  qed
qed

lemma orderly_role:
  assumes "orderly s" and "state_after (update_member_role u ws k role) s = t"
  shows "orderly t"
proof (cases "t = s")
  case False
  from update_member_role_outcome [OF assms(2) False] obtain m where
    m: "filter (\<lambda>m. wm_workspace_id m = ws \<and> wm_user_id m = k) (memberships s) = [m]"
      "wm_role m = ADMIN \<and> role \<noteq> ADMIN \<longrightarrow> 1 < length (admins s ws)"
    and t: "t = s\<lparr>memberships := upd_row wm_id (wm_id m) (\<lambda>m. m\<lparr>wm_role := role\<rparr>) (memberships s)\<rparr>" by blast
  have row: "m \<in> set (memberships s)" "wm_workspace_id m = ws" using target_row [OF m(1)] by simp_all
  have "\<exists>a\<in>set (upd_row wm_id (wm_id m) (\<lambda>m. m\<lparr>wm_role := role\<rparr>) (memberships s)). wm_workspace_id a = w \<and> wm_role a = ADMIN"
    if w: "exists_ws s w" for w
  proof (cases "role = ADMIN")
    case True
    from assms(1) w obtain a where "a \<in> set (memberships s)" "wm_workspace_id a = w" "wm_role a = ADMIN"
      by (auto simp: orderly_def administered_def admins_def filter_empty_conv)
    then show ?thesis unfolding set_upd_row by (intro bexI [OF _ imageI [of a]]) (auto simp: True)
  next
    case False
    with keeps_other_admin [OF assms(1) w row(1)] m(2) row(2) obtain a where
      "a \<in> set (memberships s)" "wm_workspace_id a = w" "wm_role a = ADMIN" "wm_id a \<noteq> wm_id m" by blast
    then show ?thesis unfolding set_upd_row by (intro bexI [OF _ imageI [of a]]) auto
  qed
  moreover have "keyed_tables (s\<lparr>memberships := upd_row wm_id (wm_id m) (\<lambda>m. m\<lparr>wm_role := role\<rparr>) (memberships s)\<rparr>)"
    using assms(1) by (auto simp: orderly_def keyed_tables_def map_key_upd_row set_upd_row)
  ultimately show ?thesis unfolding t
    by (intro orderly_memberships [OF assms(1)]) (auto simp: set_upd_row)
qed (use assms(1) in simp)

lemma orderly_remove:
  assumes "orderly s" and "state_after (remove_member u ws k) s = t"
  shows "orderly t"
proof (cases "t = s")
  case False
  from remove_member_outcome [OF assms(2) False] obtain m where
    m: "filter (\<lambda>m. wm_workspace_id m = ws \<and> wm_user_id m = k) (memberships s) = [m]"
      "wm_role m = ADMIN \<longrightarrow> 1 < length (admins s ws)"
    and t: "t = s\<lparr>memberships := filter (\<lambda>x. wm_id x \<noteq> wm_id m) (memberships s)\<rparr>" by blast
  have row: "m \<in> set (memberships s)" "wm_workspace_id m = ws" using target_row [OF m(1)] by simp_all
  have "\<exists>a\<in>set (filter (\<lambda>x. wm_id x \<noteq> wm_id m) (memberships s)). wm_workspace_id a = w \<and> wm_role a = ADMIN"
    if w: "exists_ws s w" for w
    using keeps_other_admin [OF assms(1) w row(1)] m(2) row(2) by auto
  moreover have "keyed_tables (s\<lparr>memberships := filter (\<lambda>x. wm_id x \<noteq> wm_id m) (memberships s)\<rparr>)"
    using assms(1) by (auto simp: orderly_def keyed_tables_def distinct_map_filter)
  ultimately show ?thesis unfolding t by (intro orderly_memberships [OF assms(1)]) auto
qed (use assms(1) in simp)

lemma orderly_invite:
  assumes "orderly s" and "state_after (invite_member u ws k role) s = t"
  shows "orderly t"
proof (cases "t = s")
  case False
  let ?m = "\<lparr>wm_id = next_uuid (db s), wm_workspace_id = ws, wm_user_id = k, wm_role = role\<rparr>"
  from invite_member_outcome [OF assms(2) False] have adm: "is_admin s ws u"
    and t: "t = s\<lparr>db := db s\<lparr>next_uuid := Suc (next_uuid (db s))\<rparr>, memberships := memberships s @ [?m]\<rparr>" by blast+
  from adm assms(1) have ws: "exists_ws s ws" by (simp add: admin_exists orderly_def)
  have bump: "orderly (s\<lparr>db := db s\<lparr>next_uuid := Suc (next_uuid (db s))\<rparr>\<rparr>)" (is "orderly ?u")
    using assms(1) by (intro orderly_tables [OF assms(1)]) (simp_all add: orderly_def limits_ordered_def)
  have e: "exists_ws ?u = exists_ws s" by (simp add: exists_ws_def fun_eq_iff)
  from adm obtain a where a: "a \<in> set (memberships s)" "wm_workspace_id a = ws" by (auto simp: is_admin_def)
  have "orderly (?u\<lparr>memberships := memberships s @ [?m]\<rparr>)"
  proof (rule orderly_memberships [OF bump])
    show "keyed_tables (?u\<lparr>memberships := memberships s @ [?m]\<rparr>)"
      using assms(1) a by (auto simp: orderly_def keyed_tables_def less_Suc_eq)
    show "\<exists>n\<in>set (memberships ?u). wm_workspace_id m = wm_workspace_id n" if "m \<in> set (memberships s @ [?m])" for m
      using that a by auto
    show "\<exists>a\<in>set (memberships s @ [?m]). wm_workspace_id a = w \<and> wm_role a = ADMIN" if "exists_ws ?u w" for w
      using that assms(1) by (auto simp: e orderly_def administered_def admins_def filter_empty_conv)
  qed
  then show ?thesis by (simp add: t)
qed (use assms(1) in simp)

lemma orderly_create:
  assumes "orderly s" and "state_after (create_workspace u name) s = t"
  shows "orderly t"
proof (cases "t = s")
  case False
  let ?ws = "next_uuid (db s)"
  have keyed: "keyed_tables s" and one: "one_cap_each s" using assms(1) by (simp_all add: orderly_def)
  have old: "wm_workspace_id m < ?ws" if "m \<in> set (memberships s)" for m using keyed that by (simp add: keyed_tables_def)
  have oldc: "cap_workspace_id c < ?ws" if "c \<in> set (caps (db s))" for c using keyed that by (simp add: keyed_tables_def)
  from create_workspace_outcome [OF assms(2) False old oldc] obtain uid w c where
    w: "ws_id w = ?ws" and c: "is_default_cap ?ws c" "cap_id c = ?ws + 2"
    and t: "t = s\<lparr>db := db s\<lparr>next_uuid := ?ws + 3, workspaces := workspaces (db s) @ [w], caps := caps (db s) @ [c]\<rparr>,
        memberships := memberships s @ [\<lparr>wm_id = ?ws + 1, wm_workspace_id = ?ws, wm_user_id = uid, wm_role = ADMIN\<rparr>]\<rparr>" by blast
  have e: "exists_ws t x \<longleftrightarrow> exists_ws s x \<or> x = ?ws" for x by (auto simp: t exists_ws_def w)
  have new: "\<not> exists_ws s ?ws" using keyed by (auto simp: exists_ws_def keyed_tables_def)
  have none: "filter (is_default_cap ?ws) (caps (db s)) = []" using oldc by (fastforce simp: filter_empty_conv is_default_cap_def)
  have "keyed_tables t" using keyed c w
    by (fastforce simp: keyed_tables_def t is_default_cap_def)
  moreover have "one_cap_each t"
    using one c(1) none new unfolding one_cap_each_def e by (auto simp: t is_default_cap_def)
  moreover have "administered t" using assms(1) unfolding administered_def e by (auto simp: orderly_def administered_def admins_def t)
  moreover have "limits_ordered t" using assms(1) by (simp add: orderly_def limits_ordered_def t)
  ultimately show ?thesis by (simp add: orderly_def)
qed (use assms(1) in simp)

lemma orderly_spend:
  assumes "orderly s" and "state_after (update_spend u ws q) s = t"
  shows "orderly t"
proof (cases "t = s")
  case False
  from assms(1) have one: "one_cap_each s" by (simp add: orderly_def)
  have "is_admin s ws u" using assms(2) False unfolding update_spend_def
    by - (erule (1) transactionE, drule admin_request, blast)
  from one_cap [OF one admin_exists [OF one this]] obtain c where c: "filter (is_default_cap ws) (caps (db s)) = [c]" .
  from update_spend_outcome [OF assms(2) False c] obtain a where
    t: "t = s\<lparr>db := db s\<lparr>caps := upd_row cap_id (cap_id c) (capped_at a (su_daily_cap_usd q) (su_monthly_cap_usd q)) (caps (db s))\<rparr>\<rparr>" by blast
  have len: "length (filter (is_default_cap w) (upd_row cap_id k (capped_at a d m) cs)) = length (filter (is_default_cap w) cs)" for w k d m cs
    by (induction cs) (auto simp: is_default_cap_def)
  have e: "exists_ws t = exists_ws s" by (simp add: t exists_ws_def fun_eq_iff)
  have "keyed_tables t" using assms(1) by (auto simp: orderly_def keyed_tables_def t map_key_upd_row set_upd_row)
  moreover have "one_cap_each t" using one unfolding one_cap_each_def e by (simp add: t len)
  ultimately show ?thesis using assms(1) unfolding orderly_def administered_def e by (simp add: limits_ordered_def t admins_def)
qed (use assms(1) in simp)

lemma orderly_rename:
  assumes "orderly s" and "state_after (update_workspace u ws name tier) s = t"
  shows "orderly t"
proof (cases "t = s")
  case False
  from update_workspace_outcome [OF assms(2) False] obtain f where
    "t = s\<lparr>db := db s\<lparr>workspaces := upd_row ws_id ws f (workspaces (db s))\<rparr>\<rparr>" "\<And>w. ws_id (f w) = ws_id w" by blast
  with assms(1) show ?thesis
    by (intro orderly_tables [OF assms(1)]) (simp_all add: map_key_upd_row orderly_def limits_ordered_def)
qed (use assms(1) in simp)

lemma limits_request:
  assumes "limits_ordered s" and "state_after (put_concurrency u ws p) s = t" and "t \<noteq> s"
  obtains ls n where "is_admin s ws u" "t = s\<lparr>db := db s\<lparr>next_uuid := n, limits := ls\<rparr>\<rparr>" "next_uuid (db s) \<le> n"
    "\<forall>l\<in>set ls. wcl_queue_soft_limit l \<le> wcl_queue_hard_limit l"
    "\<And>w. w \<noteq> ws \<Longrightarrow> filter (\<lambda>l. wcl_workspace_id l = w) ls = filter (\<lambda>l. wcl_workspace_id l = w) (limits (db s))"
proof -
  from put_concurrency_outcome [OF assms(2,3)] obtain r where adm: "is_admin s ws u"
    and run: "store_limits ws p (db s) = (db t, Inr r)" and t: "t = s\<lparr>db := db t\<rparr>" by blast
  from store_limits_outcome [OF run] assms(1) obtain ls where ls: "db t = db s\<lparr>next_uuid := next_uuid (db t), limits := ls\<rparr>"
    "next_uuid (db s) \<le> next_uuid (db t)" "\<forall>l\<in>set ls. wcl_queue_soft_limit l \<le> wcl_queue_hard_limit l"
    "\<And>w. w \<noteq> ws \<Longrightarrow> filter (\<lambda>l. wcl_workspace_id l = w) ls = filter (\<lambda>l. wcl_workspace_id l = w) (limits (db s))"
    unfolding limits_ordered_def by blast
  from t ls(1) have "t = s\<lparr>db := db s\<lparr>next_uuid := next_uuid (db t), limits := ls\<rparr>\<rparr>" by (metis)
  from that [OF adm this ls(2-4)] show ?thesis .
qed

lemma orderly_limits:
  assumes "orderly s" and "state_after (put_concurrency u ws p) s = t"
  shows "orderly t"
proof (cases "t = s")
  case False
  from assms(1) have "limits_ordered s" by (simp add: orderly_def)
  from limits_request [OF this assms(2) False] obtain ls n where "t = s\<lparr>db := db s\<lparr>next_uuid := n, limits := ls\<rparr>\<rparr>"
    "next_uuid (db s) \<le> n" "\<forall>l\<in>set ls. wcl_queue_soft_limit l \<le> wcl_queue_hard_limit l" by metis
  then show ?thesis by (intro orderly_tables [OF assms(1)]) (simp_all add: limits_ordered_def)
qed (use assms(1) in simp)

lemma orderly_budgets:
  assumes "orderly s" and "t = s\<lparr>db := budgets_update f (db s\<lparr>next_uuid := k\<rparr>)\<rparr>" and "next_uuid (db s) \<le> k"
  shows "orderly t"
  using assms by (intro orderly_tables [OF assms(1)]) (simp_all add: orderly_def limits_ordered_def)

lemma admin_step_orderly:
  assumes "admin_step u s t" and "orderly s"
  shows "orderly t"
  using assms(1)
proof cases
  case (a_budget ws provider n)
  show ?thesis
  proof (cases "t = s")
    case False
    with upsert_budget_outcome [OF a_budget [symmetric]] obtain k f where
      "t = s\<lparr>db := budgets_update f (db s\<lparr>next_uuid := k\<rparr>)\<rparr>" "next_uuid (db s) \<le> k" by blast
    then show ?thesis by (rule orderly_budgets [OF assms(2)])
  qed (use assms(2) in simp)
next
  case (a_unbudget ws provider)
  show ?thesis
  proof (cases "t = s")
    case False
    with delete_budget_outcome [OF a_unbudget [symmetric]] obtain k f where
      "t = s\<lparr>db := budgets_update f (db s\<lparr>next_uuid := k\<rparr>)\<rparr>" "next_uuid (db s) \<le> k" by blast
    then show ?thesis by (rule orderly_budgets [OF assms(2)])
  qed (use assms(2) in simp)
next
  case (a_create name)
  show ?thesis by (rule orderly_create [OF assms(2) a_create [symmetric]])
next
  case (a_rename ws new_name tier)
  show ?thesis by (rule orderly_rename [OF assms(2) a_rename [symmetric]])
next
  case (a_invite ws k role)
  show ?thesis by (rule orderly_invite [OF assms(2) a_invite [symmetric]])
next
  case (a_role ws k role)
  show ?thesis by (rule orderly_role [OF assms(2) a_role [symmetric]])
next
  case (a_remove k ws)
  show ?thesis by (rule orderly_remove [OF assms(2) a_remove(1) [symmetric]])
next
  case (a_limits ws p)
  show ?thesis by (rule orderly_limits [OF assms(2) a_limits [symmetric]])
next
  case (a_spend ws q)
  show ?thesis by (rule orderly_spend [OF assms(2) a_spend [symmetric]])
qed

inductive admin_history :: "api \<Rightarrow> api \<Rightarrow> bool" where
  h_start: "admin_history s s"
| h_step: "admin_history s t \<Longrightarrow> admin_step user t u \<Longrightarrow> admin_history s u"

lemma admin_history_orderly: "admin_history s t \<Longrightarrow> orderly s \<Longrightarrow> orderly t"
  by (induction rule: admin_history.induct) (auto intro: admin_step_orderly)

section \<open>Whose requests change a workspace\<close>

definition self_leave :: "string \<Rightarrow> uuid \<Rightarrow> api \<Rightarrow> api \<Rightarrow> bool" where
  \<comment> \<open>the only change to the workspace is that the caller's own membership is gone\<close>
  "self_leave user w s t \<longleftrightarrow> (\<exists>k m. uuid_of_str user = Inr k \<and> m \<in> set (memberships s) \<and> wm_workspace_id m = w \<and> wm_user_id m = k
     \<and> workspace_view w t = (filter (\<lambda>x. wm_id x \<noteq> wm_id m) (fst (workspace_view w s)), snd (workspace_view w s)))"

lemma view_upd_membership:
  assumes "keyed_tables s" and "m \<in> set (memberships s)" and "wm_workspace_id m \<noteq> w"
  shows "filter (\<lambda>x. wm_workspace_id x = w) (upd_row wm_id (wm_id m) (\<lambda>x. x\<lparr>wm_role := role\<rparr>) (memberships s)) =
      filter (\<lambda>x. wm_workspace_id x = w) (memberships s)"
    and "filter (\<lambda>x. wm_workspace_id x = w) (filter (\<lambda>x. wm_id x \<noteq> wm_id m) (memberships s)) =
      filter (\<lambda>x. wm_workspace_id x = w) (memberships s)"
proof -
  have ne: "wm_id x \<noteq> wm_id m" if "x \<in> set (memberships s)" "wm_workspace_id x = w" for x
    using same_row [OF assms(1) that(1) assms(2)] that(2) assms(3) by auto
  have "filter (\<lambda>x. wm_workspace_id x = w) (upd_row wm_id (wm_id m) (\<lambda>x. x\<lparr>wm_role := role\<rparr>) xs) =
      filter (\<lambda>x. wm_workspace_id x = w) xs" if "set xs \<subseteq> set (memberships s)" for xs
    using that by (induction xs) (auto dest: ne)
  then show "filter (\<lambda>x. wm_workspace_id x = w) (upd_row wm_id (wm_id m) (\<lambda>x. x\<lparr>wm_role := role\<rparr>) (memberships s)) =
      filter (\<lambda>x. wm_workspace_id x = w) (memberships s)" by simp
  show "filter (\<lambda>x. wm_workspace_id x = w) (filter (\<lambda>x. wm_id x \<noteq> wm_id m) (memberships s)) =
      filter (\<lambda>x. wm_workspace_id x = w) (memberships s)"
    by (auto intro!: filter_cong dest: ne)
qed

lemma view_upd_cap:
  assumes "keyed_tables s" and "c \<in> set (caps (db s))" and "cap_workspace_id c \<noteq> w"
  shows "filter (\<lambda>x. cap_workspace_id x = w) (upd_row cap_id (cap_id c) (capped_at a d m) (caps (db s))) =
      filter (\<lambda>x. cap_workspace_id x = w) (caps (db s))"
proof -
  have ne: "cap_id x \<noteq> cap_id c" if "x \<in> set (caps (db s))" "cap_workspace_id x = w" for x
    using assms that unfolding keyed_tables_def distinct_map by (metis inj_onD)
  have "filter (\<lambda>x. cap_workspace_id x = w) (upd_row cap_id (cap_id c) (capped_at a d m) xs) =
      filter (\<lambda>x. cap_workspace_id x = w) xs" if "set xs \<subseteq> set (caps (db s))" for xs
    using that by (induction xs) (auto dest: ne)
  then show ?thesis by simp
qed

lemma view_remove:
  assumes "orderly s" and "k < 2 ^ 128" and "state_after (remove_member u ws k) s = t" and "workspace_view w t \<noteq> workspace_view w s"
  shows "is_admin s w u \<or> self_leave u w s t"
proof -
  from assms(4) have "t \<noteq> s" by blast
  from assms(1) have keyed: "keyed_tables s" by (simp add: orderly_def)
  from remove_member_outcome [OF assms(3) \<open>t \<noteq> s\<close>] obtain m c where
    m: "filter (\<lambda>m. wm_workspace_id m = ws \<and> wm_user_id m = k) (memberships s) = [m]"
    and c: "c \<in> set (memberships s)" "wm_workspace_id c = ws" "uuid_of_str u = Inr (wm_user_id c)" "uuid_str k = u \<or> wm_role c = ADMIN"
    and t: "t = s\<lparr>memberships := filter (\<lambda>x. wm_id x \<noteq> wm_id m) (memberships s)\<rparr>" by blast
  note row = target_row [OF m]
  have w: "w = ws" using assms(4) view_upd_membership(2) [OF keyed, of m w] row by (auto simp: workspace_view_def t)
  from c(4) show ?thesis
  proof
    assume "wm_role c = ADMIN"
    with c w show ?thesis by (auto simp: is_admin_def)
  next
    assume "uuid_str k = u"
    with uuid_of_str_uuid_str [OF assms(2)] have "uuid_of_str u = Inr k" by simp
    moreover have "workspace_view w t = (filter (\<lambda>x. wm_id x \<noteq> wm_id m) (fst (workspace_view w s)), snd (workspace_view w s))"
      by (simp add: workspace_view_def t conj_commute)
    ultimately show ?thesis using row w unfolding self_leave_def by blast
  qed
qed

lemma view_change:
  assumes "orderly s" and "admin_step u s t" and "exists_ws s w" and "workspace_view w t \<noteq> workspace_view w s"
  shows "is_admin s w u \<or> self_leave u w s t"
proof -
  from assms(4) have ne: "t \<noteq> s" by blast
  from assms(1) have keyed: "keyed_tables s" and one: "one_cap_each s" by (simp_all add: orderly_def)
  from assms(2) show ?thesis
  proof cases
    case (a_create name)
    have old: "wm_workspace_id m < next_uuid (db s)" if "m \<in> set (memberships s)" for m using keyed that by (simp add: keyed_tables_def)
    have oldc: "cap_workspace_id c < next_uuid (db s)" if "c \<in> set (caps (db s))" for c using keyed that by (simp add: keyed_tables_def)
    from assms(3) keyed have "w \<noteq> next_uuid (db s)" by (auto simp: exists_ws_def keyed_tables_def)
    with create_workspace_outcome [OF a_create [symmetric] ne old oldc] assms(4) show ?thesis
      by (auto simp: workspace_view_def is_default_cap_def)
  next
    case (a_rename ws new_name tier)
    have same: "filter (\<lambda>x. ws_id x = w) (upd_row ws_id ws f xs) = filter (\<lambda>x. ws_id x = w) xs"
      if "w \<noteq> ws" "\<And>x. ws_id (f x) = ws_id x" for f and xs :: "workspace list" using that by (induction xs) auto
    from update_workspace_outcome [OF a_rename [symmetric] ne] obtain f where "is_admin s ws u"
      and t: "t = s\<lparr>db := db s\<lparr>workspaces := upd_row ws_id ws f (workspaces (db s))\<rparr>\<rparr>" "\<And>x. ws_id (f x) = ws_id x" by blast
    moreover have "w = ws" using assms(4) same [of f] t by (auto simp: workspace_view_def)
    ultimately show ?thesis by simp
  next
    case (a_invite ws k role)
    from invite_member_outcome [OF a_invite [symmetric] ne] assms(4) show ?thesis
      by (auto simp: workspace_view_def split: if_splits)
  next
    case (a_role ws k role)
    from update_member_role_outcome [OF a_role [symmetric] ne] obtain m where
      "is_admin s ws u" and m: "filter (\<lambda>m. wm_workspace_id m = ws \<and> wm_user_id m = k) (memberships s) = [m]"
      and t: "t = s\<lparr>memberships := upd_row wm_id (wm_id m) (\<lambda>m. m\<lparr>wm_role := role\<rparr>) (memberships s)\<rparr>" by blast
    with view_upd_membership(1) [OF keyed, of m w] target_row [OF m] assms(4) show ?thesis
      by (auto simp: workspace_view_def)
  next
    case (a_remove k ws)
    from view_remove [OF assms(1) a_remove(2) a_remove(1) [symmetric] assms(4)] show ?thesis .
  next
    case (a_limits ws p)
    from assms(1) have "limits_ordered s" by (simp add: orderly_def)
    from limits_request [OF this a_limits [symmetric] ne] obtain ls n where "is_admin s ws u"
      "t = s\<lparr>db := db s\<lparr>next_uuid := n, limits := ls\<rparr>\<rparr>"
      "\<And>w. w \<noteq> ws \<Longrightarrow> filter (\<lambda>l. wcl_workspace_id l = w) ls = filter (\<lambda>l. wcl_workspace_id l = w) (limits (db s))" by metis
    moreover from this assms(4) have "w = ws" by (auto simp: workspace_view_def)
    ultimately show ?thesis by simp
  next
    case (a_budget ws provider n)
    from upsert_budget_outcome [OF a_budget [symmetric] ne] assms(4) show ?thesis
      by (auto simp: workspace_view_def budgets_elsewhere_def)
  next
    case (a_unbudget ws provider)
    from delete_budget_outcome [OF a_unbudget [symmetric] ne] assms(4) show ?thesis
      by (auto simp: workspace_view_def budgets_elsewhere_def)
  next
    case (a_spend ws q)
    have adm: "is_admin s ws u" using a_spend ne unfolding update_spend_def
      by - (erule transactionE [OF sym], assumption, drule admin_request, blast)
    from one_cap [OF one admin_exists [OF one adm]] obtain c where c: "filter (is_default_cap ws) (caps (db s)) = [c]" .
    then have cw: "c \<in> set (caps (db s))" "cap_workspace_id c = ws"
      by (auto dest!: arg_cong [of _ _ set] simp: is_default_cap_def)
    from update_spend_outcome [OF a_spend [symmetric] ne c] obtain a where
      t: "t = s\<lparr>db := db s\<lparr>caps := upd_row cap_id (cap_id c) (capped_at a (su_daily_cap_usd q) (su_monthly_cap_usd q)) (caps (db s))\<rparr>\<rparr>" by blast
    have "w = ws"
    proof (rule ccontr)
      assume "w \<noteq> ws"
      with view_upd_cap [OF keyed cw(1)] cw(2) assms(4) show False by (simp add: workspace_view_def t)
    qed
    with adm show ?thesis by simp
  qed
qed

section \<open>What the administration guarantees\<close>



text \<open>
  Seeding the default cap survives a race. When another transaction commits the workspace-wide cap
  between the query and the insertion, the insertion fails inside its savepoint and the call returns
  the winner's row; the table then holds that row and no second one.
\<close>

theorem seeding_a_cap_survives_a_race:
  assumes "\<forall>c\<in>set (caps s). cap_workspace_id c \<noteq> ws" and "is_default_cap ws winner"
  shows "ensure_default_spend_cap [winner] ws actor daily monthly s =
    (s\<lparr>next_uuid := Suc (next_uuid s), caps := caps s @ [winner]\<rparr>, Inr winner)"
proof -
  have none: "filter (is_default_cap ws) (caps s) = []" using assms(1) by (auto simp: filter_empty_conv is_default_cap_def)
  have none': "filter (\<lambda>c. cap_workspace_id c = ws \<and> cap_provider c = None) (caps s) = []" using assms(1) by (auto simp: filter_empty_conv)
  have put: "caps_update (\<lambda>cs. cs @ [winner]) u = u\<lparr>caps := caps u @ [winner]\<rparr>" for u :: session by (cases u) simp
  from none assms(2) show ?thesis
    by (simp add: ensure_default_spend_cap_def get_workspace_spend_cap_def put Let_def)
      (simp add: insert_cap_def savepoint_def try_except_def bindE_def is_default_cap_def get_workspace_spend_cap_def none')
qed

text \<open>
  A partial update can leave the daily cap above the monthly one: the order of the two is checked only
  when both are in the request.
\<close>

lemma partial_update_inverts_caps:
  assumes "filter (is_default_cap ws) (caps s) = [c]" and "cap_monthly_cap_usd c < numeric4 d"
  shows "\<exists>c'\<in>set (caps (state_after (update_workspace_spend_cap ws actor (Some d) None) s)).
    is_default_cap ws c' \<and> cap_monthly_cap_usd c' < cap_daily_cap_usd c'"
proof -
  from assms(1) have "c \<in> set (caps s)" "is_default_cap ws c" by (auto dest!: arg_cong [of _ _ set])
  with assms(2) show ?thesis unfolding update_cap_existing [OF assms(1)]
    by (intro bexI [of _ "capped_at actor (Some d) None c"])
      (auto simp: set_upd_row is_default_cap_def capped_at_def intro!: image_eqI [of _ _ c])
qed

subsection \<open>Witnesses\<close>

definition empty_api :: api where
  "empty_api = \<lparr>db = empty_session, credentials = [], heartbeats = [], worker_logs = [], memberships = []\<rparr>"

definition ada :: string where
  "ada = uuid_str 7"

definition governed_sample :: api where
  "governed_sample = state_after (create_workspace ada ''Studio'') empty_api"

lemma empty_api_orderly: "orderly empty_api"
  by (simp add: orderly_def keyed_tables_def one_cap_each_def limits_ordered_def administered_def exists_ws_def empty_api_def
      empty_session_def)

lemma governed_sample_eq:
  "\<exists>c w. is_default_cap 1000 c \<and> ws_id w = 1000 \<and> governed_sample = empty_api\<lparr>db := empty_session\<lparr>next_uuid := 1003, workspaces := [w], caps := [c]\<rparr>,
    memberships := [\<lparr>wm_id = 1001, wm_workspace_id = 1000, wm_user_id = 7, wm_role = ADMIN\<rparr>]\<rparr>"
proof -
  have uid: "uuid_of_str ada = Inr 7" unfolding ada_def by (rule uuid_of_str_uuid_str) simp
  have "memberships governed_sample \<noteq> []"
    by (simp add: governed_sample_def create_workspace_def transaction_def savepoint_def validated_def valid_name_def uid
        add_membership_def empty_api_def empty_session_def Let_def ensure_seeds_first)
  moreover have "memberships empty_api = []" by (simp add: empty_api_def)
  ultimately have "governed_sample \<noteq> empty_api" by metis
  from create_workspace_outcome [OF governed_sample_def [symmetric] this] uid show ?thesis
    by (fastforce simp: empty_api_def empty_session_def)
qed

lemma governed_sample_exists: "exists_ws governed_sample 1000"
proof -
  from governed_sample_eq obtain c w where w: "ws_id w = 1000" and g: "governed_sample = empty_api\<lparr>db := empty_session\<lparr>next_uuid := 1003,
    workspaces := [w], caps := [c]\<rparr>, memberships := [\<lparr>wm_id = 1001, wm_workspace_id = 1000, wm_user_id = 7, wm_role = ADMIN\<rparr>]\<rparr>"
    by blast
  show ?thesis unfolding g by (simp add: exists_ws_def w)
qed



theorem seeding_a_cap_survives_a_race_witness:
  "result_of (ensure_default_spend_cap [sample_cap] 1 5 None None) empty_session = Inr sample_cap"
  using seeding_a_cap_survives_a_race [of empty_session 1 sample_cap 5 None None]
  by (simp add: is_default_cap_def sample_cap_def empty_session_def)

end
