(* ===== verification/LocalAuth.thy ===== *)
theory LocalAuth
  imports Access Text
begin

text \<open>
  Users: sign-up and login with email and password (\<open>services/local_auth.py\<close>,
  \<open>api/routes/auth.py\<close>) and the check of the token that every user endpoint makes
  (\<open>core/security.py\<close>). PBKDF2 with HMAC-SHA-256 is written out as \<open>hashlib\<close> computes it. The JWT
  library is a parameter: an encoder, and a decoder that is given the time; \<open>jwt_documented\<close> states
  what the documentation promises of the pair, and the type of tokens is left open. The theorems show that a new user's
  password and token are accepted, that an attacker's guesses are throttled, and that a failed login
  does not tell why it failed.
\<close>

section \<open>Password hashes\<close>

definition sha256_bytes :: "nat list \<Rightarrow> nat list" where
  "sha256_bytes bytes = concat (map (\<lambda>w. be_bytes 4 (unat w)) (sha_blocks (be_words (sha_pad bytes)) sha_init))"

definition hmac_key :: "nat list \<Rightarrow> nat list" where
  "hmac_key key = (let k = (if 64 < length key then sha256_bytes key else key) in k @ replicate (64 - length k) 0)"

definition hmac_sha256 :: "nat list \<Rightarrow> nat list \<Rightarrow> nat list" where
  "hmac_sha256 key msg =
     sha256_bytes (map (\<lambda>b. b XOR 92) (hmac_key key) @ sha256_bytes (map (\<lambda>b. b XOR 54) (hmac_key key) @ msg))"

fun pbkdf2_rounds :: "nat \<Rightarrow> nat list \<Rightarrow> nat list \<Rightarrow> nat list \<Rightarrow> nat list" where
  "pbkdf2_rounds 0 password u acc = acc"
| "pbkdf2_rounds (Suc n) password u acc =
     (let v = hmac_sha256 password u in pbkdf2_rounds n password v (map2 (XOR) acc v))"

definition pbkdf2_hmac :: "nat list \<Rightarrow> nat list \<Rightarrow> int \<Rightarrow> py_error + nat list" where
  \<comment> \<open>\<open>hashlib.pbkdf2_hmac("sha256", password, salt, iterations)\<close>: one block of 32 bytes\<close>
  "pbkdf2_hmac password salt iterations =
     (if iterations < 1 then Inl (ValueError ''iteration value must be greater than 0.'')
      else let u = hmac_sha256 password (salt @ [0, 0, 0, 1]) in Inr (pbkdf2_rounds (nat iterations - 1) password u u))"

definition hex_bytes :: "nat list \<Rightarrow> string" where
  "hex_bytes bytes = concat (map (hex_fixed 2) bytes)"

definition hash_password :: "nat list \<Rightarrow> string \<Rightarrow> py_error + string" where
  \<comment> \<open>\<open>random_bytes\<close>: the 16 bytes \<open>secrets.token_hex(16)\<close> draws\<close>
  "hash_password random_bytes password =
     (let salt = hex_bytes random_bytes in
      case pbkdf2_hmac (encode password) (encode salt) 200000 of
        Inl e \<Rightarrow> Inl e
      | Inr digest \<Rightarrow> Inr (''pbkdf2_sha256$200000$'' @ salt @ ''$'' @ hex_bytes digest))"

fun split_max :: "nat \<Rightarrow> char \<Rightarrow> string \<Rightarrow> string list" where
  \<comment> \<open>\<open>s.split(c, n)\<close>\<close>
  "split_max 0 c s = [s]"
| "split_max (Suc n) c s = (case str_partition c s of (a, found, b) \<Rightarrow> if found then a # split_max n c b else [s])"

fun int_digits :: "int \<Rightarrow> bool \<Rightarrow> string \<Rightarrow> int option" where
  \<comment> \<open>decimal digits with single underscores between them; the flag: an underscore may follow\<close>
  "int_digits acc after_digit [] = (if after_digit then Some acc else None)"
| "int_digits acc after_digit (c # cs) =
     (let n = of_char c :: nat in
      if 48 \<le> n \<and> n \<le> 57 then int_digits (10 * acc + int (n - 48)) True cs
      else if c = CHR ''_'' \<and> after_digit then int_digits acc False cs
      else None)"

definition py_int :: "string \<Rightarrow> py_error + int" where
  "py_int s =
     (let t = py_strip s;
          r = (case t of [] \<Rightarrow> None
               | c # cs \<Rightarrow> if c = CHR ''-'' then map_option uminus (int_digits 0 False cs)
                          else if c = CHR ''+'' then int_digits 0 False cs
                          else int_digits 0 False t)
      in case r of None \<Rightarrow> Inl (ValueError ''invalid literal for int() with base 10'') | Some i \<Rightarrow> Inr i)"

definition verify_password :: "string \<Rightarrow> string \<Rightarrow> py_error + bool" where
  "verify_password password password_hash =
     (case split_max 3 CHR ''$'' password_hash of
        [algo, rounds_s, salt, digest] \<Rightarrow>
          if algo \<noteq> ''pbkdf2_sha256'' then Inr False
          else (case py_int rounds_s of
                  Inl _ \<Rightarrow> Inr False
                | Inr rounds \<Rightarrow>
                    (case pbkdf2_hmac (encode password) (encode salt) rounds of
                       Inl e \<Rightarrow> Inl e
                     | Inr candidate \<Rightarrow> Inr (hex_bytes candidate = digest)))
      | _ \<Rightarrow> Inr False)"

section \<open>The tables and the settings\<close>

record auth_settings =
  auth_mode :: string
  supabase_jwt_secret :: string
  supabase_jwt_algorithm :: string
  supabase_jwt_audience :: string
  supabase_jwt_issuer :: "string option"

record local_auth_credential =
  lac_user_id :: uuid
  lac_email :: string
  lac_password_hash :: string
  lac_failed_attempts :: int
  lac_last_failed_at :: "datetime option"
  lac_locked_until :: "datetime option"

record profile =
  pf_id :: uuid
  pf_email :: string
  pf_full_name :: "string option"

record auth_db =
  au_clock :: datetime
  au_next_uuid :: uuid
  au_settings :: auth_settings
  au_profiles :: "profile list"
  au_credentials :: "local_auth_credential list"

definition MAX_FAILED_ATTEMPTS :: int where
  "MAX_FAILED_ATTEMPTS = 10"

definition LOCKOUT_SECONDS :: int where
  "LOCKOUT_SECONDS = 900"

definition FAILURE_WINDOW_SECONDS :: int where
  "FAILURE_WINDOW_SECONDS = 900"

definition MIN_PASSWORD_LENGTH :: nat where
  "MIN_PASSWORD_LENGTH = 12"

definition LOCAL_JWT_ISSUER :: string where
  "LOCAL_JWT_ISSUER = ''content-orchestrator-local''"

definition TIMING_EQUALIZER_HASH :: string where
  "TIMING_EQUALIZER_HASH = ''pbkdf2_sha256$200000$'' @ replicate 64 CHR ''0'' @ ''$'' @ replicate 64 CHR ''0''"

record 't auth_token =
  access_token :: 't
  token_type :: string
  expires_in :: int
  tok_user_id :: uuid
  tok_email :: string

type_synonym 't encoder = "json_obj \<Rightarrow> string \<Rightarrow> string \<Rightarrow> 't"
type_synonym 't decoder = "datetime \<Rightarrow> 't \<Rightarrow> string \<Rightarrow> string list \<Rightarrow> string \<Rightarrow> string \<Rightarrow> json_obj option"

section \<open>Sign-up and login\<close>

definition mint_access_token :: "'t encoder \<Rightarrow> auth_db \<Rightarrow> uuid \<Rightarrow> string \<Rightarrow> int \<Rightarrow> 't" where
  "mint_access_token jwt_encode s user_id email expires =
     (let st = au_settings s in
      jwt_encode [(''sub'', JStr (uuid_str user_id)), (''email'', JStr email), (''aud'', JStr (supabase_jwt_audience st)),
          (''exp'', JInt (au_clock s div 1000000 + expires)), (''role'', JStr ''authenticated''), (''iss'', JStr LOCAL_JWT_ISSUER)]
        (supabase_jwt_secret st) (supabase_jwt_algorithm st))"

definition normalize_email :: "string \<Rightarrow> string" where
  "normalize_email email = lower (py_strip email)"

definition find_credential_by_email :: "string \<Rightarrow> (auth_db, local_auth_credential option) py" where
  "find_credential_by_email email =
     bindE (gets (\<lambda>s. filter (\<lambda>c. lac_email c = email) (au_credentials s))) (\<lambda>rows. liftE (scalar_one_or_none rows))"

definition upsert_profile :: "uuid \<Rightarrow> string \<Rightarrow> string option \<Rightarrow> profile list \<Rightarrow> profile list" where
  \<comment> \<open>\<open>INSERT ... ON CONFLICT (id) DO UPDATE SET email = EXCLUDED.email\<close>\<close>
  "upsert_profile uid email name ps =
     (if uid \<in> pf_id ` set ps then upd_row pf_id uid (\<lambda>p. p\<lparr>pf_email := email\<rparr>) ps
      else ps @ [\<lparr>pf_id = uid, pf_email = email, pf_full_name = name\<rparr>])"

definition draw_user_id :: "(auth_db, uuid) py" where
  \<comment> \<open>\<open>uuid.uuid4()\<close>\<close>
  "draw_user_id = (\<lambda>s. (s\<lparr>au_next_uuid := Suc (au_next_uuid s)\<rparr>, Inr (au_next_uuid s)))"

definition signup ::
    "'t encoder \<Rightarrow> nat list \<Rightarrow> string \<Rightarrow> string \<Rightarrow> string option \<Rightarrow> (auth_db, 't auth_token) py" where
  "signup jwt_encode random_bytes email password full_name =
     bindE (gets au_settings) (\<lambda>st.
     if auth_mode st \<noteq> ''local''
     then raise (AuthError ''auth_disabled'' ''local signup is disabled when AUTH_MODE!=local'')
     else
       let normalized = normalize_email email in
       if length password < MIN_PASSWORD_LENGTH
       then raise (AuthError ''weak_password'' ''password must be at least 12 characters'')
       else
         bindE (find_credential_by_email normalized) (\<lambda>existing.
         if existing \<noteq> None then raise (AuthError ''email_taken'' ''an account with this email already exists'')
         else
           bindE draw_user_id (\<lambda>user_id.
           bindE (modify (au_profiles_update (upsert_profile user_id normalized full_name))) (\<lambda>_.
           bindE (liftE (hash_password random_bytes password)) (\<lambda>h.
           bindE (modify (au_credentials_update (\<lambda>cs. cs @ [\<lparr>lac_user_id = user_id, lac_email = normalized,
             lac_password_hash = h, lac_failed_attempts = 0, lac_last_failed_at = None, lac_locked_until = None\<rparr>]))) (\<lambda>_.
           gets (\<lambda>s. \<lparr>access_token = mint_access_token jwt_encode s user_id normalized 3600, token_type = ''bearer'',
             expires_in = 3600, tok_user_id = user_id, tok_email = normalized\<rparr>)))))))"

definition invalid_credentials :: py_error where
  "invalid_credentials = AuthError ''invalid_credentials'' ''invalid email or password''"

definition is_locked :: "datetime \<Rightarrow> local_auth_credential \<Rightarrow> bool" where
  "is_locked now row \<longleftrightarrow> (case lac_locked_until row of None \<Rightarrow> False | Some d \<Rightarrow> now < d)"

definition record_failure :: "datetime \<Rightarrow> local_auth_credential \<Rightarrow> local_auth_credential" where
  "record_failure now row =
     (let stale = (case lac_last_failed_at row of None \<Rightarrow> True | Some l \<Rightarrow> seconds FAILURE_WINDOW_SECONDS < now - l);
          n = (if stale then 1 else lac_failed_attempts row + 1);
          row = row\<lparr>lac_failed_attempts := n, lac_last_failed_at := Some now\<rparr>
      in if MAX_FAILED_ATTEMPTS \<le> n then row\<lparr>lac_locked_until := Some (now + seconds LOCKOUT_SECONDS)\<rparr> else row)"

definition clear_failures :: "local_auth_credential \<Rightarrow> local_auth_credential" where
  "clear_failures row = row\<lparr>lac_failed_attempts := 0, lac_last_failed_at := None, lac_locked_until := None\<rparr>"

definition set_credential :: "uuid \<Rightarrow> (local_auth_credential \<Rightarrow> local_auth_credential) \<Rightarrow> (auth_db, unit) py" where
  "set_credential k f = modify (au_credentials_update (upd_row lac_user_id k f))"

definition login :: "'t encoder \<Rightarrow> string \<Rightarrow> string \<Rightarrow> (auth_db, 't auth_token) py" where
  "login jwt_encode email password =
     bindE (gets au_settings) (\<lambda>st.
     if auth_mode st \<noteq> ''local''
     then raise (AuthError ''auth_disabled'' ''local login is disabled when AUTH_MODE!=local'')
     else
       bindE (gets au_clock) (\<lambda>now.
       bindE (find_credential_by_email (normalize_email email)) (\<lambda>row.
       case row of
         None \<Rightarrow> bindE (liftE (verify_password password TIMING_EQUALIZER_HASH)) (\<lambda>_. raise invalid_credentials)
       | Some c \<Rightarrow>
           if is_locked now c
           then bindE (liftE (verify_password password (lac_password_hash c))) (\<lambda>_. raise invalid_credentials)
           else
             bindE (liftE (verify_password password (lac_password_hash c))) (\<lambda>ok.
             if \<not> ok then bindE (set_credential (lac_user_id c) (record_failure now)) (\<lambda>_. raise invalid_credentials)
             else
               bindE (set_credential (lac_user_id c) clear_failures) (\<lambda>_.
               gets (\<lambda>s. \<lparr>access_token = mint_access_token jwt_encode s (lac_user_id c) (lac_email c) 3600,
                 token_type = ''bearer'', expires_in = 3600, tok_user_id = lac_user_id c, tok_email = lac_email c\<rparr>))))))"

section \<open>Endpoints\<close>

record signup_in =
  si_email :: string
  si_password :: string
  si_full_name :: "string option"

definition valid_signup :: "signup_in \<Rightarrow> bool" where
  "valid_signup p \<longleftrightarrow> 3 \<le> length (si_email p) \<and> length (si_email p) \<le> 320
     \<and> 12 \<le> length (si_password p) \<and> length (si_password p) \<le> 128
     \<and> (case si_full_name p of None \<Rightarrow> True | Some n \<Rightarrow> length n \<le> 200)
     \<and> (let e = normalize_email (si_email p) in CHR ''@'' \<in> set e \<and> hd e \<noteq> CHR ''@'' \<and> last e \<noteq> CHR ''@'')"

definition valid_login :: "string \<Rightarrow> string \<Rightarrow> bool" where
  "valid_login email password \<longleftrightarrow> 3 \<le> length email \<and> length email \<le> 320 \<and> 1 \<le> length password \<and> length password \<le> 128"

definition ensure_local_auth_enabled :: "(auth_db, unit) py" where
  "ensure_local_auth_enabled =
     bindE (gets au_settings) (\<lambda>st.
     if auth_mode st \<noteq> ''local'' then raise (HTTPException 404 ''local auth is disabled'') else ret ())"

definition unprocessable :: py_error where
  "unprocessable = HTTPException 422 ''Unprocessable Content''"

definition signup_http_error :: "py_error \<Rightarrow> py_error" where
  "signup_http_error e = (case e of
      AuthError code msg \<Rightarrow> HTTPException (if code = ''email_taken'' then 409 else 400) msg
    | _ \<Rightarrow> e)"

definition signup_route :: "'t encoder \<Rightarrow> nat list \<Rightarrow> signup_in \<Rightarrow> (auth_db, 't auth_token) py" where
  \<comment> \<open>an exception ends the request without a commit\<close>
  "signup_route jwt_encode random_bytes p =
     (if \<not> valid_signup p then raise unprocessable
      else savepoint (bindE ensure_local_auth_enabled (\<lambda>_.
        try_except (signup jwt_encode random_bytes (normalize_email (si_email p)) (si_password p) (si_full_name p))
          (\<lambda>e. raise (signup_http_error e)))))"

definition login_route :: "'t encoder \<Rightarrow> string \<Rightarrow> string \<Rightarrow> (auth_db, 't auth_token) py" where
  \<comment> \<open>an \<open>AuthError\<close> is answered after a commit, any other exception ends the request without one\<close>
  "login_route jwt_encode email password =
     (if \<not> valid_login email password then raise unprocessable
      else bindE ensure_local_auth_enabled (\<lambda>_. \<lambda>s.
        case login jwt_encode (normalize_email email) password s of
          (t, Inr token) \<Rightarrow> (t, Inr token)
        | (t, Inl (AuthError code msg)) \<Rightarrow> (t, Inl (HTTPException 401 msg))
        | (t, Inl e) \<Rightarrow> (s, Inl e)))"

section \<open>The token of a request\<close>

record authenticated_user =
  auser_id :: json
  auser_email :: "json option"

definition invalid_token :: py_error where
  "invalid_token = HTTPException 401 ''invalid or expired token''"

definition required_jwt_issuer :: "auth_settings \<Rightarrow> py_error + string" where
  "required_jwt_issuer st =
     (let issuer = py_strip (case supabase_jwt_issuer st of None \<Rightarrow> [] | Some i \<Rightarrow> i) in
      if issuer = [] then Inl invalid_token else Inr issuer)"

definition decode_supabase_jwt :: "'t decoder \<Rightarrow> datetime \<Rightarrow> auth_settings \<Rightarrow> 't \<Rightarrow> py_error + json_obj" where
  "decode_supabase_jwt jwt_decode now st token =
     (case required_jwt_issuer st of
        Inl e \<Rightarrow> Inl e
      | Inr issuer \<Rightarrow>
          (case jwt_decode now token (supabase_jwt_secret st) [supabase_jwt_algorithm st] (supabase_jwt_audience st) issuer of
             None \<Rightarrow> Inl invalid_token
           | Some claims \<Rightarrow> Inr claims))"

fun falsy :: "json \<Rightarrow> bool" where
  "falsy JNull = True"
| "falsy (JBool b) = (\<not> b)"
| "falsy (JInt i) = (i = 0)"
| "falsy (JNum r) = (r = 0)"
| "falsy (JStr s) = (s = [])"
| "falsy (JList xs) = (xs = [])"
| "falsy (JObj kvs) = (kvs = [])"

fun sub_is_uuid :: "json \<Rightarrow> bool" where
  \<comment> \<open>\<open>uuid.UUID(str(sub))\<close> does not raise; the text of any other value has characters that are no
     hexadecimal digits\<close>
  "sub_is_uuid (JStr s) = (case uuid_of_str s of Inl _ \<Rightarrow> False | Inr _ \<Rightarrow> True)"
| "sub_is_uuid (JInt i) = (case uuid_of_str (int_str i) of Inl _ \<Rightarrow> False | Inr _ \<Rightarrow> True)"
| "sub_is_uuid _ = False"

definition get_current_user ::
    "'t decoder \<Rightarrow> datetime \<Rightarrow> auth_settings \<Rightarrow> 't option \<Rightarrow> py_error + authenticated_user" where
  "get_current_user jwt_decode now st credentials_header =
     (case credentials_header of
        None \<Rightarrow> Inl (HTTPException 401 ''missing bearer token'')
      | Some token \<Rightarrow>
          (case decode_supabase_jwt jwt_decode now st token of
             Inl e \<Rightarrow> Inl e
           | Inr claims \<Rightarrow>
               (case map_of claims ''sub'' of
                  None \<Rightarrow> Inl (HTTPException 401 ''token missing 'sub' claim'')
                | Some sub \<Rightarrow>
                    if falsy sub then Inl (HTTPException 401 ''token missing 'sub' claim'')
                    else if \<not> sub_is_uuid sub then Inl (HTTPException 401 ''token 'sub' claim must be a valid UUID'')
                    else Inr \<lparr>auser_id = sub, auser_email = map_of claims ''email''\<rparr>)))"

definition jwt_documented :: "'t encoder \<Rightarrow> 't decoder \<Rightarrow> bool" where
  \<comment> \<open>a token decodes to its payload for the same secret and an admitted algorithm, if audience and
     issuer are the required ones and its expiry (in seconds) lies ahead\<close>
  "jwt_documented jwt_encode jwt_decode \<longleftrightarrow> (\<forall>payload secret algorithm now algorithms audience issuer expiry.
     algorithm \<in> set algorithms \<and> map_of payload ''aud'' = Some (JStr audience) \<and> map_of payload ''iss'' = Some (JStr issuer)
       \<and> map_of payload ''exp'' = Some (JInt expiry) \<and> now < expiry * 1000000
     \<longrightarrow> jwt_decode now (jwt_encode payload secret algorithm) secret algorithms audience issuer = Some payload)"

section \<open>Hashes and text\<close>

lemma digit_not_dollar: "n < 16 \<Longrightarrow> digit n \<noteq> CHR ''$''"
proof
  assume n: "n < 16" and "digit n = CHR ''$''"
  then have "(of_char (digit n) :: nat) = of_char (CHR ''$'')" by simp
  moreover have "(of_char (CHR ''$'') :: nat) = 36" by simp
  ultimately show False using n by (simp add: digit_def split: if_splits)
qed

lemma hex_bytes_no_dollar: "CHR ''$'' \<notin> set (hex_bytes bytes)"
proof
  assume "CHR ''$'' \<in> set (hex_bytes bytes)"
  then obtain b where "CHR ''$'' \<in> set (hex_fixed 2 b)" by (auto simp: hex_bytes_def simp del: hex_fixed.simps)
  then show False using hex_fixed_digits [of "CHR ''$''" 2 b] digit_not_dollar by metis
qed

lemma pbkdf2_positive: "1 \<le> n \<Longrightarrow> \<exists>d. pbkdf2_hmac p s n = Inr d"
  by (simp add: pbkdf2_hmac_def Let_def)

lemma py_int_rounds: "py_int ''200000'' = Inr 200000"
  by code_simp

lemma verify_fields:
  assumes "CHR ''$'' \<notin> set salt"
  shows "verify_password password (''pbkdf2_sha256$200000$'' @ salt @ ''$'' @ digest) =
    map_sum id (\<lambda>d. hex_bytes d = digest) (pbkdf2_hmac (encode password) (encode salt) 200000)"
proof -
  have "split_max 3 CHR ''$'' (''pbkdf2_sha256$200000$'' @ salt @ ''$'' @ digest) = [''pbkdf2_sha256'', ''200000'', salt, digest]"
    using str_partition_at [OF assms, of digest] by (simp add: numeral_3_eq_3)
  then show ?thesis by (simp add: verify_password_def py_int_rounds split: sum.split)
qed

lemma verify_own_hash: "hash_password rb password = Inr h \<Longrightarrow> verify_password password h = Inr True"
  by (auto simp: hash_password_def Let_def verify_fields [OF hex_bytes_no_dollar] simp del: append.simps split: sum.splits)

lemma verify_some_hash: "hash_password rb password = Inr h \<Longrightarrow> \<exists>b. verify_password guess h = Inr b"
  using pbkdf2_positive [of 200000 "encode guess" "encode (hex_bytes rb)"]
  by (auto simp: hash_password_def Let_def verify_fields [OF hex_bytes_no_dollar] simp del: append.simps split: sum.splits)

lemma verify_equalizer: "\<exists>b. verify_password guess TIMING_EQUALIZER_HASH = Inr b"
proof -
  have "CHR ''$'' \<notin> set (replicate 64 CHR ''0'')" by simp
  from verify_fields [OF this, of guess "replicate 64 CHR ''0''"]
    pbkdf2_positive [of 200000 "encode guess" "encode (replicate 64 CHR ''0'')"]
  show ?thesis by (auto simp: TIMING_EQUALIZER_HASH_def simp del: append.simps)
qed

definition lower_char :: "char \<Rightarrow> char" where
  "lower_char c = (if CHR ''A'' \<le> c \<and> c \<le> CHR ''Z'' then char_of (of_char c + (32 :: nat)) else c)"

lemma lower_map: "lower s = map lower_char s"
  by (simp add: lower_def lower_char_def)

lemma upper_range: "CHR ''A'' \<le> c \<and> c \<le> CHR ''Z'' \<longleftrightarrow> 65 \<le> (of_char c :: nat) \<and> of_char c \<le> (90 :: nat)"
  by (simp add: less_eq_char_def)

lemma of_char_lower: "of_char (lower_char c) = (if 65 \<le> (of_char c :: nat) \<and> of_char c \<le> (90 :: nat) then of_char c + 32 else (of_char c :: nat))"
  unfolding lower_char_def upper_range by simp

lemma is_space_lower [simp]: "is_space (lower_char c) = is_space c"
  unfolding is_space_def of_char_lower by auto

lemma lower_char_idem: "lower_char (lower_char c) = lower_char c"
proof -
  have "\<not> (65 \<le> (of_char (lower_char c) :: nat) \<and> of_char (lower_char c) \<le> (90 :: nat))" unfolding of_char_lower by simp
  then show ?thesis unfolding lower_char_def [of "lower_char c"] upper_range by auto
qed

lemma strip_lower: "py_strip (lower s) = lower (py_strip s)"
  by (simp add: lower_map py_strip_def dropWhile_map rev_map comp_def)

lemma strip_strip: "py_strip (py_strip s) = py_strip s"
proof -
  define a where "a = dropWhile is_space s"
  define b where "b = dropWhile is_space (rev a)"
  obtain us where us: "rev a = us @ b" unfolding b_def by (metis takeWhile_dropWhile_id)
  have "dropWhile is_space (rev b) = rev b"
  proof (cases "b = []")
    case False
    then have "a = rev b @ rev us" using us by (metis rev_append rev_rev_ident)
    with False have "hd (rev b) = hd a" "a \<noteq> []" by (auto simp: hd_append)
    then have "\<not> is_space (hd (rev b))" unfolding a_def by (metis hd_dropWhile)
    with False show ?thesis by (cases "rev b") auto
  qed simp
  moreover have "dropWhile is_space b = b" unfolding b_def by (rule dropWhile_idem)
  ultimately show ?thesis by (simp add: py_strip_def a_def [symmetric] b_def [symmetric])
qed

lemma normalize_idem [simp]: "normalize_email (normalize_email e) = normalize_email e"
proof -
  have "lower (lower x) = lower x" for x by (simp add: lower_map lower_char_idem)
  then show ?thesis by (simp add: normalize_email_def strip_lower strip_strip)
qed

section \<open>What a login does\<close>

definition account :: "auth_db \<Rightarrow> string \<Rightarrow> local_auth_credential list" where
  "account s email = filter (\<lambda>c. lac_email c = normalize_email email) (au_credentials s)"

definition issued :: "'t encoder \<Rightarrow> auth_db \<Rightarrow> local_auth_credential \<Rightarrow> 't auth_token" where
  "issued jwt_encode s c = \<lparr>access_token = mint_access_token jwt_encode s (lac_user_id c) (lac_email c) 3600,
     token_type = ''bearer'', expires_in = 3600, tok_user_id = lac_user_id c, tok_email = lac_email c\<rparr>"

definition with_row :: "uuid \<Rightarrow> (local_auth_credential \<Rightarrow> local_auth_credential) \<Rightarrow> auth_db \<Rightarrow> auth_db" where
  "with_row k f s = s\<lparr>au_credentials := upd_row lac_user_id k f (au_credentials s)\<rparr>"

lemma with_row_sel [simp]:
  "au_clock (with_row k f s) = au_clock s" "au_settings (with_row k f s) = au_settings s"
  "au_credentials (with_row k f s) = upd_row lac_user_id k f (au_credentials s)"
  by (simp_all add: with_row_def)

lemma set_credential_apply: "bindE (set_credential k f) g s = g () (with_row k f s)"
  by (cases s) (simp add: set_credential_def with_row_def)

lemma login_account:
  assumes "auth_mode (au_settings s) = ''local''" and "account s email = [c]"
    and "verify_password password (lac_password_hash c) = Inr ok"
  shows "login jwt_encode email password s =
    (if is_locked (au_clock s) c then (s, Inl invalid_credentials)
     else if ok then (with_row (lac_user_id c) clear_failures s, Inr (issued jwt_encode s c))
     else (with_row (lac_user_id c) (record_failure (au_clock s)) s, Inl invalid_credentials))"
  using assms by (simp add: login_def find_credential_by_email_def account_def set_credential_apply issued_def mint_access_token_def)

lemma login_route_local:
  assumes "auth_mode (au_settings s) = ''local''" and "valid_login email password"
  shows "login_route jwt_encode email password s = (case login jwt_encode (normalize_email email) password s of
          (t, Inr token) \<Rightarrow> (t, Inr token)
        | (t, Inl (AuthError code msg)) \<Rightarrow> (t, Inl (HTTPException 401 msg))
        | (t, Inl e) \<Rightarrow> (s, Inl e))"
  using assms by (simp add: login_route_def ensure_local_auth_enabled_def)

lemma account_normalize [simp]: "account s (normalize_email email) = account s email"
  by (simp add: account_def)

lemma login_route_account:
  assumes "auth_mode (au_settings s) = ''local''" and "valid_login email password" and "account s email = [c]"
    and "verify_password password (lac_password_hash c) = Inr ok"
  shows "login_route jwt_encode email password s =
    (if is_locked (au_clock s) c then (s, Inl (HTTPException 401 ''invalid email or password''))
     else if ok then (with_row (lac_user_id c) clear_failures s, Inr (issued jwt_encode s c))
     else (with_row (lac_user_id c) (record_failure (au_clock s)) s, Inl (HTTPException 401 ''invalid email or password'')))"
  using login_account [of s "normalize_email email" c password ok jwt_encode] assms
  by (auto simp: login_route_local invalid_credentials_def)

section \<open>Guessing is throttled\<close>

fun evaluated_guesses :: "'t encoder \<Rightarrow> string \<Rightarrow> (datetime \<times> string) list \<Rightarrow> auth_db \<Rightarrow> nat" where
  \<comment> \<open>how many of the requests get their password compared with the account's, that is, come to a
     row that is not locked\<close>
  "evaluated_guesses jwt_encode email [] s = 0"
| "evaluated_guesses jwt_encode email ((now, password) # guesses) s =
     (let s' = s\<lparr>au_clock := now\<rparr> in
      (if valid_login email password \<and> (\<exists>c\<in>set (account s' email). \<not> is_locked now c) then 1 else 0)
      + evaluated_guesses jwt_encode email guesses (state_after (login_route jwt_encode email password) s'))"

lemma filter_upd_row_key:
  "(\<And>r. P (f r) = P r) \<Longrightarrow> filter P (upd_row key k f rows) = upd_row key k f (filter P rows)"
  by (induction rows) auto

lemma account_with_row:
  "account s email = [c] \<Longrightarrow> (\<And>r. lac_email (f r) = lac_email r) \<Longrightarrow> account (with_row (lac_user_id c) f s) email = [f c]"
  by (simp add: account_def filter_upd_row_key)

lemma account_clock [simp]: "account (s\<lparr>au_clock := now\<rparr>) email = account s email"
  by (simp add: account_def)

lemma record_failure_sel [simp]:
  "lac_email (record_failure now c) = lac_email c" "lac_password_hash (record_failure now c) = lac_password_hash c"
  "lac_last_failed_at (record_failure now c) = Some now"
  by (simp_all add: record_failure_def Let_def)

definition warned :: "datetime \<Rightarrow> int \<Rightarrow> local_auth_credential \<Rightarrow> bool" where
  \<comment> \<open>after \<open>k\<close> evaluated wrong guesses since \<open>t0\<close>\<close>
  "warned t0 k c \<longleftrightarrow> k \<le> lac_failed_attempts c
     \<and> (0 < k \<longrightarrow> (\<exists>l. lac_last_failed_at c = Some l \<and> t0 \<le> l))
     \<and> (0 < k \<and> MAX_FAILED_ATTEMPTS \<le> lac_failed_attempts c \<longrightarrow> (\<exists>d. lac_locked_until c = Some d \<and> t0 + seconds LOCKOUT_SECONDS \<le> d))"

lemma warned_next:
  assumes "warned t0 k c" and "0 \<le> k" and "t0 \<le> now" and "now < t0 + seconds FAILURE_WINDOW_SECONDS"
  shows "warned t0 (k + 1) (record_failure now c)"
proof -
  have "k + 1 \<le> lac_failed_attempts (record_failure now c)"
  proof (cases "k = 0")
    case True
    with assms(1) show ?thesis by (simp add: warned_def record_failure_def Let_def)
  next
    case False
    with assms obtain l where "lac_last_failed_at c = Some l" "t0 \<le> l" "k \<le> lac_failed_attempts c" by (auto simp: warned_def)
    with assms(4) show ?thesis by (simp add: record_failure_def Let_def)
  qed
  with assms(2,3) show ?thesis by (auto simp: warned_def) (auto simp: record_failure_def Let_def split: if_splits)
qed

lemma evaluated_at_most:
  assumes "auth_mode (au_settings s) = ''local''" and "account s email = [c]" and "warned t0 k c" and "0 \<le> k" and "k \<le> MAX_FAILED_ATTEMPTS"
    and "\<forall>(now, password)\<in>set guesses. t0 \<le> now \<and> now < t0 + seconds FAILURE_WINDOW_SECONDS
      \<and> verify_password password (lac_password_hash c) = Inr False"
  shows "k + int (evaluated_guesses jwt_encode email guesses s) \<le> MAX_FAILED_ATTEMPTS"
  using assms
proof (induction guesses arbitrary: s c k)
  case Nil
  then show ?case by simp
next
  case (Cons g guesses)
  obtain now password where g: "g = (now, password)" by fastforce
  let ?s = "s\<lparr>au_clock := now\<rparr>"
  from Cons.prems(6) have now: "t0 \<le> now" "now < t0 + seconds FAILURE_WINDOW_SECONDS"
    and wrong: "verify_password password (lac_password_hash c) = Inr False"
    and rest: "\<forall>(now, password)\<in>set guesses. t0 \<le> now \<and> now < t0 + seconds FAILURE_WINDOW_SECONDS
      \<and> verify_password password (lac_password_hash c) = Inr False" by (auto simp: g)
  show ?case
  proof (cases "valid_login email password \<and> \<not> is_locked now c")
    case False
    have "state_after (login_route jwt_encode email password) ?s = ?s"
    proof (cases "valid_login email password")
      case True
      with False show ?thesis using Cons.prems(1,2) wrong by (simp add: login_route_account [of ?s email password c False])
    qed (simp add: login_route_def)
    with False Cons.IH [of ?s c k] Cons.prems rest show ?thesis by (auto simp: g)
  next
    case True
    have "lac_failed_attempts c < MAX_FAILED_ATTEMPTS" if "0 < k"
    proof (rule ccontr)
      assume "\<not> lac_failed_attempts c < MAX_FAILED_ATTEMPTS"
      with that Cons.prems(3) obtain d where "lac_locked_until c = Some d" "t0 + seconds LOCKOUT_SECONDS \<le> d"
        by (auto simp: warned_def)
      with now True show False by (simp add: is_locked_def LOCKOUT_SECONDS_def FAILURE_WINDOW_SECONDS_def)
    qed
    with Cons.prems(3,4) have "k + 1 \<le> MAX_FAILED_ATTEMPTS"
      by (cases "k = 0") (auto simp: warned_def MAX_FAILED_ATTEMPTS_def)
    moreover have "state_after (login_route jwt_encode email password) ?s = with_row (lac_user_id c) (record_failure now) ?s"
      using Cons.prems(1,2) wrong True by (simp add: login_route_account [of ?s email password c False])
    ultimately show ?thesis
      using Cons.IH [of "with_row (lac_user_id c) (record_failure now) ?s" "record_failure now c" "k + 1"]
        account_with_row [of ?s email c "record_failure now"] warned_next [OF Cons.prems(3,4) now] Cons.prems(1,2,4) True rest
      by (simp add: g)
  qed
qed


section \<open>A failed login does not tell why\<close>

definition sound_hashes :: "auth_db \<Rightarrow> bool" where
  "sound_hashes s \<longleftrightarrow> (\<forall>c\<in>set (au_credentials s). \<exists>rb password. hash_password rb password = Inr (lac_password_hash c))"

definition unique_emails :: "auth_db \<Rightarrow> bool" where
  "unique_emails s \<longleftrightarrow> distinct (map lac_email (au_credentials s))"

text \<open>
  C35: A failed login does not tell why it failed: whether the address is unknown, the account locked
  (even against the right password) or the password wrong, the answer to a well-formed request is the
  same.
\<close>

theorem failed_login_does_not_tell_why:
  assumes "auth_mode (au_settings s) = ''local''" and "unique_emails s" and "sound_hashes s" and "valid_login email password"
    and "login_route jwt_encode email password s = (t, Inl e)"
  shows "e = HTTPException 401 ''invalid email or password''"
proof -
  from assms(2) have "account s email = [] \<or> (\<exists>c. account s email = [c] \<and> c \<in> set (au_credentials s))"
    unfolding account_def unique_emails_def by (subst (1 2) filter_find_row) (auto split: option.splits dest: find_row_SomeD)
  then show ?thesis
  proof
    assume "account s email = []"
    moreover obtain b where "verify_password password TIMING_EQUALIZER_HASH = Inr b" using verify_equalizer by blast
    ultimately have "login jwt_encode (normalize_email email) password s = (s, Inl invalid_credentials)"
      using assms(1) by (simp add: login_def find_credential_by_email_def account_def)
    with assms(1,4,5) show ?thesis by (simp add: login_route_local invalid_credentials_def)
  next
    assume "\<exists>c. account s email = [c] \<and> c \<in> set (au_credentials s)"
    then obtain c where c: "account s email = [c]" "c \<in> set (au_credentials s)" by blast
    with assms(3) obtain b where "verify_password password (lac_password_hash c) = Inr b"
      unfolding sound_hashes_def using verify_some_hash by blast
    from login_route_account [OF assms(1,4) c(1) this, of jwt_encode] assms(5) show ?thesis by (auto split: if_splits)
  qed
qed

section \<open>From sign-up to an authenticated request\<close>

lemma hash_password_ok: "\<exists>h. hash_password rb password = Inr h"
  using pbkdf2_positive [of 200000 "encode password" "encode (hex_bytes rb)"] by (auto simp: hash_password_def Let_def)

lemma bindE_draw_user_id [simp]: "bindE draw_user_id f s = f (au_next_uuid s) (s\<lparr>au_next_uuid := Suc (au_next_uuid s)\<rparr>)"
  by (simp add: bindE_def draw_user_id_def)

lemma signup_outcome:
  assumes "signup_route jwt_encode rb p s = (t, Inr tok)"
  shows "auth_mode (au_settings s) = ''local'' \<and> valid_signup p \<and> account s (si_email p) = []
    \<and> tok_user_id tok = au_next_uuid s \<and> au_settings t = au_settings s
    \<and> (\<exists>h c. hash_password rb (si_password p) = Inr h \<and> au_credentials t = au_credentials s @ [c]
        \<and> c = \<lparr>lac_user_id = au_next_uuid s, lac_email = normalize_email (si_email p), lac_password_hash = h,
            lac_failed_attempts = 0, lac_last_failed_at = None, lac_locked_until = None\<rparr>)"
proof -
  obtain h where h: "hash_password rb (si_password p) = Inr h" using hash_password_ok by blast
  define rows where "rows = filter (\<lambda>c. lac_email c = normalize_email (si_email p)) (au_credentials s)"
  from assms have ok: "auth_mode (au_settings s) = ''local''" "valid_signup p"
    by (auto simp: signup_route_def ensure_local_auth_enabled_def savepoint_def split: if_splits)
  consider "rows = []" | r where "rows = [r]" | a b xs where "rows = a # b # xs" by (metis list.exhaust)
  then have "rows = []" 
    using assms ok by cases (auto simp: signup_route_def ensure_local_auth_enabled_def savepoint_def signup_def try_except_def
        find_credential_by_email_def Let_def scalar_one_or_none_def simp flip: rows_def split: if_splits)
  with assms ok h show ?thesis
    by (auto simp: signup_route_def ensure_local_auth_enabled_def savepoint_def signup_def try_except_def account_def
        find_credential_by_email_def Let_def scalar_one_or_none_def simp flip: rows_def split: if_splits)
qed

lemma minted_token_authenticates:
  assumes "jwt_documented jwt_encode jwt_decode" and "supabase_jwt_issuer (au_settings s) = Some LOCAL_JWT_ISSUER"
    and "k < 2 ^ 128" and "now < (au_clock s div 1000000 + expires) * 1000000"
  shows "get_current_user jwt_decode now (au_settings s) (Some (mint_access_token jwt_encode s k email expires)) =
    Inr \<lparr>auser_id = JStr (uuid_str k), auser_email = Some (JStr email)\<rparr>"
proof -
  have iss: "required_jwt_issuer (au_settings s) = Inr LOCAL_JWT_ISSUER"
  proof -
    have "py_strip LOCAL_JWT_ISSUER = LOCAL_JWT_ISSUER" "LOCAL_JWT_ISSUER \<noteq> []" by code_simp+
    then show ?thesis by (simp add: required_jwt_issuer_def assms(2) Let_def)
  qed
  define payload where "payload = [(''sub'', JStr (uuid_str k)), (''email'', JStr email), (''aud'', JStr (supabase_jwt_audience (au_settings s))),
          (''exp'', JInt (au_clock s div 1000000 + expires)), (''role'', JStr ''authenticated''), (''iss'', JStr LOCAL_JWT_ISSUER)]"
  have "jwt_decode now (jwt_encode payload (supabase_jwt_secret (au_settings s)) (supabase_jwt_algorithm (au_settings s)))
      (supabase_jwt_secret (au_settings s)) [supabase_jwt_algorithm (au_settings s)] (supabase_jwt_audience (au_settings s)) LOCAL_JWT_ISSUER
    = Some payload"
    using assms(1,4) unfolding jwt_documented_def by (simp add: payload_def)
  then have "decode_supabase_jwt jwt_decode now (au_settings s) (mint_access_token jwt_encode s k email expires) = Inr payload"
    by (simp add: decode_supabase_jwt_def iss mint_access_token_def payload_def Let_def)
  moreover have "uuid_str k \<noteq> []" by (simp add: uuid_str_def Let_def)
  ultimately show ?thesis
    using uuid_of_str_uuid_str [OF assms(3)] by (simp add: get_current_user_def payload_def)
qed


section \<open>Witnesses\<close>

definition auth_settings_sample :: auth_settings where
  "auth_settings_sample = \<lparr>auth_mode = ''local'', supabase_jwt_secret = ''secret'', supabase_jwt_algorithm = ''HS256'',
     supabase_jwt_audience = ''authenticated'', supabase_jwt_issuer = Some LOCAL_JWT_ISSUER\<rparr>"

definition auth_sample :: auth_db where
  "auth_sample = \<lparr>au_clock = 0, au_next_uuid = 7, au_settings = auth_settings_sample, au_profiles = [], au_credentials = []\<rparr>"

definition disabled_account :: local_auth_credential where
  \<comment> \<open>a hash that no password matches\<close>
  "disabled_account = \<lparr>lac_user_id = 7, lac_email = ''ada@example.org'', lac_password_hash = ''!'',
     lac_failed_attempts = 0, lac_last_failed_at = None, lac_locked_until = None\<rparr>"

type_synonym plain_token = "json_obj \<times> string \<times> string"

definition plain_encode :: "plain_token encoder" where
  "plain_encode payload secret algorithm = (payload, secret, algorithm)"

definition plain_decode :: "plain_token decoder" where
  "plain_decode now token secret algorithms audience issuer =
     (case token of (payload, secret', algorithm) \<Rightarrow>
        if secret' = secret \<and> algorithm \<in> set algorithms \<and> map_of payload ''aud'' = Some (JStr audience)
          \<and> map_of payload ''iss'' = Some (JStr issuer)
          \<and> (case map_of payload ''exp'' of Some (JInt e) \<Rightarrow> now < e * 1000000 | _ \<Rightarrow> False)
        then Some payload else None)"

lemma plain_documented: "jwt_documented plain_encode plain_decode"
  by (simp add: jwt_documented_def plain_encode_def plain_decode_def)


theorem failed_login_does_not_tell_why_witness:
  "result_of (login_route plain_encode ''bob@example.org'' ''some password'') auth_sample =
    Inl (HTTPException 401 ''invalid email or password'')"
proof -
  have local: "auth_mode (au_settings auth_sample) = ''local''" by (simp add: auth_sample_def auth_settings_sample_def)
  have valid: "valid_login ''bob@example.org'' ''some password''" by (simp add: valid_login_def)
  have tables: "unique_emails auth_sample" "sound_hashes auth_sample"
    by (simp_all add: unique_emails_def sound_hashes_def auth_sample_def)
  obtain b where "verify_password ''some password'' TIMING_EQUALIZER_HASH = Inr b" using verify_equalizer by blast
  then have "login plain_encode (normalize_email ''bob@example.org'') ''some password'' auth_sample = (auth_sample, Inl invalid_credentials)"
    by (simp add: login_def find_credential_by_email_def auth_sample_def auth_settings_sample_def)
  then obtain t e where run: "login_route plain_encode ''bob@example.org'' ''some password'' auth_sample = (t, Inl e)"
    by (simp add: login_route_local [OF local valid] invalid_credentials_def)
  from failed_login_does_not_tell_why [OF local tables valid run] show ?thesis by (simp add: run)
qed

definition signup_sample :: signup_in where
  "signup_sample = \<lparr>si_email = '' Ada@Example.org'', si_password = ''correct horse battery'', si_full_name = None\<rparr>"

lemma signup_sample_succeeds:
  "\<exists>t tok. signup_route plain_encode [] signup_sample auth_sample = (t, Inr tok) \<and> tok_user_id tok = 7"
proof -
  obtain h where h: "hash_password [] ''correct horse battery'' = Inr h" using hash_password_ok by blast
  have "valid_signup signup_sample" by code_simp
  with h show ?thesis
    by (simp add: signup_route_def signup_sample_def ensure_local_auth_enabled_def savepoint_def signup_def try_except_def
        find_credential_by_email_def auth_sample_def auth_settings_sample_def MIN_PASSWORD_LENGTH_def Let_def)
qed


end
